(* ===== verification/Prelude.thy ===== *)
theory Prelude
  imports Main "HOL-Library.Finite_Map" "HOL-Library.Word"
begin

text \<open>
  Shared vocabulary of the development.

  \<^item> \<^bold>\<open>Machine types.\<close> A 32-byte node identifier (\<^verbatim>\<open>types.NodeID\<close>), a 24-byte
    message nonce and a 20-byte Ethereum address are compared and used as map keys
    only, so each is the word of its width; the zero array is the word \<open>0\<close>.
  \<^item> \<^bold>\<open>Time.\<close> A \<^verbatim>\<open>time.Time\<close> is the number of nanoseconds since Go's zero time, so
    \<^verbatim>\<open>IsZero\<close> is equality with \<open>0\<close>.  A \<^verbatim>\<open>time.Duration\<close> is its nanosecond
    count; \<^verbatim>\<open>Time.Sub\<close> saturates at the bounds of a signed 64-bit integer.  An
    operation that reads the clock takes the reading as its argument \<open>now\<close>; the
    readings made inside one critical section are taken to be equal.
  \<^item> \<^bold>\<open>Maps.\<close> A Go map is a finite map.  The order of a \<^verbatim>\<open>range\<close> loop over a map is
    unspecified in Go: a loop whose result may depend on the order takes the order as
    an argument, a list that \<^emph>\<open>enumerates\<close> the keys.
  \<^item> \<^bold>\<open>Runs.\<close> The locale \<open>guarded_machine\<close> lifts a one-step invariant to every
    sequence of operations.
\<close>


type_synonym node_id = "256 word"
type_synonym nonce24 = "192 word"
type_synonym address = "160 word"
type_synonym byte = "8 word"
type_synonym time = int
type_synonym duration = int
type_synonym ('k, 'v) gomap = "('k, 'v) fmap"

subsection \<open>Durations and saturating time subtraction\<close>

abbreviation Millisecond :: duration where "Millisecond \<equiv> 1000000"
abbreviation Second :: duration where "Second \<equiv> 1000000000"
abbreviation Minute :: duration where "Minute \<equiv> 60 * Second"
abbreviation Hour :: duration where "Hour \<equiv> 60 * Minute"

abbreviation int64_max :: int where "int64_max \<equiv> 9223372036854775807"
abbreviation int64_min :: int where "int64_min \<equiv> - 9223372036854775808"

definition t_sub :: "time \<Rightarrow> time \<Rightarrow> duration" where
  "t_sub a b = max int64_min (min int64_max (a - b))"

lemma t_sub_gt_iff [simp]:
  "int64_min \<le> d \<Longrightarrow> d < int64_max \<Longrightarrow> t_sub a b > d \<longleftrightarrow> a - b > d"
  by (auto simp: t_sub_def)

lemma t_sub_ge_iff [simp]:
  "int64_min < d \<Longrightarrow> d \<le> int64_max \<Longrightarrow> t_sub a b \<ge> d \<longleftrightarrow> a - b \<ge> d"
  by (auto simp: t_sub_def)

lemma t_sub_less_iff [simp]:
  "int64_min < d \<Longrightarrow> d \<le> int64_max \<Longrightarrow> t_sub a b < d \<longleftrightarrow> a - b < d"
  by (auto simp: t_sub_def)

lemma t_sub_le_iff [simp]:
  "int64_min \<le> d \<Longrightarrow> d < int64_max \<Longrightarrow> t_sub a b \<le> d \<longleftrightarrow> a - b \<le> d"
  by (auto simp: t_sub_def)

subsection \<open>Machine integers\<close>

text \<open>
  The value of a signed 64-bit integer after an operation with exact result \<open>x\<close>, and Go's
  division of integers, which truncates towards zero.
\<close>

definition wrap64 :: "int \<Rightarrow> int" where
  "wrap64 x = sint (word_of_int x :: 64 word)"

definition tdiv :: "int \<Rightarrow> int \<Rightarrow> int" where
  "tdiv a b = sgn a * sgn b * (\<bar>a\<bar> div \<bar>b\<bar>)"

lemma wrap64_id [simp]: "int64_min \<le> x \<Longrightarrow> x \<le> int64_max \<Longrightarrow> wrap64 x = x"
  by (simp add: wrap64_def signed_of_int signed_take_bit_int_eq_self)

lemma wrap64_range: "int64_min \<le> wrap64 x" "wrap64 x \<le> int64_max"
  using sint_ge [of "word_of_int x :: 64 word"] sint_lt [of "word_of_int x :: 64 word"]
  by (simp_all add: wrap64_def)

lemma tdiv_nonneg [simp]: "0 \<le> a \<Longrightarrow> 0 < b \<Longrightarrow> tdiv a b = a div b"
  by (cases "a = 0") (simp_all add: tdiv_def)

subsection \<open>Go maps\<close>

abbreviation mlen :: "('k, 'v) gomap \<Rightarrow> nat" where
  "mlen m \<equiv> fcard (fmdom m)"

definition enumerates :: "'k list \<Rightarrow> ('k, 'v) gomap \<Rightarrow> bool" where
  "enumerates ks m \<longleftrightarrow> distinct ks \<and> fset_of_list ks = fmdom m"

lemma enumerates_set: "enumerates ks m \<Longrightarrow> set ks = fmdom' m"
  by (auto simp: enumerates_def fmdom'_alt_def fset_inject [symmetric] fset_of_list.rep_eq)

lemma enumerates_in:
  "enumerates ks m \<Longrightarrow> k \<in> set ks \<longleftrightarrow> fmlookup m k \<noteq> None"
  by (auto simp: enumerates_set fmlookup_dom'_iff)

lemma enumerates_ex: "\<exists>ks. enumerates ks m"
proof -
  obtain ks where "set ks = fset (fmdom m)" "distinct ks"
    using finite_distinct_list [OF finite_fset] by metis
  then have "enumerates ks m"
    by (simp add: enumerates_def fset_inject [symmetric] fset_of_list.rep_eq)
  then show ?thesis ..
qed

lemma fmlookup_in_dom: "fmlookup m k = Some v \<Longrightarrow> k |\<in>| fmdom m"
  by (rule fmdomI)

lemma mlen_upd:
  "mlen (fmupd k v m) = (if fmlookup m k = None then Suc (mlen m) else mlen m)"
  by (auto simp: fcard_finsert_if fmlookup_dom_iff)

lemma mlen_drop:
  "mlen (fmdrop k m) = (if fmlookup m k = None then mlen m else mlen m - 1)"
  by (cases "fmlookup m k") (auto simp: fmlookup_dom_iff fcard.rep_eq card_Diff_singleton_if)

lemma mlen_empty [simp]: "fcard {||} = 0"
  by (simp add: fcard.rep_eq)

lemma mlen_pos: "fmlookup m k = Some v \<Longrightarrow> 0 < mlen m"
  using fmdomI [of m k v] by (auto simp: fcard.rep_eq card_gt_0_iff)

lemma mlen_drop_le: "mlen (fmdrop k m) \<le> mlen m"
  by (subst mlen_drop) simp

text \<open>How many keys of a map have a given value.\<close>

definition vcount :: "('k, 'v) gomap \<Rightarrow> 'v \<Rightarrow> nat" where
  "vcount m v = card {k. fmlookup m k = Some v}"

lemma finite_vset [simp]: "finite {k. fmlookup m k = Some v}"
  by (rule finite_subset [of _ "fmdom' m"]) (auto simp: fmlookup_dom'_iff)

lemma vcount_empty [simp]: "vcount fmempty v = 0"
  by (simp add: vcount_def)

lemma vcount_drop:
  "vcount (fmdrop k m) v = (if fmlookup m k = Some v then vcount m v - 1 else vcount m v)"
proof -
  have "{j. fmlookup (fmdrop k m) j = Some v} = {j. fmlookup m j = Some v} - {k}"
    by auto
  then show ?thesis by (simp add: vcount_def card_Diff_singleton_if)
qed

lemma vcount_pos: "fmlookup m k = Some v \<Longrightarrow> 0 < vcount m v"
  by (auto simp: vcount_def card_gt_0_iff)

lemma vcount_upd_new:
  assumes "fmlookup m k = None"
  shows "vcount (fmupd k v m) w = vcount m w + (if v = w then 1 else 0)"
proof -
  have "{j. fmlookup (fmupd k v m) j = Some w} =
        {j. fmlookup m j = Some w} \<union> (if v = w then {k} else {})"
    using assms by auto
  then show ?thesis using assms by (simp add: vcount_def)
qed

lemma vcount_upd:
  "vcount (fmupd k v m) w = vcount (fmdrop k m) w + (if v = w then 1 else 0)"
proof -
  have "fmupd k v m = fmupd k v (fmdrop k m)" by (rule fmap_ext) simp
  then show ?thesis using vcount_upd_new [of "fmdrop k m" k v w] by simp
qed

subsection \<open>Strings\<close>

text \<open>The functions of Go's \<^verbatim>\<open>strings\<close> package that several components call.\<close>

definition has_prefix :: "string \<Rightarrow> string \<Rightarrow> bool" where
  "has_prefix s p \<longleftrightarrow> take (length p) s = p"

definition trim_prefix :: "string \<Rightarrow> string \<Rightarrow> string" where
  "trim_prefix s p = (if has_prefix s p then drop (length p) s else s)"

lemma has_prefix_append [simp]: "has_prefix (p @ s) p"
  by (simp add: has_prefix_def)

lemma has_prefixE: "has_prefix s p \<Longrightarrow> \<exists>r. s = p @ r"
  by (metis append_take_drop_id has_prefix_def)

lemma trim_prefix_append [simp]: "trim_prefix (p @ s) p = s"
  by (simp add: trim_prefix_def)

subsection \<open>Runs of operations\<close>

text \<open>Every operation of the run satisfies its guard in the state it is applied to.\<close>

fun run_ok :: "('op \<Rightarrow> 's \<Rightarrow> 's) \<Rightarrow> ('op \<Rightarrow> 's \<Rightarrow> bool) \<Rightarrow> 'op list \<Rightarrow> 's \<Rightarrow> bool" where
  "run_ok step ok [] s \<longleftrightarrow> True"
| "run_ok step ok (op # ops) s \<longleftrightarrow> ok op s \<and> run_ok step ok ops (step op s)"

lemma run_ok_True [simp]: "run_ok step (\<lambda>_ _. True) ops s"
  by (induction ops arbitrary: s) auto

lemma run_ok_op [simp]: "run_ok step (\<lambda>op _. P op) ops s \<longleftrightarrow> list_all P ops"
  by (induction ops arbitrary: s) auto

locale guarded_machine =
  fixes step :: "'op \<Rightarrow> 's \<Rightarrow> 's"
    and ok :: "'op \<Rightarrow> 's \<Rightarrow> bool"
    and inv :: "'s \<Rightarrow> bool"
  assumes step_inv: "inv s \<Longrightarrow> ok op s \<Longrightarrow> inv (step op s)"
begin

lemma run_inv: "inv s \<Longrightarrow> run_ok step ok ops s \<Longrightarrow> inv (fold step ops s)"
  by (induction ops arbitrary: s) (auto simp: step_inv)

end

end
