(* ===== verification/Nonce_Tracker.thy ===== *)
theory Nonce_Tracker
  imports Prelude
begin

text \<open>
  Replay protection of the peer-to-peer layer
  (\<^verbatim>\<open>src/internal/p2p/nonce_tracker.go\<close>): the tracker's record, its constructors,
  \<^verbatim>\<open>Check\<close> with its four rejections, \<^verbatim>\<open>CleanExpired\<close> and \<^verbatim>\<open>Len\<close>.  The main
  result is that a message that was accepted once is rejected ever after, whatever
  checks and clean-ups happen in between.
\<close>

definition DefaultMaxMessageAge :: duration where
  "DefaultMaxMessageAge = 5 * Minute"

definition DefaultMaxFutureSkew :: duration where
  "DefaultMaxFutureSkew = 30 * Second"

definition DefaultNonceWindow :: duration where
  "DefaultNonceWindow = 10 * Minute"

record NonceTracker =
  nt_seen :: "(nonce24, time) gomap"
  nt_maxAge :: duration
  nt_futureSkew :: duration
  nt_nonceWindow :: duration

definition NewNonceTracker :: NonceTracker where
  "NewNonceTracker =
     \<lparr> nt_seen = fmempty, nt_maxAge = DefaultMaxMessageAge,
       nt_futureSkew = DefaultMaxFutureSkew, nt_nonceWindow = DefaultNonceWindow \<rparr>"

definition NewNonceTrackerWithConfig :: "duration \<Rightarrow> duration \<Rightarrow> duration \<Rightarrow> NonceTracker" where
  "NewNonceTrackerWithConfig maxAge futureSkew nonceWindow =
     \<lparr> nt_seen = fmempty, nt_maxAge = maxAge,
       nt_futureSkew = futureSkew, nt_nonceWindow = nonceWindow \<rparr>"

datatype nonce_error = ZeroNonce | MessageTooOld | MessageInFuture | DuplicateNonce

definition NonceTracker_Check ::
    "time \<Rightarrow> nonce24 \<Rightarrow> time \<Rightarrow> NonceTracker \<Rightarrow> nonce_error option \<times> NonceTracker" where
  "NonceTracker_Check now nonce timestamp nt =
     (if nonce = 0 then (Some ZeroNonce, nt)
      else if t_sub now timestamp > nt_maxAge nt then (Some MessageTooOld, nt)
      else if t_sub timestamp now > nt_futureSkew nt then (Some MessageInFuture, nt)
      else if fmlookup (nt_seen nt) nonce \<noteq> None then (Some DuplicateNonce, nt)
      else (None, nt\<lparr>nt_seen := fmupd nonce now (nt_seen nt)\<rparr>))"

definition NonceTracker_CleanExpired :: "time \<Rightarrow> NonceTracker \<Rightarrow> NonceTracker" where
  "NonceTracker_CleanExpired now nt =
     (let cutoff = now - nt_nonceWindow nt;
          keep = (\<lambda>nonce. case fmlookup (nt_seen nt) nonce of
                    Some seenAt \<Rightarrow> \<not> seenAt < cutoff | None \<Rightarrow> False)
      in nt\<lparr>nt_seen := fmfilter keep (nt_seen nt)\<rparr>)"

definition NonceTracker_Len :: "NonceTracker \<Rightarrow> nat" where
  "NonceTracker_Len nt = mlen (nt_seen nt)"

text \<open>A call on the tracker, with the clock reading it makes.\<close>

datatype nt_op = NTCheck time nonce24 time | NTClean time

fun nt_op_time :: "nt_op \<Rightarrow> time" where
  "nt_op_time (NTCheck now _ _) = now"
| "nt_op_time (NTClean now) = now"

fun nt_step :: "nt_op \<Rightarrow> NonceTracker \<Rightarrow> NonceTracker" where
  "nt_step (NTCheck now n ts) nt = snd (NonceTracker_Check now n ts nt)"
| "nt_step (NTClean now) nt = NonceTracker_CleanExpired now nt"

text \<open>
  The configuration under which a nonce is remembered for as long as a message
  carrying it can still pass the age check, with the age bounds inside the range of a
  \<^verbatim>\<open>time.Duration\<close>.
\<close>

definition nt_config_ok :: "NonceTracker \<Rightarrow> bool" where
  "nt_config_ok nt \<longleftrightarrow>
     0 \<le> nt_maxAge nt \<and> nt_maxAge nt < int64_max \<and>
     0 \<le> nt_futureSkew nt \<and> nt_futureSkew nt < int64_max \<and>
     nt_maxAge nt + nt_futureSkew nt \<le> nt_nonceWindow nt"

lemmas nt_const_defs =
  DefaultMaxMessageAge_def DefaultMaxFutureSkew_def DefaultNonceWindow_def

lemma nt_config_ok_New [simp]: "nt_config_ok NewNonceTracker"
  by (simp add: nt_config_ok_def NewNonceTracker_def nt_const_defs)

lemma nt_step_config [simp]:
  "nt_maxAge (nt_step op nt) = nt_maxAge nt"
  "nt_futureSkew (nt_step op nt) = nt_futureSkew nt"
  "nt_nonceWindow (nt_step op nt) = nt_nonceWindow nt"
  by (cases op; simp add: NonceTracker_Check_def NonceTracker_CleanExpired_def)+

lemma nt_step_config_ok [simp]: "nt_config_ok (nt_step op nt) = nt_config_ok nt"
  by (simp add: nt_config_ok_def)

lemma nt_run_config [simp]:
  "nt_maxAge (fold nt_step ops nt) = nt_maxAge nt"
  "nt_futureSkew (fold nt_step ops nt) = nt_futureSkew nt"
  "nt_nonceWindow (fold nt_step ops nt) = nt_nonceWindow nt"
  by (induction ops arbitrary: nt) simp_all

lemma nt_run_config_ok [simp]: "nt_config_ok (fold nt_step ops nt) = nt_config_ok nt"
  by (simp add: nt_config_ok_def)

lemma Check_accepts_iff:
  assumes "nt_config_ok nt"
  shows "fst (NonceTracker_Check now n ts nt) = None \<longleftrightarrow>
         n \<noteq> 0 \<and> now - nt_maxAge nt \<le> ts \<and> ts \<le> now + nt_futureSkew nt \<and>
         fmlookup (nt_seen nt) n = None"
  using assms by (auto simp: NonceTracker_Check_def nt_config_ok_def)

lemma Check_accepts_records:
  "fst (NonceTracker_Check now n ts nt) = None \<Longrightarrow>
   nt_seen (snd (NonceTracker_Check now n ts nt)) = fmupd n now (nt_seen nt)"
  by (simp add: NonceTracker_Check_def split: if_splits)

lemma Check_keeps_seen:
  "fmlookup (nt_seen nt) n = Some t \<Longrightarrow>
   fmlookup (nt_seen (snd (NonceTracker_Check now m ts nt))) n = Some t"
  by (auto simp: NonceTracker_Check_def)

lemma lookup_CleanExpired:
  "fmlookup (nt_seen (NonceTracker_CleanExpired now nt)) n =
     (case fmlookup (nt_seen nt) n of
        None \<Rightarrow> None
      | Some t \<Rightarrow> if t < now - nt_nonceWindow nt then None else Some t)"
  by (simp add: NonceTracker_CleanExpired_def Let_def split: option.splits)

text \<open>
  While the clock does not run backwards, a nonce recorded at \<open>t\<^sub>1\<close> either is still
  recorded or its retention window has passed.
\<close>

lemma nt_step_remembers:
  assumes "fmlookup (nt_seen nt) n = Some t"
  shows "fmlookup (nt_seen (nt_step op nt)) n = Some t \<or>
         t + nt_nonceWindow nt < nt_op_time op"
proof (cases op)
  case (NTCheck now m ts)
  then show ?thesis using assms by (simp add: Check_keeps_seen)
next
  case (NTClean now)
  then show ?thesis using assms by (simp add: lookup_CleanExpired)
qed

lemma nt_run_remembers:
  assumes "fmlookup (nt_seen nt) n = Some t"
  shows "fmlookup (nt_seen (fold nt_step ops nt)) n = Some t \<or>
         (\<exists>op \<in> set ops. t + nt_nonceWindow nt < nt_op_time op)"
  using assms
proof (induction ops arbitrary: nt)
  case (Cons op ops)
  then show ?case
    using nt_step_remembers [of nt n t op] Cons.IH [of "nt_step op nt"] by auto
qed simp

lemma nt_no_replay:
  assumes "nt_config_ok nt"
    and "fst (NonceTracker_Check t\<^sub>1 n ts nt) = None"
    and "sorted (map nt_op_time ops @ [t\<^sub>2])"
  shows "fst (NonceTracker_Check t\<^sub>2 n ts
           (fold nt_step ops (snd (NonceTracker_Check t\<^sub>1 n ts nt)))) \<noteq> None"
proof -
  let ?nt\<^sub>1 = "nt_step (NTCheck t\<^sub>1 n ts) nt"
  let ?nt\<^sub>2 = "fold nt_step ops ?nt\<^sub>1"
  have "fmlookup (nt_seen ?nt\<^sub>1) n = Some t\<^sub>1"
    using assms(2) by (simp add: Check_accepts_records)
  from nt_run_remembers [OF this, of ops]
  consider "fmlookup (nt_seen ?nt\<^sub>2) n = Some t\<^sub>1"
    | op where "op \<in> set ops" "t\<^sub>1 + nt_nonceWindow nt < nt_op_time op"
    by (auto simp del: nt_step.simps)
  then have "fst (NonceTracker_Check t\<^sub>2 n ts ?nt\<^sub>2) \<noteq> None"
  proof cases
    case 1
    then show ?thesis
      using assms(1) by (subst Check_accepts_iff) (simp_all del: nt_step.simps)
  next
    case 2
    then have "t\<^sub>1 + nt_nonceWindow nt < t\<^sub>2"
      using assms(3) by (fastforce simp: sorted_append)
    moreover have "ts \<le> t\<^sub>1 + nt_futureSkew nt"
      using assms by (simp add: Check_accepts_iff)
    ultimately show ?thesis
      using assms(1) by (subst Check_accepts_iff)
        (auto simp: nt_config_ok_def simp del: nt_step.simps)
  qed
  then show ?thesis by simp
qed

end
