(* ===== verification/Ban_List.thy ===== *)
theory Ban_List
  imports Prelude
begin

text \<open>
  Time-bounded bans (\<^verbatim>\<open>src/internal/p2p/banlist.go\<close>).  The locale
  \<open>expiring_deny_list\<close> is the contract the message router and the peer scorer rely on;
  the ban list is its interpretation, with a ban of duration \<open>0\<close> (or less) permanent.
  The file layer of \<^verbatim>\<open>Save\<close> and \<^verbatim>\<open>Load\<close> is represented by the list of entries that is
  written and read.
\<close>

record BanEntry =
  be_PeerID :: node_id
  be_Reason :: string
  be_BannedAt :: time
  be_ExpiresAt :: time

definition BanEntry_IsPermanent :: "BanEntry \<Rightarrow> bool" where
  "BanEntry_IsPermanent e \<longleftrightarrow> be_ExpiresAt e = 0"

definition BanEntry_IsExpired :: "time \<Rightarrow> BanEntry \<Rightarrow> bool" where
  "BanEntry_IsExpired now e =
     (if BanEntry_IsPermanent e then False else now > be_ExpiresAt e)"

record BanList =
  bl_entries :: "(node_id, BanEntry) gomap"

definition NewBanList :: BanList where
  "NewBanList = \<lparr> bl_entries = fmempty \<rparr>"

definition BanList_Ban :: "time \<Rightarrow> node_id \<Rightarrow> string \<Rightarrow> duration \<Rightarrow> BanList \<Rightarrow> BanList" where
  "BanList_Ban now peerID reason d bl =
     (let entry = \<lparr> be_PeerID = peerID, be_Reason = reason, be_BannedAt = now,
                    be_ExpiresAt = (if d > 0 then now + d else 0) \<rparr>
      in bl\<lparr>bl_entries := fmupd peerID entry (bl_entries bl)\<rparr>)"

definition BanList_Unban :: "node_id \<Rightarrow> BanList \<Rightarrow> BanList" where
  "BanList_Unban peerID bl =
     (if fmlookup (bl_entries bl) peerID \<noteq> None
      then bl\<lparr>bl_entries := fmdrop peerID (bl_entries bl)\<rparr> else bl)"

definition BanList_IsBanned :: "time \<Rightarrow> node_id \<Rightarrow> BanList \<Rightarrow> bool" where
  "BanList_IsBanned now peerID bl =
     (case fmlookup (bl_entries bl) peerID of
        None \<Rightarrow> False
      | Some entry \<Rightarrow> if BanEntry_IsExpired now entry then False else True)"

definition BanList_CleanExpired :: "time \<Rightarrow> BanList \<Rightarrow> BanList" where
  "BanList_CleanExpired now bl =
     bl\<lparr>bl_entries := fmfilter
          (\<lambda>id. case fmlookup (bl_entries bl) id of
                  Some entry \<Rightarrow> \<not> BanEntry_IsExpired now entry | None \<Rightarrow> False)
          (bl_entries bl)\<rparr>"

text \<open>\<open>ids\<close> is the order in which the \<^verbatim>\<open>range\<close> loop visits the entries.\<close>

definition BanList_List :: "time \<Rightarrow> node_id list \<Rightarrow> BanList \<Rightarrow> BanEntry list" where
  "BanList_List now ids bl =
     filter (\<lambda>entry. \<not> BanEntry_IsExpired now entry)
       (List.map_filter (fmlookup (bl_entries bl)) ids)"

definition BanList_Len :: "time \<Rightarrow> node_id list \<Rightarrow> BanList \<Rightarrow> nat" where
  "BanList_Len now ids bl =
     fold (\<lambda>entry count. if \<not> BanEntry_IsExpired now entry then count + 1 else count)
       (List.map_filter (fmlookup (bl_entries bl)) ids) 0"

definition BanList_Save_entries :: "node_id list \<Rightarrow> BanList \<Rightarrow> BanEntry list" where
  "BanList_Save_entries ids bl = List.map_filter (fmlookup (bl_entries bl)) ids"

definition BanList_Load_entries :: "BanEntry list \<Rightarrow> BanList \<Rightarrow> BanList" where
  "BanList_Load_entries entries bl =
     bl\<lparr>bl_entries := fold (\<lambda>entry m. fmupd (be_PeerID entry) entry m) entries fmempty\<rparr>"

text \<open>Every entry is filed under the peer it names.\<close>

definition BanList_inv :: "BanList \<Rightarrow> bool" where
  "BanList_inv bl \<longleftrightarrow> fmpred (\<lambda>id e. be_PeerID e = id) (bl_entries bl)"

subsection \<open>The contract of a deny list whose entries expire\<close>

datatype 'k deny_op = Deny time 'k string duration | Lift 'k | Sweep time

fun deny_key :: "'k deny_op \<Rightarrow> 'k option" where
  "deny_key (Deny _ k _ _) = Some k"
| "deny_key (Lift k) = Some k"
| "deny_key (Sweep _) = None"

fun deny_time :: "'k deny_op \<Rightarrow> time option" where
  "deny_time (Sweep t) = Some t"
| "deny_time _ = None"

locale expiring_deny_list =
  fixes deny :: "time \<Rightarrow> 'k \<Rightarrow> string \<Rightarrow> duration \<Rightarrow> 's \<Rightarrow> 's"
    and lift :: "'k \<Rightarrow> 's \<Rightarrow> 's"
    and sweep :: "time \<Rightarrow> 's \<Rightarrow> 's"
    and denied :: "time \<Rightarrow> 'k \<Rightarrow> 's \<Rightarrow> bool"
  assumes denied_deny:
      "0 < t \<Longrightarrow> denied u k (deny t k r d s) \<longleftrightarrow> d \<le> 0 \<or> u \<le> t + d"
    and denied_deny_other: "k' \<noteq> k \<Longrightarrow> denied u k' (deny t k r d s) = denied u k' s"
    and denied_lift: "\<not> denied u k (lift k s)"
    and denied_lift_other: "k' \<noteq> k \<Longrightarrow> denied u k' (lift k s) = denied u k' s"
    and denied_sweep: "t \<le> u \<Longrightarrow> denied u k (sweep t s) = denied u k s"
begin

fun deny_step :: "'k deny_op \<Rightarrow> 's \<Rightarrow> 's" where
  "deny_step (Deny t k r d) s = deny t k r d s"
| "deny_step (Lift k) s = lift k s"
| "deny_step (Sweep t) s = sweep t s"

lemma deny_step_other:
  "deny_key op \<noteq> Some k \<Longrightarrow> pred_option (\<lambda>t. t \<le> u) (deny_time op) \<Longrightarrow>
   denied u k (deny_step op s) = denied u k s"
  by (cases op) (auto simp: denied_deny_other denied_lift_other denied_sweep)

lemma deny_run_other:
  "list_all (\<lambda>op. deny_key op \<noteq> Some k \<and> pred_option (\<lambda>t. t \<le> u) (deny_time op)) ops \<Longrightarrow>
   denied u k (fold deny_step ops s) = denied u k s"
  by (induction ops arbitrary: s) (auto simp: deny_step_other)

lemma deny_until_expiry:
  assumes "0 < t"
    and "list_all (\<lambda>op. deny_key op \<noteq> Some k \<and> pred_option (\<lambda>t. t \<le> u) (deny_time op)) ops"
  shows "denied u k (fold deny_step ops (deny t k r d s)) \<longleftrightarrow> d \<le> 0 \<or> u \<le> t + d"
  using assms by (simp add: deny_run_other denied_deny)

end

subsection \<open>The ban list implements the contract\<close>

lemma IsBanned_alt:
  "BanList_IsBanned now p bl \<longleftrightarrow>
     (\<exists>e. fmlookup (bl_entries bl) p = Some e \<and> (be_ExpiresAt e = 0 \<or> now \<le> be_ExpiresAt e))"
  by (auto simp: BanList_IsBanned_def BanEntry_IsExpired_def BanEntry_IsPermanent_def
      split: option.splits)

interpretation bans:
  expiring_deny_list BanList_Ban BanList_Unban BanList_CleanExpired BanList_IsBanned
proof unfold_locales
  fix t u :: time and k :: node_id and r :: string and d :: duration and s :: BanList
  show "0 < t \<Longrightarrow> BanList_IsBanned u k (BanList_Ban t k r d s) \<longleftrightarrow> d \<le> 0 \<or> u \<le> t + d"
    by (auto simp: IsBanned_alt BanList_Ban_def)
  show "k' \<noteq> k \<Longrightarrow> BanList_IsBanned u k' (BanList_Ban t k r d s) = BanList_IsBanned u k' s" for k'
    by (simp add: IsBanned_alt BanList_Ban_def)
  show "\<not> BanList_IsBanned u k (BanList_Unban k s)"
    by (simp add: IsBanned_alt BanList_Unban_def)
  show "k' \<noteq> k \<Longrightarrow> BanList_IsBanned u k' (BanList_Unban k s) = BanList_IsBanned u k' s" for k'
    by (simp add: IsBanned_alt BanList_Unban_def)
  show "t \<le> u \<Longrightarrow> BanList_IsBanned u k (BanList_CleanExpired t s) = BanList_IsBanned u k s"
    by (auto simp: IsBanned_alt BanList_CleanExpired_def BanEntry_IsExpired_def
        BanEntry_IsPermanent_def split: option.splits)
qed

lemma BanList_inv_New [simp]: "BanList_inv NewBanList"
  by (simp add: BanList_inv_def NewBanList_def)

lemma BanList_inv_Ban [intro]: "BanList_inv bl \<Longrightarrow> BanList_inv (BanList_Ban now p r d bl)"
  by (auto simp: BanList_inv_def BanList_Ban_def intro!: fmpred_upd)

lemma BanList_inv_Unban [intro]: "BanList_inv bl \<Longrightarrow> BanList_inv (BanList_Unban p bl)"
  by (auto simp: BanList_inv_def BanList_Unban_def intro: fmpred_drop)

lemma BanList_inv_CleanExpired [intro]: "BanList_inv bl \<Longrightarrow> BanList_inv (BanList_CleanExpired now bl)"
  by (auto simp: BanList_inv_def BanList_CleanExpired_def intro: fmpred_filter)

interpretation ban_runs:
  guarded_machine bans.deny_step "\<lambda>_ _. True" BanList_inv
proof
  fix s op
  assume "BanList_inv s"
  then show "BanList_inv (bans.deny_step op s)" by (cases op) auto
qed

subsection \<open>Listing, counting and reloading\<close>

lemma BanList_Len_List: "BanList_Len now ids bl = length (BanList_List now ids bl)"
proof -
  have "fold (\<lambda>e c. if \<not> BanEntry_IsExpired now e then c + 1 else c) es n =
        n + length (filter (\<lambda>e. \<not> BanEntry_IsExpired now e) es)" for es n
    by (induction es arbitrary: n) auto
  then show ?thesis by (simp add: BanList_Len_def BanList_List_def)
qed

lemma fold_fmupd_lookup:
  "fmlookup (fold (\<lambda>e m. fmupd (f e) e m) es m) k =
     (case List.find (\<lambda>e. f e = k) (rev es) of Some e \<Rightarrow> Some e | None \<Rightarrow> fmlookup m k)"
  by (induction es rule: rev_induct) (auto split: option.splits)

lemma find_map_filter:
  assumes "\<And>x e. g x = Some e \<Longrightarrow> f e = x"
  shows "List.find (\<lambda>e. f e = k) (rev (List.map_filter g ks)) = (if k \<in> set ks then g k else None)"
proof (induction ks)
  case (Cons x ks)
  have app: "List.find P (xs @ ys) =
      (case List.find P xs of Some e \<Rightarrow> Some e | None \<Rightarrow> List.find P ys)" for P xs ys
    by (induction xs) auto
  show ?case using Cons assms
    by (cases "g x") (auto simp: List.map_filter_def app split: option.splits)
qed (simp add: List.map_filter_def)

lemma Load_Save_entries:
  assumes "BanList_inv bl" "enumerates ids (bl_entries bl)"
  shows "BanList_Load_entries (BanList_Save_entries ids bl) bl' = bl'\<lparr>bl_entries := bl_entries bl\<rparr>"
proof -
  have "fmlookup (fold (\<lambda>e m. fmupd (be_PeerID e) e m)
          (BanList_Save_entries ids bl) fmempty) k = fmlookup (bl_entries bl) k" for k
    unfolding fold_fmupd_lookup BanList_Save_entries_def
    using assms
    by (subst find_map_filter)
       (auto simp: BanList_inv_def enumerates_in fmpred_iff split: option.splits)
  then show ?thesis by (simp add: BanList_Load_entries_def fmap_ext)
qed

subsection \<open>Properties\<close>

text \<open>Once a peer is banned for a duration, it is reported banned exactly until the ban's
  expiry (always, for a permanent ban), whatever bans of other peers, lifts of other peers'
  bans and sweeps are executed in between.\<close>

theorem ban_lasts_until_expiry:
  assumes "0 < t"
    and "list_all (\<lambda>op. deny_key op \<noteq> Some p \<and> pred_option (\<lambda>t. t \<le> u) (deny_time op)) ops"
  shows "BanList_IsBanned u p (fold bans.deny_step ops (BanList_Ban t p r d bl)) \<longleftrightarrow> d \<le> 0 \<or> u \<le> t + d"
  using assms by (rule bans.deny_until_expiry)

theorem ban_lasts_until_expiry_witness:
  "BanList_IsBanned 150 7 (fold bans.deny_step [Sweep 120, Deny 130 8 ''spam'' 5, Lift 9, Sweep 149]
     (BanList_Ban 100 7 ''spam'' 50 NewBanList))"
  using ban_lasts_until_expiry [of 100 7 150 "[Sweep 120, Deny 130 8 ''spam'' 5, Lift 9, Sweep 149]"
      "''spam''" 50 NewBanList]
  by simp

text \<open>After any sequence of bans, lifts and sweeps on a new ban list, loading the entries
  that saving writes, in whatever order the map is traversed, restores every entry.\<close>

theorem ban_list_reload:
  assumes "enumerates ids (bl_entries (fold bans.deny_step ops NewBanList))"
  shows "BanList_Load_entries (BanList_Save_entries ids (fold bans.deny_step ops NewBanList)) NewBanList
         = fold bans.deny_step ops NewBanList"
  using Load_Save_entries [OF ban_runs.run_inv assms, of NewBanList] by simp

theorem ban_list_reload_witness:
  "BanList_Load_entries (BanList_Save_entries [8, 7] (fold bans.deny_step
     [Deny 100 7 ''spam'' 50, Deny 130 8 ''spam'' 5] NewBanList)) NewBanList
   = fold bans.deny_step [Deny 100 7 ''spam'' 50, Deny 130 8 ''spam'' 5] NewBanList"
  using ban_list_reload [of "[8, 7]" "[Deny 100 7 ''spam'' 50, Deny 130 8 ''spam'' 5]"]
  by (simp add: enumerates_def BanList_Ban_def NewBanList_def finsert_commute)

end
