(* ===== verification/Go_Net.thy ===== *)
theory Go_Net
  imports Prelude
begin

text \<open>
  The part of Go's \<^verbatim>\<open>net\<close> and \<^verbatim>\<open>net/netip\<close> packages the peer-to-peer layer uses to
  read remote addresses: \<^verbatim>\<open>SplitHostPort\<close>, \<^verbatim>\<open>ParseIP\<close> (dotted IPv4, and IPv6 with
  ellipsis and embedded IPv4), \<^verbatim>\<open>IP.To4\<close>, \<^verbatim>\<open>IP.String\<close>, \<^verbatim>\<open>IsLoopback\<close> and
  \<^verbatim>\<open>IPNet.Contains\<close>.  An \<^verbatim>\<open>net.IP\<close> as returned by \<^verbatim>\<open>ParseIP\<close> is its 16 bytes, an
  IPv4 address being in the mapped form.  The facts other theories use are that a dotted
  quad is parsed to the address it denotes and that a \<^verbatim>\<open>host:port\<close> pair is split back.
\<close>

type_synonym ip = "nat list"

subsection \<open>Printing numbers\<close>

definition digit_char :: "nat \<Rightarrow> char" where
  "digit_char d = char_of (d + (if d < 10 then 48 else 87))"

fun print_base :: "nat \<Rightarrow> nat \<Rightarrow> string" where
  "print_base b n =
     (if b < 2 \<or> n < b then [digit_char n]
      else print_base b (n div b) @ [digit_char (n mod b)])"

declare print_base.simps [simp del]

abbreviation print_dec :: "nat \<Rightarrow> string" where "print_dec \<equiv> print_base 10"
abbreviation print_hex :: "nat \<Rightarrow> string" where "print_hex \<equiv> print_base 16"

definition is_digit :: "char \<Rightarrow> bool" where
  "is_digit c \<longleftrightarrow> 48 \<le> (of_char c :: nat) \<and> (of_char c :: nat) \<le> 57"

definition digit_val :: "char \<Rightarrow> nat" where
  "digit_val c = of_char c - 48"

definition hex_val :: "char \<Rightarrow> nat option" where
  "hex_val c =
     (let n = (of_char c :: nat) in
      if 48 \<le> n \<and> n \<le> 57 then Some (n - 48)
      else if 97 \<le> n \<and> n \<le> 102 then Some (n - 87)
      else if 65 \<le> n \<and> n \<le> 70 then Some (n - 55)
      else None)"

subsection \<open>Splitting host and port\<close>

fun index_byte :: "char \<Rightarrow> string \<Rightarrow> nat option" where
  "index_byte c [] = None"
| "index_byte c (x # xs) = (if x = c then Some 0 else map_option Suc (index_byte c xs))"

fun last_index_byte :: "char \<Rightarrow> string \<Rightarrow> nat option" where
  "last_index_byte c [] = None"
| "last_index_byte c (x # xs) =
     (case last_index_byte c xs of
        Some i \<Rightarrow> Some (Suc i)
      | None \<Rightarrow> if x = c then Some 0 else None)"

definition SplitHostPort :: "string \<Rightarrow> (string \<times> string) option" where
  "SplitHostPort hostport =
     (case last_index_byte CHR '':'' hostport of
        None \<Rightarrow> None
      | Some i \<Rightarrow>
          if hostport ! 0 = CHR ''['' then
            (case index_byte CHR '']'' hostport of
               None \<Rightarrow> None
             | Some e \<Rightarrow>
                 if e + 1 = i then
                   if index_byte CHR ''['' (drop 1 hostport) \<noteq> None then None
                   else if index_byte CHR '']'' (drop (e + 1) hostport) \<noteq> None then None
                   else Some (take (e - 1) (drop 1 hostport), drop (i + 1) hostport)
                 else None)
          else
            let host = take i hostport in
            if index_byte CHR '':'' host \<noteq> None then None
            else if index_byte CHR ''['' hostport \<noteq> None then None
            else if index_byte CHR '']'' hostport \<noteq> None then None
            else Some (host, drop (i + 1) hostport))"

subsection \<open>Parsing addresses\<close>

text \<open>
  \<^verbatim>\<open>parseIPv4Fields\<close>: \<open>val\<close>, \<open>digLen\<close> are the value and the number of digits of the
  current octet, \<open>fields\<close> the octets already closed by a dot, \<open>prev\<close> the preceding
  character.
\<close>

fun parseIPv4_loop ::
    "char option \<Rightarrow> nat \<Rightarrow> nat \<Rightarrow> nat list \<Rightarrow> string \<Rightarrow> nat list option" where
  "parseIPv4_loop prev val digLen fields [] =
     (if length fields < 3 then None else Some (fields @ [val]))"
| "parseIPv4_loop prev val digLen fields (c # cs) =
     (if is_digit c then
        if digLen = 1 \<and> val = 0 then None
        else let val' = val * 10 + digit_val c in
          if val' > 255 then None
          else parseIPv4_loop (Some c) val' (digLen + 1) fields cs
      else if c = CHR ''.'' then
        if prev = None \<or> cs = [] \<or> prev = Some CHR ''.'' then None
        else if length fields = 3 then None
        else parseIPv4_loop (Some c) 0 0 (fields @ [val]) cs
      else None)"

definition parseIPv4Fields :: "string \<Rightarrow> nat list option" where
  "parseIPv4Fields s = parseIPv4_loop None 0 0 [] s"

definition v4_mapped :: "nat list \<Rightarrow> ip" where
  "v4_mapped q = replicate 10 0 @ [255, 255] @ q"

text \<open>The hexadecimal group at the front of the text: its value, its length and the rest.\<close>

fun hex_group :: "nat \<Rightarrow> nat \<Rightarrow> string \<Rightarrow> (nat \<times> nat \<times> string) option" where
  "hex_group off acc [] = Some (acc, off, [])"
| "hex_group off acc (c # cs) =
     (case hex_val c of
        None \<Rightarrow> Some (acc, off, c # cs)
      | Some v \<Rightarrow>
          if off > 3 then None
          else if acc * 16 + v > 65535 then None
          else hex_group (off + 1) (acc * 16 + v) cs)"

text \<open>
  The group loop of \<^verbatim>\<open>parseIPv6\<close>: \<open>out\<close> are the bytes written so far, so \<open>length out\<close>
  is the source's \<open>i\<close>.  The first argument bounds the rounds; eight suffice because
  every round writes two bytes or ends the loop.
\<close>

fun parseIPv6_loop ::
    "nat \<Rightarrow> nat list \<Rightarrow> nat option \<Rightarrow> string \<Rightarrow> (nat list \<times> nat option \<times> string) option" where
  "parseIPv6_loop 0 out ellipsis s = Some (out, ellipsis, s)"
| "parseIPv6_loop (Suc k) out ellipsis s =
     (case hex_group 0 0 s of
        None \<Rightarrow> None
      | Some (acc, off, r) \<Rightarrow>
          if off = 0 then None
          else if r \<noteq> [] \<and> hd r = CHR ''.'' then
            if ellipsis = None \<and> length out \<noteq> 12 then None
            else if length out + 4 > 16 then None
            else (case parseIPv4Fields s of
                    None \<Rightarrow> None
                  | Some q \<Rightarrow> Some (out @ q, ellipsis, []))
          else
            let out' = out @ [acc div 256, acc mod 256] in
            if r = [] then Some (out', ellipsis, [])
            else if hd r \<noteq> CHR '':'' then None
            else if length r = 1 then None
            else let s' = tl r in
              if hd s' = CHR '':'' then
                if ellipsis \<noteq> None then None
                else if tl s' = [] then Some (out', Some (length out'), [])
                else parseIPv6_loop k out' (Some (length out')) (tl s')
              else parseIPv6_loop k out' ellipsis s')"

definition expand_ellipsis :: "nat list \<Rightarrow> nat option \<Rightarrow> nat list option" where
  "expand_ellipsis out ellipsis =
     (if length out < 16 then
        (case ellipsis of
           None \<Rightarrow> None
         | Some e \<Rightarrow> Some (take e out @ replicate (16 - length out) 0 @ drop e out))
      else if ellipsis \<noteq> None then None else Some out)"

text \<open>
  \<^verbatim>\<open>net.ParseIP\<close> rejects an address with a zone, so a text with a per cent sign in
  the IPv6 case has no value.
\<close>

definition parseIPv6 :: "string \<Rightarrow> ip option" where
  "parseIPv6 s =
     (if CHR ''%'' \<in> set s then None
      else
        let (ellipsis, s') =
          (if length s \<ge> 2 \<and> s ! 0 = CHR '':'' \<and> s ! 1 = CHR '':''
           then (Some 0, drop 2 s) else (None, s))
        in if ellipsis \<noteq> None \<and> s' = [] then Some (replicate 16 0)
           else (case parseIPv6_loop 8 [] ellipsis s' of
                   None \<Rightarrow> None
                 | Some (out, e, r) \<Rightarrow> if r \<noteq> [] then None else expand_ellipsis out e))"

fun parse_kind :: "string \<Rightarrow> char option" where
  "parse_kind [] = None"
| "parse_kind (c # cs) =
     (if c = CHR ''.'' \<or> c = CHR '':'' \<or> c = CHR ''%'' then Some c else parse_kind cs)"

definition ParseIP :: "string \<Rightarrow> ip option" where
  "ParseIP s =
     (case parse_kind s of
        None \<Rightarrow> None
      | Some c \<Rightarrow>
          if c = CHR ''.'' then map_option v4_mapped (parseIPv4Fields s)
          else if c = CHR '':'' then parseIPv6 s
          else None)"

subsection \<open>Operations on addresses\<close>

definition To4 :: "ip \<Rightarrow> nat list option" where
  "To4 a = (if length a = 4 then Some a
            else if length a = 16 \<and> take 10 a = replicate 10 0 \<and> a ! 10 = 255 \<and> a ! 11 = 255
            then Some (drop 12 a) else None)"

definition print_v4 :: "nat list \<Rightarrow> string" where
  "print_v4 q = print_dec (q ! 0) @ ''.'' @ print_dec (q ! 1) @ ''.'' @
                print_dec (q ! 2) @ ''.'' @ print_dec (q ! 3)"

definition v6u16 :: "ip \<Rightarrow> nat \<Rightarrow> nat" where
  "v6u16 a i = a ! (2 * i) * 256 + a ! (2 * i + 1)"

definition zero_run_end :: "ip \<Rightarrow> nat \<Rightarrow> nat" where
  "zero_run_end a i = i + length (takeWhile (\<lambda>j. v6u16 a j = 0) [i..<8])"

definition best_zero_run :: "ip \<Rightarrow> nat \<times> nat" where
  "best_zero_run a =
     fold (\<lambda>i (zs, ze). let j = zero_run_end a i in
             if j - i \<ge> 2 \<and> j - i > ze - zs then (i, j) else (zs, ze)) [0..<8] (255, 255)"

definition print_groups :: "ip \<Rightarrow> nat list \<Rightarrow> string" where
  "print_groups a is = concat (map (\<lambda>i. (if i > 0 then '':'' else []) @ print_hex (v6u16 a i)) is)"

definition print_v6 :: "ip \<Rightarrow> string" where
  "print_v6 a =
     (let (zs, ze) = best_zero_run a in
      if zs \<ge> 8 then print_groups a [0..<8]
      else print_groups a [0..<zs] @ ''::'' @
           (if ze \<ge> 8 then [] else print_hex (v6u16 a ze) @ print_groups a [ze + 1..<8]))"

definition IP_String :: "ip \<Rightarrow> string" where
  "IP_String a = (case To4 a of Some q \<Rightarrow> print_v4 q | None \<Rightarrow> print_v6 a)"

definition IsLoopback :: "ip \<Rightarrow> bool" where
  "IsLoopback a = (case To4 a of Some q \<Rightarrow> q ! 0 = 127 | None \<Rightarrow> a = replicate 15 0 @ [1])"

text \<open>An \<^verbatim>\<open>IPNet\<close> is its base address and its mask; \<open>CIDRMask\<close> gives the mask of a prefix length.\<close>

definition CIDRMask :: "nat \<Rightarrow> nat \<Rightarrow> nat list" where
  "CIDRMask ones bytes =
     map (\<lambda>i. if ones \<ge> 8 * (i + 1) then 255
              else if ones \<le> 8 * i then 0
              else 256 - 2 ^ (8 - (ones - 8 * i))) [0..<bytes]"

definition IPNet_Contains :: "nat list \<times> nat list \<Rightarrow> ip \<Rightarrow> bool" where
  "IPNet_Contains net a =
     (let (nn, m) = net; x = (case To4 a of Some q \<Rightarrow> q | None \<Rightarrow> a) in
      length x = length nn \<and>
      (\<forall>i \<in> set [0..<length nn].
         Bit_Operations.and (nn ! i) (m ! i) = Bit_Operations.and (x ! i) (m ! i)))"

subsection \<open>Facts\<close>

lemma index_byte_None [simp]: "index_byte c s = None \<longleftrightarrow> c \<notin> set s"
  by (induction s) auto

lemma last_index_byte_app:
  "c \<notin> set t \<Longrightarrow> last_index_byte c (s @ c # t) = Some (length s)"
proof (induction s)
  case Nil
  have "last_index_byte c t = None" using Nil by (induction t) auto
  then show ?case by simp
qed simp

lemma SplitHostPort_join:
  assumes "h \<noteq> []" "set h \<inter> set '':[]'' = {}" "set p \<inter> set '':[]'' = {}"
  shows "SplitHostPort (h @ '':'' @ p) = Some (h, p)"
proof -
  have "last_index_byte CHR '':'' (h @ '':'' @ p) = Some (length h)"
    using assms by (simp add: last_index_byte_app)
  moreover have "(h @ '':'' @ p) ! 0 \<noteq> CHR ''[''"
    using assms by (cases h) auto
  ultimately show ?thesis using assms by (auto simp: SplitHostPort_def)
qed

lemma is_digit_digit_char [simp]: "d < 10 \<Longrightarrow> is_digit (digit_char d)"
  by (auto simp: is_digit_def digit_char_def)

lemma digit_val_digit_char [simp]: "d < 10 \<Longrightarrow> digit_val (digit_char d) = d"
  by (simp add: digit_val_def digit_char_def)

lemma digit_char_not_dot [simp]: "d < 10 \<Longrightarrow> digit_char d \<noteq> CHR ''.'' \<and> digit_char d \<noteq> CHR '':'' \<and> digit_char d \<noteq> CHR ''%''"
proof (intro conjI notI)
  assume "d < 10"
  then have "(of_char (digit_char d) :: nat) = d + 48" by (simp add: digit_char_def)
  then show "digit_char d = CHR ''.'' \<Longrightarrow> False" "digit_char d = CHR '':'' \<Longrightarrow> False"
    "digit_char d = CHR ''%'' \<Longrightarrow> False" using \<open>d < 10\<close> by auto
qed

lemma print_dec_cases:
  assumes "n < 256"
  obtains (1) "n < 10" "print_dec n = [digit_char n]"
    | (2) a b where "print_dec n = [digit_char a, digit_char b]" "n = a * 10 + b"
        "0 < a" "a < 10" "b < 10"
    | (3) a b c where "print_dec n = [digit_char a, digit_char b, digit_char c]"
        "n = (a * 10 + b) * 10 + c" "0 < a" "a < 10" "b < 10" "c < 10"
proof -
  consider "n < 10" | "10 \<le> n" "n < 100" | "100 \<le> n" by linarith
  then show thesis
  proof cases
    case 1 then show ?thesis by (intro that(1)) (simp_all add: print_base.simps)
  next
    case 2
    then show ?thesis
      by (intro that(2) [of "n div 10" "n mod 10"]) (simp_all add: print_base.simps)
  next
    case 3
    let ?m = "n div 10"
    have m: "10 \<le> ?m" "?m < 100" using 3 assms by auto
    have "?m div 10 < 10" using m(2) less_mult_imp_div_less [of ?m 10 10] by simp
    then have "print_dec n = [digit_char (?m div 10), digit_char (?m mod 10), digit_char (n mod 10)]"
      using 3 m by (simp add: print_base.simps [of 10 n] print_base.simps [of 10 ?m]
          print_base.simps [of 10 "?m div 10"])
    then show ?thesis
      by (rule that(3)) (use m in auto)
  qed
qed

lemma parseIPv4_octet:
  assumes "n < 256"
  obtains c k where "c \<noteq> CHR ''.''"
    "\<And>prev fields cs. parseIPv4_loop prev 0 0 fields (print_dec n @ cs) =
                         parseIPv4_loop (Some c) n k fields cs"
proof (cases rule: print_dec_cases [OF assms])
  case 1
  then show ?thesis by (intro that [of "digit_char n" 1]) simp_all
next
  case (2 a b)
  then show ?thesis using assms by (intro that [of "digit_char b" 2]) (simp_all add: numeral_2_eq_2)
next
  case (3 a b c)
  then show ?thesis using assms by (intro that [of "digit_char c" 3]) (simp_all add: numeral_3_eq_3)
qed

lemma print_dec_parse_kind [simp]:
  assumes "n < 256"
  shows "parse_kind (print_dec n @ CHR ''.'' # cs) = Some CHR ''.''"
  by (cases rule: print_dec_cases [OF assms]) auto

lemma print_dec_Nil [simp]: "print_base b n \<noteq> []"
  by (simp add: print_base.simps [of b n])

text \<open>A dotted quad is parsed to the address it denotes.\<close>

lemma parseIPv4Fields_print_v4:
  assumes "a < 256" "b < 256" "c < 256" "d < 256"
  shows "parseIPv4Fields (print_v4 [a, b, c, d]) = Some [a, b, c, d]"
proof -
  note o = parseIPv4_octet
  obtain ca ka where a: "ca \<noteq> CHR ''.''" "\<And>prev fields cs. parseIPv4_loop prev 0 0 fields
      (print_dec a @ cs) = parseIPv4_loop (Some ca) a ka fields cs" using o [OF assms(1)] by metis
  obtain cb kb where b: "cb \<noteq> CHR ''.''" "\<And>prev fields cs. parseIPv4_loop prev 0 0 fields
      (print_dec b @ cs) = parseIPv4_loop (Some cb) b kb fields cs" using o [OF assms(2)] by metis
  obtain cc kc where c: "cc \<noteq> CHR ''.''" "\<And>prev fields cs. parseIPv4_loop prev 0 0 fields
      (print_dec c @ cs) = parseIPv4_loop (Some cc) c kc fields cs" using o [OF assms(3)] by metis
  obtain cd kd where d: "cd \<noteq> CHR ''.''" "\<And>prev fields cs. parseIPv4_loop prev 0 0 fields
      (print_dec d @ cs) = parseIPv4_loop (Some cd) d kd fields cs" using o [OF assms(4)] by metis
  have dot: "\<not> is_digit CHR ''.''" by (simp add: is_digit_def)
  show ?thesis
    using d(2) [of "Some CHR ''.''" "[a, b, c]" "[]"]
    by (simp add: parseIPv4Fields_def print_v4_def a b c dot)
qed

lemma ParseIP_print_v4:
  assumes "a < 256" "b < 256" "c < 256" "d < 256"
  shows "ParseIP (print_v4 [a, b, c, d]) = Some (v4_mapped [a, b, c, d])"
proof -
  have "parse_kind (print_v4 [a, b, c, d]) = Some CHR ''.''"
    using assms by (simp add: print_v4_def)
  then show ?thesis by (simp add: ParseIP_def parseIPv4Fields_print_v4 assms)
qed

lemma To4_v4_mapped [simp]: "length q = 4 \<Longrightarrow> To4 (v4_mapped q) = Some q"
  by (simp add: To4_def v4_mapped_def nth_append)

end
