(* ===== verification/Subnet_Limiter.thy ===== *)
theory Subnet_Limiter
  imports Go_Net
begin

text \<open>
  The Sybil defence of the peer-to-peer layer
  (\<^verbatim>\<open>src/internal/p2p/subnet_limiter.go\<close>): at most a fixed number of peers per /24
  (IPv4) or /48 (IPv6) network.  The count of every network stays within the limit;
  the counts agree with the tracked peers as long as no tracked peer is rejected while
  moving to another network, and the last property shows that after such a rejection they
  no longer do.
\<close>

definition DefaultMaxPeersPerSubnet :: int where
  "DefaultMaxPeersPerSubnet = 3"

record SubnetLimiter =
  sl_subnetCounts :: "(string, int) gomap"
  sl_peerSubnets :: "(node_id, string) gomap"
  sl_maxPerSubnet :: int

definition NewSubnetLimiter :: "int \<Rightarrow> SubnetLimiter" where
  "NewSubnetLimiter maxPerSubnet =
     \<lparr> sl_subnetCounts = fmempty, sl_peerSubnets = fmempty,
       sl_maxPerSubnet = (if maxPerSubnet \<le> 0 then DefaultMaxPeersPerSubnet else maxPerSubnet) \<rparr>"

definition subnetPrefix :: "ip \<Rightarrow> string" where
  "subnetPrefix a =
     (case To4 a of
        Some v4 \<Rightarrow> print_dec (v4 ! 0) @ ''.'' @ print_dec (v4 ! 1) @ ''.'' @
                   print_dec (v4 ! 2) @ ''.0/24''
      | None \<Rightarrow> IP_String (take 6 a @ replicate 10 0) @ ''/48'')"

definition privateRanges :: "(nat list \<times> nat list) list" where
  "privateRanges =
     [([10, 0, 0, 0], CIDRMask 8 4),
      ([172, 16, 0, 0], CIDRMask 12 4),
      ([192, 168, 0, 0], CIDRMask 16 4),
      ([252, 0, 0, 0, 0, 0, 0, 0, 0, 0, 0, 0, 0, 0, 0, 0], CIDRMask 7 16),
      ([254, 128, 0, 0, 0, 0, 0, 0, 0, 0, 0, 0, 0, 0, 0, 0], CIDRMask 10 16)]"

definition isExemptIP :: "ip \<Rightarrow> bool" where
  "isExemptIP a =
     (if IsLoopback a then True else list_ex (\<lambda>network. IPNet_Contains network a) privateRanges)"

definition has_suffix :: "string \<Rightarrow> string \<Rightarrow> bool" where
  "has_suffix s suf \<longleftrightarrow> length suf \<le> length s \<and> drop (length s - length suf) s = suf"

text \<open>The network an address is counted under; \<open>None\<close> where \<^verbatim>\<open>Allow\<close> exempts it.\<close>

definition limited_subnet :: "string \<Rightarrow> string option" where
  "limited_subnet remoteAddr =
     (let host = (case SplitHostPort remoteAddr of Some (h, _) \<Rightarrow> h | None \<Rightarrow> remoteAddr) in
      if has_suffix host ''.onion'' then None
      else case ParseIP host of
             None \<Rightarrow> None
           | Some a \<Rightarrow> if isExemptIP a then None else Some (subnetPrefix a))"

text \<open>Reading a missing key of a Go map gives the zero value.\<close>

definition count_of :: "(string, int) gomap \<Rightarrow> string \<Rightarrow> int" where
  "count_of m s = (case fmlookup m s of Some n \<Rightarrow> n | None \<Rightarrow> 0)"

definition decrement_count :: "string \<Rightarrow> (string, int) gomap \<Rightarrow> (string, int) gomap" where
  "decrement_count s m =
     (let m' = fmupd s (count_of m s - 1) m in
      if count_of m' s \<le> 0 then fmdrop s m' else m')"

definition SubnetLimiter_Allow ::
    "string \<Rightarrow> node_id \<Rightarrow> SubnetLimiter \<Rightarrow> bool \<times> SubnetLimiter" where
  "SubnetLimiter_Allow remoteAddr nodeID sl =
     (case limited_subnet remoteAddr of
        None \<Rightarrow> (True, sl)
      | Some subnet \<Rightarrow>
          if fmlookup (sl_peerSubnets sl) nodeID = Some subnet then (True, sl)
          else
            let sl = (case fmlookup (sl_peerSubnets sl) nodeID of
                        Some existingSubnet \<Rightarrow>
                          sl\<lparr>sl_subnetCounts := decrement_count existingSubnet (sl_subnetCounts sl)\<rparr>
                      | None \<Rightarrow> sl)
            in if count_of (sl_subnetCounts sl) subnet \<ge> sl_maxPerSubnet sl then (False, sl)
               else (True, sl\<lparr>sl_subnetCounts :=
                                fmupd subnet (count_of (sl_subnetCounts sl) subnet + 1)
                                  (sl_subnetCounts sl),
                              sl_peerSubnets := fmupd nodeID subnet (sl_peerSubnets sl)\<rparr>))"

definition SubnetLimiter_Remove :: "node_id \<Rightarrow> SubnetLimiter \<Rightarrow> SubnetLimiter" where
  "SubnetLimiter_Remove nodeID sl =
     (case fmlookup (sl_peerSubnets sl) nodeID of
        None \<Rightarrow> sl
      | Some subnet \<Rightarrow>
          sl\<lparr>sl_peerSubnets := fmdrop nodeID (sl_peerSubnets sl),
             sl_subnetCounts := decrement_count subnet (sl_subnetCounts sl)\<rparr>)"

definition SubnetLimiter_PeerCount :: "SubnetLimiter \<Rightarrow> nat" where
  "SubnetLimiter_PeerCount sl = mlen (sl_peerSubnets sl)"

datatype sl_op = SLAllow string node_id | SLRemove node_id

fun sl_step :: "sl_op \<Rightarrow> SubnetLimiter \<Rightarrow> SubnetLimiter" where
  "sl_step (SLAllow addr n) sl = snd (SubnetLimiter_Allow addr n sl)"
| "sl_step (SLRemove n) sl = SubnetLimiter_Remove n sl"

text \<open>Every recorded count is positive and within the limit.\<close>

definition sl_bounded :: "SubnetLimiter \<Rightarrow> bool" where
  "sl_bounded sl \<longleftrightarrow>
     0 < sl_maxPerSubnet sl \<and>
     fmpred (\<lambda>_ n. 0 < n \<and> n \<le> sl_maxPerSubnet sl) (sl_subnetCounts sl)"

text \<open>Every count is the number of tracked peers of its network.\<close>

definition sl_exact :: "SubnetLimiter \<Rightarrow> bool" where
  "sl_exact sl \<longleftrightarrow>
     (\<forall>s. count_of (sl_subnetCounts sl) s = int (vcount (sl_peerSubnets sl) s))"

text \<open>The call is not the rejected move of a tracked peer to another network.\<close>

fun sl_op_clean :: "sl_op \<Rightarrow> SubnetLimiter \<Rightarrow> bool" where
  "sl_op_clean (SLAllow addr n) sl \<longleftrightarrow>
     fst (SubnetLimiter_Allow addr n sl) \<or> fmlookup (sl_peerSubnets sl) n = None"
| "sl_op_clean (SLRemove n) sl \<longleftrightarrow> True"

subsection \<open>Counting\<close>

lemma count_of_upd [simp]: "count_of (fmupd s n m) t = (if s = t then n else count_of m t)"
  by (simp add: count_of_def)

lemma count_of_drop [simp]: "count_of (fmdrop s m) t = (if s = t then 0 else count_of m t)"
  by (simp add: count_of_def)

lemma count_of_decrement:
  "count_of (decrement_count s m) t = (if s = t then max 0 (count_of m s - 1) else count_of m t)"
  by (auto simp: decrement_count_def Let_def)

lemma decrement_count_pred:
  "fmpred (\<lambda>_ n. 0 < n \<and> n \<le> B) m \<Longrightarrow> fmpred (\<lambda>_ n. 0 < n \<and> n \<le> (B::int)) (decrement_count s m)"
  by (fastforce simp: decrement_count_def Let_def count_of_def fmpred_iff split: option.splits if_splits)

lemma count_of_le: "sl_bounded sl \<Longrightarrow> count_of (sl_subnetCounts sl) s \<le> sl_maxPerSubnet sl"
  by (auto simp: sl_bounded_def count_of_def fmpred_iff split: option.splits)

lemma count_of_nonneg: "sl_bounded sl \<Longrightarrow> 0 \<le> count_of (sl_subnetCounts sl) s"
  by (force simp: sl_bounded_def count_of_def fmpred_iff split: option.splits)

subsection \<open>The counts stay within the limit\<close>

lemma sl_bounded_New [simp]: "sl_bounded (NewSubnetLimiter m)"
  by (simp add: sl_bounded_def NewSubnetLimiter_def DefaultMaxPeersPerSubnet_def)

lemma sl_bounded_decrement:
  "sl_bounded sl \<Longrightarrow>
   sl_bounded (sl\<lparr>sl_subnetCounts := decrement_count s (sl_subnetCounts sl)\<rparr>)"
  by (simp add: sl_bounded_def decrement_count_pred)

lemma sl_bounded_track:
  assumes "sl_bounded sl" "count_of (sl_subnetCounts sl) s < sl_maxPerSubnet sl"
  shows "sl_bounded (sl\<lparr>sl_subnetCounts := fmupd s (count_of (sl_subnetCounts sl) s + 1)
                           (sl_subnetCounts sl), sl_peerSubnets := ps\<rparr>)"
  using assms count_of_nonneg [OF assms(1), of s]
  by (auto simp: sl_bounded_def intro!: fmpred_upd)

lemma sl_bounded_Allow: "sl_bounded sl \<Longrightarrow> sl_bounded (snd (SubnetLimiter_Allow addr n sl))"
  using sl_bounded_track [of sl] sl_bounded_decrement [of sl]
    sl_bounded_track [OF sl_bounded_decrement, of sl]
  by (auto simp: SubnetLimiter_Allow_def Let_def split: option.splits)

lemma sl_bounded_Remove: "sl_bounded sl \<Longrightarrow> sl_bounded (SubnetLimiter_Remove n sl)"
  using sl_bounded_decrement [of sl]
  by (auto simp: SubnetLimiter_Remove_def sl_bounded_def split: option.splits)

interpretation subnet_bounds: guarded_machine sl_step "\<lambda>_ _. True" sl_bounded
proof
  fix s op
  assume "sl_bounded s"
  then show "sl_bounded (sl_step op s)"
    by (cases op) (auto simp: sl_bounded_Allow sl_bounded_Remove)
qed

subsection \<open>The counts are the numbers of tracked peers\<close>

lemma sl_exact_New [simp]: "sl_exact (NewSubnetLimiter m)"
  by (simp add: sl_exact_def NewSubnetLimiter_def count_of_def)

lemma exact_after_decrement:
  assumes "sl_exact sl" "fmlookup (sl_peerSubnets sl) n = Some s"
  shows "count_of (decrement_count s (sl_subnetCounts sl)) t =
         int (vcount (fmdrop n (sl_peerSubnets sl)) t)"
  using assms vcount_pos [OF assms(2)]
  by (auto simp: sl_exact_def count_of_decrement vcount_drop)

lemma sl_exact_Remove: "sl_exact sl \<Longrightarrow> sl_exact (SubnetLimiter_Remove n sl)"
  using exact_after_decrement [of sl n]
  by (auto simp: SubnetLimiter_Remove_def sl_exact_def split: option.splits)

lemma sl_exact_Allow:
  assumes "sl_exact sl" "sl_op_clean (SLAllow addr n) sl"
  shows "sl_exact (snd (SubnetLimiter_Allow addr n sl))"
proof (cases "fmlookup (sl_peerSubnets sl) n")
  case None
  then have "vcount (fmupd n s (sl_peerSubnets sl)) t =
             vcount (sl_peerSubnets sl) t + (if s = t then 1 else 0)" for s t
    by (rule vcount_upd_new)
  then show ?thesis using assms None
    by (auto simp: SubnetLimiter_Allow_def sl_exact_def split: option.splits)
next
  case (Some old)
  note ex = exact_after_decrement [OF assms(1) Some]
  show ?thesis using assms Some
    by (auto simp: SubnetLimiter_Allow_def Let_def sl_exact_def ex vcount_upd split: option.splits if_splits)
qed

interpretation subnet_counts: guarded_machine sl_step sl_op_clean sl_exact
proof
  fix s op
  assume "sl_exact s" "sl_op_clean op s"
  then show "sl_exact (sl_step op s)" by (cases op) (auto simp: sl_exact_Allow sl_exact_Remove)
qed

lemma sl_step_max [simp]: "sl_maxPerSubnet (sl_step op sl) = sl_maxPerSubnet sl"
  by (cases op) (auto simp: SubnetLimiter_Allow_def SubnetLimiter_Remove_def Let_def split: option.splits)

lemma sl_run_max [simp]: "sl_maxPerSubnet (fold sl_step ops sl) = sl_maxPerSubnet sl"
  by (induction ops arbitrary: sl) auto

lemma tracked_peers_limited:
  assumes "run_ok sl_step sl_op_clean ops (NewSubnetLimiter m)"
  shows "int (vcount (sl_peerSubnets (fold sl_step ops (NewSubnetLimiter m))) s)
         \<le> sl_maxPerSubnet (NewSubnetLimiter m)"
proof -
  let ?sl = "fold sl_step ops (NewSubnetLimiter m)"
  have "sl_bounded ?sl" by (rule subnet_bounds.run_inv) simp_all
  moreover have "sl_exact ?sl" using assms by (intro subnet_counts.run_inv) simp_all
  ultimately show ?thesis using count_of_le [of ?sl s] by (simp add: sl_exact_def)
qed

subsection \<open>Properties\<close>

lemma example_subnets:
  "limited_subnet ''8.1.0.1:1'' = Some ''8.1.0.0/24''" "limited_subnet ''8.1.0.2:1'' = Some ''8.1.0.0/24''"
  "limited_subnet ''9.1.0.1:1'' = Some ''9.1.0.0/24''" "limited_subnet ''9.1.0.2:1'' = Some ''9.1.0.0/24''"
  by code_simp+

text \<open>The two ways a call of \<^verbatim>\<open>Allow\<close> goes for an untracked peer, and the refused move.\<close>

lemma Allow_new:
  assumes "limited_subnet a = Some s" "fmlookup (sl_peerSubnets sl) n = None"
    and "count_of (sl_subnetCounts sl) s < sl_maxPerSubnet sl"
  shows "SubnetLimiter_Allow a n sl =
    (True, sl\<lparr>sl_subnetCounts := fmupd s (count_of (sl_subnetCounts sl) s + 1) (sl_subnetCounts sl),
              sl_peerSubnets := fmupd n s (sl_peerSubnets sl)\<rparr>)"
  using assms by (simp add: SubnetLimiter_Allow_def)

lemma Allow_full:
  assumes "limited_subnet a = Some s" "fmlookup (sl_peerSubnets sl) n = None"
    and "sl_maxPerSubnet sl \<le> count_of (sl_subnetCounts sl) s"
  shows "SubnetLimiter_Allow a n sl = (False, sl)"
  using assms by (simp add: SubnetLimiter_Allow_def)

lemma Allow_refused_move:
  assumes "limited_subnet a = Some s" "fmlookup (sl_peerSubnets sl) n = Some t" "t \<noteq> s"
    and "sl_maxPerSubnet sl \<le> count_of (sl_subnetCounts sl) s"
  shows "SubnetLimiter_Allow a n sl =
    (False, sl\<lparr>sl_subnetCounts := decrement_count t (sl_subnetCounts sl)\<rparr>)"
  using assms by (simp add: SubnetLimiter_Allow_def count_of_decrement)

lemma count_of_empty [simp]: "count_of fmempty s = 0"
  by (simp add: count_of_def)

lemmas allow_runs = Allow_new Allow_full Allow_refused_move example_subnets count_of_decrement
  NewSubnetLimiter_def SubnetLimiter_Remove_def

text \<open>Through any sequence of admissions and removals in which no tracked peer is refused
  a move to another network, no network ever holds more tracked peers than the limit.\<close>

theorem subnet_limit_holds:
  assumes "run_ok sl_step sl_op_clean ops (NewSubnetLimiter m)"
  shows "int (vcount (sl_peerSubnets (fold sl_step ops (NewSubnetLimiter m))) s)
         \<le> sl_maxPerSubnet (NewSubnetLimiter m)"
  using assms by (rule tracked_peers_limited)

theorem subnet_limit_holds_witness:
  "int (vcount (sl_peerSubnets (fold sl_step
      [SLAllow ''8.1.0.1:1'' 1, SLAllow ''8.1.0.2:1'' 2, SLRemove 1, SLAllow ''8.1.0.2:1'' 3]
      (NewSubnetLimiter 1))) ''8.1.0.0/24'') \<le> 1"
  using subnet_limit_holds [of "[SLAllow ''8.1.0.1:1'' 1, SLAllow ''8.1.0.2:1'' 2, SLRemove 1, SLAllow ''8.1.0.2:1'' 3]"
      1 "''8.1.0.0/24''"]
  by (simp add: allow_runs)

text \<open>A refused move releases the peer's old slot but keeps the peer tracked in the old
  network: with a limit of one peer, the old network ends up with two tracked peers.\<close>

theorem refused_move_breaks_limit:
  "vcount (sl_peerSubnets (fold sl_step
      [SLAllow ''8.1.0.1:1'' 1, SLAllow ''9.1.0.1:1'' 2, SLAllow ''9.1.0.2:1'' 1, SLAllow ''8.1.0.2:1'' 3]
      (NewSubnetLimiter 1))) ''8.1.0.0/24'' = 2"
  by (simp add: allow_runs vcount_upd_new)

end
