(* ===== verification/Go_Float.thy ===== *)
theory Go_Float
  imports Complex_Main "HOL-Library.Log_Nat"
begin

text \<open>
  Binary floating point.  A finite \<^verbatim>\<open>float64\<close> or \<^verbatim>\<open>big.Float\<close> is the rational
  number it denotes, and every arithmetic operation is the exact rational operation
  followed by rounding to the nearest representable number, ties to even.  The grid of
  representable numbers around \<open>x\<close> consists of the multiples of \<open>2 powi ulp x\<close>:
  for \<^verbatim>\<open>float64\<close> 53 significant bits with the subnormal floor \<open>-1074\<close>, for a
  \<^verbatim>\<open>big.Float\<close> of precision \<open>p\<close> the leading \<open>p\<close> bits.  Infinities and NaN do not
  occur in the modelled code's value ranges and are not represented.

  The locale \<open>rounding_grid\<close> derives from two properties of \<open>ulp\<close> that rounding is
  monotone and idempotent; both formats are interpretations.
\<close>

subsection \<open>Binary logarithm of a positive rational\<close>

definition ilog2 :: "rat \<Rightarrow> int" where
  "ilog2 x =
     (let (n, d) = quotient_of x; k = bitlen n - bitlen d
      in if 2 powi k \<le> x then k else k - 1)"

lemma two_powi_pos [simp]: "0 < (2::rat) powi k"
  by (simp add: zero_less_power_int)

lemma two_powi_mono: "j \<le> k \<Longrightarrow> (2::rat) powi j \<le> 2 powi k"
  by (rule power_int_increasing) auto

lemma two_powi_less: "(2::rat) powi j < 2 powi k \<Longrightarrow> j < k"
  using two_powi_mono [of k j] by (meson leD leI)

lemma two_powi_add: "(2::rat) powi (j + k) = 2 powi j * 2 powi k"
  by (rule power_int_add) simp

lemma bitlen_powi:
  assumes "0 < n"
  shows "2 powi (bitlen n - 1) \<le> (of_int n :: rat)" "(of_int n :: rat) < 2 powi (bitlen n)"
proof -
  have lo: "(2::int) ^ nat (bitlen n - 1) \<le> n" and hi: "n < 2 ^ nat (bitlen n)"
    using bitlen_bounds [OF assms] by auto
  have b: "1 \<le> bitlen n" by (rule ccontr) (use hi assms in auto)
  have p: "(of_int (2 ^ nat k) :: rat) = 2 powi k" if "0 \<le> k" for k
    using that by (simp add: power_int_def)
  show "2 powi (bitlen n - 1) \<le> (of_int n :: rat)"
    using lo b p [of "bitlen n - 1"] by (metis of_int_le_iff diff_ge_0_iff_ge)
  show "(of_int n :: rat) < 2 powi (bitlen n)"
    using hi b p [of "bitlen n"] by (metis of_int_less_iff order_trans zero_le_one)
qed

lemma ilog2_bounds:
  assumes "0 < x"
  shows "2 powi (ilog2 x) \<le> x" "x < 2 powi (ilog2 x + 1)"
proof -
  obtain n d where nd: "quotient_of x = (n, d)" by fastforce
  have d: "0 < d" using quotient_of_denom_pos [OF nd] .
  have x: "x = of_int n / of_int d" using quotient_of_div [OF nd] .
  have n: "0 < n" using assms d by (simp add: x zero_less_divide_iff)
  let ?k = "bitlen n - bitlen d"
  have "x < 2 powi (bitlen n) / 2 powi (bitlen d - 1)"
    unfolding x using bitlen_powi [OF n] bitlen_powi [OF d] d n
    by (intro frac_less) auto
  also have "\<dots> = 2 powi (?k + 1)" by (simp add: power_int_diff power_int_add)
  finally have hi: "x < 2 powi (?k + 1)" .
  have "2 powi (bitlen n - 1) / 2 powi (bitlen d) < x"
    unfolding x using bitlen_powi [OF n] bitlen_powi [OF d] d n
    by (intro frac_less2) auto
  then have lo: "2 powi (?k - 1) < x" by (simp add: power_int_diff power_int_add mult.commute)
  show "2 powi (ilog2 x) \<le> x" "x < 2 powi (ilog2 x + 1)"
    using hi lo by (auto simp: ilog2_def nd Let_def)
qed

lemma ilog2_mono: "0 < x \<Longrightarrow> x \<le> y \<Longrightarrow> ilog2 x \<le> ilog2 y"
  using ilog2_bounds [of x] ilog2_bounds [of y] two_powi_less [of "ilog2 x" "ilog2 y + 1"]
  by fastforce

lemma ilog2_unique: "2 powi k \<le> x \<Longrightarrow> x < 2 powi (k + 1) \<Longrightarrow> ilog2 x = k"
  using ilog2_bounds [of x] two_powi_less [of "ilog2 x" "k + 1"] two_powi_less [of k "ilog2 x + 1"]
    two_powi_pos [of k] by fastforce

subsection \<open>Nearest integer, ties to even\<close>

definition rne :: "rat \<Rightarrow> int" where
  "rne q = (let f = \<lfloor>q\<rfloor>; r = q - of_int f in
            if r < 1 / 2 then f else if r > 1 / 2 then f + 1 else if even f then f else f + 1)"

lemma rne_of_int [simp]: "rne (of_int n) = n"
  by (simp add: rne_def)

lemma rne_floor: "\<lfloor>q\<rfloor> \<le> rne q" "rne q \<le> \<lfloor>q\<rfloor> + 1"
  by (auto simp: rne_def Let_def)

lemma rne_mono:
  assumes "p \<le> q"
  shows "rne p \<le> rne q"
proof (cases "\<lfloor>p\<rfloor> = \<lfloor>q\<rfloor>")
  case True
  then show ?thesis using assms by (auto simp: rne_def Let_def)
next
  case False
  then have "\<lfloor>p\<rfloor> + 1 \<le> \<lfloor>q\<rfloor>" using floor_mono [OF assms] by simp
  then show ?thesis using rne_floor [of p] rne_floor [of q] by linarith
qed

lemma rne_near: "\<bar>of_int (rne q) - q\<bar> \<le> 1 / 2"
  by (simp add: rne_def Let_def abs_if) linarith

subsection \<open>Rounding to a grid\<close>

definition round_ulp :: "int \<Rightarrow> rat \<Rightarrow> rat" where
  "round_ulp e x = of_int (rne (x / 2 powi e)) * 2 powi e"

lemma round_ulp_mono: "x \<le> y \<Longrightarrow> round_ulp e x \<le> round_ulp e y"
  unfolding round_ulp_def
  by (intro mult_right_mono of_int_le_iff [THEN iffD2] rne_mono divide_right_mono)
     (auto simp: less_imp_le)

lemma round_ulp_multiple:
  assumes "e \<le> k"
  shows "round_ulp e (of_int m * 2 powi k) = of_int m * 2 powi k"
proof -
  have "(2::rat) powi (k - e) = of_int (2 ^ nat (k - e))"
    using assms by (simp add: power_int_def)
  then have k: "of_int m * (2::rat) powi k = of_int (m * 2 ^ nat (k - e)) * 2 powi e"
    using two_powi_add [of "k - e" e] by simp
  then have "of_int m * (2::rat) powi k / 2 powi e = of_int (m * 2 ^ nat (k - e))"
    by (simp only: nonzero_mult_div_cancel_right [OF less_imp_neq [OF two_powi_pos, symmetric]])
  then show ?thesis unfolding round_ulp_def by (simp only: rne_of_int k)
qed

lemma round_ulp_powi: "e \<le> k \<Longrightarrow> round_ulp e (2 powi k) = 2 powi k"
  using round_ulp_multiple [of e k 1] by simp

lemma round_ulp_zero [simp]: "round_ulp e 0 = 0"
  using rne_of_int [of 0] by (simp add: round_ulp_def)

definition round_signed :: "(rat \<Rightarrow> int) \<Rightarrow> rat \<Rightarrow> rat" where
  "round_signed ulp x =
     (if x = 0 then 0
      else if x > 0 then round_ulp (ulp x) x
      else - round_ulp (ulp (- x)) (- x))"

locale rounding_grid =
  fixes ulp :: "rat \<Rightarrow> int"
  assumes ulp_mono: "0 < x \<Longrightarrow> x \<le> y \<Longrightarrow> ulp x \<le> ulp y"
    and ulp_jump: "0 < x \<Longrightarrow> x \<le> y \<Longrightarrow> ulp x < ulp y \<Longrightarrow>
                   \<exists>k \<ge> ulp y. x \<le> 2 powi k \<and> 2 powi k \<le> y"
begin

abbreviation rnd :: "rat \<Rightarrow> rat" where "rnd \<equiv> round_signed ulp"

lemma rnd_zero [simp]: "rnd 0 = 0"
  by (simp add: round_signed_def)

lemma rnd_minus: "rnd (- x) = - rnd x"
  by (simp add: round_signed_def)

lemma rnd_pos_mono:
  assumes "0 < x" "x \<le> y"
  shows "rnd x \<le> rnd y"
proof (cases "ulp x = ulp y")
  case True
  then show ?thesis using assms by (simp add: round_signed_def round_ulp_mono)
next
  case False
  then have "ulp x < ulp y" using ulp_mono [OF assms] by simp
  then obtain k where k: "ulp y \<le> k" "x \<le> 2 powi k" "2 powi k \<le> y"
    using ulp_jump [OF assms] by blast
  have "round_ulp (ulp x) x \<le> 2 powi k"
    using round_ulp_mono [OF k(2), of "ulp x"] round_ulp_powi [of "ulp x" k] k(1) \<open>ulp x < ulp y\<close>
    by simp
  also have "\<dots> \<le> round_ulp (ulp y) y"
    using round_ulp_mono [OF k(3), of "ulp y"] round_ulp_powi [OF k(1)] by simp
  finally show ?thesis using assms by (simp add: round_signed_def)
qed

lemma rnd_nonneg: "0 \<le> x \<Longrightarrow> 0 \<le> rnd x"
  using round_ulp_mono [of 0 x "ulp x"] by (auto simp: round_signed_def)

lemma rnd_mono:
  assumes "x \<le> y"
  shows "rnd x \<le> rnd y"
proof -
  consider "0 < x" | "x \<le> 0" "0 \<le> y" | "y < 0" by linarith
  then show ?thesis
  proof cases
    case 1 then show ?thesis using assms by (rule rnd_pos_mono)
  next
    case 2
    then show ?thesis using rnd_nonneg [of y] rnd_nonneg [of "- x"] by (simp add: rnd_minus)
  next
    case 3
    then show ?thesis using assms rnd_pos_mono [of "- y" "- x"] by (simp add: rnd_minus)
  qed
qed

lemma rnd_fixed: "0 < r \<Longrightarrow> ulp r \<le> e \<Longrightarrow> r = of_int m * 2 powi e \<Longrightarrow> rnd r = r"
  using round_ulp_multiple [of "ulp r" e m] by (simp add: round_signed_def)

lemma rnd_idem_pos:
  assumes "0 < x" "0 < rnd x"
  shows "rnd (rnd x) = rnd x"
proof (cases "ulp (rnd x) \<le> ulp x")
  case True
  moreover have "rnd x = of_int (rne (x / 2 powi ulp x)) * 2 powi ulp x"
    using assms by (simp add: round_signed_def round_ulp_def)
  ultimately show ?thesis using assms(2) rnd_fixed by blast
next
  case False
  then have "x \<le> rnd x" using ulp_mono [OF assms(2), of x] by linarith
  moreover have "ulp x < ulp (rnd x)" using False by simp
  ultimately obtain k where k: "ulp (rnd x) \<le> k" "x \<le> 2 powi k" "2 powi k \<le> rnd x"
    using ulp_jump [OF assms(1)] by blast
  have "rnd x \<le> 2 powi k"
    using round_ulp_mono [OF k(2), of "ulp x"] round_ulp_powi [of "ulp x" k] k(1) False assms(1)
    by (simp add: round_signed_def)
  then have "rnd x = of_int 1 * 2 powi k" using k(3) by simp
  then show ?thesis using rnd_fixed [OF assms(2) k(1)] by blast
qed

lemma rnd_idem [simp]: "rnd (rnd x) = rnd x"
proof -
  have pos: "rnd (rnd y) = rnd y" if "0 \<le> y" for y
    using that rnd_nonneg [of y] rnd_idem_pos [of y] by (cases "y = 0"; cases "rnd y = 0") auto
  show ?thesis
    using pos [of x] pos [of "- x"] by (cases "0 \<le> x") (auto simp: rnd_minus)
qed

lemma rnd_le_representable: "x \<le> r \<Longrightarrow> rnd r = r \<Longrightarrow> rnd x \<le> r"
  using rnd_mono [of x r] by simp

lemma rnd_ge_representable: "r \<le> x \<Longrightarrow> rnd r = r \<Longrightarrow> r \<le> rnd x"
  using rnd_mono [of r x] by simp

end

subsection \<open>The two formats\<close>

definition ulp_big :: "nat \<Rightarrow> rat \<Rightarrow> int" where
  "ulp_big p x = ilog2 x - (int p - 1)"

definition ulp64 :: "rat \<Rightarrow> int" where
  "ulp64 x = max (ilog2 x - 52) (- 1074)"

definition round_big :: "nat \<Rightarrow> rat \<Rightarrow> rat" where
  "round_big p = round_signed (ulp_big p)"

definition round64 :: "rat \<Rightarrow> rat" where
  "round64 = round_signed ulp64"

text \<open>Conversion of a float to an integer truncates.\<close>

definition float_trunc :: "rat \<Rightarrow> int" where
  "float_trunc x = (if x \<ge> 0 then \<lfloor>x\<rfloor> else \<lceil>x\<rceil>)"

lemma below_leading_power:
  assumes "0 < x" "x \<le> y" "ilog2 x \<noteq> ilog2 y"
  shows "x \<le> 2 powi (ilog2 y)"
proof -
  have "ilog2 x + 1 \<le> ilog2 y" using ilog2_mono [OF assms(1,2)] assms(3) by simp
  then show ?thesis using two_powi_mono ilog2_bounds(2) [OF assms(1)] by (meson less_imp_le order_trans)
qed

interpretation big: rounding_grid "ulp_big (Suc p)" for p
proof
  fix x y :: rat
  assume "0 < x" "x \<le> y"
  then show "ulp_big (Suc p) x \<le> ulp_big (Suc p) y" by (simp add: ulp_big_def ilog2_mono)
  assume "ulp_big (Suc p) x < ulp_big (Suc p) y"
  then show "\<exists>k \<ge> ulp_big (Suc p) y. x \<le> 2 powi k \<and> 2 powi k \<le> y"
    using \<open>0 < x\<close> \<open>x \<le> y\<close> ilog2_bounds(1) [of y]
    by (intro exI [of _ "ilog2 y"]) (auto simp: ulp_big_def intro!: below_leading_power)
qed

interpretation f64: rounding_grid ulp64
proof
  fix x y :: rat
  assume "0 < x" "x \<le> y"
  then show "ulp64 x \<le> ulp64 y" using ilog2_mono [of x y] by (simp add: ulp64_def)
  assume "ulp64 x < ulp64 y"
  then show "\<exists>k \<ge> ulp64 y. x \<le> 2 powi k \<and> 2 powi k \<le> y"
    using \<open>0 < x\<close> \<open>x \<le> y\<close> ilog2_bounds(1) [of y]
    by (intro exI [of _ "ilog2 y"]) (auto simp: ulp64_def intro!: below_leading_power)
qed

text \<open>Integers of at most \<open>p\<close> bits are exact at precision \<open>p\<close>.\<close>

lemma round_ulp_of_int: "e \<le> 0 \<Longrightarrow> round_ulp e (of_int n) = of_int n"
  using round_ulp_multiple [of e 0 n] by simp

lemma ilog2_of_int:
  assumes "0 < n" "n < 2 ^ p"
  shows "0 \<le> ilog2 (of_int n)" "ilog2 (of_int n) < int p"
proof -
  have "(2::rat) powi (ilog2 (of_int n)) \<le> of_int n" using assms by (intro ilog2_bounds) simp
  also have "(of_int n :: rat) < of_int (2 ^ p)" using assms(2) by (simp only: of_int_less_iff)
  also have "\<dots> = 2 powi (int p)" by simp
  finally show "ilog2 (of_int n) < int p" by (rule two_powi_less)
  have "ilog2 (of_int 1) \<le> ilog2 (of_int n)" using assms by (intro ilog2_mono) simp_all
  moreover have "ilog2 (of_int 1) = 0" by (rule ilog2_unique) simp_all
  ultimately show "0 \<le> ilog2 (of_int n)" by simp
qed

lemma round_big_of_nat:
  assumes "0 < p" "0 \<le> n" "n < 2 ^ p"
  shows "round_big p (of_int n) = of_int n"
  using assms ilog2_of_int [of n p] round_ulp_of_int [of "ulp_big p (of_int n)" n]
  by (cases "n = 0") (auto simp: round_big_def round_signed_def ulp_big_def)

lemma round64_of_int:
  assumes "0 \<le> n" "n < 2 ^ 53"
  shows "round64 (of_int n) = of_int n"
  using assms ilog2_of_int [of n 53] round_ulp_of_int [of "ulp64 (of_int n)" n]
  by (cases "n = 0") (auto simp: round64_def round_signed_def ulp64_def)

lemma round64_scaled:
  assumes "0 < n" "n < 2 ^ 53"
  shows "round64 (of_int n * 2 ^ k) = of_int n * 2 ^ k"
proof -
  let ?x = "of_int n :: rat"
  have "2 powi (ilog2 ?x) \<le> ?x" "?x < 2 powi (ilog2 ?x + 1)"
    using assms by (intro ilog2_bounds; simp)+
  then have "ilog2 (?x * 2 powi int k) = ilog2 ?x + int k"
    by (intro ilog2_unique) (simp_all add: power_int_add)
  then have "ulp64 (?x * 2 powi int k) \<le> int k"
    using ilog2_of_int(2) [OF assms] by (simp add: ulp64_def)
  from f64.rnd_fixed [OF _ this] assms show ?thesis by (simp add: round64_def)
qed

text \<open>
  A representable number strictly above \<open>b\<close> and not above \<open>x\<close> separates the rounded values.
\<close>

lemma round64_separate:
  assumes "round64 b < r" "round64 r = r" "r \<le> x"
  shows "round64 b < round64 x"
  using assms f64.rnd_ge_representable [of r x] by (simp add: round64_def)

end
