(* ===== verification/Staking.thy ===== *)
theory Staking
  imports Prelude Go_Float
begin

text \<open>
  Provider staking: the tier table of \<^verbatim>\<open>src/pkg/types/economics.go\<close>, the staking
  manager of \<^verbatim>\<open>src/internal/payment/staking.go\<close> with its seven-day unstake cooldown
  and twenty-four-hour beneficiary timelock, and the tier rules of
  \<^verbatim>\<open>src/internal/payment/staking_contract.go\<close>.  A \<^verbatim>\<open>big.Int\<close> is an integer.
\<close>

subsection \<open>Tiers\<close>

type_synonym StakingTier = string

definition StakingTierStarter :: StakingTier where "StakingTierStarter = ''starter''"
definition StakingTierBronze :: StakingTier where "StakingTierBronze = ''bronze''"
definition StakingTierSilver :: StakingTier where "StakingTierSilver = ''silver''"
definition StakingTierGold :: StakingTier where "StakingTierGold = ''gold''"
definition StakingTierPlatinum :: StakingTier where "StakingTierPlatinum = ''platinum''"

lemmas tier_names = StakingTierStarter_def StakingTierBronze_def StakingTierSilver_def
  StakingTierGold_def StakingTierPlatinum_def

text \<open>\<^verbatim>\<open>big.Int.SetString(s, 10)\<close>: an optional sign followed by at least one digit.\<close>

fun dec_digits :: "int \<Rightarrow> string \<Rightarrow> int option" where
  "dec_digits acc [] = Some acc"
| "dec_digits acc (c # cs) =
     (let n = (of_char c :: nat) in
      if 48 \<le> n \<and> n \<le> 57 then dec_digits (acc * 10 + (int n - 48)) cs else None)"

definition SetString10 :: "string \<Rightarrow> int option" where
  "SetString10 s =
     (case s of
        [] \<Rightarrow> None
      | c # cs \<Rightarrow>
          if c = CHR ''-'' then (if cs = [] then None else map_option uminus (dec_digits 0 cs))
          else if c = CHR ''+'' then (if cs = [] then None else dec_digits 0 cs)
          else dec_digits 0 s)"

record StakingTierConfig =
  stc_Name :: StakingTier
  stc_MinStake :: "int option"
  stc_MinStakeString :: string
  stc_MaxConcurrentJobs :: int
  stc_RewardMultiplier :: rat
  stc_PriorityQueue :: bool
  stc_Governance :: bool
  stc_RevenueShare :: bool

definition StakingTierConfig_ParseMinStake ::
    "StakingTierConfig \<Rightarrow> bool \<times> StakingTierConfig" where
  "StakingTierConfig_ParseMinStake s =
     (if stc_MinStakeString s = [] then (True, s\<lparr>stc_MinStake := Some 0\<rparr>)
      else case SetString10 (stc_MinStakeString s) of
             Some n \<Rightarrow> (True, s\<lparr>stc_MinStake := Some n\<rparr>)
           | None \<Rightarrow> (False, s\<lparr>stc_MinStake := Some 0\<rparr>))"

definition DefaultStakingTiers :: "(StakingTier, StakingTierConfig) gomap" where
  "DefaultStakingTiers = fmap_of_list
     [(StakingTierStarter,
        \<lparr> stc_Name = StakingTierStarter, stc_MinStake = None,
          stc_MinStakeString = ''1000000000000000000000000'', stc_MaxConcurrentJobs = 3,
          stc_RewardMultiplier = 1, stc_PriorityQueue = False, stc_Governance = False, stc_RevenueShare = False \<rparr>),
      (StakingTierBronze,
        \<lparr> stc_Name = StakingTierBronze, stc_MinStake = None,
          stc_MinStakeString = ''5000000000000000000000000'', stc_MaxConcurrentJobs = 10,
          stc_RewardMultiplier = 1, stc_PriorityQueue = False, stc_Governance = False, stc_RevenueShare = False \<rparr>),
      (StakingTierSilver,
        \<lparr> stc_Name = StakingTierSilver, stc_MinStake = None,
          stc_MinStakeString = ''10000000000000000000000000'', stc_MaxConcurrentJobs = 50,
          stc_RewardMultiplier = round64 (105 / 100), stc_PriorityQueue = True, stc_Governance = False, stc_RevenueShare = False \<rparr>),
      (StakingTierGold,
        \<lparr> stc_Name = StakingTierGold, stc_MinStake = None,
          stc_MinStakeString = ''100000000000000000000000000'', stc_MaxConcurrentJobs = 200,
          stc_RewardMultiplier = round64 (11 / 10), stc_PriorityQueue = True, stc_Governance = True, stc_RevenueShare = False \<rparr>),
      (StakingTierPlatinum,
        \<lparr> stc_Name = StakingTierPlatinum, stc_MinStake = None,
          stc_MinStakeString = ''1000000000000000000000000000'', stc_MaxConcurrentJobs = - 1,
          stc_RewardMultiplier = round64 (12 / 10), stc_PriorityQueue = True, stc_Governance = True, stc_RevenueShare = True \<rparr>)]"

subsection \<open>The staking manager\<close>

record beneficiaryChange =
  bc_NewBeneficiary :: address
  bc_RequestedAt :: time

record unstakeRequest =
  ur_Amount :: int
  ur_RequestedAt :: time

definition BeneficiaryTimelockDuration :: duration where
  "BeneficiaryTimelockDuration = 24 * Hour"

definition UnstakeCooldownDuration :: duration where
  "UnstakeCooldownDuration = 7 * (24 * Hour)"

record StakingManager =
  sm_stakes :: "(address, int) gomap"
  sm_beneficiaries :: "(address, address) gomap"
  sm_pendingBeneficiary :: "(address, beneficiaryChange) gomap"
  sm_rewards :: "(address, int) gomap"
  sm_unstakeRequests :: "(address, unstakeRequest) gomap"
  sm_minStake :: int

definition NewStakingManager :: "int \<Rightarrow> StakingManager" where
  "NewStakingManager minStake =
     \<lparr> sm_stakes = fmempty, sm_beneficiaries = fmempty, sm_pendingBeneficiary = fmempty,
       sm_rewards = fmempty, sm_unstakeRequests = fmempty, sm_minStake = minStake \<rparr>"

datatype staking_error =
    StakeBelowMinimum | NoStake | ZeroBeneficiary | NoRewards | NonPositiveUnstake
  | UnstakeExceedsStake | UnstakePending | UnstakeExceedsAfterPending
  | NoUnstakeRequest | CooldownNotElapsed | NilStake

definition StakingManager_Stake ::
    "address \<Rightarrow> int \<Rightarrow> StakingManager \<Rightarrow> staking_error option \<times> StakingManager" where
  "StakingManager_Stake provider amount sm =
     (if amount < sm_minStake sm then (Some StakeBelowMinimum, sm)
      else (None,
        case fmlookup (sm_stakes sm) provider of
          None \<Rightarrow> sm\<lparr>sm_stakes := fmupd provider amount (sm_stakes sm)\<rparr>
        | Some currentStake \<Rightarrow>
            sm\<lparr>sm_stakes := fmupd provider (currentStake + amount) (sm_stakes sm)\<rparr>))"

definition StakingManager_GetStake :: "address \<Rightarrow> StakingManager \<Rightarrow> int" where
  "StakingManager_GetStake provider sm =
     (case fmlookup (sm_stakes sm) provider of None \<Rightarrow> 0 | Some stake \<Rightarrow> stake)"

definition StakingManager_Slash ::
    "address \<Rightarrow> int \<Rightarrow> StakingManager \<Rightarrow> staking_error option \<times> StakingManager" where
  "StakingManager_Slash provider amount sm =
     (case fmlookup (sm_stakes sm) provider of
        None \<Rightarrow> (Some NoStake, sm)
      | Some currentStake \<Rightarrow>
          let amount = (if amount > currentStake then currentStake else amount)
          in (None, sm\<lparr>sm_stakes := fmupd provider (currentStake - amount) (sm_stakes sm)\<rparr>))"

definition StakingManager_HasMinimumStake :: "address \<Rightarrow> StakingManager \<Rightarrow> bool" where
  "StakingManager_HasMinimumStake provider sm =
     (StakingManager_GetStake provider sm \<ge> sm_minStake sm)"

definition StakingManager_SetBeneficiary ::
    "time \<Rightarrow> address \<Rightarrow> address \<Rightarrow> StakingManager \<Rightarrow> staking_error option \<times> StakingManager" where
  "StakingManager_SetBeneficiary now provider beneficiary sm =
     (if beneficiary = 0 then (Some ZeroBeneficiary, sm)
      else case fmlookup (sm_stakes sm) provider of
          None \<Rightarrow> (Some NoStake, sm)
        | Some stake \<Rightarrow>
            if stake = 0 then (Some NoStake, sm)
            else (None, sm\<lparr>sm_pendingBeneficiary := fmupd provider
                     \<lparr> bc_NewBeneficiary = beneficiary, bc_RequestedAt = now \<rparr>
                     (sm_pendingBeneficiary sm)\<rparr>))"

definition StakingManager_GetBeneficiary ::
    "time \<Rightarrow> address \<Rightarrow> StakingManager \<Rightarrow> address \<times> StakingManager" where
  "StakingManager_GetBeneficiary now provider sm =
     (let sm = (case fmlookup (sm_pendingBeneficiary sm) provider of
                  Some pending \<Rightarrow>
                    if t_sub now (bc_RequestedAt pending) \<ge> BeneficiaryTimelockDuration
                    then sm\<lparr>sm_beneficiaries := fmupd provider (bc_NewBeneficiary pending)
                                                 (sm_beneficiaries sm),
                            sm_pendingBeneficiary := fmdrop provider (sm_pendingBeneficiary sm)\<rparr>
                    else sm
                | None \<Rightarrow> sm)
      in (case fmlookup (sm_beneficiaries sm) provider of
            Some beneficiary \<Rightarrow> (beneficiary, sm)
          | None \<Rightarrow> (provider, sm)))"

definition StakingManager_ClaimRewards ::
    "time \<Rightarrow> address \<Rightarrow> StakingManager \<Rightarrow> (staking_error + int) \<times> StakingManager" where
  "StakingManager_ClaimRewards now provider sm =
     (let (beneficiary, sm) = StakingManager_GetBeneficiary now provider sm in
      case fmlookup (sm_rewards sm) provider of
        None \<Rightarrow> (Inl NoRewards, sm)
      | Some reward \<Rightarrow>
          if reward = 0 then (Inl NoRewards, sm)
          else (Inr reward, sm\<lparr>sm_rewards := fmupd provider 0 (sm_rewards sm)\<rparr>))"

definition StakingManager_AddRewards :: "address \<Rightarrow> int \<Rightarrow> StakingManager \<Rightarrow> StakingManager" where
  "StakingManager_AddRewards provider amount sm =
     (case fmlookup (sm_rewards sm) provider of
        None \<Rightarrow> sm\<lparr>sm_rewards := fmupd provider amount (sm_rewards sm)\<rparr>
      | Some current \<Rightarrow> sm\<lparr>sm_rewards := fmupd provider (current + amount) (sm_rewards sm)\<rparr>)"

definition tierOrder :: "StakingTier list" where
  "tierOrder = [StakingTierPlatinum, StakingTierGold, StakingTierSilver,
                StakingTierBronze, StakingTierStarter]"

definition StakingManager_GetTier :: "address \<Rightarrow> StakingManager \<Rightarrow> StakingTier" where
  "StakingManager_GetTier provider sm =
     (let stake = StakingManager_GetStake provider sm;
          tiers = fmmap (\<lambda>cfg. snd (StakingTierConfig_ParseMinStake cfg)) DefaultStakingTiers;
          qualifies = (\<lambda>tier. case fmlookup tiers tier of
                         None \<Rightarrow> False
                       | Some cfg \<Rightarrow> (case stc_MinStake cfg of
                                         None \<Rightarrow> False | Some m \<Rightarrow> stake \<ge> m))
      in (case List.find qualifies tierOrder of Some tier \<Rightarrow> tier | None \<Rightarrow> ''''))"

definition StakingManager_Unstake ::
    "time \<Rightarrow> address \<Rightarrow> int \<Rightarrow> StakingManager \<Rightarrow> staking_error option \<times> StakingManager" where
  "StakingManager_Unstake now provider amount sm =
     (if amount \<le> 0 then (Some NonPositiveUnstake, sm)
      else case fmlookup (sm_stakes sm) provider of
        None \<Rightarrow> (Some NoStake, sm)
      | Some currentStake \<Rightarrow>
          if currentStake = 0 then (Some NoStake, sm)
          else if amount > currentStake then (Some UnstakeExceedsStake, sm)
          else
            let request = (\<lambda>sm. sm\<lparr>sm_unstakeRequests := fmupd provider
                              \<lparr> ur_Amount = amount, ur_RequestedAt = now \<rparr>
                              (sm_unstakeRequests sm)\<rparr>)
            in (case fmlookup (sm_unstakeRequests sm) provider of
                  None \<Rightarrow> (None, request sm)
                | Some existing \<Rightarrow>
                    if t_sub now (ur_RequestedAt existing) < UnstakeCooldownDuration
                    then (Some UnstakePending, sm)
                    else
                      let rest = currentStake - ur_Amount existing;
                          sm = sm\<lparr>sm_stakes := fmupd provider rest (sm_stakes sm),
                                  sm_unstakeRequests := fmdrop provider (sm_unstakeRequests sm)\<rparr>
                      in if amount > rest then (Some UnstakeExceedsAfterPending, sm)
                         else (None, request sm)))"

definition StakingManager_CompleteUnstake ::
    "time \<Rightarrow> address \<Rightarrow> StakingManager \<Rightarrow> (staking_error + int) \<times> StakingManager" where
  "StakingManager_CompleteUnstake now provider sm =
     (case fmlookup (sm_unstakeRequests sm) provider of
        None \<Rightarrow> (Inl NoUnstakeRequest, sm)
      | Some request \<Rightarrow>
          if t_sub now (ur_RequestedAt request) < UnstakeCooldownDuration
          then (Inl CooldownNotElapsed, sm)
          else (case fmlookup (sm_stakes sm) provider of
                  None \<Rightarrow> (Inl NilStake, sm)
                | Some currentStake \<Rightarrow>
                    let unstakeAmount = (if ur_Amount request > currentStake then currentStake
                                         else ur_Amount request)
                    in (Inr unstakeAmount,
                        sm\<lparr>sm_stakes := fmupd provider (currentStake - unstakeAmount) (sm_stakes sm),
                           sm_unstakeRequests := fmdrop provider (sm_unstakeRequests sm)\<rparr>)))"

record ProviderState =
  pv_WalletAddress :: address
  pv_StakedAmount :: int
  pv_Tier :: StakingTier
  pv_TotalEarnings :: int
  pv_UnstakeInitiated :: "time option"

definition StakingManager_GetProviderState ::
    "time \<Rightarrow> address \<Rightarrow> StakingManager \<Rightarrow> ProviderState \<times> StakingManager" where
  "StakingManager_GetProviderState now provider sm =
     (let stake = StakingManager_GetStake provider sm;
          tier = StakingManager_GetTier provider sm;
          (beneficiary, sm) = StakingManager_GetBeneficiary now provider sm
      in (\<lparr> pv_WalletAddress = beneficiary, pv_StakedAmount = stake, pv_Tier = tier,
            pv_TotalEarnings =
              (case fmlookup (sm_rewards sm) provider of None \<Rightarrow> 0 | Some r \<Rightarrow> r),
            pv_UnstakeInitiated =
              map_option ur_RequestedAt (fmlookup (sm_unstakeRequests sm) provider) \<rparr>, sm))"

subsection \<open>Tier rules of the staking contract client\<close>

definition parseWei :: "string \<Rightarrow> int option" where
  "parseWei amount = map_option (\<lambda>tokens. tokens * 10 ^ 18) (SetString10 amount)"

definition determineTier :: "int \<Rightarrow> StakingTier" where
  "determineTier stake =
     (let tiers = [(StakingTierPlatinum, parseWei ''1000000000''),
                   (StakingTierGold, parseWei ''100000000''),
                   (StakingTierSilver, parseWei ''10000000''),
                   (StakingTierBronze, parseWei ''5000000''),
                   (StakingTierStarter, parseWei ''1000000'')]
      in (case List.find (\<lambda>(_, m). stake \<ge> the m) tiers of
            Some (tier, _) \<Rightarrow> tier | None \<Rightarrow> ''''))"

definition tierFromIndex :: "8 word \<Rightarrow> StakingTier" where
  "tierFromIndex index =
     (let tiers = ['''', StakingTierStarter, StakingTierBronze, StakingTierSilver,
                   StakingTierGold, StakingTierPlatinum]
      in if unat index < length tiers then tiers ! unat index else '''')"

subsection \<open>Both tier computations are the threshold table\<close>

definition tier_of :: "int \<Rightarrow> StakingTier" where
  "tier_of stake =
     (if stake \<ge> 10 ^ 27 then StakingTierPlatinum
      else if stake \<ge> 10 ^ 26 then StakingTierGold
      else if stake \<ge> 10 ^ 25 then StakingTierSilver
      else if stake \<ge> 5 * 10 ^ 24 then StakingTierBronze
      else if stake \<ge> 10 ^ 24 then StakingTierStarter
      else '''')"

lemma parseWei_values:
  "parseWei ''1000000000'' = Some (10 ^ 27)"
  "parseWei ''100000000'' = Some (10 ^ 26)"
  "parseWei ''10000000'' = Some (10 ^ 25)"
  "parseWei ''5000000'' = Some (5 * 10 ^ 24)"
  "parseWei ''1000000'' = Some (10 ^ 24)"
  by (simp_all add: parseWei_def SetString10_def)

lemma SetString10_tiers:
  "SetString10 ''1000000000000000000000000000'' = Some (10 ^ 27)"
  "SetString10 ''100000000000000000000000000'' = Some (10 ^ 26)"
  "SetString10 ''10000000000000000000000000'' = Some (10 ^ 25)"
  "SetString10 ''5000000000000000000000000'' = Some (5 * 10 ^ 24)"
  "SetString10 ''1000000000000000000000000'' = Some (10 ^ 24)"
  by (simp_all add: SetString10_def)

lemma determineTier_tier_of: "determineTier stake = tier_of stake"
  by (simp add: determineTier_def tier_of_def parseWei_values)

lemma GetTier_tier_of: "StakingManager_GetTier p sm = tier_of (StakingManager_GetStake p sm)"
  by (simp add: StakingManager_GetTier_def DefaultStakingTiers_def tierOrder_def tier_names
      tier_of_def StakingTierConfig_ParseMinStake_def SetString10_tiers fmlookup_of_list Let_def)

subsection \<open>Stakes stay non-negative\<close>

datatype sm_op =
    SMStake address int | SMSlash address int | SMSetBeneficiary time address address
  | SMGetBeneficiary time address | SMClaim time address | SMAddRewards address int
  | SMUnstake time address int | SMComplete time address

fun sm_step :: "sm_op \<Rightarrow> StakingManager \<Rightarrow> StakingManager" where
  "sm_step (SMStake p n) sm = snd (StakingManager_Stake p n sm)"
| "sm_step (SMSlash p n) sm = snd (StakingManager_Slash p n sm)"
| "sm_step (SMSetBeneficiary t p b) sm = snd (StakingManager_SetBeneficiary t p b sm)"
| "sm_step (SMGetBeneficiary t p) sm = snd (StakingManager_GetBeneficiary t p sm)"
| "sm_step (SMClaim t p) sm = snd (StakingManager_ClaimRewards t p sm)"
| "sm_step (SMAddRewards p n) sm = StakingManager_AddRewards p n sm"
| "sm_step (SMUnstake t p n) sm = snd (StakingManager_Unstake t p n sm)"
| "sm_step (SMComplete t p) sm = snd (StakingManager_CompleteUnstake t p sm)"

text \<open>
  Amounts are non-negative, and a new unstake request does not meet a matured older
  request for more than the current stake.
\<close>

fun sm_op_ok :: "sm_op \<Rightarrow> StakingManager \<Rightarrow> bool" where
  "sm_op_ok (SMStake p n) sm \<longleftrightarrow> 0 \<le> n"
| "sm_op_ok (SMSlash p n) sm \<longleftrightarrow> 0 \<le> n"
| "sm_op_ok (SMUnstake t p n) sm \<longleftrightarrow>
     (case fmlookup (sm_unstakeRequests sm) p of
        None \<Rightarrow> True
      | Some r \<Rightarrow> t_sub t (ur_RequestedAt r) < UnstakeCooldownDuration \<or>
                   ur_Amount r \<le> StakingManager_GetStake p sm)"
| "sm_op_ok _ sm \<longleftrightarrow> True"

definition sm_inv :: "StakingManager \<Rightarrow> bool" where
  "sm_inv sm \<longleftrightarrow>
     (\<forall>p n. fmlookup (sm_stakes sm) p = Some n \<longrightarrow> 0 \<le> n) \<and>
     (\<forall>p r. fmlookup (sm_unstakeRequests sm) p = Some r \<longrightarrow>
            0 < ur_Amount r \<and> fmlookup (sm_stakes sm) p \<noteq> None)"

lemma sm_inv_New [simp]: "sm_inv (NewStakingManager m)"
  by (simp add: sm_inv_def NewStakingManager_def)

lemma sm_inv_cong:
  "sm_stakes s = sm_stakes s' \<Longrightarrow> sm_unstakeRequests s = sm_unstakeRequests s' \<Longrightarrow>
   sm_inv s = sm_inv s'"
  by (simp add: sm_inv_def)

lemma beneficiary_keeps_stakes:
  "sm_stakes (snd (StakingManager_GetBeneficiary t p sm)) = sm_stakes sm"
  "sm_unstakeRequests (snd (StakingManager_GetBeneficiary t p sm)) = sm_unstakeRequests sm"
  by (auto simp: StakingManager_GetBeneficiary_def Let_def split: option.splits)

lemma sm_inv_Stake: "sm_inv sm \<Longrightarrow> 0 \<le> n \<Longrightarrow> sm_inv (snd (StakingManager_Stake p n sm))"
  by (fastforce simp: sm_inv_def StakingManager_Stake_def split: option.splits)

lemma sm_inv_Slash: "sm_inv sm \<Longrightarrow> 0 \<le> n \<Longrightarrow> sm_inv (snd (StakingManager_Slash p n sm))"
  by (fastforce simp: sm_inv_def StakingManager_Slash_def Let_def split: option.splits)

lemma sm_inv_Unstake:
  "sm_inv sm \<Longrightarrow> sm_op_ok (SMUnstake t p n) sm \<Longrightarrow> sm_inv (snd (StakingManager_Unstake t p n sm))"
  by (auto simp: sm_inv_def StakingManager_Unstake_def StakingManager_GetStake_def Let_def
      split: option.splits)

lemma sm_inv_Complete: "sm_inv sm \<Longrightarrow> sm_inv (snd (StakingManager_CompleteUnstake t p sm))"
  by (auto simp: sm_inv_def StakingManager_CompleteUnstake_def Let_def split: option.splits)

lemma ClaimRewards_keeps_stakes:
  "sm_stakes (snd (StakingManager_ClaimRewards t p sm)) = sm_stakes sm"
  "sm_unstakeRequests (snd (StakingManager_ClaimRewards t p sm)) = sm_unstakeRequests sm"
  using beneficiary_keeps_stakes [of t p sm]
  by (auto simp: StakingManager_ClaimRewards_def split: prod.splits option.splits)

lemma rewards_keep_stakes:
  "sm_stakes (StakingManager_AddRewards p n sm) = sm_stakes sm"
  "sm_unstakeRequests (StakingManager_AddRewards p n sm) = sm_unstakeRequests sm"
  "sm_stakes (snd (StakingManager_SetBeneficiary t p b sm)) = sm_stakes sm"
  "sm_unstakeRequests (snd (StakingManager_SetBeneficiary t p b sm)) = sm_unstakeRequests sm"
  by (auto simp: StakingManager_AddRewards_def StakingManager_SetBeneficiary_def split: option.splits)

lemma sm_inv_GetStake: "sm_inv sm \<Longrightarrow> 0 \<le> StakingManager_GetStake p sm"
  by (simp add: sm_inv_def StakingManager_GetStake_def split: option.splits)

lemma sm_inv_request:
  "sm_inv sm \<Longrightarrow> fmlookup (sm_unstakeRequests sm) p = Some r \<Longrightarrow> fmlookup (sm_stakes sm) p \<noteq> None"
  unfolding sm_inv_def by blast

lemma sm_inv_no_nil:
  "sm_inv sm \<Longrightarrow> fst (StakingManager_CompleteUnstake t p sm) \<noteq> Inl NilStake"
  using sm_inv_request [of sm p]
  by (auto simp: StakingManager_CompleteUnstake_def Let_def split: option.splits)

interpretation staking_runs: guarded_machine sm_step sm_op_ok sm_inv
proof
  fix s op
  assume "sm_inv s" "sm_op_ok op s"
  then show "sm_inv (sm_step op s)"
    by (cases op)
       (simp_all add: sm_inv_Stake sm_inv_Slash sm_inv_Unstake sm_inv_Complete
          sm_inv_cong [OF beneficiary_keeps_stakes] sm_inv_cong [OF ClaimRewards_keeps_stakes]
          sm_inv_cong [OF rewards_keep_stakes(1,2)] sm_inv_cong [OF rewards_keep_stakes(3,4)])
qed

subsection \<open>Properties\<close>

text \<open>From a fresh staking manager, through any sequence of calls with non-negative
  amounts in which no new unstake request meets a matured older request for more than the
  current stake, no provider's stake is ever negative, and completing an unstake never
  meets a missing stake entry.\<close>

theorem staking_nonnegative:
  assumes "run_ok sm_step sm_op_ok ops (NewStakingManager m)"
  shows "0 \<le> StakingManager_GetStake p (fold sm_step ops (NewStakingManager m)) \<and>
         fst (StakingManager_CompleteUnstake t p (fold sm_step ops (NewStakingManager m)))
           \<noteq> Inl NilStake"
proof -
  have "sm_inv (fold sm_step ops (NewStakingManager m))"
    using staking_runs.run_inv [OF sm_inv_New assms] .
  then show ?thesis by (simp add: sm_inv_GetStake sm_inv_no_nil)
qed

theorem staking_nonnegative_witness:
  "0 \<le> StakingManager_GetStake 1
      (fold sm_step [SMStake 1 100, SMUnstake 5 1 100, SMSlash 1 60] (NewStakingManager 50)) \<and>
   fst (StakingManager_CompleteUnstake 9 1
      (fold sm_step [SMStake 1 100, SMUnstake 5 1 100, SMSlash 1 60] (NewStakingManager 50)))
     \<noteq> Inl NilStake"
  by (rule staking_nonnegative)
     (simp add: NewStakingManager_def StakingManager_Stake_def StakingManager_Unstake_def)

text \<open>Completing an unstake pays out only when a request exists that was made at least
  seven days earlier; the amount paid is the requested amount capped at the stake left, the
  stake falls by exactly that amount, the request is consumed, and no other provider is
  affected.\<close>

theorem complete_unstake_correct:
  assumes "StakingManager_CompleteUnstake now p sm = (Inr paid, sm')"
  shows "\<exists>r stake. fmlookup (sm_unstakeRequests sm) p = Some r \<and>
           fmlookup (sm_stakes sm) p = Some stake \<and>
           7 * 24 * Hour \<le> now - ur_RequestedAt r \<and>
           paid = min (ur_Amount r) stake \<and>
           StakingManager_GetStake p sm' = stake - paid \<and>
           fmlookup (sm_unstakeRequests sm') p = None \<and>
           (\<forall>q. q \<noteq> p \<longrightarrow> StakingManager_GetStake q sm' = StakingManager_GetStake q sm \<and>
                  fmlookup (sm_unstakeRequests sm') q = fmlookup (sm_unstakeRequests sm) q)"
  using assms
  by (auto simp: StakingManager_CompleteUnstake_def StakingManager_GetStake_def Let_def
      UnstakeCooldownDuration_def split: option.splits if_splits)

definition sm_slashed_example :: StakingManager where
  "sm_slashed_example =
     fold sm_step [SMStake 1 100, SMUnstake 5 1 100, SMSlash 1 60] (NewStakingManager 50)"

lemma sm_slashed_example_simps:
  "sm_slashed_example =
     \<lparr> sm_stakes = fmupd 1 40 (fmupd 1 100 fmempty), sm_beneficiaries = fmempty,
       sm_pendingBeneficiary = fmempty, sm_rewards = fmempty,
       sm_unstakeRequests = fmupd 1 \<lparr> ur_Amount = 100, ur_RequestedAt = 5 \<rparr> fmempty,
       sm_minStake = 50 \<rparr>"
  by (simp add: sm_slashed_example_def NewStakingManager_def StakingManager_Stake_def
      StakingManager_Unstake_def StakingManager_Slash_def)

theorem complete_unstake_correct_witness:
  "\<exists>r stake. fmlookup (sm_unstakeRequests sm_slashed_example) 1 = Some r \<and>
     fmlookup (sm_stakes sm_slashed_example) 1 = Some stake \<and>
     7 * 24 * Hour \<le> 604800000000005 - ur_RequestedAt r \<and> 40 = min (ur_Amount r) stake"
  using complete_unstake_correct [of 604800000000005 1 sm_slashed_example 40
      "snd (StakingManager_CompleteUnstake 604800000000005 1 sm_slashed_example)"]
  by (simp add: sm_slashed_example_simps StakingManager_CompleteUnstake_def
      UnstakeCooldownDuration_def t_sub_def)

text \<open>The cooldown shortcut of \<^verbatim>\<open>Unstake\<close> does not cap a matured request at the
  slashed stake, as \<^verbatim>\<open>CompleteUnstake\<close> does: with 40 left of a stake of 100 after a
  slash, a new request executes the matured one for 100 and leaves a stake of -60, while
  reporting an error.\<close>

theorem unstake_after_slash_goes_negative:
  "StakingManager_GetStake 1 sm_slashed_example = 40 \<and>
   fst (StakingManager_Unstake 604800000000005 1 10 sm_slashed_example)
     = Some UnstakeExceedsAfterPending \<and>
   StakingManager_GetStake 1
     (snd (StakingManager_Unstake 604800000000005 1 10 sm_slashed_example)) = - 60"
  by (simp add: sm_slashed_example_simps StakingManager_Unstake_def StakingManager_GetStake_def
      UnstakeCooldownDuration_def t_sub_def)

text \<open>The staking manager and the staking-contract client assign the same tier to the
  same stake, and that tier is the highest whose minimum the stake reaches.\<close>

theorem tiers_agree:
  "StakingManager_GetTier p sm = determineTier (StakingManager_GetStake p sm) \<and>
   determineTier stake = tier_of stake"
  by (simp add: GetTier_tier_of determineTier_tier_of)

lemma pending_beneficiary:
  assumes "StakingManager_SetBeneficiary t p b sm = (None, sm')"
  shows "sm_beneficiaries sm' = sm_beneficiaries sm"
    "fmlookup (sm_pendingBeneficiary sm') p = Some \<lparr> bc_NewBeneficiary = b, bc_RequestedAt = t \<rparr>"
  using assms by (auto simp: StakingManager_SetBeneficiary_def split: option.splits if_splits)

text \<open>A beneficiary change takes effect exactly when twenty-four hours have passed since
  it was requested: before that the rewards still belong to the previous beneficiary (the
  provider itself when none was set).\<close>

theorem beneficiary_timelock:
  assumes "StakingManager_SetBeneficiary t p b sm = (None, sm')"
  shows "fst (StakingManager_GetBeneficiary u p sm') =
           (if 24 * Hour \<le> u - t then b
            else case fmlookup (sm_beneficiaries sm) p of Some old \<Rightarrow> old | None \<Rightarrow> p)"
  using pending_beneficiary [OF assms]
  by (auto simp: StakingManager_GetBeneficiary_def BeneficiaryTimelockDuration_def Let_def
      split: option.splits)

theorem beneficiary_timelock_witness:
  "fst (StakingManager_GetBeneficiary 86399999999999 1
     (snd (StakingManager_SetBeneficiary 0 1 7 sm_slashed_example))) = 1"
  using beneficiary_timelock [of 0 1 7 sm_slashed_example
      "snd (StakingManager_SetBeneficiary 0 1 7 sm_slashed_example)" 86399999999999]
  by (simp add: sm_slashed_example_simps StakingManager_SetBeneficiary_def)

end
