(* ===== verification/Stake_Verifier.thy ===== *)
theory Stake_Verifier
  imports Staking
begin

text \<open>
  Stake lookup with caching (\<^verbatim>\<open>src/internal/p2p/stake_verifier.go\<close>), the rate and ban
  tables per tier (\<^verbatim>\<open>rate_limits.go\<close>) and the stake gate (\<^verbatim>\<open>message_gate.go\<close>).
  The staking contract on the chain is not part of the repository: its answers are the
  functions of a \<open>chain_view\<close>, \<open>None\<close> for a failed call; the client code around the
  calls (\<^verbatim>\<open>StakingContract.HasMinimumStake\<close>, \<^verbatim>\<open>GetTier\<close>) is modelled.
\<close>

record chain_view =
  cv_getStake :: "address \<Rightarrow> int option"
  cv_getTier :: "address \<Rightarrow> 8 word option"
  cv_nodeIdToProvider :: "node_id \<Rightarrow> address option"

definition StakingContract_HasMinimumStake :: "chain_view \<Rightarrow> address \<Rightarrow> bool option" where
  "StakingContract_HasMinimumStake cv provider =
     map_option (\<lambda>stake. stake \<ge> the (parseWei ''1000000'')) (cv_getStake cv provider)"

definition StakingContract_GetTier :: "chain_view \<Rightarrow> address \<Rightarrow> StakingTier option" where
  "StakingContract_GetTier cv provider = map_option tierFromIndex (cv_getTier cv provider)"

subsection \<open>The verifier\<close>

definition DefaultStakeCacheTTL :: duration where "DefaultStakeCacheTTL = 5 * Minute"
definition DefaultNegativeStakeCacheTTL :: duration where
  "DefaultNegativeStakeCacheTTL = 2 * Minute"
definition DefaultErrorStakeCacheTTL :: duration where
  "DefaultErrorStakeCacheTTL = 30 * Second"

record CachedStakeInfo =
  csi_HasMinStake :: bool
  csi_Tier :: StakingTier
  csi_Amount :: "int option"
  csi_FetchedAt :: time
  csi_IsError :: bool

record StakeVerifier =
  sv_peerWallets :: "(node_id, address) gomap"
  sv_stakeCache :: "(address, CachedStakeInfo) gomap"
  sv_paymentService :: "chain_view option"
  sv_cacheTTL :: duration
  sv_negativeTTL :: duration
  sv_errorTTL :: duration

definition NewStakeVerifier :: "chain_view option \<Rightarrow> StakeVerifier" where
  "NewStakeVerifier ps =
     \<lparr> sv_peerWallets = fmempty, sv_stakeCache = fmempty, sv_paymentService = ps,
       sv_cacheTTL = DefaultStakeCacheTTL, sv_negativeTTL = DefaultNegativeStakeCacheTTL,
       sv_errorTTL = DefaultErrorStakeCacheTTL \<rparr>"

definition NewStakeVerifierWithConfig ::
    "chain_view option \<Rightarrow> duration \<Rightarrow> duration \<Rightarrow> duration \<Rightarrow> StakeVerifier" where
  "NewStakeVerifierWithConfig ps cacheTTL negativeTTL errorTTL =
     (NewStakeVerifier ps)\<lparr>sv_cacheTTL := cacheTTL, sv_negativeTTL := negativeTTL,
                           sv_errorTTL := errorTTL\<rparr>"

definition StakeVerifier_SetPaymentService :: "chain_view option \<Rightarrow> StakeVerifier \<Rightarrow> StakeVerifier" where
  "StakeVerifier_SetPaymentService ps sv = sv\<lparr>sv_paymentService := ps\<rparr>"

definition StakeVerifier_RegisterPeerWallet ::
    "node_id \<Rightarrow> address \<Rightarrow> StakeVerifier \<Rightarrow> StakeVerifier" where
  "StakeVerifier_RegisterPeerWallet nodeID wallet sv =
     sv\<lparr>sv_peerWallets := fmupd nodeID wallet (sv_peerWallets sv)\<rparr>"

definition StakeVerifier_HasAnnounced :: "node_id \<Rightarrow> StakeVerifier \<Rightarrow> bool" where
  "StakeVerifier_HasAnnounced nodeID sv \<longleftrightarrow> fmlookup (sv_peerWallets sv) nodeID \<noteq> None"

definition StakeVerifier_GetWallet :: "node_id \<Rightarrow> StakeVerifier \<Rightarrow> address option" where
  "StakeVerifier_GetWallet nodeID sv = fmlookup (sv_peerWallets sv) nodeID"

definition StakeVerifier_fetchStakeInfo :: "time \<Rightarrow> address \<Rightarrow> chain_view \<Rightarrow> CachedStakeInfo" where
  "StakeVerifier_fetchStakeInfo now wallet ps =
     (case StakingContract_HasMinimumStake ps wallet of
        None \<Rightarrow> \<lparr> csi_HasMinStake = False, csi_Tier = '''', csi_Amount = None,
                  csi_FetchedAt = now, csi_IsError = True \<rparr>
      | Some hasMinStake \<Rightarrow>
          (case StakingContract_GetTier ps wallet of
             None \<Rightarrow> \<lparr> csi_HasMinStake = hasMinStake, csi_Tier = '''', csi_Amount = None,
                       csi_FetchedAt = now, csi_IsError = True \<rparr>
           | Some tier \<Rightarrow> \<lparr> csi_HasMinStake = hasMinStake, csi_Tier = tier,
                            csi_Amount = cv_getStake ps wallet,
                            csi_FetchedAt = now, csi_IsError = False \<rparr>))"

definition cache_ttl :: "CachedStakeInfo \<Rightarrow> StakeVerifier \<Rightarrow> duration" where
  "cache_ttl cached sv =
     (if csi_IsError cached then sv_errorTTL sv
      else if \<not> csi_HasMinStake cached then sv_negativeTTL sv
      else sv_cacheTTL sv)"

definition StakeVerifier_getCachedOrFetch ::
    "time \<Rightarrow> address \<Rightarrow> chain_view \<Rightarrow> StakeVerifier \<Rightarrow> CachedStakeInfo \<times> StakeVerifier" where
  "StakeVerifier_getCachedOrFetch now wallet ps sv =
     (let fetch = (let info = StakeVerifier_fetchStakeInfo now wallet ps in
                   (info, sv\<lparr>sv_stakeCache := fmupd wallet info (sv_stakeCache sv)\<rparr>))
      in (case fmlookup (sv_stakeCache sv) wallet of
            Some cached \<Rightarrow>
              if t_sub now (csi_FetchedAt cached) < cache_ttl cached sv then (cached, sv) else fetch
          | None \<Rightarrow> fetch))"

definition StakeVerifier_IsStaked :: "time \<Rightarrow> node_id \<Rightarrow> StakeVerifier \<Rightarrow> bool \<times> StakeVerifier" where
  "StakeVerifier_IsStaked now nodeID sv =
     (case fmlookup (sv_peerWallets sv) nodeID of
        None \<Rightarrow> (False, sv)
      | Some wallet \<Rightarrow>
          (case sv_paymentService sv of
             None \<Rightarrow> (False, sv)
           | Some ps \<Rightarrow>
               let (info, sv) = StakeVerifier_getCachedOrFetch now wallet ps sv
               in (csi_HasMinStake info, sv)))"

definition StakeVerifier_GetTier :: "time \<Rightarrow> node_id \<Rightarrow> StakeVerifier \<Rightarrow> string \<times> StakeVerifier" where
  "StakeVerifier_GetTier now nodeID sv =
     (case fmlookup (sv_peerWallets sv) nodeID of
        None \<Rightarrow> (''unstaked'', sv)
      | Some wallet \<Rightarrow>
          (case sv_paymentService sv of
             None \<Rightarrow> (''unknown'', sv)
           | Some ps \<Rightarrow>
               let (info, sv) = StakeVerifier_getCachedOrFetch now wallet ps sv
               in if csi_IsError info then (''unknown'', sv)
                  else if \<not> csi_HasMinStake info then (''unstaked'', sv)
                  else (csi_Tier info, sv)))"

definition StakeVerifier_RemovePeer :: "node_id \<Rightarrow> StakeVerifier \<Rightarrow> StakeVerifier" where
  "StakeVerifier_RemovePeer nodeID sv =
     (case fmlookup (sv_peerWallets sv) nodeID of
        None \<Rightarrow> sv
      | Some wallet \<Rightarrow>
          let wallets = fmdrop nodeID (sv_peerWallets sv);
              walletInUse = fBex (fmran wallets) (\<lambda>w. w = wallet)
          in sv\<lparr>sv_peerWallets := wallets,
                sv_stakeCache := (if \<not> walletInUse then fmdrop wallet (sv_stakeCache sv)
                                  else sv_stakeCache sv)\<rparr>)"

definition StakeVerifier_PeerCount :: "StakeVerifier \<Rightarrow> nat" where
  "StakeVerifier_PeerCount sv = mlen (sv_peerWallets sv)"

definition StakeVerifier_InvalidateWallet :: "address \<Rightarrow> StakeVerifier \<Rightarrow> StakeVerifier" where
  "StakeVerifier_InvalidateWallet wallet sv = sv\<lparr>sv_stakeCache := fmdrop wallet (sv_stakeCache sv)\<rparr>"

text \<open>The identifier's bytes go to the contract unchanged: its hexadecimal text is parsed back.\<close>

definition StakeVerifier_VerifyNodeIDOnChain :: "node_id \<Rightarrow> address \<Rightarrow> StakeVerifier \<Rightarrow> bool" where
  "StakeVerifier_VerifyNodeIDOnChain nodeID wallet sv =
     (case sv_paymentService sv of
        None \<Rightarrow> True
      | Some ps \<Rightarrow>
          (case cv_nodeIdToProvider ps nodeID of
             None \<Rightarrow> True
           | Some registeredAddr \<Rightarrow>
               if registeredAddr = 0 then True else registeredAddr = wallet))"

subsection \<open>Tables per tier\<close>

record TierRateLimit =
  trl_Rate :: int
  trl_Burst :: int

definition tierRateLimits :: "(string, TierRateLimit) gomap" where
  "tierRateLimits = fmap_of_list
     [(''unstaked'', \<lparr> trl_Rate = 10, trl_Burst = 20 \<rparr>),
      (''unknown'', \<lparr> trl_Rate = 20, trl_Burst = 40 \<rparr>),
      (StakingTierStarter, \<lparr> trl_Rate = 50, trl_Burst = 100 \<rparr>),
      (StakingTierBronze, \<lparr> trl_Rate = 100, trl_Burst = 200 \<rparr>),
      (StakingTierSilver, \<lparr> trl_Rate = 200, trl_Burst = 400 \<rparr>),
      (StakingTierGold, \<lparr> trl_Rate = 500, trl_Burst = 1000 \<rparr>),
      (StakingTierPlatinum, \<lparr> trl_Rate = 1000, trl_Burst = 2000 \<rparr>)]"

definition tierBanDurations :: "(string, duration) gomap" where
  "tierBanDurations = fmap_of_list
     [(''unstaked'', 1 * Hour), (''unknown'', 1 * Hour),
      (StakingTierStarter, 30 * Minute), (StakingTierBronze, 30 * Minute),
      (StakingTierSilver, 15 * Minute), (StakingTierGold, 5 * Minute),
      (StakingTierPlatinum, 5 * Minute)]"

definition GetTierRateLimit :: "string \<Rightarrow> TierRateLimit" where
  "GetTierRateLimit tier =
     (case fmlookup tierRateLimits tier of
        Some rl \<Rightarrow> rl
      | None \<Rightarrow> the (fmlookup tierRateLimits ''unstaked''))"

definition GetTierBanDuration :: "string \<Rightarrow> duration" where
  "GetTierBanDuration tier =
     (case fmlookup tierBanDurations tier of
        Some d \<Rightarrow> d
      | None \<Rightarrow> the (fmlookup tierBanDurations ''unstaked''))"

subsection \<open>The stake gate\<close>

type_synonym MessageType = string

definition RequiresStake :: "MessageType \<Rightarrow> bool" where
  "RequiresStake msgType =
     (if msgType \<in> set [''ping'', ''pong'', ''find_node'', ''nodes'', ''health'', ''announce'']
      then False
      else if msgType \<in> set [''deploy'', ''deploy_ack'', ''bid'', ''gossip'', ''container_status'',
               ''replica_sync'', ''logs'', ''stop'', ''delete'', ''exec_open'', ''exec_data'',
               ''exec_resize'', ''exec_close'']
      then True
      else True)"

subsection \<open>The cache answers for the chain within its time to live\<close>

lemmas sv_ttl_defs = DefaultStakeCacheTTL_def DefaultNegativeStakeCacheTTL_def DefaultErrorStakeCacheTTL_def

text \<open>
  The chain changes over time: \<open>cvs t\<close> is what it answers at \<open>t\<close>.  Every cached entry
  was fetched from the chain at the time its stamp says.
\<close>

definition sv_cache_from :: "(time \<Rightarrow> chain_view) \<Rightarrow> StakeVerifier \<Rightarrow> bool" where
  "sv_cache_from cvs sv \<longleftrightarrow>
     (\<forall>w info. fmlookup (sv_stakeCache sv) w = Some info \<longrightarrow>
        info = StakeVerifier_fetchStakeInfo (csi_FetchedAt info) w (cvs (csi_FetchedAt info)))"

definition sv_default_ttls :: "StakeVerifier \<Rightarrow> bool" where
  "sv_default_ttls sv \<longleftrightarrow>
     sv_cacheTTL sv = DefaultStakeCacheTTL \<and> sv_negativeTTL sv = DefaultNegativeStakeCacheTTL \<and>
     sv_errorTTL sv = DefaultErrorStakeCacheTTL"

lemma fetch_FetchedAt [simp]: "csi_FetchedAt (StakeVerifier_fetchStakeInfo now w ps) = now"
  by (simp add: StakeVerifier_fetchStakeInfo_def split: option.splits)

lemma fetch_HasMinStake:
  "csi_HasMinStake (StakeVerifier_fetchStakeInfo now w ps) \<longleftrightarrow>
     (case cv_getStake ps w of Some stake \<Rightarrow> 10 ^ 24 \<le> stake | None \<Rightarrow> False)"
  by (simp add: StakeVerifier_fetchStakeInfo_def StakingContract_HasMinimumStake_def parseWei_values
      split: option.splits)

lemma cache_ttl_bound: "sv_default_ttls sv \<Longrightarrow> cache_ttl c sv \<le> 5 * Minute"
  by (simp add: cache_ttl_def sv_default_ttls_def sv_ttl_defs)

lemma getCachedOrFetch_fresh:
  assumes "sv_cache_from cvs sv" "sv_default_ttls sv"
    and "StakeVerifier_getCachedOrFetch now w (cvs now) sv = (info, sv')"
  shows "info = StakeVerifier_fetchStakeInfo (csi_FetchedAt info) w (cvs (csi_FetchedAt info)) \<and>
         now - csi_FetchedAt info < 5 * Minute \<and> sv_cache_from cvs sv'"
proof (cases "fmlookup (sv_stakeCache sv) w")
  case None
  then show ?thesis using assms
    by (auto simp: StakeVerifier_getCachedOrFetch_def Let_def sv_cache_from_def split: if_splits)
next
  case (Some c)
  show ?thesis
  proof (cases "t_sub now (csi_FetchedAt c) < cache_ttl c sv")
    case True
    then have "t_sub now (csi_FetchedAt c) < 5 * Minute" using cache_ttl_bound [OF assms(2), of c] by linarith
    then have "now - csi_FetchedAt c < 5 * Minute" by simp
    then show ?thesis using assms Some True
      by (auto simp: StakeVerifier_getCachedOrFetch_def Let_def sv_cache_from_def)
  next
    case False
    then show ?thesis using assms Some
      by (auto simp: StakeVerifier_getCachedOrFetch_def Let_def sv_cache_from_def split: if_splits)
  qed
qed

lemma sv_cache_from_ops [intro]:
  assumes "sv_cache_from cvs sv"
  shows "sv_cache_from cvs (StakeVerifier_RegisterPeerWallet n w sv)"
    and "sv_cache_from cvs (StakeVerifier_RemovePeer n sv)"
    and "sv_cache_from cvs (StakeVerifier_InvalidateWallet w sv)"
    and "sv_cache_from cvs (StakeVerifier_SetPaymentService ps sv)"
  using assms
  by (auto simp: sv_cache_from_def StakeVerifier_RegisterPeerWallet_def StakeVerifier_RemovePeer_def
      StakeVerifier_InvalidateWallet_def StakeVerifier_SetPaymentService_def Let_def split: option.splits)

lemma IsStaked_fresh:
  assumes "sv_cache_from cvs sv" "sv_default_ttls sv" "sv_paymentService sv = Some (cvs now)"
    and "StakeVerifier_IsStaked now n sv = (True, sv')"
  shows "\<exists>w t stake. StakeVerifier_GetWallet n sv = Some w \<and> now - t < 5 * Minute \<and>
           cv_getStake (cvs t) w = Some stake \<and> 1000000 * 10 ^ 18 \<le> stake \<and>
           sv_cache_from cvs sv'"
proof -
  obtain w where w: "fmlookup (sv_peerWallets sv) n = Some w"
    using assms(4) by (auto simp: StakeVerifier_IsStaked_def split: option.splits)
  obtain info sv'' where c: "StakeVerifier_getCachedOrFetch now w (cvs now) sv = (info, sv'')"
    by fastforce
  have "csi_HasMinStake info" "sv'' = sv'"
    using assms(3,4) w c by (auto simp: StakeVerifier_IsStaked_def)
  with getCachedOrFetch_fresh [OF assms(1,2) c]
  have "csi_HasMinStake (StakeVerifier_fetchStakeInfo (csi_FetchedAt info) w (cvs (csi_FetchedAt info)))"
    and "now - csi_FetchedAt info < 5 * Minute" "sv_cache_from cvs sv'" by auto
  then show ?thesis
    using w by (auto simp: fetch_HasMinStake StakeVerifier_GetWallet_def split: option.splits)
qed

lemma requires_stake_gated: "RequiresStake ''deploy''"
  by (simp add: RequiresStake_def)

subsection \<open>Properties\<close>

text \<open>When the verifier answers that a peer is staked, the peer has announced a wallet
  and the chain reported at least 1,000,000 tokens for that wallet less than five minutes
  ago, and the cache still holds only chain answers afterwards.\<close>

theorem is_staked_fresh:
  assumes "sv_cache_from cvs sv" "sv_default_ttls sv" "sv_paymentService sv = Some (cvs now)"
    and "StakeVerifier_IsStaked now n sv = (True, sv')"
  shows "\<exists>w t stake. StakeVerifier_GetWallet n sv = Some w \<and> now - t < 5 * Minute \<and>
           cv_getStake (cvs t) w = Some stake \<and> 1000000 * 10 ^ 18 \<le> stake \<and>
           sv_cache_from cvs sv'"
  using assms by (rule IsStaked_fresh)

definition example_chain :: chain_view where
  "example_chain = \<lparr> cv_getStake = (\<lambda>w. if w = 9 then Some (2 * 10 ^ 24) else Some 0),
                     cv_getTier = (\<lambda>w. Some 1), cv_nodeIdToProvider = (\<lambda>n. None) \<rparr>"

definition example_verifier :: StakeVerifier where
  "example_verifier = StakeVerifier_RegisterPeerWallet 3 9 (NewStakeVerifier (Some example_chain))"

lemma example_verifier_facts:
  "sv_cache_from (\<lambda>_. example_chain) example_verifier" "sv_default_ttls example_verifier"
  "sv_paymentService example_verifier = Some example_chain"
  "fst (StakeVerifier_IsStaked now 3 example_verifier)"
  by (simp_all add: sv_cache_from_def example_verifier_def StakeVerifier_RegisterPeerWallet_def
      NewStakeVerifier_def sv_default_ttls_def StakeVerifier_IsStaked_def
      StakeVerifier_getCachedOrFetch_def fetch_HasMinStake example_chain_def Let_def)

theorem is_staked_fresh_witness:
  "\<exists>w t stake. StakeVerifier_GetWallet 3 example_verifier = Some w \<and> 100 - t < 5 * Minute \<and>
     cv_getStake example_chain w = Some stake \<and> 1000000 * 10 ^ 18 \<le> stake"
  using is_staked_fresh [of "\<lambda>_. example_chain" example_verifier 100 3
      "snd (StakeVerifier_IsStaked 100 3 example_verifier)"] example_verifier_facts(1-3)
    example_verifier_facts(4) [of 100]
  by (metis prod.collapse)

text \<open>A message type needs no stake exactly when it is one of the six discovery and
  liveness types; every other type, unknown ones included, is gated.\<close>

lemma requires_stake_fail_closed:
  "\<not> RequiresStake t \<longleftrightarrow>
     t = ''ping'' \<or> t = ''pong'' \<or> t = ''find_node'' \<or> t = ''nodes'' \<or> t = ''health'' \<or> t = ''announce''"
  by (auto simp: RequiresStake_def)

end
