(* ===== verification/Peer_Scorer.thy ===== *)
theory Peer_Scorer
  imports Ban_List Go_Float
begin

text \<open>
  Behavioural scoring of peers (\<^verbatim>\<open>src/internal/p2p/peer_scorer.go\<close>).  Scores are
  \<^verbatim>\<open>float64\<close> values with every addition rounded.  The scorer holds pointers to the ban
  list and to the stake verifier: the flags \<open>ps_banListSet\<close> and \<open>ps_stakeVerifierSet\<close> say
  whether they are non-nil, the ban list itself is threaded through the operations, and
  \<open>announced\<close> is the verifier's \<^verbatim>\<open>HasAnnounced\<close>.
\<close>

datatype PeerEvent =
    PeerEventValidMessage | PeerEventInvalidMessage | PeerEventFailedDeploy
  | PeerEventGossipSpam | PeerEventRateLimitHit | PeerEventMalformedPayload
  | PeerEventGoodUptime | PeerEventOther string

definition eventDeltas :: "PeerEvent \<Rightarrow> rat option" where
  "eventDeltas e =
     (case e of
        PeerEventValidMessage \<Rightarrow> Some (round64 (1 / 1000))
      | PeerEventInvalidMessage \<Rightarrow> Some (round64 (- 5 / 100))
      | PeerEventFailedDeploy \<Rightarrow> Some (round64 (- 10 / 100))
      | PeerEventGossipSpam \<Rightarrow> Some (round64 (- 3 / 100))
      | PeerEventRateLimitHit \<Rightarrow> Some (round64 (- 2 / 100))
      | PeerEventMalformedPayload \<Rightarrow> Some (round64 (- 5 / 100))
      | PeerEventGoodUptime \<Rightarrow> Some (round64 (1 / 100))
      | PeerEventOther _ \<Rightarrow> None)"

record PeerScorerConfig =
  psc_WarnThreshold :: rat
  psc_ThrottleThreshold :: rat
  psc_BanThreshold :: rat
  psc_DecayInterval :: duration
  psc_DecayRate :: rat

definition DefaultPeerScorerConfig :: PeerScorerConfig where
  "DefaultPeerScorerConfig =
     \<lparr> psc_WarnThreshold = round64 (3 / 10), psc_ThrottleThreshold = round64 (2 / 10),
       psc_BanThreshold = round64 (1 / 10), psc_DecayInterval = 1 * Hour,
       psc_DecayRate = round64 (1 / 100) \<rparr>"

record PeerScore =
  pscore_Score :: rat
  pscore_InvalidMessages :: "64 word"
  pscore_FailedDeploys :: "64 word"
  pscore_GossipSpam :: "64 word"
  pscore_RateLimitHits :: "64 word"
  pscore_LastUpdate :: time

record PeerScorer =
  ps_scores :: "(node_id, PeerScore) gomap"
  ps_config :: PeerScorerConfig
  ps_banListSet :: bool
  ps_stakeVerifierSet :: bool

definition NewPeerScorer :: "PeerScorerConfig option \<Rightarrow> PeerScorer" where
  "NewPeerScorer config =
     \<lparr> ps_scores = fmempty,
       ps_config = (case config of None \<Rightarrow> DefaultPeerScorerConfig | Some c \<Rightarrow> c),
       ps_banListSet = False, ps_stakeVerifierSet = False \<rparr>"

definition PeerScorer_SetBanList :: "PeerScorer \<Rightarrow> PeerScorer" where
  "PeerScorer_SetBanList ps = ps\<lparr>ps_banListSet := True\<rparr>"

definition PeerScorer_SetStakeVerifier :: "PeerScorer \<Rightarrow> PeerScorer" where
  "PeerScorer_SetStakeVerifier ps = ps\<lparr>ps_stakeVerifierSet := True\<rparr>"

definition PeerScorer_checkThresholds ::
    "time \<Rightarrow> node_id \<Rightarrow> PeerScore \<Rightarrow> (node_id \<Rightarrow> bool) \<Rightarrow> PeerScorer \<Rightarrow> BanList \<Rightarrow> BanList" where
  "PeerScorer_checkThresholds now nodeID score announced ps bl =
     (if pscore_Score score < psc_BanThreshold (ps_config ps) then
        if ps_banListSet ps then
          let banDuration = (if ps_stakeVerifierSet ps \<and> \<not> announced nodeID then 0 else 1 * Hour)
          in BanList_Ban now nodeID ''peer score below ban threshold'' banDuration bl
        else bl
      else bl)"

definition count_event :: "PeerEvent \<Rightarrow> PeerScore \<Rightarrow> PeerScore" where
  "count_event event score =
     (case event of
        PeerEventInvalidMessage \<Rightarrow>
          score\<lparr>pscore_InvalidMessages := pscore_InvalidMessages score + 1\<rparr>
      | PeerEventFailedDeploy \<Rightarrow> score\<lparr>pscore_FailedDeploys := pscore_FailedDeploys score + 1\<rparr>
      | PeerEventGossipSpam \<Rightarrow> score\<lparr>pscore_GossipSpam := pscore_GossipSpam score + 1\<rparr>
      | PeerEventRateLimitHit \<Rightarrow> score\<lparr>pscore_RateLimitHits := pscore_RateLimitHits score + 1\<rparr>
      | _ \<Rightarrow> score)"

definition clamp01 :: "rat \<Rightarrow> rat" where
  "clamp01 x = (let x = (if x > 1 then 1 else x) in if x < 0 then 0 else x)"

definition PeerScorer_RecordEvent ::
    "time \<Rightarrow> node_id \<Rightarrow> PeerEvent \<Rightarrow> (node_id \<Rightarrow> bool) \<Rightarrow> PeerScorer \<Rightarrow> BanList \<Rightarrow>
     PeerScorer \<times> BanList" where
  "PeerScorer_RecordEvent now nodeID event announced ps bl =
     (case eventDeltas event of
        None \<Rightarrow> (ps, bl)
      | Some delta \<Rightarrow>
          let score = (case fmlookup (ps_scores ps) nodeID of
                         Some s \<Rightarrow> s
                       | None \<Rightarrow> \<lparr> pscore_Score = 1 / 2, pscore_InvalidMessages = 0,
                                   pscore_FailedDeploys = 0, pscore_GossipSpam = 0,
                                   pscore_RateLimitHits = 0, pscore_LastUpdate = now \<rparr>);
              score = score\<lparr>pscore_Score := clamp01 (round64 (pscore_Score score + delta)),
                            pscore_LastUpdate := now\<rparr>;
              score = count_event event score
          in (ps\<lparr>ps_scores := fmupd nodeID score (ps_scores ps)\<rparr>,
              PeerScorer_checkThresholds now nodeID score announced ps bl))"

definition PeerScorer_GetScore :: "node_id \<Rightarrow> PeerScorer \<Rightarrow> rat" where
  "PeerScorer_GetScore nodeID ps =
     (case fmlookup (ps_scores ps) nodeID of Some s \<Rightarrow> pscore_Score s | None \<Rightarrow> 1 / 2)"

definition PeerScorer_GetPeerScore :: "node_id \<Rightarrow> PeerScorer \<Rightarrow> PeerScore option" where
  "PeerScorer_GetPeerScore nodeID ps = fmlookup (ps_scores ps) nodeID"

definition decay_score :: "rat \<Rightarrow> rat \<Rightarrow> rat" where
  "decay_score rate s =
     (if s > 1 / 2 then
        let s' = round64 (s - rate) in if s' < 1 / 2 then 1 / 2 else s'
      else if s < 1 / 2 then
        let s' = round64 (s + rate) in if s' > 1 / 2 then 1 / 2 else s'
      else s)"

definition PeerScorer_DecayScores :: "PeerScorer \<Rightarrow> PeerScorer" where
  "PeerScorer_DecayScores ps =
     ps\<lparr>ps_scores := fmmap (\<lambda>score.
          score\<lparr>pscore_Score := decay_score (psc_DecayRate (ps_config ps)) (pscore_Score score)\<rparr>)
          (ps_scores ps)\<rparr>"

definition PeerScorer_RemovePeer :: "node_id \<Rightarrow> PeerScorer \<Rightarrow> PeerScorer" where
  "PeerScorer_RemovePeer nodeID ps = ps\<lparr>ps_scores := fmdrop nodeID (ps_scores ps)\<rparr>"

definition PeerScorer_PeerCount :: "PeerScorer \<Rightarrow> nat" where
  "PeerScorer_PeerCount ps = mlen (ps_scores ps)"

datatype ps_op = PSRecord time node_id PeerEvent | PSDecay | PSRemove node_id

fun ps_step :: "(node_id \<Rightarrow> bool) \<Rightarrow> ps_op \<Rightarrow> PeerScorer \<times> BanList \<Rightarrow> PeerScorer \<times> BanList" where
  "ps_step ann (PSRecord now n e) (ps, bl) = PeerScorer_RecordEvent now n e ann ps bl"
| "ps_step ann PSDecay (ps, bl) = (PeerScorer_DecayScores ps, bl)"
| "ps_step ann (PSRemove n) (ps, bl) = (PeerScorer_RemovePeer n ps, bl)"

text \<open>Every score is a representable number between 0 and 1; the decay rate is not negative.\<close>

definition score_ok :: "rat \<Rightarrow> bool" where
  "score_ok s \<longleftrightarrow> 0 \<le> s \<and> s \<le> 1 \<and> round64 s = s"

definition ps_inv :: "PeerScorer \<Rightarrow> bool" where
  "ps_inv ps \<longleftrightarrow>
     0 \<le> psc_DecayRate (ps_config ps) \<and>
     (\<forall>n s. fmlookup (ps_scores ps) n = Some s \<longrightarrow> score_ok (pscore_Score s))"

subsection \<open>Scores stay between 0 and 1\<close>

lemma round64_facts [simp]: "round64 0 = 0" "round64 (round64 x) = round64 x"
  by (simp_all add: round64_def)

lemma ilog2_half: "ilog2 (1 / 2) = - 1" "ilog2 1 = 0"
  by (rule ilog2_unique; simp)+

lemma round64_half [simp]: "round64 (1 / 2) = 1 / 2" "round64 1 = 1"
proof -
  have "round_ulp (- 53) (2 powi (- 1)) = 2 powi (- 1)" by (rule round_ulp_powi) simp
  then show "round64 (1 / 2) = 1 / 2" by (simp add: round64_def round_signed_def ulp64_def ilog2_half)
  have "round_ulp (- 52) (2 powi 0) = 2 powi 0" by (rule round_ulp_powi) simp
  then show "round64 1 = 1" by (simp add: round64_def round_signed_def ulp64_def ilog2_half)
qed

lemma round64_le: "x \<le> r \<Longrightarrow> round64 r = r \<Longrightarrow> round64 x \<le> r"
  using f64.rnd_le_representable [of x r] by (simp add: round64_def)

lemma round64_ge: "r \<le> x \<Longrightarrow> round64 r = r \<Longrightarrow> r \<le> round64 x"
  using f64.rnd_ge_representable [of r x] by (simp add: round64_def)

lemma score_ok_clamp: "score_ok (clamp01 (round64 x))"
  by (simp add: score_ok_def clamp01_def Let_def)

lemma score_ok_decay: "score_ok s \<Longrightarrow> 0 \<le> r \<Longrightarrow> score_ok (decay_score r s)"
  using round64_le [of "s - r" s] round64_ge [of s "s + r"]
  by (auto simp: score_ok_def decay_score_def Let_def)

lemma count_event_Score [simp]: "pscore_Score (count_event e s) = pscore_Score s"
  by (simp add: count_event_def split: PeerEvent.splits)

lemma ps_inv_Record: "ps_inv ps \<Longrightarrow> ps_inv (fst (PeerScorer_RecordEvent now n e ann ps bl))"
  by (simp add: PeerScorer_RecordEvent_def ps_inv_def Let_def score_ok_clamp split: option.splits)

lemma ps_inv_Decay: "ps_inv ps \<Longrightarrow> ps_inv (PeerScorer_DecayScores ps)"
  by (auto simp: PeerScorer_DecayScores_def ps_inv_def score_ok_decay)

lemma ps_inv_Remove: "ps_inv ps \<Longrightarrow> ps_inv (PeerScorer_RemovePeer n ps)"
  by (simp add: PeerScorer_RemovePeer_def ps_inv_def)

interpretation scorer_runs: guarded_machine "ps_step ann" "\<lambda>_ _. True" "\<lambda>s. ps_inv (fst s)" for ann
proof
  fix s :: "PeerScorer \<times> BanList" and op
  assume "ps_inv (fst s)"
  then show "ps_inv (fst (ps_step ann op s))"
    by (cases s; cases op) (simp_all add: ps_inv_Record ps_inv_Decay ps_inv_Remove)
qed

lemma ps_inv_New [simp]: "ps_inv (NewPeerScorer None)"
  using round64_ge [of 0 "1 / 100"]
  by (simp add: ps_inv_def NewPeerScorer_def DefaultPeerScorerConfig_def)

text \<open>Decay never moves a score away from the neutral value and never past it.\<close>

lemma decay_towards_half:
  assumes "score_ok s" "0 \<le> r"
  shows "\<bar>decay_score r s - 1 / 2\<bar> \<le> \<bar>s - 1 / 2\<bar> \<and> (decay_score r s - 1 / 2) * (s - 1 / 2) \<ge> 0"
  using assms round64_le [of "s - r" s] round64_ge [of s "s + r"]
  by (auto simp: score_ok_def decay_score_def Let_def abs_if mult_nonneg_nonneg mult_nonpos_nonpos)

lemma recorded_score_banned:
  assumes "ps_banListSet ps" "0 < now"
    and "PeerScorer_RecordEvent now n e ann ps bl = (ps', bl')" "eventDeltas e \<noteq> None"
    and "PeerScorer_GetScore n ps' < psc_BanThreshold (ps_config ps)"
  shows "BanList_IsBanned u n bl' \<longleftrightarrow> (ps_stakeVerifierSet ps \<and> \<not> ann n) \<or> u \<le> now + 1 * Hour"
  using assms
  by (auto simp: PeerScorer_RecordEvent_def PeerScorer_GetScore_def PeerScorer_checkThresholds_def
      Let_def bans.denied_deny split: option.splits if_splits)

subsection \<open>Properties\<close>

text \<open>Through any sequence of recorded events, decays and removals every score stays
  between 0 and 1, and a further decay moves it no further from the neutral score and never
  across it.\<close>

theorem scores_stay_bounded:
  assumes "fold (ps_step ann) ops (NewPeerScorer None, bl) = (ps, bl')"
  shows "0 \<le> PeerScorer_GetScore n ps \<and> PeerScorer_GetScore n ps \<le> 1 \<and>
         \<bar>PeerScorer_GetScore n (PeerScorer_DecayScores ps) - 1 / 2\<bar> \<le> \<bar>PeerScorer_GetScore n ps - 1 / 2\<bar> \<and>
         0 \<le> (PeerScorer_GetScore n (PeerScorer_DecayScores ps) - 1 / 2) * (PeerScorer_GetScore n ps - 1 / 2)"
proof -
  have "ps_inv (fst (fold (ps_step ann) ops (NewPeerScorer None, bl)))"
    by (rule scorer_runs.run_inv) simp_all
  then have inv: "ps_inv ps" using assms by simp
  show ?thesis
  proof (cases "fmlookup (ps_scores ps) n")
    case (Some s)
    then have "score_ok (pscore_Score s)" "0 \<le> psc_DecayRate (ps_config ps)"
      using inv by (auto simp: ps_inv_def)
    from decay_towards_half [OF this] this(1) show ?thesis
      by (simp add: PeerScorer_GetScore_def PeerScorer_DecayScores_def Some score_ok_def)
  qed (simp add: PeerScorer_GetScore_def PeerScorer_DecayScores_def)
qed

theorem scores_stay_bounded_witness:
  "0 \<le> PeerScorer_GetScore 5 (fst (fold (ps_step (\<lambda>_. True))
     [PSRecord 1 5 PeerEventFailedDeploy, PSDecay, PSRecord 2 5 PeerEventGossipSpam] (NewPeerScorer None, NewBanList)))"
  using scores_stay_bounded [of "\<lambda>_. True"
      "[PSRecord 1 5 PeerEventFailedDeploy, PSDecay, PSRecord 2 5 PeerEventGossipSpam]" NewBanList
      "fst (fold (ps_step (\<lambda>_. True)) [PSRecord 1 5 PeerEventFailedDeploy, PSDecay,
          PSRecord 2 5 PeerEventGossipSpam] (NewPeerScorer None, NewBanList))"
      "snd (fold (ps_step (\<lambda>_. True)) [PSRecord 1 5 PeerEventFailedDeploy, PSDecay,
          PSRecord 2 5 PeerEventGossipSpam] (NewPeerScorer None, NewBanList))" 5]
  by simp

definition example_scorer :: PeerScorer where
  "example_scorer = fst (fold (ps_step (\<lambda>_. True))
     (replicate 4 (PSRecord 1 5 PeerEventFailedDeploy))
     (PeerScorer_SetBanList (NewPeerScorer None), NewBanList))"

text \<open>When a ban list is attached, an event that leaves a peer's score below the ban
  threshold bans the peer: permanently if a stake verifier is attached and the peer never
  announced a wallet, otherwise for exactly one hour.\<close>

theorem low_score_bans:
  assumes "ps_banListSet ps" "0 < now"
    and "PeerScorer_RecordEvent now n e ann ps bl = (ps', bl')" "eventDeltas e \<noteq> None"
    and "PeerScorer_GetScore n ps' < psc_BanThreshold (ps_config ps)"
  shows "BanList_IsBanned u n bl' \<longleftrightarrow> (ps_stakeVerifierSet ps \<and> \<not> ann n) \<or> u \<le> now + 1 * Hour"
  using assms by (rule recorded_score_banned)

theorem low_score_bans_witness:
  "BanList_IsBanned 100 5 (snd (PeerScorer_RecordEvent 2 5 PeerEventFailedDeploy (\<lambda>_. True) example_scorer NewBanList))"
proof -
  let ?r = "PeerScorer_RecordEvent 2 5 PeerEventFailedDeploy (\<lambda>_. True) example_scorer NewBanList"
  have "ps_banListSet example_scorer" by code_simp
  moreover have "eventDeltas PeerEventFailedDeploy \<noteq> None" by (simp add: eventDeltas_def)
  moreover have "PeerScorer_GetScore 5 (fst ?r) < psc_BanThreshold (ps_config example_scorer)" by code_simp
  ultimately have "BanList_IsBanned 100 5 (snd ?r) \<longleftrightarrow>
      (ps_stakeVerifierSet example_scorer \<and> \<not> True) \<or> (100::int) \<le> 2 + 1 * Hour"
    using low_score_bans [of example_scorer 2 5 PeerEventFailedDeploy "\<lambda>_. True" NewBanList "fst ?r" "snd ?r" 100]
    by simp
  then show ?thesis by simp
qed

end
