(* ===== verification/Diversity.thy ===== *)
theory Diversity
  imports Subnet_Limiter Go_Float "HOL-Library.Multiset"
begin

text \<open>
  Eclipse prevention (\<^verbatim>\<open>src/internal/p2p/diversity.go\<close>): the share of peers of one
  region or one /16 network is bounded.  The counters implement a multiset of
  (region, network) pairs; this is the specification the router relies on.
\<close>

record PeerDiversityEnforcer =
  pde_regionCounts :: "(string, int) gomap"
  pde_subnetCounts :: "(string, int) gomap"
  pde_totalPeers :: int
  pde_maxRegionShare :: rat
  pde_maxSubnetShare :: rat
  pde_minRegions :: int

definition NewPeerDiversityEnforcer :: PeerDiversityEnforcer where
  "NewPeerDiversityEnforcer =
     \<lparr> pde_regionCounts = fmempty, pde_subnetCounts = fmempty, pde_totalPeers = 0,
       pde_maxRegionShare = 1 / 2, pde_maxSubnetShare = round64 (3 / 10), pde_minRegions = 2 \<rparr>"

definition NewPeerDiversityEnforcerWithConfig :: "rat \<Rightarrow> rat \<Rightarrow> int \<Rightarrow> PeerDiversityEnforcer" where
  "NewPeerDiversityEnforcerWithConfig maxRegionShare maxSubnetShare minRegions =
     NewPeerDiversityEnforcer\<lparr>pde_maxRegionShare := maxRegionShare,
                              pde_maxSubnetShare := maxSubnetShare, pde_minRegions := minRegions\<rparr>"

definition float_share :: "int \<Rightarrow> int \<Rightarrow> rat" where
  "float_share part whole = round64 (round64 (of_int part) / round64 (of_int whole))"

definition PeerDiversityEnforcer_AllowPeer ::
    "string \<Rightarrow> string \<Rightarrow> PeerDiversityEnforcer \<Rightarrow> bool" where
  "PeerDiversityEnforcer_AllowPeer region subnet pde =
     (if pde_totalPeers pde < 4 then True
      else
        let newTotal = pde_totalPeers pde + 1 in
        if region \<noteq> '''' \<and> region \<noteq> ''Unknown'' \<and>
           float_share (count_of (pde_regionCounts pde) region + 1) newTotal > pde_maxRegionShare pde
        then False
        else if subnet \<noteq> '''' \<and>
           float_share (count_of (pde_subnetCounts pde) subnet + 1) newTotal > pde_maxSubnetShare pde
        then False
        else True)"

definition increment_count :: "string \<Rightarrow> (string, int) gomap \<Rightarrow> (string, int) gomap" where
  "increment_count s m = fmupd s (count_of m s + 1) m"

definition PeerDiversityEnforcer_RecordPeer ::
    "string \<Rightarrow> string \<Rightarrow> PeerDiversityEnforcer \<Rightarrow> PeerDiversityEnforcer" where
  "PeerDiversityEnforcer_RecordPeer region subnet pde =
     pde\<lparr>pde_totalPeers := pde_totalPeers pde + 1,
         pde_regionCounts := (if region \<noteq> '''' then increment_count region (pde_regionCounts pde)
                              else pde_regionCounts pde),
         pde_subnetCounts := (if subnet \<noteq> '''' then increment_count subnet (pde_subnetCounts pde)
                              else pde_subnetCounts pde)\<rparr>"

definition PeerDiversityEnforcer_RemovePeer ::
    "string \<Rightarrow> string \<Rightarrow> PeerDiversityEnforcer \<Rightarrow> PeerDiversityEnforcer" where
  "PeerDiversityEnforcer_RemovePeer region subnet pde =
     pde\<lparr>pde_totalPeers := (if pde_totalPeers pde - 1 < 0 then 0 else pde_totalPeers pde - 1),
         pde_regionCounts := (if region \<noteq> '''' then decrement_count region (pde_regionCounts pde)
                              else pde_regionCounts pde),
         pde_subnetCounts := (if subnet \<noteq> '''' then decrement_count subnet (pde_subnetCounts pde)
                              else pde_subnetCounts pde)\<rparr>"

definition PeerDiversityEnforcer_RegionCount :: "PeerDiversityEnforcer \<Rightarrow> nat" where
  "PeerDiversityEnforcer_RegionCount pde = mlen (pde_regionCounts pde)"

definition PeerDiversityEnforcer_NeedsDiversity :: "PeerDiversityEnforcer \<Rightarrow> bool" where
  "PeerDiversityEnforcer_NeedsDiversity pde \<longleftrightarrow>
     int (mlen (pde_regionCounts pde)) < pde_minRegions pde \<and> pde_totalPeers pde > 0"

definition PeerDiversityEnforcer_TotalPeers :: "PeerDiversityEnforcer \<Rightarrow> int" where
  "PeerDiversityEnforcer_TotalPeers pde = pde_totalPeers pde"

subsection \<open>The counters implement a multiset of peers\<close>

definition counts_mset :: "(string, int) gomap \<Rightarrow> string multiset \<Rightarrow> bool" where
  "counts_mset m M \<longleftrightarrow>
     (\<forall>s. s \<noteq> '''' \<longrightarrow> fmlookup m s = (if s \<in># M then Some (int (count M s)) else None))"

definition pde_abs :: "PeerDiversityEnforcer \<Rightarrow> (string \<times> string) multiset \<Rightarrow> bool" where
  "pde_abs pde P \<longleftrightarrow>
     pde_totalPeers pde = int (size P) \<and>
     counts_mset (pde_regionCounts pde) (image_mset fst P) \<and>
     counts_mset (pde_subnetCounts pde) (image_mset snd P)"

lemma counts_mset_count: "counts_mset m M \<Longrightarrow> s \<noteq> '''' \<Longrightarrow> count_of m s = int (count M s)"
  by (simp add: counts_mset_def count_of_def not_in_iff)

lemma counts_mset_increment:
  "counts_mset m M \<Longrightarrow>
   counts_mset (if s \<noteq> '''' then increment_count s m else m) (add_mset s M)"
  using counts_mset_count [of m M s] by (auto simp: counts_mset_def increment_count_def)

lemma counts_mset_decrement:
  assumes "counts_mset m M" "s \<in># M"
  shows "counts_mset (if s \<noteq> '''' then decrement_count s m else m) (M - {#s#})"
proof -
  have c: "0 < count M s" using assms(2) by simp
  have "t \<in># M - {#s#} \<longleftrightarrow> (if t = s then 1 < count M s else t \<in># M)" for t
    by (auto simp: in_diff_count not_in_iff count_greater_zero_iff [symmetric] simp del: count_greater_zero_iff)
  then show ?thesis
    using assms c counts_mset_count [OF assms(1), of s]
    by (auto simp: counts_mset_def decrement_count_def Let_def)
qed

lemma pde_abs_New: "pde_abs NewPeerDiversityEnforcer {#}"
  by (simp add: pde_abs_def NewPeerDiversityEnforcer_def counts_mset_def)

lemma pde_abs_Record:
  "pde_abs pde P \<Longrightarrow> pde_abs (PeerDiversityEnforcer_RecordPeer r s pde) (add_mset (r, s) P)"
  using counts_mset_increment [of "pde_regionCounts pde" "image_mset fst P" r]
    counts_mset_increment [of "pde_subnetCounts pde" "image_mset snd P" s]
  by (simp add: pde_abs_def PeerDiversityEnforcer_RecordPeer_def)

lemma pde_abs_Remove:
  assumes "pde_abs pde P" "(r, s) \<in># P"
  shows "pde_abs (PeerDiversityEnforcer_RemovePeer r s pde) (P - {#(r, s)#})"
proof -
  have "r \<in># image_mset fst P" "s \<in># image_mset snd P" using assms(2) by force+
  then have "counts_mset (if r \<noteq> '''' then decrement_count r (pde_regionCounts pde) else pde_regionCounts pde)
               (image_mset fst (P - {#(r, s)#}))"
    "counts_mset (if s \<noteq> '''' then decrement_count s (pde_subnetCounts pde) else pde_subnetCounts pde)
               (image_mset snd (P - {#(r, s)#}))"
    using assms counts_mset_decrement [of "pde_regionCounts pde" "image_mset fst P" r]
      counts_mset_decrement [of "pde_subnetCounts pde" "image_mset snd P" s]
    by (simp_all add: pde_abs_def image_mset_Diff)
  moreover have "size (P - {#(r, s)#}) = size P - 1" "0 < size P"
    using assms(2) by (simp_all add: size_Diff_singleton nonempty_has_size [symmetric]) auto
  ultimately show ?thesis
    using assms(1) by (auto simp: pde_abs_def PeerDiversityEnforcer_RemovePeer_def)
qed

subsection \<open>Shares\<close>

lemma float_share_exact:
  assumes "0 \<le> c" "c \<le> t" "t < 2 ^ 40"
  shows "float_share c t = round64 (of_int c / of_int t)"
  using assms by (simp add: float_share_def round64_of_int)

lemma share_constants:
  "round64 (1 / 2) = 1 / 2" "round64 (3 / 10) = 5404319552844595 / 18014398509481984"
  "round64 (4503599627370497 / 9007199254740992) = 4503599627370497 / 9007199254740992"
  "round64 (5404319552844596 / 18014398509481984) = 5404319552844596 / 18014398509481984"
  by code_simp+

lemma half_share:
  assumes "0 \<le> c" "c \<le> t" "0 < t" "t < 2 ^ 40" "float_share c t \<le> 1 / 2"
  shows "2 * c \<le> t"
proof (rule ccontr)
  assume "\<not> 2 * c \<le> t"
  then have "(of_int (t + 1) :: rat) \<le> of_int (2 * c)" by (intro of_int_le_iff [THEN iffD2]) simp
  moreover have "(of_int t :: rat) < of_int (2 ^ 40)" using assms(4) by (simp only: of_int_less_iff)
  ultimately have "4503599627370497 / 9007199254740992 \<le> of_int c / (of_int t :: rat)"
    using assms(3) by (simp add: field_simps)
  then have "round64 (1 / 2) < round64 (of_int c / of_int t)"
    by (intro round64_separate [OF _ share_constants(3)]) (simp_all add: share_constants)
  then show False using assms by (simp add: float_share_exact share_constants)
qed

lemma three_tenths_share:
  assumes "0 \<le> c" "c \<le> t" "0 < t" "t < 2 ^ 40" "float_share c t \<le> round64 (3 / 10)"
  shows "10 * c \<le> 3 * t"
proof (rule ccontr)
  assume "\<not> 10 * c \<le> 3 * t"
  then have "(of_int (3 * t + 1) :: rat) \<le> of_int (10 * c)" by (intro of_int_le_iff [THEN iffD2]) simp
  moreover have "(of_int t :: rat) < of_int (2 ^ 40)" using assms(4) by (simp only: of_int_less_iff)
  ultimately have "5404319552844596 / 18014398509481984 \<le> of_int c / (of_int t :: rat)"
    using assms(3) by (simp add: field_simps)
  then have "round64 (3 / 10) < round64 (of_int c / of_int t)"
    by (intro round64_separate [OF _ share_constants(4)]) (simp_all add: share_constants)
  then show False using assms by (simp add: float_share_exact)
qed

lemma count_image_le: "count (image_mset f P) s \<le> size P"
  by (metis count_le_size size_image_mset)

text \<open>Once four peers are tracked, a peer admitted by the default enforcer leaves its
  region with at most half and its network with at most three tenths of all peers: the
  rounding of the float64 divisions never lets a share above the exact limit through.\<close>

theorem allowed_peer_shares:
  assumes "pde_abs pde P" "pde_maxRegionShare pde = 1 / 2" "pde_maxSubnetShare pde = round64 (3 / 10)"
    and "4 \<le> size P" "size P < 2 ^ 39" "PeerDiversityEnforcer_AllowPeer r s pde"
  shows "(r \<noteq> '''' \<and> r \<noteq> ''Unknown'' \<longrightarrow>
            2 * count (image_mset fst (add_mset (r, s) P)) r \<le> size (add_mset (r, s) P)) \<and>
         (s \<noteq> '''' \<longrightarrow>
            10 * count (image_mset snd (add_mset (r, s) P)) s \<le> 3 * size (add_mset (r, s) P))"
proof -
  have r: "count_of (pde_regionCounts pde) r = int (count (image_mset fst P) r)" if "r \<noteq> ''''"
    using assms(1) that by (simp add: pde_abs_def counts_mset_count)
  have s: "count_of (pde_subnetCounts pde) s = int (count (image_mset snd P) s)" if "s \<noteq> ''''"
    using assms(1) that by (simp add: pde_abs_def counts_mset_count)
  have t: "pde_totalPeers pde = int (size P)" using assms(1) by (simp add: pde_abs_def)
  have "2 * (int (count (image_mset fst P) r) + 1) \<le> int (size P) + 1" if "r \<noteq> ''''" "r \<noteq> ''Unknown''"
    using assms(2-6) that r t count_image_le [of fst P r]
    by (intro half_share) (auto simp: PeerDiversityEnforcer_AllowPeer_def Let_def not_less split: if_splits)
  moreover have "10 * (int (count (image_mset snd P) s) + 1) \<le> 3 * (int (size P) + 1)" if "s \<noteq> ''''"
    using assms(2-6) that s t count_image_le [of snd P s]
    by (intro three_tenths_share) (auto simp: PeerDiversityEnforcer_AllowPeer_def Let_def not_less split: if_splits)
  ultimately show ?thesis by auto
qed

definition example_enforcer :: PeerDiversityEnforcer where
  "example_enforcer =
     fold (\<lambda>(r, s). PeerDiversityEnforcer_RecordPeer r s)
       [(''a'', ''1''), (''b'', ''2''), (''c'', ''3''), (''d'', ''4'')] NewPeerDiversityEnforcer"

lemma example_enforcer_abs:
  "pde_abs example_enforcer {#(''d'', ''4''), (''c'', ''3''), (''b'', ''2''), (''a'', ''1'')#}"
  by (simp add: example_enforcer_def pde_abs_Record pde_abs_New)

theorem allowed_peer_shares_witness:
  "PeerDiversityEnforcer_AllowPeer ''a'' '''' example_enforcer \<and>
   2 * count (image_mset fst (add_mset (''a'', [] :: string)
     {#(''d'', ''4''), (''c'', ''3''), (''b'', ''2''), (''a'', ''1'')#})) ''a'' \<le> 5"
proof -
  have a: "PeerDiversityEnforcer_AllowPeer ''a'' '''' example_enforcer" by code_simp
  show ?thesis
    using a allowed_peer_shares [OF example_enforcer_abs, of "''a''" "''''"]
    by (simp add: example_enforcer_def NewPeerDiversityEnforcer_def PeerDiversityEnforcer_RecordPeer_def)
qed

end
