(* ===== verification/Router.thy ===== *)
theory Router
  imports Nonce_Tracker Ban_List Stake_Verifier Peer_Scorer Diversity
begin

text \<open>
  The router's state and its validation pipeline
  (\<^verbatim>\<open>src/internal/p2p/routing.go\<close>, \<^verbatim>\<open>HandleMessage\<close> and the rate-limit bookkeeping).
  Rate limiters (\<^verbatim>\<open>golang.org/x/time/rate\<close>), Ed25519 verification and the JSON text that is
  signed are fields of an \<open>env\<close>; the registered handlers are a function from message
  types.  The optional collaborators (ban list, stake verifier, nonce tracker, scorer,
  diversity enforcer, key manager) are options, \<open>None\<close> for a nil pointer; all clock
  readings of one call are the argument \<open>now\<close>.
\<close>

record Node =
  n_ID :: node_id
  n_Address :: string
  n_Port :: int
  n_Region :: string
  n_Country :: string
  n_WalletAddress :: address

record SignableMessage =
  m_Type :: MessageType
  m_From :: node_id
  m_To :: node_id
  m_Payload :: "byte list"
  m_Timestamp :: time
  m_Nonce :: nonce24
  m_Version :: "32 word"

record Message = SignableMessage +
  m_Signature :: "byte list"

definition ProtocolVersion :: "32 word" where "ProtocolVersion = 1"
definition MinSupportedVersion :: "32 word" where "MinSupportedVersion = 1"

record ViolationEntry =
  ve_Count :: int
  ve_FirstViolation :: time

record PeerConnection =
  pc_Node :: Node
  pc_Conn :: bool
  pc_Connected :: bool
  pc_LastSeen :: time

record ('lim, 'pk) Router =
  r_keyManager :: "'pk option"
  r_peers :: "(node_id, PeerConnection) gomap"
  r_localNode :: "Node option"
  r_maxPeers :: int
  r_connectionTimeout :: duration
  r_peerLimiters :: "(node_id, 'lim) gomap"
  r_banList :: "BanList option"
  r_violationCounters :: "(node_id, ViolationEntry) gomap"
  r_stakeVerifier :: "StakeVerifier option"
  r_nonceTracker :: "NonceTracker option"
  r_peerScorer :: "PeerScorer option"
  r_diversityEnforcer :: "PeerDiversityEnforcer option"

record ('lim, 'pk) env =
  env_newLimiter :: "int \<Rightarrow> int \<Rightarrow> 'lim"
  env_allow :: "time \<Rightarrow> 'lim \<Rightarrow> bool \<times> 'lim"
  env_marshal :: "SignableMessage \<Rightarrow> byte list option"
  env_verify :: "'pk \<Rightarrow> byte list \<Rightarrow> byte list \<Rightarrow> bool"

type_synonym ('lim, 'pk) handler =
  "Message \<Rightarrow> Node option \<Rightarrow> ('lim, 'pk) Router \<Rightarrow> string option \<times> ('lim, 'pk) Router"

datatype route_error =
    RateLimited | PeerBanned | NonceCheckFailed nonce_error | NilSenderPanic
  | UnsupportedVersion | OutdatedVersion | MissingSignature | NoSignableBytes
  | InvalidSignature | StakeRequired | NoHandler | HandlerFailed string

definition DefaultPeerMessageRate :: int where "DefaultPeerMessageRate = 100"
definition DefaultPeerMessageBurst :: int where "DefaultPeerMessageBurst = 200"
definition violationWindow :: duration where "violationWindow = 5 * Minute"
definition violationThreshold :: int where "violationThreshold = 3"
definition autoBanDuration :: duration where "autoBanDuration = 1 * Hour"

definition Message_SignableBytes :: "('lim, 'pk) env \<Rightarrow> Message \<Rightarrow> byte list option" where
  "Message_SignableBytes env m =
     env_marshal env
       \<lparr> m_Type = m_Type m, m_From = m_From m, m_To = m_To m, m_Payload = m_Payload m,
         m_Timestamp = m_Timestamp m, m_Nonce = m_Nonce m, m_Version = m_Version m \<rparr>"

definition NewTieredLimiter :: "('lim, 'pk) env \<Rightarrow> string \<Rightarrow> 'lim" where
  "NewTieredLimiter env tier =
     (let rl = GetTierRateLimit tier in env_newLimiter env (trl_Rate rl) (trl_Burst rl))"

definition Router_getPeerLimiter ::
    "('lim, 'pk) env \<Rightarrow> time \<Rightarrow> node_id \<Rightarrow> ('lim, 'pk) Router \<Rightarrow> 'lim \<times> ('lim, 'pk) Router" where
  "Router_getPeerLimiter env now peerID r =
     (case fmlookup (r_peerLimiters r) peerID of
        Some limiter \<Rightarrow> (limiter, r)
      | None \<Rightarrow>
          let (limiter, r) =
                (case r_stakeVerifier r of
                   Some sv \<Rightarrow>
                     let (tier, sv) = StakeVerifier_GetTier now peerID sv
                     in (NewTieredLimiter env tier, r\<lparr>r_stakeVerifier := Some sv\<rparr>)
                 | None \<Rightarrow> (env_newLimiter env DefaultPeerMessageRate DefaultPeerMessageBurst, r))
          in (limiter, r\<lparr>r_peerLimiters := fmupd peerID limiter (r_peerLimiters r)\<rparr>))"

definition Router_RefreshPeerLimiter ::
    "('lim, 'pk) env \<Rightarrow> time \<Rightarrow> node_id \<Rightarrow> ('lim, 'pk) Router \<Rightarrow> ('lim, 'pk) Router" where
  "Router_RefreshPeerLimiter env now peerID r =
     (case r_stakeVerifier r of
        None \<Rightarrow> r
      | Some sv \<Rightarrow>
          let (tier, sv) = StakeVerifier_GetTier now peerID sv
          in r\<lparr>r_stakeVerifier := Some sv,
               r_peerLimiters := fmupd peerID (NewTieredLimiter env tier) (r_peerLimiters r)\<rparr>)"

definition Router_autoBan :: "time \<Rightarrow> node_id \<Rightarrow> ('lim, 'pk) Router \<Rightarrow> ('lim, 'pk) Router" where
  "Router_autoBan now peerID r =
     (case r_banList r of
        None \<Rightarrow> r
      | Some bl \<Rightarrow>
          let (banDur, r) =
                (case r_stakeVerifier r of
                   None \<Rightarrow> (autoBanDuration, r)
                 | Some sv \<Rightarrow>
                     let (tier, sv) = StakeVerifier_GetTier now peerID sv
                     in (GetTierBanDuration tier, r\<lparr>r_stakeVerifier := Some sv\<rparr>))
          in r\<lparr>r_banList :=
                 Some (BanList_Ban now peerID ''auto-ban: repeated rate limit violations'' banDur bl)\<rparr>)"

definition Router_recordViolation :: "time \<Rightarrow> node_id \<Rightarrow> ('lim, 'pk) Router \<Rightarrow> ('lim, 'pk) Router" where
  "Router_recordViolation now peerID r =
     (case fmlookup (r_violationCounters r) peerID of
        None \<Rightarrow> r\<lparr>r_violationCounters :=
                  fmupd peerID \<lparr> ve_Count = 1, ve_FirstViolation = now \<rparr> (r_violationCounters r)\<rparr>
      | Some entry \<Rightarrow>
          if t_sub now (ve_FirstViolation entry) > violationWindow then
            r\<lparr>r_violationCounters :=
                fmupd peerID \<lparr> ve_Count = 1, ve_FirstViolation = now \<rparr> (r_violationCounters r)\<rparr>
          else
            let entry = entry\<lparr>ve_Count := ve_Count entry + 1\<rparr>;
                r = r\<lparr>r_violationCounters := fmupd peerID entry (r_violationCounters r)\<rparr>
            in if ve_Count entry \<ge> violationThreshold then
                 let r = Router_autoBan now peerID r
                 in r\<lparr>r_violationCounters := fmdrop peerID (r_violationCounters r)\<rparr>
               else r)"

text \<open>Recording an event with the scorer, when there is one and the sender is known.\<close>

definition Router_score ::
    "time \<Rightarrow> Node option \<Rightarrow> PeerEvent \<Rightarrow> ('lim, 'pk) Router \<Rightarrow> ('lim, 'pk) Router" where
  "Router_score now sender event r =
     (case (sender, r_peerScorer r) of
        (Some sender, Some ps) \<Rightarrow>
          let announced = (\<lambda>n. case r_stakeVerifier r of
                             Some sv \<Rightarrow> StakeVerifier_HasAnnounced n sv | None \<Rightarrow> False);
              bl = (case r_banList r of Some bl \<Rightarrow> bl | None \<Rightarrow> NewBanList);
              (ps, bl) = PeerScorer_RecordEvent now (n_ID sender) event announced ps bl
          in r\<lparr>r_peerScorer := Some ps, r_banList := map_option (\<lambda>_. bl) (r_banList r)\<rparr>
      | _ \<Rightarrow> r)"

text \<open>
  The pipeline, one definition per numbered stage of the source; a stage returns the error
  with which \<^verbatim>\<open>HandleMessage\<close> returns, if any, and the router.
\<close>

definition stage_rateLimit ::
    "('lim, 'pk) env \<Rightarrow> time \<Rightarrow> Node option \<Rightarrow> ('lim, 'pk) Router \<Rightarrow>
     route_error option \<times> ('lim, 'pk) Router" where
  "stage_rateLimit env now sender r =
     (case sender of
        None \<Rightarrow> (None, r)
      | Some n \<Rightarrow>
          let (limiter, r) = Router_getPeerLimiter env now (n_ID n) r;
              (allowed, limiter) = env_allow env now limiter;
              r = r\<lparr>r_peerLimiters := fmupd (n_ID n) limiter (r_peerLimiters r)\<rparr>
          in if \<not> allowed
             then (Some RateLimited,
                   Router_score now sender PeerEventRateLimitHit (Router_recordViolation now (n_ID n) r))
             else (None, r))"

definition stage_ban ::
    "time \<Rightarrow> Node option \<Rightarrow> ('lim, 'pk) Router \<Rightarrow> route_error option" where
  "stage_ban now sender r =
     (case (sender, r_banList r) of
        (Some n, Some bl) \<Rightarrow> if BanList_IsBanned now (n_ID n) bl then Some PeerBanned else None
      | _ \<Rightarrow> None)"

definition stage_nonce ::
    "time \<Rightarrow> Message \<Rightarrow> Node option \<Rightarrow> ('lim, 'pk) Router \<Rightarrow>
     route_error option \<times> ('lim, 'pk) Router" where
  "stage_nonce now msg sender r =
     (case r_nonceTracker r of
        None \<Rightarrow> (None, r)
      | Some nt \<Rightarrow>
          let (err, nt) = NonceTracker_Check now (m_Nonce msg) (m_Timestamp msg) nt;
              r = r\<lparr>r_nonceTracker := Some nt\<rparr>
          in (case err of
                None \<Rightarrow> (None, r)
              | Some e \<Rightarrow>
                  (case sender of
                     None \<Rightarrow> (Some NilSenderPanic, r)
                   | Some _ \<Rightarrow> (Some (NonceCheckFailed e),
                                 Router_score now sender PeerEventInvalidMessage r))))"

definition stage_version :: "Message \<Rightarrow> route_error option" where
  "stage_version msg =
     (if m_Version msg > ProtocolVersion then Some UnsupportedVersion
      else if m_Version msg < MinSupportedVersion then Some OutdatedVersion
      else None)"

definition stage_signature ::
    "('lim, 'pk) env \<Rightarrow> time \<Rightarrow> Message \<Rightarrow> Node option \<Rightarrow> ('lim, 'pk) Router \<Rightarrow>
     route_error option \<times> ('lim, 'pk) Router" where
  "stage_signature env now msg sender r =
     (case r_keyManager r of
        None \<Rightarrow> (None, r)
      | Some pk \<Rightarrow>
          if m_Signature msg = []
          then (Some MissingSignature, Router_score now sender PeerEventInvalidMessage r)
          else (case Message_SignableBytes env msg of
                  None \<Rightarrow> (Some NoSignableBytes, r)
                | Some b \<Rightarrow>
                    if \<not> env_verify env pk b (m_Signature msg)
                    then (Some InvalidSignature, Router_score now sender PeerEventInvalidMessage r)
                    else (None, r)))"

definition stage_stake ::
    "time \<Rightarrow> Message \<Rightarrow> Node option \<Rightarrow> ('lim, 'pk) Router \<Rightarrow>
     route_error option \<times> ('lim, 'pk) Router" where
  "stage_stake now msg sender r =
     (case (sender, r_stakeVerifier r) of
        (Some n, Some sv) \<Rightarrow>
          if RequiresStake (m_Type msg) then
            let (staked, sv) = StakeVerifier_IsStaked now (n_ID n) sv;
                r = r\<lparr>r_stakeVerifier := Some sv\<rparr>
            in if \<not> staked
               then (Some StakeRequired, Router_score now sender PeerEventInvalidMessage r)
               else (None, r)
          else (None, r)
      | _ \<Rightarrow> (None, r))"

definition stage_dispatch ::
    "(MessageType \<Rightarrow> ('lim, 'pk) handler option) \<Rightarrow> time \<Rightarrow> Message \<Rightarrow> Node option \<Rightarrow>
     ('lim, 'pk) Router \<Rightarrow> route_error option \<times> ('lim, 'pk) Router" where
  "stage_dispatch handlers now msg sender r =
     (case handlers (m_Type msg) of
        None \<Rightarrow> (Some NoHandler, r)
      | Some h \<Rightarrow>
          let (err, r) = h msg sender r in
          (case err of
             Some e \<Rightarrow> (Some (HandlerFailed e), Router_score now sender PeerEventMalformedPayload r)
           | None \<Rightarrow> (None, Router_score now sender PeerEventValidMessage r)))"

definition Router_HandleMessage ::
    "('lim, 'pk) env \<Rightarrow> (MessageType \<Rightarrow> ('lim, 'pk) handler option) \<Rightarrow> time \<Rightarrow> Message \<Rightarrow>
     Node option \<Rightarrow> ('lim, 'pk) Router \<Rightarrow> route_error option \<times> ('lim, 'pk) Router" where
  "Router_HandleMessage env handlers now msg sender r =
     (case stage_rateLimit env now sender r of
        (Some e, r) \<Rightarrow> (Some e, r)
      | (None, r) \<Rightarrow>
     (case stage_ban now sender r of
        Some e \<Rightarrow> (Some e, r)
      | None \<Rightarrow>
     (case stage_nonce now msg sender r of
        (Some e, r) \<Rightarrow> (Some e, r)
      | (None, r) \<Rightarrow>
     (case stage_version msg of
        Some e \<Rightarrow> (Some e, r)
      | None \<Rightarrow>
     (case stage_signature env now msg sender r of
        (Some e, r) \<Rightarrow> (Some e, r)
      | (None, r) \<Rightarrow>
     (case stage_stake now msg sender r of
        (Some e, r) \<Rightarrow> (Some e, r)
      | (None, r) \<Rightarrow> stage_dispatch handlers now msg sender r))))))"

definition Router_CleanupStaleLimiters :: "('lim, 'pk) Router \<Rightarrow> ('lim, 'pk) Router" where
  "Router_CleanupStaleLimiters r =
     (let active = (\<lambda>id. fmlookup (r_peers r) id \<noteq> None)
      in r\<lparr>r_peerLimiters := fmfilter active (r_peerLimiters r),
           r_violationCounters := fmfilter active (r_violationCounters r)\<rparr>)"

subsection \<open>What each stage leaves alone\<close>

lemma Router_score_keeps [simp]:
  "r_nonceTracker (Router_score now s e r) = r_nonceTracker r"
  "r_stakeVerifier (Router_score now s e r) = r_stakeVerifier r"
  "r_keyManager (Router_score now s e r) = r_keyManager r"
  "r_peers (Router_score now s e r) = r_peers r"
  by (auto simp: Router_score_def Let_def split: option.splits prod.splits)

lemma Router_autoBan_keeps [simp]:
  "r_nonceTracker (Router_autoBan now p r) = r_nonceTracker r"
  "r_violationCounters (Router_autoBan now p r) = r_violationCounters r"
  by (auto simp: Router_autoBan_def Let_def split: option.splits prod.splits)

lemma Router_recordViolation_keeps [simp]:
  "r_nonceTracker (Router_recordViolation now p r) = r_nonceTracker r"
  by (auto simp: Router_recordViolation_def Let_def split: option.splits)

lemma getPeerLimiter_keeps:
  assumes "Router_getPeerLimiter env now p r = (l, r')"
  shows "r_nonceTracker r' = r_nonceTracker r" "r_banList r' = r_banList r"
    "r_keyManager r' = r_keyManager r"
    "r_stakeVerifier r' = r_stakeVerifier r \<or>
     (\<exists>sv. r_stakeVerifier r = Some sv \<and> r_stakeVerifier r' = Some (snd (StakeVerifier_GetTier now p sv)))"
  using assms
  by (auto simp: Router_getPeerLimiter_def Let_def split: option.splits prod.splits if_splits)

lemma stage_rateLimit_passes:
  assumes "stage_rateLimit env now (Some n) r = (None, r')"
  shows "r_nonceTracker r' = r_nonceTracker r" "r_banList r' = r_banList r"
    "r_keyManager r' = r_keyManager r"
    "r_stakeVerifier r' = r_stakeVerifier r \<or>
     (\<exists>sv. r_stakeVerifier r = Some sv \<and>
           r_stakeVerifier r' = Some (snd (StakeVerifier_GetTier now (n_ID n) sv)))"
  using assms
  by (auto simp: stage_rateLimit_def Let_def split: prod.splits if_splits dest: getPeerLimiter_keeps)

lemma stage_rateLimit_nonce: "r_nonceTracker (snd (stage_rateLimit env now s r)) = r_nonceTracker r"
  by (auto simp: stage_rateLimit_def Let_def split: option.splits prod.splits
      dest: getPeerLimiter_keeps(1))

lemma stage_nonce_passes:
  assumes "stage_nonce now msg s r = (None, r')"
  shows "r_keyManager r' = r_keyManager r" "r_stakeVerifier r' = r_stakeVerifier r"
    "r_nonceTracker r = Some nt \<Longrightarrow> fst (NonceTracker_Check now (m_Nonce msg) (m_Timestamp msg) nt) = None"
  using assms by (auto simp: stage_nonce_def Let_def split: option.splits prod.splits)

lemma stage_nonce_tracker:
  "r_nonceTracker (snd (stage_nonce now msg s r)) =
     map_option (\<lambda>nt. nt_step (NTCheck now (m_Nonce msg) (m_Timestamp msg)) nt) (r_nonceTracker r)"
  by (auto simp: stage_nonce_def Let_def split: option.splits prod.splits)

lemma stage_signature_keeps:
  "r_nonceTracker (snd (stage_signature env now msg s r)) = r_nonceTracker r"
  "r_stakeVerifier (snd (stage_signature env now msg s r)) = r_stakeVerifier r"
  by (auto simp: stage_signature_def Let_def split: option.splits)

lemma stage_signature_passes:
  "stage_signature env now msg s r = (None, r') \<Longrightarrow> r_keyManager r = Some pk \<Longrightarrow>
   \<exists>b. Message_SignableBytes env msg = Some b \<and> env_verify env pk b (m_Signature msg)"
  by (auto simp: stage_signature_def split: option.splits if_splits)

lemma stage_stake_nonce: "r_nonceTracker (snd (stage_stake now msg s r)) = r_nonceTracker r"
  by (auto simp: stage_stake_def Let_def split: option.splits prod.splits)

lemma stage_stake_passes:
  "stage_stake now msg (Some n) r = (None, r') \<Longrightarrow> r_stakeVerifier r = Some sv \<Longrightarrow>
   RequiresStake (m_Type msg) \<Longrightarrow> fst (StakeVerifier_IsStaked now (n_ID n) sv)"
  by (auto simp: stage_stake_def Let_def split: prod.splits if_splits)

lemma stage_version_passes: "stage_version msg = None \<Longrightarrow> m_Version msg = 1"
  unfolding stage_version_def ProtocolVersion_def MinSupportedVersion_def
  by (auto simp: not_less word_le_nat_alt word_unat_eq_iff split: if_splits)

text \<open>The errors a stage can return.\<close>

lemma stage_errors:
  "stage_rateLimit env now s r = (Some e, r') \<Longrightarrow> e = RateLimited"
  "stage_ban now s r = Some e \<Longrightarrow> e = PeerBanned"
  "stage_nonce now msg s r = (Some e, r') \<Longrightarrow> e = NilSenderPanic \<or> (\<exists>x. e = NonceCheckFailed x)"
  "stage_version msg = Some e \<Longrightarrow> e = UnsupportedVersion \<or> e = OutdatedVersion"
  "stage_signature env now msg s r = (Some e, r') \<Longrightarrow>
     e = MissingSignature \<or> e = NoSignableBytes \<or> e = InvalidSignature"
  "stage_stake now msg s r = (Some e, r') \<Longrightarrow> e = StakeRequired"
  by (auto simp: stage_rateLimit_def stage_ban_def stage_nonce_def stage_version_def
      stage_signature_def stage_stake_def Let_def split: option.splits prod.splits if_splits)

text \<open>The handler of the message ran: the pipeline ended with its result.\<close>

definition handled :: "route_error option \<Rightarrow> bool" where
  "handled res \<longleftrightarrow> (case res of None \<Rightarrow> True | Some (HandlerFailed _) \<Rightarrow> True | _ \<Rightarrow> False)"

lemma HandleMessage_handled:
  assumes "Router_HandleMessage env hs now msg s r = (res, r')" "handled res"
  obtains r1 r3 r5 r6 h where
    "stage_rateLimit env now s r = (None, r1)" "stage_ban now s r1 = None"
    "stage_nonce now msg s r1 = (None, r3)" "stage_version msg = None"
    "stage_signature env now msg s r3 = (None, r5)" "stage_stake now msg s r5 = (None, r6)"
    "hs (m_Type msg) = Some h"
  using assms that
  by (auto simp: Router_HandleMessage_def handled_def stage_dispatch_def
      split: option.splits prod.splits dest!: stage_errors)

lemma GetTier_cache_from:
  assumes "sv_cache_from cvs sv" "sv_default_ttls sv" "sv_paymentService sv = Some (cvs now)"
  shows "sv_cache_from cvs (snd (StakeVerifier_GetTier now p sv))"
    and "sv_default_ttls (snd (StakeVerifier_GetTier now p sv))"
    and "sv_paymentService (snd (StakeVerifier_GetTier now p sv)) = Some (cvs now)"
    and "sv_peerWallets (snd (StakeVerifier_GetTier now p sv)) = sv_peerWallets sv"
proof -
  show "sv_cache_from cvs (snd (StakeVerifier_GetTier now p sv))"
    using assms getCachedOrFetch_fresh [OF assms(1,2)]
    by (auto simp: StakeVerifier_GetTier_def split: option.splits prod.splits)
  show "sv_default_ttls (snd (StakeVerifier_GetTier now p sv))"
    and "sv_paymentService (snd (StakeVerifier_GetTier now p sv)) = Some (cvs now)"
    and "sv_peerWallets (snd (StakeVerifier_GetTier now p sv)) = sv_peerWallets sv"
    using assms
    by (auto simp: StakeVerifier_GetTier_def StakeVerifier_getCachedOrFetch_def sv_default_ttls_def
        Let_def split: option.splits prod.splits if_splits)
qed

subsection \<open>Replay protection through the pipeline\<close>

definition handlers_keep_tracker :: "(MessageType \<Rightarrow> ('lim, 'pk) handler option) \<Rightarrow> bool" where
  "handlers_keep_tracker hs \<longleftrightarrow>
     (\<forall>t h m s r. hs t = Some h \<longrightarrow> r_nonceTracker (snd (h m s r)) = r_nonceTracker r)"

text \<open>The pipeline either leaves the tracker alone or performs one check of this message.\<close>

lemma HandleMessage_tracker:
  assumes "r_nonceTracker r = Some nt"
    and "handlers_keep_tracker hs"
  shows "r_nonceTracker (snd (Router_HandleMessage env hs now msg s r)) = Some nt \<or>
         r_nonceTracker (snd (Router_HandleMessage env hs now msg s r)) =
           Some (nt_step (NTCheck now (m_Nonce msg) (m_Timestamp msg)) nt)"
proof -
  have d: "r_nonceTracker (snd (stage_dispatch hs now msg s r')) = r_nonceTracker r'" for r'
    using assms(2)
    by (auto simp: stage_dispatch_def handlers_keep_tracker_def Let_def case_prod_unfold split: option.splits)
  obtain e1 r1 where 1: "stage_rateLimit env now s r = (e1, r1)" by fastforce
  obtain e3 r3 where 3: "stage_nonce now msg s r1 = (e3, r3)" by fastforce
  obtain e5 r5 where 5: "stage_signature env now msg s r3 = (e5, r5)" by fastforce
  obtain e6 r6 where 6: "stage_stake now msg s r5 = (e6, r6)" by fastforce
  have "r_nonceTracker r1 = Some nt"
    using stage_rateLimit_nonce [of env now s r] 1 assms(1) by simp
  moreover have "r_nonceTracker r3 = Some (nt_step (NTCheck now (m_Nonce msg) (m_Timestamp msg)) nt)"
    using stage_nonce_tracker [of now msg s r1] 3 calculation by simp
  moreover have "r_nonceTracker r5 = r_nonceTracker r3" "r_nonceTracker r6 = r_nonceTracker r5"
    using stage_signature_keeps(1) [of env now msg s r3] stage_stake_nonce [of now msg s r5] 5 6 by simp_all
  ultimately show ?thesis
    using d [of r6] by (simp add: Router_HandleMessage_def 1 3 5 6 split: option.splits)
qed

type_synonym arrival = "time \<times> Message \<times> Node option"

fun router_run ::
    "('lim, 'pk) env \<Rightarrow> (MessageType \<Rightarrow> ('lim, 'pk) handler option) \<Rightarrow> arrival list \<Rightarrow>
     ('lim, 'pk) Router \<Rightarrow> ('lim, 'pk) Router" where
  "router_run env hs [] r = r"
| "router_run env hs ((now, msg, s) # as) r =
     router_run env hs as (snd (Router_HandleMessage env hs now msg s r))"

lemma router_run_tracker:
  assumes "r_nonceTracker r = Some nt"
    and "handlers_keep_tracker hs"
  shows "\<exists>ops. r_nonceTracker (router_run env hs as r) = Some (fold nt_step ops nt) \<and>
           set (map nt_op_time ops) \<subseteq> set (map fst as) \<and>
           (sorted (map fst as) \<longrightarrow> sorted (map nt_op_time ops))"
  using assms(1)
proof (induction as arbitrary: r nt)
  case Nil
  then show ?case by (intro exI [of _ "[]"]) simp
next
  case (Cons a as)
  obtain now msg s where a: "a = (now, msg, s)" by (cases a)
  let ?r = "snd (Router_HandleMessage env hs now msg s r)"
  let ?op = "NTCheck now (m_Nonce msg) (m_Timestamp msg)"
  from HandleMessage_tracker [OF Cons.prems assms(2), of env now msg s]
  consider "r_nonceTracker ?r = Some nt" | "r_nonceTracker ?r = Some (nt_step ?op nt)" by blast
  then show ?case
  proof cases
    case 1
    from Cons.IH [OF this] show ?thesis by (auto simp: a)
  next
    case 2
    from Cons.IH [OF this] obtain ops where ops:
      "r_nonceTracker (router_run env hs as ?r) = Some (fold nt_step ops (nt_step ?op nt))"
      "set (map nt_op_time ops) \<subseteq> set (map fst as)"
      "sorted (map fst as) \<longrightarrow> sorted (map nt_op_time ops)" by blast
    moreover have "\<forall>x\<in>set as. now \<le> fst x \<Longrightarrow> \<forall>x\<in>set ops. now \<le> nt_op_time x"
      using ops(2) by fastforce
    ultimately show ?thesis by (intro exI [of _ "?op # ops"]) (auto simp: a)
  qed
qed

text \<open>A handled message was checked by the tracker, and that is all that happened to it.\<close>

lemma handled_nonce:
  assumes "Router_HandleMessage env hs now msg s r = (res, r')" "handled res"
    and "r_nonceTracker r = Some nt"
  shows "fst (NonceTracker_Check now (m_Nonce msg) (m_Timestamp msg) nt) = None"
proof -
  from assms(1,2) obtain r1 r3 where
    st: "stage_rateLimit env now s r = (None, r1)" "stage_nonce now msg s r1 = (None, r3)"
    by (rule HandleMessage_handled)
  show ?thesis
    using assms(3) stage_rateLimit_nonce [of env now s r] st(1)
    by (intro stage_nonce_passes(3) [OF st(2)]) simp_all
qed

lemma handled_tracker:
  assumes "Router_HandleMessage env hs now msg s r = (res, r')" "handled res"
    and "r_nonceTracker r = Some nt" "handlers_keep_tracker hs"
  shows "r_nonceTracker r' = Some (nt_step (NTCheck now (m_Nonce msg) (m_Timestamp msg)) nt)"
proof -
  from assms(1,2) obtain r1 r3 r5 r6 h where st:
    "stage_rateLimit env now s r = (None, r1)" "stage_ban now s r1 = None"
    "stage_nonce now msg s r1 = (None, r3)" "stage_version msg = None"
    "stage_signature env now msg s r3 = (None, r5)" "stage_stake now msg s r5 = (None, r6)"
    "hs (m_Type msg) = Some h"
    by (rule HandleMessage_handled)
  have "r_nonceTracker r' = r_nonceTracker r6"
    using assms(1,4) st
    by (auto simp: Router_HandleMessage_def stage_dispatch_def handlers_keep_tracker_def Let_def
        case_prod_unfold split: option.splits)
  also have "\<dots> = r_nonceTracker r3"
    using stage_signature_keeps(1) [of env now msg s r3] stage_stake_nonce [of now msg s r5] st by simp
  finally show ?thesis
    using stage_nonce_tracker [of now msg s r1] stage_rateLimit_nonce [of env now s r] st assms(3) by simp
qed

subsection \<open>Auto-ban\<close>

lemma GetTierBanDuration_pos: "0 < GetTierBanDuration tier"
  by (auto simp: GetTierBanDuration_def tierBanDurations_def fmlookup_of_list tier_names
      split: option.splits)

definition ban_duration_for :: "time \<Rightarrow> node_id \<Rightarrow> ('lim, 'pk) Router \<Rightarrow> duration" where
  "ban_duration_for now p r =
     (case r_stakeVerifier r of
        None \<Rightarrow> autoBanDuration
      | Some sv \<Rightarrow> GetTierBanDuration (fst (StakeVerifier_GetTier now p sv)))"

lemma autoBan_bans:
  assumes "r_banList r = Some bl"
  shows "r_banList (Router_autoBan now p r) =
         Some (BanList_Ban now p ''auto-ban: repeated rate limit violations'' (ban_duration_for now p r) bl)"
  using assms by (simp add: Router_autoBan_def ban_duration_for_def Let_def case_prod_unfold split: option.splits)

lemma ban_duration_for_pos: "0 < ban_duration_for now p r"
  by (simp add: ban_duration_for_def autoBanDuration_def GetTierBanDuration_pos split: option.splits)

subsection \<open>Properties\<close>

text \<open>C11. A message reaches its handler only if the sender is not banned, its nonce and
  timestamp passed replay protection, its protocol version is the supported one, its
  signature verifies over all other fields, and, for a privileged type, the chain reported
  the minimum stake for the sender's announced wallet less than five minutes ago.\<close>

theorem handled_messages_validated:
  assumes "r_banList r = Some bl" "r_nonceTracker r = Some nt" "r_keyManager r = Some pk"
    and "r_stakeVerifier r = Some sv" "sv_cache_from cvs sv" "sv_default_ttls sv"
    and "sv_paymentService sv = Some (cvs now)"
    and "Router_HandleMessage env hs now msg (Some n) r = (res, r')" "handled res"
  shows "\<not> BanList_IsBanned now (n_ID n) bl \<and>
         fst (NonceTracker_Check now (m_Nonce msg) (m_Timestamp msg) nt) = None \<and>
         m_Version msg = 1 \<and>
         (\<exists>b. Message_SignableBytes env msg = Some b \<and> env_verify env pk b (m_Signature msg)) \<and>
         (RequiresStake (m_Type msg) \<longrightarrow>
            (\<exists>w t stake. StakeVerifier_GetWallet (n_ID n) sv = Some w \<and> now - t < 5 * Minute \<and>
               cv_getStake (cvs t) w = Some stake \<and> 10 ^ 24 \<le> stake))"
proof -
  from assms(8,9) obtain r1 r3 r5 r6 h where st:
    "stage_rateLimit env now (Some n) r = (None, r1)" "stage_ban now (Some n) r1 = None"
    "stage_nonce now msg (Some n) r1 = (None, r3)" "stage_version msg = None"
    "stage_signature env now msg (Some n) r3 = (None, r5)"
    "stage_stake now msg (Some n) r5 = (None, r6)" "hs (m_Type msg) = Some h"
    by (rule HandleMessage_handled)
  note k1 = stage_rateLimit_passes [OF st(1)] and k3 = stage_nonce_passes [OF st(3)]
  have "\<not> BanList_IsBanned now (n_ID n) bl"
    using st(2) k1(2) assms(1) by (auto simp: stage_ban_def split: if_splits)
  moreover have "fst (NonceTracker_Check now (m_Nonce msg) (m_Timestamp msg) nt) = None"
    using k1(1) assms(2) by (intro k3(3)) simp
  moreover have "\<exists>b. Message_SignableBytes env msg = Some b \<and> env_verify env pk b (m_Signature msg)"
    using k1(3) k3(1) assms(3) by (intro stage_signature_passes [OF st(5)]) simp
  moreover have "\<exists>w t stake. StakeVerifier_GetWallet (n_ID n) sv = Some w \<and> now - t < 5 * Minute \<and>
      cv_getStake (cvs t) w = Some stake \<and> 10 ^ 24 \<le> stake" if "RequiresStake (m_Type msg)"
  proof -
    obtain sv5 where sv5: "r_stakeVerifier r5 = Some sv5" "sv5 = sv \<or> sv5 = snd (StakeVerifier_GetTier now (n_ID n) sv)"
      using k1(4) k3(2) stage_signature_keeps(2) [of env now msg "Some n" r3] st(5) assms(4) by auto
    have ok: "sv_cache_from cvs sv5" "sv_default_ttls sv5" "sv_paymentService sv5 = Some (cvs now)"
      "sv_peerWallets sv5 = sv_peerWallets sv"
      using sv5(2) assms(5-7) GetTier_cache_from [OF assms(5-7), of "n_ID n"] by auto
    have "StakeVerifier_IsStaked now (n_ID n) sv5 = (True, snd (StakeVerifier_IsStaked now (n_ID n) sv5))"
      using stage_stake_passes [OF st(6) sv5(1) that] by (simp add: prod_eq_iff)
    from IsStaked_fresh [OF ok(1-3) this] ok(4) show ?thesis
      by (auto simp: StakeVerifier_GetWallet_def)
  qed
  ultimately show ?thesis using stage_version_passes [OF st(4)] by blast
qed


text \<open>
  A concrete router: limiters that always allow, a marshaller with a fixed text, a
  verification function under which the length of a signature identifies the key, and handlers
  that succeed without effect.
\<close>

definition example_env :: "(unit, nat) env" where
  "example_env =
     \<lparr> env_newLimiter = (\<lambda>_ _. ()), env_allow = (\<lambda>_ l. (True, l)),
       env_marshal = (\<lambda>m. Some [1]), env_verify = (\<lambda>pk b sig. length sig = pk) \<rparr>"

definition example_handlers :: "MessageType \<Rightarrow> (unit, nat) handler option" where
  "example_handlers t = Some (\<lambda>m s r. (None, r))"

definition example_node :: Node where
  "example_node = \<lparr> n_ID = 3, n_Address = ''1.2.3.4:9000'', n_Port = 9000, n_Region = ''Europe'',
                    n_Country = ''DE'', n_WalletAddress = 9 \<rparr>"

definition example_router :: "(unit, nat) Router" where
  "example_router =
     \<lparr> r_keyManager = Some 5, r_peers = fmempty, r_localNode = None, r_maxPeers = 50,
       r_connectionTimeout = 5 * Minute, r_peerLimiters = fmempty, r_banList = Some NewBanList,
       r_violationCounters = fmempty, r_stakeVerifier = Some example_verifier,
       r_nonceTracker = Some NewNonceTracker, r_peerScorer = None, r_diversityEnforcer = None \<rparr>"

definition example_msg :: Message where
  "example_msg = \<lparr> m_Type = ''deploy'', m_From = 3, m_To = 4, m_Payload = [], m_Timestamp = 1000,
                   m_Nonce = 77, m_Version = 1, m_Signature = [0, 1, 2, 3, 4] \<rparr>"

lemma example_router_simps [simp]:
  "r_nonceTracker example_router = Some NewNonceTracker" "r_keyManager example_router = Some 5"
  "r_banList example_router = Some NewBanList" "r_stakeVerifier example_router = Some example_verifier"
  by (simp_all add: example_router_def)

lemma example_accepted:
  "fst (Router_HandleMessage example_env example_handlers 1000 example_msg (Some example_node)
     example_router) = None"
  by code_simp

lemma example_handlers_keep: "handlers_keep_tracker example_handlers"
  by (simp add: handlers_keep_tracker_def example_handlers_def)

theorem handled_messages_validated_witness:
  "m_Version example_msg = 1 \<and>
   (\<exists>w t stake. StakeVerifier_GetWallet 3 example_verifier = Some w \<and> 1000 - t < 5 * Minute \<and>
      cv_getStake example_chain w = Some stake \<and> 10 ^ 24 \<le> stake)"
  using handled_messages_validated [of example_router NewBanList NewNonceTracker 5 example_verifier
      "\<lambda>_. example_chain" 1000 example_env example_handlers example_msg example_node None
      "snd (Router_HandleMessage example_env example_handlers 1000 example_msg (Some example_node)
         example_router)"] example_accepted example_verifier_facts(1-3)
  by (simp add: prod_eq_iff example_node_def handled_def example_msg_def requires_stake_gated)


text \<open>Three rate-limit violations of a peer within five minutes ban it: from the third
  violation on it counts as banned until exactly the duration of its staking tier has
  passed (one hour when no stake verifier is configured).\<close>

theorem three_violations_ban:
  assumes "r_banList r = Some bl" "fmlookup (r_violationCounters r) p = None" "0 < t\<^sub>3"
    and "t\<^sub>1 \<le> t\<^sub>2" "t\<^sub>2 \<le> t\<^sub>3" "t\<^sub>3 - t\<^sub>1 \<le> 5 * Minute"
  shows "\<exists>bl'. r_banList (Router_recordViolation t\<^sub>3 p
                 (Router_recordViolation t\<^sub>2 p (Router_recordViolation t\<^sub>1 p r))) = Some bl' \<and>
           (\<forall>u. BanList_IsBanned u p bl' \<longleftrightarrow> u \<le> t\<^sub>3 + ban_duration_for t\<^sub>3 p r)"
proof -
  have d: "0 < ban_duration_for t\<^sub>3 p (r\<lparr>r_violationCounters := m\<rparr>)" for m
    by (rule ban_duration_for_pos)
  have "ban_duration_for t\<^sub>3 p (r\<lparr>r_violationCounters := m\<rparr>) = ban_duration_for t\<^sub>3 p r" for m
    by (simp add: ban_duration_for_def)
  then show ?thesis
    using assms d
    by (auto simp: Router_recordViolation_def Let_def violationThreshold_def violationWindow_def
        autoBan_bans bans.denied_deny)
qed

theorem three_violations_ban_witness:
  "\<exists>bl'. r_banList (Router_recordViolation 30 8
       (Router_recordViolation 20 8 (Router_recordViolation 10 8 example_router))) = Some bl' \<and>
     (\<forall>u. BanList_IsBanned u 8 bl' \<longleftrightarrow> u \<le> 30 + ban_duration_for 30 8 example_router)"
  by (rule three_violations_ban) (simp_all add: example_router_def)



text \<open>A message without a sender node that fails the nonce check makes the router
  dereference the nil sender, whatever else the router is configured with.\<close>

theorem nil_sender_panics:
  assumes "r_nonceTracker r = Some nt"
    and "fst (NonceTracker_Check now (m_Nonce msg) (m_Timestamp msg) nt) \<noteq> None"
  shows "fst (Router_HandleMessage env hs now msg None r) = Some NilSenderPanic"
  using assms
  by (auto simp: Router_HandleMessage_def stage_rateLimit_def stage_ban_def stage_nonce_def Let_def
      split: prod.splits)

theorem nil_sender_panics_witness:
  "fst (Router_HandleMessage example_env example_handlers 1000 (example_msg\<lparr>m_Nonce := 0\<rparr>) None
     example_router) = Some NilSenderPanic"
  by (rule nil_sender_panics) (simp_all add: example_router_def NonceTracker_Check_def)

end
