(* ===== verification/Peer_Table.thy ===== *)
theory Peer_Table
  imports Router
begin

text \<open>
  The router's peer table: \<^verbatim>\<open>src/internal/p2p/peer_management.go\<close> (admission, eviction,
  removal), \<^verbatim>\<open>connection_pool.go\<close> (idle clean-up, dialling, address resolution) and the
  sending side of \<^verbatim>\<open>routing.go\<close>.  Loops over the peer map take the visiting order
  \<open>ks\<close>.  The table stays within its capacity and the diversity counters describe exactly
  the peers in the table as long as peers enter through \<^verbatim>\<open>AddPeer\<close>.
\<close>

subsection \<open>Strings\<close>

text \<open>\<^verbatim>\<open>strings.Split\<close> with a one-character separator.\<close>

fun split_on :: "char \<Rightarrow> string \<Rightarrow> string list" where
  "split_on c [] = [[]]"
| "split_on c (x # xs) =
     (if x = c then [] # split_on c xs
      else case split_on c xs of [] \<Rightarrow> [[x]] | p # ps \<Rightarrow> (x # p) # ps)"

definition hex2 :: "nat \<Rightarrow> string" where
  "hex2 b = [digit_char (b div 16), digit_char (b mod 16)]"

definition JoinHostPort :: "string \<Rightarrow> string \<Rightarrow> string" where
  "JoinHostPort host port =
     (if CHR '':'' \<in> set host then ''['' @ host @ '']:'' @ port else host @ '':'' @ port)"

subsection \<open>Address helpers\<close>

definition subnetFromAddress :: "string \<Rightarrow> string" where
  "subnetFromAddress addr =
     (if addr = '''' then ''''
      else
        let ip = (if has_prefix addr ''/ip4/'' \<or> has_prefix addr ''/ip6/'' then
                    let parts = split_on CHR ''/'' addr in
                    if length parts > 2 then parts ! 2 else addr
                  else case SplitHostPort addr of Some (host, _) \<Rightarrow> host | None \<Rightarrow> addr)
        in (case ParseIP ip of
              None \<Rightarrow> ''''
            | Some parsed \<Rightarrow>
                (case To4 parsed of
                   Some v4 \<Rightarrow> print_dec (v4 ! 0) @ ''.'' @ print_dec (v4 ! 1) @ ''.0.0/16''
                 | None \<Rightarrow> hex2 (parsed ! 0) @ hex2 (parsed ! 1) @ '':'' @ hex2 (parsed ! 2) @
                           hex2 (parsed ! 3) @ '':'' @ hex2 (parsed ! 4) @ hex2 (parsed ! 5) @ ''::/48'')))"

fun multiaddr_scan :: "string list \<Rightarrow> string \<Rightarrow> string \<Rightarrow> string \<times> string" where
  "multiaddr_scan (x # y # rest) ip port =
     (if x = ''ip4'' \<or> x = ''ip6'' then multiaddr_scan (y # rest) y port
      else if x = ''tcp'' then multiaddr_scan (y # rest) ip y
      else multiaddr_scan (y # rest) ip port)"
| "multiaddr_scan _ ip port = (ip, port)"

definition extractTCPAddressFromMultiaddr :: "string \<Rightarrow> string" where
  "extractTCPAddressFromMultiaddr addr =
     (let (ip, port) = multiaddr_scan (split_on CHR ''/'' addr) '''' ''''
      in if ip \<noteq> '''' \<and> port \<noteq> '''' then JoinHostPort ip port
         else if ip \<noteq> '''' then JoinHostPort ip ''9000''
         else '''')"

definition Router_resolveAddress :: "Node \<Rightarrow> string" where
  "Router_resolveAddress node =
     (if n_Address node \<noteq> '''' then
        if has_prefix (n_Address node) ''/ip4/'' \<or> has_prefix (n_Address node) ''/ip6/''
        then extractTCPAddressFromMultiaddr (n_Address node)
        else if CHR '':'' \<in> set (n_Address node) then n_Address node
        else if n_Port node > 0 then n_Address node @ '':'' @ print_dec (nat (n_Port node))
        else n_Address node @ '':9000''
      else '''')"

subsection \<open>Membership\<close>

definition Router_GetPeersByRegion :: "node_id list \<Rightarrow> string \<Rightarrow> ('lim, 'pk) Router \<Rightarrow> Node list" where
  "Router_GetPeersByRegion ks region r =
     map pc_Node (filter (\<lambda>p. n_Region (pc_Node p) = region)
       (List.map_filter (fmlookup (r_peers r)) ks))"

text \<open>Forgetting a peer in the diversity enforcer, the scorer and the stake verifier.\<close>

definition Router_forget :: "node_id \<Rightarrow> PeerConnection \<Rightarrow> ('lim, 'pk) Router \<Rightarrow> ('lim, 'pk) Router" where
  "Router_forget nodeID peer r =
     r\<lparr>r_diversityEnforcer :=
         map_option (PeerDiversityEnforcer_RemovePeer (n_Region (pc_Node peer))
                       (subnetFromAddress (n_Address (pc_Node peer)))) (r_diversityEnforcer r),
       r_peerScorer := map_option (PeerScorer_RemovePeer nodeID) (r_peerScorer r),
       r_stakeVerifier := map_option (StakeVerifier_RemovePeer nodeID) (r_stakeVerifier r)\<rparr>"

definition oldest_idle :: "(node_id, PeerConnection) gomap \<Rightarrow> node_id list \<Rightarrow> (node_id \<times> time) option" where
  "oldest_idle peers ks =
     fold (\<lambda>nodeID best.
        case fmlookup peers nodeID of
          None \<Rightarrow> best
        | Some peer \<Rightarrow>
            if \<not> pc_Connected peer then
              (case best of
                 None \<Rightarrow> Some (nodeID, pc_LastSeen peer)
               | Some (_, oldestTime) \<Rightarrow>
                   if pc_LastSeen peer < oldestTime then Some (nodeID, pc_LastSeen peer) else best)
            else best) ks None"

definition Router_evictOldestIdlePeerLocked ::
    "node_id list \<Rightarrow> ('lim, 'pk) Router \<Rightarrow> bool \<times> ('lim, 'pk) Router" where
  "Router_evictOldestIdlePeerLocked ks r =
     (case oldest_idle (r_peers r) ks of
        None \<Rightarrow> (False, r)
      | Some (oldestID, _) \<Rightarrow>
          let r = (case fmlookup (r_peers r) oldestID of
                     Some peer \<Rightarrow> Router_forget oldestID peer r | None \<Rightarrow> r)
          in (True, r\<lparr>r_peers := fmdrop oldestID (r_peers r)\<rparr>))"

definition Router_AddPeer ::
    "time \<Rightarrow> node_id list \<Rightarrow> Node \<Rightarrow> ('lim, 'pk) Router \<Rightarrow> bool \<times> ('lim, 'pk) Router" where
  "Router_AddPeer now ks node r =
     (case fmlookup (r_peers r) (n_ID node) of
        Some existing \<Rightarrow>
          (True, r\<lparr>r_peers := fmupd (n_ID node) (existing\<lparr>pc_LastSeen := now\<rparr>) (r_peers r)\<rparr>)
      | None \<Rightarrow>
          let subnet = subnetFromAddress (n_Address node);
              region = n_Region node;
              rejected = (case r_diversityEnforcer r of
                            Some de \<Rightarrow> \<not> PeerDiversityEnforcer_AllowPeer region subnet de
                          | None \<Rightarrow> False)
          in if rejected then (False, r)
             else
               let (room, r) = (if int (mlen (r_peers r)) \<ge> r_maxPeers r
                                then Router_evictOldestIdlePeerLocked ks r else (True, r))
               in if \<not> room then (False, r)
                  else (True,
                    r\<lparr>r_diversityEnforcer :=
                        map_option (PeerDiversityEnforcer_RecordPeer region subnet) (r_diversityEnforcer r),
                      r_peers := fmupd (n_ID node)
                        \<lparr> pc_Node = node, pc_Conn = False, pc_Connected = False, pc_LastSeen = now \<rparr>
                        (r_peers r)\<rparr>))"

definition Router_RemovePeer :: "node_id \<Rightarrow> ('lim, 'pk) Router \<Rightarrow> ('lim, 'pk) Router" where
  "Router_RemovePeer nodeID r =
     (case fmlookup (r_peers r) nodeID of
        None \<Rightarrow> r
      | Some peer \<Rightarrow>
          (Router_forget nodeID peer r)\<lparr>r_peers := fmdrop nodeID (r_peers r)\<rparr>)"

definition Router_CleanupStaleConnections ::
    "time \<Rightarrow> node_id list \<Rightarrow> duration \<Rightarrow> ('lim, 'pk) Router \<Rightarrow> ('lim, 'pk) Router" where
  "Router_CleanupStaleConnections now ks maxAge r =
     fold (\<lambda>nodeID r.
        case fmlookup (r_peers r) nodeID of
          None \<Rightarrow> r
        | Some peer \<Rightarrow>
            if t_sub now (pc_LastSeen peer) > maxAge
            then (Router_forget nodeID peer r)\<lparr>r_peers := fmdrop nodeID (r_peers r)\<rparr>
            else r) ks r"

definition Router_cleanupIdleConnections :: "time \<Rightarrow> ('lim, 'pk) Router \<Rightarrow> ('lim, 'pk) Router" where
  "Router_cleanupIdleConnections now r =
     r\<lparr>r_peers := fmmap (\<lambda>peer.
          if pc_Connected peer \<and> t_sub now (pc_LastSeen peer) > r_connectionTimeout r \<and> pc_Conn peer
          then peer\<lparr>pc_Conn := False, pc_Connected := False\<rparr> else peer) (r_peers r)\<rparr>"

definition Router_Close :: "node_id list \<Rightarrow> ('lim, 'pk) Router \<Rightarrow> ('lim, 'pk) Router" where
  "Router_Close ks r =
     (fold (\<lambda>nodeID r'. case fmlookup (r_peers r) nodeID of
                         None \<Rightarrow> r' | Some peer \<Rightarrow> Router_forget nodeID peer r') ks r)
       \<lparr>r_peers := fmempty\<rparr>"

subsection \<open>Sending\<close>

datatype send_error =
    PeerNotFound | NoValidAddress | SendBanned | NoTransport | UnresolvedAddress | DialFailed
  | NonceGeneration | SignableFailed | SignFailed | SerializeFailed | WriteFailed

text \<open>
  What the outside answers during one \<^verbatim>\<open>SendMessage\<close>: the DHT lookup, whether a transport
  is configured, the dial, random bytes for the nonce, the signature, the serialisation
  and the write.
\<close>

record send_world =
  sw_findNode :: "Node list option"
  sw_transport :: bool
  sw_dial :: "string \<Rightarrow> bool"
  sw_rand :: "nonce24 option"
  sw_sign :: "byte list \<Rightarrow> byte list option"
  sw_marshal :: "Message \<Rightarrow> byte list option"
  sw_write :: "byte list \<Rightarrow> bool"

definition Router_ensureConnection ::
    "send_world \<Rightarrow> time \<Rightarrow> node_id \<Rightarrow> PeerConnection \<Rightarrow> ('lim, 'pk) Router \<Rightarrow>
     send_error option \<times> ('lim, 'pk) Router" where
  "Router_ensureConnection w now key peerConn r =
     (if (case r_banList r of
            Some bl \<Rightarrow> BanList_IsBanned now (n_ID (pc_Node peerConn)) bl | None \<Rightarrow> False)
      then (Some SendBanned, r)
      else if pc_Connected peerConn \<and> pc_Conn peerConn then (None, r)
      else if \<not> sw_transport w then (Some NoTransport, r)
      else
        let addr = Router_resolveAddress (pc_Node peerConn) in
        if addr = '''' then (Some UnresolvedAddress, r)
        else if \<not> sw_dial w addr then (Some DialFailed, r)
        else (None, r\<lparr>r_peers := fmupd key
                (peerConn\<lparr>pc_Conn := True, pc_Connected := True, pc_LastSeen := now\<rparr>) (r_peers r)\<rparr>))"

definition send_prepare ::
    "time \<Rightarrow> node_id \<Rightarrow> send_world \<Rightarrow> Message \<Rightarrow> ('lim, 'pk) env \<Rightarrow> ('lim, 'pk) Router \<Rightarrow>
     send_error + Message" where
  "send_prepare now dest w msg env r =
     (let msg = (case r_localNode r of Some l \<Rightarrow> msg\<lparr>m_From := n_ID l\<rparr> | None \<Rightarrow> msg);
          msg = msg\<lparr>m_To := dest, m_Version := ProtocolVersion\<rparr>;
          msg = (if m_Timestamp msg = 0 then msg\<lparr>m_Timestamp := now\<rparr> else msg)
      in (case (if m_Nonce msg = 0
                then map_option (\<lambda>n. msg\<lparr>m_Nonce := n\<rparr>) (sw_rand w) else Some msg) of
            None \<Rightarrow> Inl NonceGeneration
          | Some msg \<Rightarrow>
              (case r_keyManager r of
                 None \<Rightarrow> Inr msg
               | Some _ \<Rightarrow>
                   (case Message_SignableBytes env msg of
                      None \<Rightarrow> Inl SignableFailed
                    | Some b \<Rightarrow>
                        (case sw_sign w b of
                           None \<Rightarrow> Inl SignFailed
                         | Some sig \<Rightarrow> Inr (msg\<lparr>m_Signature := sig\<rparr>))))))"

definition send_write ::
    "send_world \<Rightarrow> time \<Rightarrow> node_id \<Rightarrow> Message \<Rightarrow> ('lim, 'pk) Router \<Rightarrow>
     send_error option \<times> ('lim, 'pk) Router" where
  "send_write w now dest msg r =
     (case sw_marshal w msg of
        None \<Rightarrow> (Some SerializeFailed, r)
      | Some msgData \<Rightarrow>
          (case fmlookup (r_peers r) dest of
             None \<Rightarrow> (None, r)
           | Some peerConn \<Rightarrow>
               if \<not> sw_write w msgData
               then (Some WriteFailed, r\<lparr>r_peers := fmupd dest
                       (peerConn\<lparr>pc_Connected := False, pc_Conn := False\<rparr>) (r_peers r)\<rparr>)
               else (None, r\<lparr>r_peers := fmupd dest (peerConn\<lparr>pc_LastSeen := now\<rparr>) (r_peers r)\<rparr>)))"

definition Router_SendMessage ::
    "('lim, 'pk) env \<Rightarrow> send_world \<Rightarrow> time \<Rightarrow> node_id \<Rightarrow> Message \<Rightarrow> ('lim, 'pk) Router \<Rightarrow>
     send_error option \<times> ('lim, 'pk) Router" where
  "Router_SendMessage env w now dest msg r =
     (case (case fmlookup (r_peers r) dest of
              Some peerConn \<Rightarrow> Inr (peerConn, r)
            | None \<Rightarrow>
                (case sw_findNode w of
                   None \<Rightarrow> Inl PeerNotFound
                 | Some [] \<Rightarrow> Inl PeerNotFound
                 | Some (node # _) \<Rightarrow>
                     if n_Address node = '''' \<and> n_Port node = 0 then Inl NoValidAddress
                     else
                       let peerConn = \<lparr> pc_Node = node, pc_Conn = False, pc_Connected = False,
                                        pc_LastSeen = now \<rparr>
                       in Inr (peerConn, r\<lparr>r_peers := fmupd dest peerConn (r_peers r)\<rparr>))) of
        Inl e \<Rightarrow> (Some e, r)
      | Inr (peerConn, r) \<Rightarrow>
          (case Router_ensureConnection w now dest peerConn r of
             (Some e, r) \<Rightarrow> (Some e, r)
           | (None, r) \<Rightarrow>
               (case send_prepare now dest w msg env r of
                  Inl e \<Rightarrow> (Some e, r)
                | Inr msg \<Rightarrow> send_write w now dest msg r)))"

subsection \<open>The peer the eviction loop selects\<close>

definition idle_at :: "(node_id, PeerConnection) gomap \<Rightarrow> node_id \<Rightarrow> time \<Rightarrow> bool" where
  "idle_at peers k t \<longleftrightarrow> (\<exists>p. fmlookup peers k = Some p \<and> \<not> pc_Connected p \<and> pc_LastSeen p = t)"

lemma oldest_idle_spec:
  "case oldest_idle peers ks of
     None \<Rightarrow> \<forall>k \<in> set ks. \<forall>t. \<not> idle_at peers k t
   | Some (k, t) \<Rightarrow> k \<in> set ks \<and> idle_at peers k t \<and> (\<forall>j \<in> set ks. \<forall>u. idle_at peers j u \<longrightarrow> t \<le> u)"
proof (induction ks rule: rev_induct)
  case Nil
  show ?case by (simp add: oldest_idle_def)
next
  case (snoc x xs)
  then show ?case
    by (cases "fmlookup peers x")
       (force simp: oldest_idle_def idle_at_def split: option.splits prod.splits if_splits)+
qed

lemma oldest_idle_Some:
  assumes "oldest_idle peers ks = Some (k, t)"
  shows "idle_at peers k t" "\<And>j u. j \<in> set ks \<Longrightarrow> idle_at peers j u \<Longrightarrow> t \<le> u"
  using oldest_idle_spec [where peers = peers and ks = ks] assms by auto

lemma oldest_idle_None: "oldest_idle peers ks = None \<Longrightarrow> k \<in> set ks \<Longrightarrow> \<not> idle_at peers k t"
  using oldest_idle_spec [where peers = peers and ks = ks] by auto

subsection \<open>The diversity counters describe the table\<close>

definition place :: "PeerConnection \<Rightarrow> string \<times> string" where
  "place p = (n_Region (pc_Node p), subnetFromAddress (n_Address (pc_Node p)))"

definition places :: "(node_id, PeerConnection) gomap \<Rightarrow> (string \<times> string) multiset" where
  "places m = image_mset (\<lambda>k. place (the (fmlookup m k))) (mset_set (fmdom' m))"

lemma finite_fmdom' [simp]: "finite (fmdom' m)"
  by (simp add: fmdom'_alt_def)

lemma places_empty [simp]: "places fmempty = {#}"
  by (simp add: places_def)

lemma places_drop:
  assumes "fmlookup m k = Some p"
  shows "places (fmdrop k m) = places m - {#place p#}" "place p \<in># places m"
proof -
  have k: "k \<in> fmdom' m" using assms by (simp add: fmlookup_dom'_iff)
  have "fmdom' (fmdrop k m) = fmdom' m - {k}" by auto
  moreover have "image_mset (\<lambda>j. place (the (fmlookup (fmdrop k m) j))) (mset_set (fmdom' m - {k})) =
                 image_mset (\<lambda>j. place (the (fmlookup m j))) (mset_set (fmdom' m - {k}))"
    by (intro image_mset_cong) auto
  moreover have "mset_set (fmdom' m) = add_mset k (mset_set (fmdom' m - {k}))"
    using k by (simp add: mset_set.remove)
  ultimately show "places (fmdrop k m) = places m - {#place p#}" "place p \<in># places m"
    using assms by (simp_all add: places_def)
qed

lemma places_upd:
  assumes "fmlookup m k = None"
  shows "places (fmupd k p m) = add_mset (place p) (places m)"
proof -
  have k: "k \<notin> fmdom' m" using assms by (simp add: fmlookup_dom'_iff)
  have "image_mset (\<lambda>j. place (the (fmlookup (fmupd k p m) j))) (mset_set (fmdom' m)) =
        image_mset (\<lambda>j. place (the (fmlookup m j))) (mset_set (fmdom' m))"
    using k by (intro image_mset_cong) auto
  then show ?thesis using k by (simp add: places_def)
qed

lemma places_same:
  assumes "fmdom' m' = fmdom' m"
    and "\<And>k p. fmlookup m k = Some p \<Longrightarrow> place (the (fmlookup m' k)) = place p"
  shows "places m' = places m"
  unfolding places_def assms(1)
  using assms(2) by (intro image_mset_cong) (auto simp: fmlookup_dom'_iff)

lemma places_fmmap: "(\<And>p. place (f p) = place p) \<Longrightarrow> places (fmmap f m) = places m"
  by (rule places_same) simp_all

subsection \<open>Invariant of the table\<close>

definition diverse :: "('lim, 'pk) Router \<Rightarrow> bool" where
  "diverse r \<longleftrightarrow> (case r_diversityEnforcer r of None \<Rightarrow> True | Some de \<Rightarrow> pde_abs de (places (r_peers r)))"

definition capped :: "('lim, 'pk) Router \<Rightarrow> bool" where
  "capped r \<longleftrightarrow> 0 < r_maxPeers r \<and> int (mlen (r_peers r)) \<le> r_maxPeers r"

definition table_inv :: "('lim, 'pk) Router \<Rightarrow> bool" where
  "table_inv r \<longleftrightarrow> capped r \<and> diverse r"

datatype pt_op =
    PTAdd time "node_id list" Node | PTRemove node_id
  | PTCleanStale time "node_id list" duration | PTCleanIdle time

fun pt_step :: "pt_op \<Rightarrow> ('lim, 'pk) Router \<Rightarrow> ('lim, 'pk) Router" where
  "pt_step (PTAdd now ks node) r = snd (Router_AddPeer now ks node r)"
| "pt_step (PTRemove n) r = Router_RemovePeer n r"
| "pt_step (PTCleanStale now ks d) r = Router_CleanupStaleConnections now ks d r"
| "pt_step (PTCleanIdle now) r = Router_cleanupIdleConnections now r"

lemma Router_forget_keeps [simp]:
  "r_peers (Router_forget n p r) = r_peers r" "r_maxPeers (Router_forget n p r) = r_maxPeers r"
  by (simp_all add: Router_forget_def)

text \<open>Forgetting a peer and dropping it from the table.\<close>

lemma diverse_drop:
  assumes "diverse r" "fmlookup (r_peers r) n = Some p"
  shows "diverse ((Router_forget n p r)\<lparr>r_peers := fmdrop n (r_peers r)\<rparr>)"
  using assms places_drop [OF assms(2)]
    pde_abs_Remove [of _ "places (r_peers r)" "n_Region (pc_Node p)" "subnetFromAddress (n_Address (pc_Node p))"]
  by (auto simp: diverse_def Router_forget_def place_def split: option.splits)

lemma table_inv_drop:
  assumes "table_inv r" "fmlookup (r_peers r) n = Some p"
  shows "table_inv ((Router_forget n p r)\<lparr>r_peers := fmdrop n (r_peers r)\<rparr>)"
  using assms diverse_drop [of r n p] mlen_drop [of n "r_peers r"]
  by (auto simp: table_inv_def capped_def simp del: fmdom_drop)

lemma table_inv_Remove: "table_inv r \<Longrightarrow> table_inv (Router_RemovePeer n r)"
  by (simp add: Router_RemovePeer_def table_inv_drop split: option.splits)

lemma table_inv_CleanStale: "table_inv r \<Longrightarrow> table_inv (Router_CleanupStaleConnections now ks d r)"
  unfolding Router_CleanupStaleConnections_def
  by (induction ks arbitrary: r) (simp_all add: table_inv_drop split: option.splits)

lemma table_inv_CleanIdle: "table_inv r \<Longrightarrow> table_inv (Router_cleanupIdleConnections now r)"
  by (simp add: table_inv_def capped_def diverse_def Router_cleanupIdleConnections_def place_def
      places_fmmap split: option.splits)

text \<open>Eviction makes room for one peer.\<close>

lemma evict_room:
  assumes "table_inv r" "Router_evictOldestIdlePeerLocked ks r = (True, r')"
  shows "table_inv r' \<and> int (mlen (r_peers r')) < r_maxPeers r' \<and> r_maxPeers r' = r_maxPeers r \<and>
         (\<forall>k. fmlookup (r_peers r) k = None \<longrightarrow> fmlookup (r_peers r') k = None)"
proof -
  from assms(2) obtain k t where k: "oldest_idle (r_peers r) ks = Some (k, t)"
    by (auto simp: Router_evictOldestIdlePeerLocked_def split: option.splits)
  from oldest_idle_Some(1) [OF this] obtain p where p: "fmlookup (r_peers r) k = Some p"
    by (auto simp: idle_at_def)
  have r': "r' = (Router_forget k p r)\<lparr>r_peers := fmdrop k (r_peers r)\<rparr>"
    using assms(2) k p by (simp add: Router_evictOldestIdlePeerLocked_def)
  have "mlen (fmdrop k (r_peers r)) = mlen (r_peers r) - 1" "0 < mlen (r_peers r)"
    using p mlen_drop [of k "r_peers r"] mlen_pos [OF p] by simp_all
  then show ?thesis
    using table_inv_drop [OF assms(1) p] assms(1)
    by (auto simp: r' table_inv_def capped_def simp del: fmdom_drop)
qed

lemma evict_False: "Router_evictOldestIdlePeerLocked ks r = (False, r') \<Longrightarrow> r' = r"
  by (auto simp: Router_evictOldestIdlePeerLocked_def Let_def split: option.splits)

lemma table_inv_Add: "table_inv r \<Longrightarrow> table_inv (snd (Router_AddPeer now ks node r))"
proof (cases "fmlookup (r_peers r) (n_ID node)")
  case (Some e)
  assume "table_inv r"
  moreover have "places (fmupd (n_ID node) (e\<lparr>pc_LastSeen := now\<rparr>) (r_peers r)) = places (r_peers r)"
    using Some by (intro places_same) (auto simp: fmlookup_dom'_iff place_def)
  ultimately show ?thesis
    using Some mlen_upd [of "n_ID node" "e\<lparr>pc_LastSeen := now\<rparr>" "r_peers r"]
    by (simp add: Router_AddPeer_def table_inv_def capped_def diverse_def del: fmdom_fmupd
        split: option.splits)
next
  case None
  assume inv: "table_inv r"
  have add: "table_inv (r'\<lparr>r_diversityEnforcer := map_option (PeerDiversityEnforcer_RecordPeer
               (n_Region node) (subnetFromAddress (n_Address node))) (r_diversityEnforcer r'),
             r_peers := fmupd (n_ID node) \<lparr> pc_Node = node, pc_Conn = False, pc_Connected = False,
               pc_LastSeen = now \<rparr> (r_peers r')\<rparr>)"
    if "table_inv r'" "int (mlen (r_peers r')) < r_maxPeers r'" "fmlookup (r_peers r') (n_ID node) = None"
    for r' :: "('a, 'b) Router"
    using that by (auto simp: table_inv_def capped_def diverse_def mlen_upd places_upd place_def
        pde_abs_Record simp del: fmdom_fmupd split: option.splits)
  show ?thesis
    using inv None add [of r] evict_room [OF inv, of ks] evict_False [of ks r] add
    by (auto simp: Router_AddPeer_def Let_def not_le split: prod.splits bool.splits)
qed

interpretation peer_table: guarded_machine pt_step "\<lambda>_ _. True" table_inv
proof
  fix op and s :: "('a, 'b) Router"
  assume "table_inv s"
  then show "table_inv (pt_step op s)"
    by (cases op) (simp_all add: table_inv_Add table_inv_Remove table_inv_CleanStale table_inv_CleanIdle)
qed

subsection \<open>Properties\<close>


definition empty_table :: "(unit, nat) Router" where
  "empty_table = example_router\<lparr>r_diversityEnforcer := Some NewPeerDiversityEnforcer, r_maxPeers := 1\<rparr>"


text \<open>Eviction at capacity removes a disconnected peer that was seen no later than any
  other disconnected peer, and leaves every other peer in place; it fails only when every
  peer is connected.  This holds for every order in which Go may iterate the peer map.\<close>

theorem eviction_selects_oldest_idle:
  assumes "enumerates ks (r_peers r)" "Router_evictOldestIdlePeerLocked ks r = (ok, r')"
  shows "if ok then \<exists>k p. fmlookup (r_peers r) k = Some p \<and> \<not> pc_Connected p \<and>
                     r_peers r' = fmdrop k (r_peers r) \<and>
                     (\<forall>j q. fmlookup (r_peers r) j = Some q \<and> \<not> pc_Connected q \<longrightarrow>
                            pc_LastSeen p \<le> pc_LastSeen q)
         else r' = r \<and> (\<forall>j q. fmlookup (r_peers r) j = Some q \<longrightarrow> pc_Connected q)"
proof (cases "oldest_idle (r_peers r) ks")
  case None
  then have "pc_Connected q" if "fmlookup (r_peers r) j = Some q" for j q
    using oldest_idle_None [OF None, of j] that enumerates_in [OF assms(1), of j] by (auto simp: idle_at_def)
  then show ?thesis using assms(2) None by (auto simp: Router_evictOldestIdlePeerLocked_def)
next
  case (Some kt)
  then obtain k t where kt: "oldest_idle (r_peers r) ks = Some (k, t)" by (cases kt) simp
  note o = oldest_idle_Some [OF kt]
  from o(1) obtain p where p: "fmlookup (r_peers r) k = Some p" "\<not> pc_Connected p" "pc_LastSeen p = t"
    by (auto simp: idle_at_def)
  have "t \<le> pc_LastSeen q" if "fmlookup (r_peers r) j = Some q" "\<not> pc_Connected q" for j q
    using o(2) [of j] that enumerates_in [OF assms(1), of j] by (auto simp: idle_at_def)
  moreover have "ok" "r_peers r' = fmdrop k (r_peers r)"
    using assms(2) kt p by (auto simp: Router_evictOldestIdlePeerLocked_def)
  ultimately show ?thesis using p by (auto intro!: exI [of _ k] exI [of _ p])
qed

definition two_idle :: "(unit, nat) Router" where
  "two_idle = example_router\<lparr>r_peers := fmap_of_list
     [(1, \<lparr> pc_Node = example_node, pc_Conn = False, pc_Connected = False, pc_LastSeen = 20 \<rparr>),
      (2, \<lparr> pc_Node = example_node, pc_Conn = False, pc_Connected = False, pc_LastSeen = 10 \<rparr>)]\<rparr>"

theorem eviction_selects_oldest_idle_witness:
  "\<exists>k p. fmlookup (r_peers two_idle) k = Some p \<and> \<not> pc_Connected p \<and>
     r_peers (snd (Router_evictOldestIdlePeerLocked [1, 2] two_idle)) = fmdrop k (r_peers two_idle)"
proof -
  have "enumerates [1, 2] (r_peers two_idle)" by (simp add: enumerates_def two_idle_def)
  moreover have "fst (Router_evictOldestIdlePeerLocked [1, 2] two_idle)"
    by (simp add: Router_evictOldestIdlePeerLocked_def oldest_idle_def two_idle_def fmlookup_of_list)
  ultimately show ?thesis
    using eviction_selects_oldest_idle [of "[1, 2]" two_idle True
      "snd (Router_evictOldestIdlePeerLocked [1, 2] two_idle)"]
    by (auto simp: prod_eq_iff)
qed

definition send_example :: send_world where
  "send_example = \<lparr> sw_findNode = Some [example_node\<lparr>n_ID := 4\<rparr>], sw_transport = False,
     sw_dial = (\<lambda>_. False), sw_rand = Some 1, sw_sign = (\<lambda>_. Some [1]), sw_marshal = (\<lambda>_. Some [1]),
     sw_write = (\<lambda>_. True) \<rparr>"

text \<open>Sending to a peer found through the DHT enters it into the table without the
  capacity and diversity checks of \<^verbatim>\<open>AddPeer\<close>: a table of capacity one ends up with two
  peers, and the enforcer still counts one, even though the send itself fails.\<close>

theorem send_bypasses_capacity:
  "let r = snd (Router_AddPeer 5 [] example_node empty_table);
       (res, r') = Router_SendMessage example_env send_example 6 4 example_msg r
   in mlen (r_peers r) = 1 \<and> res = Some NoTransport \<and> mlen (r_peers r') = 2 \<and>
      r_maxPeers r' = 1 \<and> map_option pde_totalPeers (r_diversityEnforcer r') = Some 1"
  by code_simp

end
