(* ===== verification/Circuit_Breaker.thy ===== *)
theory Circuit_Breaker
  imports Prelude
begin

text \<open>
  The circuit breakers of the peer-to-peer layer (\<^verbatim>\<open>src/internal/p2p/circuit_breaker.go\<close>): one breaker as a
  state machine over time, and the breakers of all peers.  A counter is an unbounded integer.  The
  breaker that \<^verbatim>\<open>Get\<close> returns is used at once by its callers in this file, so breakers are values.
\<close>

datatype CircuitState = CircuitClosed | CircuitOpen | CircuitHalfOpen

record CircuitBreakerConfig =
  cc_FailureThreshold :: int
  cc_SuccessThreshold :: int
  cc_Timeout :: duration
  cc_HalfOpenMaxRequests :: int

definition DefaultCircuitBreakerConfig :: CircuitBreakerConfig where
  "DefaultCircuitBreakerConfig =
     \<lparr> cc_FailureThreshold = 5, cc_SuccessThreshold = 2, cc_Timeout = 30 * Second, cc_HalfOpenMaxRequests = 3 \<rparr>"

record CircuitBreaker =
  cb_config :: CircuitBreakerConfig
  cb_state :: CircuitState
  cb_failures :: int
  cb_successes :: int
  cb_lastFailure :: time
  cb_halfOpenReqs :: int

definition NewCircuitBreaker :: "CircuitBreakerConfig option \<Rightarrow> CircuitBreaker" where
  "NewCircuitBreaker config =
     \<lparr> cb_config = (case config of None \<Rightarrow> DefaultCircuitBreakerConfig | Some config \<Rightarrow> config),
       cb_state = CircuitClosed, cb_failures = 0, cb_successes = 0, cb_lastFailure = 0, cb_halfOpenReqs = 0 \<rparr>"

definition CircuitBreaker_Allow :: "time \<Rightarrow> CircuitBreaker \<Rightarrow> bool \<times> CircuitBreaker" where
  "CircuitBreaker_Allow now cb =
     (case cb_state cb of
        CircuitClosed \<Rightarrow> (True, cb)
      | CircuitOpen \<Rightarrow>
          if t_sub now (cb_lastFailure cb) \<ge> cc_Timeout (cb_config cb)
          then (True, cb\<lparr>cb_state := CircuitHalfOpen, cb_halfOpenReqs := 1, cb_successes := 0\<rparr>)
          else (False, cb)
      | CircuitHalfOpen \<Rightarrow>
          if cb_halfOpenReqs cb < cc_HalfOpenMaxRequests (cb_config cb)
          then (True, cb\<lparr>cb_halfOpenReqs := cb_halfOpenReqs cb + 1\<rparr>)
          else (False, cb))"

definition CircuitBreaker_RecordSuccess :: "CircuitBreaker \<Rightarrow> CircuitBreaker" where
  "CircuitBreaker_RecordSuccess cb =
     (case cb_state cb of
        CircuitClosed \<Rightarrow> cb\<lparr>cb_failures := 0\<rparr>
      | CircuitHalfOpen \<Rightarrow>
          let cb = cb\<lparr>cb_successes := cb_successes cb + 1\<rparr> in
          if cb_successes cb \<ge> cc_SuccessThreshold (cb_config cb)
          then cb\<lparr>cb_state := CircuitClosed, cb_failures := 0, cb_successes := 0\<rparr>
          else cb
      | CircuitOpen \<Rightarrow> cb)"

definition CircuitBreaker_RecordFailure :: "time \<Rightarrow> CircuitBreaker \<Rightarrow> CircuitBreaker" where
  "CircuitBreaker_RecordFailure now cb =
     (let cb = cb\<lparr>cb_lastFailure := now\<rparr> in
      case cb_state cb of
        CircuitClosed \<Rightarrow>
          let cb = cb\<lparr>cb_failures := cb_failures cb + 1\<rparr> in
          if cb_failures cb \<ge> cc_FailureThreshold (cb_config cb) then cb\<lparr>cb_state := CircuitOpen\<rparr> else cb
      | CircuitHalfOpen \<Rightarrow> cb\<lparr>cb_state := CircuitOpen, cb_successes := 0\<rparr>
      | CircuitOpen \<Rightarrow> cb)"

definition CircuitBreaker_Reset :: "CircuitBreaker \<Rightarrow> CircuitBreaker" where
  "CircuitBreaker_Reset cb = cb\<lparr>cb_state := CircuitClosed, cb_failures := 0, cb_successes := 0, cb_halfOpenReqs := 0\<rparr>"

subsection \<open>The breakers of the peers\<close>

record PeerCircuitBreakers =
  pcb_breakers :: "(string, CircuitBreaker) gomap"
  pcb_config :: CircuitBreakerConfig

definition NewPeerCircuitBreakers :: "CircuitBreakerConfig option \<Rightarrow> PeerCircuitBreakers" where
  "NewPeerCircuitBreakers config =
     \<lparr> pcb_breakers = fmempty,
       pcb_config = (case config of None \<Rightarrow> DefaultCircuitBreakerConfig | Some config \<Rightarrow> config) \<rparr>"

definition PeerCircuitBreakers_Get :: "string \<Rightarrow> PeerCircuitBreakers \<Rightarrow> CircuitBreaker \<times> PeerCircuitBreakers" where
  "PeerCircuitBreakers_Get peerID p =
     (case fmlookup (pcb_breakers p) peerID of
        Some cb \<Rightarrow> (cb, p)
      | None \<Rightarrow>
          let cb = NewCircuitBreaker (Some (pcb_config p))
          in (cb, p\<lparr>pcb_breakers := fmupd peerID cb (pcb_breakers p)\<rparr>))"

definition put_breaker :: "string \<Rightarrow> CircuitBreaker \<Rightarrow> PeerCircuitBreakers \<Rightarrow> PeerCircuitBreakers" where
  "put_breaker peerID cb p = p\<lparr>pcb_breakers := fmupd peerID cb (pcb_breakers p)\<rparr>"

definition PeerCircuitBreakers_AllowRequest :: "time \<Rightarrow> string \<Rightarrow> PeerCircuitBreakers \<Rightarrow> bool \<times> PeerCircuitBreakers" where
  "PeerCircuitBreakers_AllowRequest now peerID p =
     (let (cb, p) = PeerCircuitBreakers_Get peerID p; (ok, cb) = CircuitBreaker_Allow now cb
      in (ok, put_breaker peerID cb p))"

definition PeerCircuitBreakers_RecordSuccess :: "string \<Rightarrow> PeerCircuitBreakers \<Rightarrow> PeerCircuitBreakers" where
  "PeerCircuitBreakers_RecordSuccess peerID p =
     (let (cb, p) = PeerCircuitBreakers_Get peerID p in put_breaker peerID (CircuitBreaker_RecordSuccess cb) p)"

definition PeerCircuitBreakers_RecordFailure :: "time \<Rightarrow> string \<Rightarrow> PeerCircuitBreakers \<Rightarrow> PeerCircuitBreakers" where
  "PeerCircuitBreakers_RecordFailure now peerID p =
     (let (cb, p) = PeerCircuitBreakers_Get peerID p in put_breaker peerID (CircuitBreaker_RecordFailure now cb) p)"

definition PeerCircuitBreakers_GetOpenCircuits :: "PeerCircuitBreakers \<Rightarrow> string fset" where
  "PeerCircuitBreakers_GetOpenCircuits p =
     fmdom (fmfilter (\<lambda>peerID. map_option cb_state (fmlookup (pcb_breakers p) peerID) = Some CircuitOpen) (pcb_breakers p))"

definition PeerCircuitBreakers_Remove :: "string \<Rightarrow> PeerCircuitBreakers \<Rightarrow> PeerCircuitBreakers" where
  "PeerCircuitBreakers_Remove peerID p = p\<lparr>pcb_breakers := fmdrop peerID (pcb_breakers p)\<rparr>"

definition PeerCircuitBreakers_Reset :: "PeerCircuitBreakers \<Rightarrow> PeerCircuitBreakers" where
  "PeerCircuitBreakers_Reset p = p\<lparr>pcb_breakers := fmmap CircuitBreaker_Reset (pcb_breakers p)\<rparr>"

definition idle_breaker :: "time \<Rightarrow> duration \<Rightarrow> CircuitBreaker \<Rightarrow> bool" where
  "idle_breaker now maxAge cb \<longleftrightarrow>
     cb_state cb = CircuitClosed \<and> cb_failures cb = 0 \<and>
     (cb_lastFailure cb = 0 \<or> t_sub now (cb_lastFailure cb) > maxAge)"

definition PeerCircuitBreakers_Cleanup :: "time \<Rightarrow> duration \<Rightarrow> PeerCircuitBreakers \<Rightarrow> PeerCircuitBreakers" where
  "PeerCircuitBreakers_Cleanup now maxAge p =
     p\<lparr>pcb_breakers :=
        fmfilter (\<lambda>peerID. case fmlookup (pcb_breakers p) peerID of None \<Rightarrow> False | Some cb \<Rightarrow> \<not> idle_breaker now maxAge cb)
          (pcb_breakers p)\<rparr>"

subsection \<open>Runs of one breaker\<close>

datatype breaker_event = EvAllow time bool | EvSuccess | EvFailure time | EvReset

fun event_time :: "breaker_event \<Rightarrow> time option" where
  "event_time (EvAllow now _) = Some now"
| "event_time (EvFailure now) = Some now"
| "event_time _ = None"

inductive breaker_step :: "CircuitBreaker \<Rightarrow> breaker_event \<Rightarrow> CircuitBreaker \<Rightarrow> bool" where
  allow: "CircuitBreaker_Allow now cb = (ok, cb') \<Longrightarrow> breaker_step cb (EvAllow now ok) cb'"
| success: "breaker_step cb EvSuccess (CircuitBreaker_RecordSuccess cb)"
| failure: "breaker_step cb (EvFailure now) (CircuitBreaker_RecordFailure now cb)"
| reset: "breaker_step cb EvReset (CircuitBreaker_Reset cb)"

inductive_cases breaker_stepE [elim!]:
  "breaker_step cb (EvAllow now ok) cb'" "breaker_step cb EvSuccess cb'" "breaker_step cb (EvFailure now) cb'"
  "breaker_step cb EvReset cb'"

inductive breaker_run :: "CircuitBreaker \<Rightarrow> breaker_event list \<Rightarrow> CircuitBreaker \<Rightarrow> bool" where
  start: "breaker_run cb [] cb"
| step: "breaker_run cb es cb' \<Longrightarrow> breaker_step cb' e cb'' \<Longrightarrow> breaker_run cb (es @ [e]) cb''"

lemmas breaker_defs = CircuitBreaker_Allow_def CircuitBreaker_RecordSuccess_def CircuitBreaker_RecordFailure_def
  CircuitBreaker_Reset_def NewCircuitBreaker_def

lemma breaker_step_config: "breaker_step cb e cb' \<Longrightarrow> cb_config cb' = cb_config cb"
  by (erule breaker_step.cases) (auto simp: breaker_defs Let_def split: CircuitState.splits if_splits)

lemma breaker_run_config: "breaker_run cb es cb' \<Longrightarrow> cb_config cb' = cb_config cb"
  by (induction rule: breaker_run.induct) (auto simp: breaker_step_config)

text \<open>What holds of every breaker: in each state the counters that would leave it are below their threshold.\<close>

definition breaker_inv :: "CircuitBreaker \<Rightarrow> bool" where
  "breaker_inv cb \<longleftrightarrow>
     0 \<le> cb_failures cb \<and> 0 \<le> cb_successes cb \<and>
     cb_halfOpenReqs cb \<le> max 1 (cc_HalfOpenMaxRequests (cb_config cb)) \<and>
     (case cb_state cb of
        CircuitClosed \<Rightarrow> cb_failures cb < max 1 (cc_FailureThreshold (cb_config cb))
      | CircuitHalfOpen \<Rightarrow> cb_successes cb < max 1 (cc_SuccessThreshold (cb_config cb)) \<and> 1 \<le> cb_halfOpenReqs cb
      | CircuitOpen \<Rightarrow> True)"

lemma breaker_step_inv: "breaker_step cb e cb' \<Longrightarrow> breaker_inv cb \<Longrightarrow> breaker_inv cb'"
  by (erule breaker_step.cases)
     (auto simp: breaker_defs breaker_inv_def Let_def split: CircuitState.splits if_splits)

lemma breaker_run_inv: "breaker_run (NewCircuitBreaker config) es cb \<Longrightarrow> breaker_inv cb"
proof (induction "NewCircuitBreaker config" es cb rule: breaker_run.induct)
  case start
  show ?case by (simp add: breaker_inv_def NewCircuitBreaker_def le_max_iff_disj less_max_iff_disj)
qed (rule breaker_step_inv)

text \<open>While a breaker is open, within the timeout after the failure that opened it, nothing but a reset closes it.\<close>

definition open_since :: "time \<Rightarrow> CircuitBreaker \<Rightarrow> bool" where
  "open_since t cb \<longleftrightarrow> cb_state cb = CircuitOpen \<and> t \<le> cb_lastFailure cb"

lemma open_since_step:
  assumes "open_since t cb" "breaker_step cb e cb'" "e \<noteq> EvReset"
    and "\<And>now. event_time e = Some now \<Longrightarrow> t \<le> now \<and> now < t + cc_Timeout (cb_config cb)"
    and "cc_Timeout (cb_config cb) \<le> int64_max"
  shows "open_since t cb' \<and> (\<forall>now. e \<noteq> EvAllow now True)"
proof (cases e)
  case (EvAllow now ok)
  then have "t_sub now (cb_lastFailure cb) < cc_Timeout (cb_config cb)"
    using assms(1,4,5) by (auto simp: open_since_def)
  with assms(1,2) EvAllow show ?thesis by (auto simp: open_since_def CircuitBreaker_Allow_def)
next
  case (EvFailure now)
  with assms show ?thesis by (auto simp: open_since_def CircuitBreaker_RecordFailure_def)
qed (use assms in \<open>auto simp: open_since_def CircuitBreaker_RecordSuccess_def\<close>)

text \<open>C32. A breaker that the configured number of consecutive failures has opened lets no request through until the
  timeout has passed since the last of them, whatever is reported meanwhile, unless it is reset.\<close>

theorem open_circuit_blocks:
  assumes "cb_state cb = CircuitClosed" "cc_FailureThreshold (cb_config cb) \<le> cb_failures cb + 1"
    and "breaker_run (CircuitBreaker_RecordFailure t cb) es cb'" "EvReset \<notin> set es"
    and "cc_Timeout (cb_config cb) \<le> int64_max"
    and "\<And>e now. e \<in> set es \<Longrightarrow> event_time e = Some now \<Longrightarrow> t \<le> now \<and> now < t + cc_Timeout (cb_config cb)"
  shows "cb_state cb' = CircuitOpen \<and> (\<forall>now. EvAllow now True \<notin> set es)"
proof -
  have cfg: "cb_config (CircuitBreaker_RecordFailure t cb) = cb_config cb"
    by (simp add: CircuitBreaker_RecordFailure_def Let_def split: CircuitState.split)
  have start: "open_since t (CircuitBreaker_RecordFailure t cb)"
    using assms(1,2) by (simp add: CircuitBreaker_RecordFailure_def open_since_def)
  from assms(3,4,6) have "open_since t cb' \<and> (\<forall>now. EvAllow now True \<notin> set es)"
  proof (induction "CircuitBreaker_RecordFailure t cb" es cb' rule: breaker_run.induct)
    case start
    show ?case using \<open>open_since t (CircuitBreaker_RecordFailure t cb)\<close> by simp
  next
    case (step es cb1 e cb2)
    then have "open_since t cb1" "\<forall>now. EvAllow now True \<notin> set es" by auto
    moreover have "cb_config cb1 = cb_config cb" using breaker_run_config [OF step(1)] cfg by simp
    ultimately show ?case
      using open_since_step [of t cb1 e cb2] step.hyps(3) step.prems assms(5) by auto
  qed
  then show ?thesis by (simp add: open_since_def)
qed

definition tripped :: CircuitBreaker where
  "tripped = (NewCircuitBreaker None)\<lparr>cb_failures := 4\<rparr>"

theorem open_circuit_blocks_witness:
  "breaker_run (CircuitBreaker_RecordFailure 1000 tripped) [EvAllow 2000 False] (CircuitBreaker_RecordFailure 1000 tripped) \<and>
   cb_state (CircuitBreaker_RecordFailure 1000 tripped) = CircuitOpen"
proof -
  have t: "breaker_run (CircuitBreaker_RecordFailure 1000 tripped) ([] @ [EvAllow 2000 False]) (CircuitBreaker_RecordFailure 1000 tripped)"
    by (intro breaker_run.step [OF breaker_run.start] breaker_step.allow)
       (simp add: tripped_def breaker_defs DefaultCircuitBreakerConfig_def t_sub_def)
  from open_circuit_blocks [OF _ _ t] t show ?thesis
    by (simp add: tripped_def NewCircuitBreaker_def DefaultCircuitBreakerConfig_def)
qed

text \<open>A half-open breaker whose probes are used up refuses every request from then on, however long it waits: only
  a report or a reset leads out, so probes that never report close the peer off for good.\<close>

theorem lost_probes_block_forever:
  assumes "cb_state cb = CircuitHalfOpen" "cc_HalfOpenMaxRequests (cb_config cb) \<le> cb_halfOpenReqs cb"
    and "breaker_run cb es cb'" "\<forall>e \<in> set es. \<exists>now ok. e = EvAllow now ok"
  shows "cb' = cb \<and> (\<forall>now. EvAllow now True \<notin> set es)"
  using assms(3,4,1,2)
proof (induction rule: breaker_run.induct)
  case (step cb es cb1 e cb2)
  then obtain now ok where "e = EvAllow now ok" by auto
  with step show ?case by (auto simp: CircuitBreaker_Allow_def)
qed simp

definition probed :: CircuitBreaker where
  "probed = (NewCircuitBreaker None)\<lparr>cb_state := CircuitHalfOpen, cb_halfOpenReqs := 3, cb_lastFailure := 1000\<rparr>"

theorem lost_probes_block_forever_witness:
  "breaker_run probed [EvAllow (1000 * Hour) False] probed \<and> EvAllow (1000 * Hour) True \<notin> set [EvAllow (1000 * Hour) False]"
proof -
  have t: "breaker_run probed ([] @ [EvAllow (1000 * Hour) False]) probed"
    by (intro breaker_run.step [OF breaker_run.start] breaker_step.allow)
       (simp add: probed_def breaker_defs DefaultCircuitBreakerConfig_def)
  from lost_probes_block_forever [OF _ _ t] t show ?thesis
    by (simp add: probed_def NewCircuitBreaker_def DefaultCircuitBreakerConfig_def)
qed

subsection \<open>Cleanup is not observable\<close>

text \<open>Two breakers that no caller can tell apart: the counters that the current state does not read may differ.\<close>

definition same_breaker :: "CircuitBreaker \<Rightarrow> CircuitBreaker \<Rightarrow> bool" where
  "same_breaker a b \<longleftrightarrow>
     cb_config a = cb_config b \<and> cb_state a = cb_state b \<and> (cb_state a = CircuitClosed \<longrightarrow> cb_failures a = cb_failures b) \<and>
     (cb_state a = CircuitOpen \<longrightarrow> cb_lastFailure a = cb_lastFailure b) \<and>
     (cb_state a = CircuitHalfOpen \<longrightarrow> cb_successes a = cb_successes b \<and> cb_halfOpenReqs a = cb_halfOpenReqs b)"

lemma same_breaker_sym: "same_breaker a b \<Longrightarrow> same_breaker b a"
  by (auto simp: same_breaker_def)

lemma same_breaker_step:
  assumes "same_breaker a b" "breaker_step a e a'"
  shows "\<exists>b'. breaker_step b e b' \<and> same_breaker a' b'"
  using assms(2)
proof cases
  case (allow now ok)
  then have same: "fst (CircuitBreaker_Allow now b) = ok" "same_breaker a' (snd (CircuitBreaker_Allow now b))"
    using assms(1) by (auto simp: CircuitBreaker_Allow_def same_breaker_def split: CircuitState.splits if_splits)
  then have "breaker_step b (EvAllow now ok) (snd (CircuitBreaker_Allow now b))"
    by (intro breaker_step.allow) (simp add: prod_eq_iff)
  with same(2) show ?thesis unfolding allow(1)
    by (intro exI [of _ "snd (CircuitBreaker_Allow now b)"]) (rule conjI)
next
  case success
  moreover have "same_breaker (CircuitBreaker_RecordSuccess a) (CircuitBreaker_RecordSuccess b)"
    using assms(1) by (auto simp: CircuitBreaker_RecordSuccess_def same_breaker_def Let_def split: CircuitState.splits)
  ultimately show ?thesis using breaker_step.success by blast
next
  case (failure now)
  moreover have "same_breaker (CircuitBreaker_RecordFailure now a) (CircuitBreaker_RecordFailure now b)"
    using assms(1) by (auto simp: CircuitBreaker_RecordFailure_def same_breaker_def Let_def split: CircuitState.splits)
  ultimately show ?thesis using breaker_step.failure by blast
next
  case reset
  moreover have "same_breaker (CircuitBreaker_Reset a) (CircuitBreaker_Reset b)"
    using assms(1) by (simp add: CircuitBreaker_Reset_def same_breaker_def)
  ultimately show ?thesis using breaker_step.reset by blast
qed

lemma same_breaker_run:
  "breaker_run a es a' \<Longrightarrow> same_breaker a b \<Longrightarrow> \<exists>b'. breaker_run b es b' \<and> same_breaker a' b'"
proof (induction rule: breaker_run.induct)
  case (start cb)
  then show ?case using breaker_run.start by blast
next
  case (step cb es cb' e cb'')
  then show ?case using same_breaker_step breaker_run.step by meson
qed

text \<open>Dropping the idle breakers changes nothing for the callers: for every peer, the breaker that they get
  after the cleanup answers every sequence of operations as the one before did.\<close>

theorem cleanup_not_observable:
  assumes "\<And>cb. fmlookup (pcb_breakers p) peer = Some cb \<Longrightarrow> cb_config cb = pcb_config p"
  shows "(\<exists>cb'. breaker_run (fst (PeerCircuitBreakers_Get peer (PeerCircuitBreakers_Cleanup now maxAge p))) es cb') \<longleftrightarrow>
         (\<exists>cb'. breaker_run (fst (PeerCircuitBreakers_Get peer p)) es cb')"
proof -
  have "same_breaker (fst (PeerCircuitBreakers_Get peer (PeerCircuitBreakers_Cleanup now maxAge p)))
                     (fst (PeerCircuitBreakers_Get peer p))"
    using assms
    by (auto simp: PeerCircuitBreakers_Get_def PeerCircuitBreakers_Cleanup_def idle_breaker_def NewCircuitBreaker_def
        same_breaker_def Let_def split: option.splits)
  then show ?thesis using same_breaker_run same_breaker_sym by blast
qed

theorem cleanup_not_observable_witness:
  "(\<exists>cb'. breaker_run (fst (PeerCircuitBreakers_Get ''peer''
      (PeerCircuitBreakers_Cleanup (2 * Hour) Hour
        (PeerCircuitBreakers_Reset (PeerCircuitBreakers_RecordFailure 5 ''peer'' (NewPeerCircuitBreakers None)))))) [] cb')"
  using cleanup_not_observable [of "PeerCircuitBreakers_Reset (PeerCircuitBreakers_RecordFailure 5 ''peer'' (NewPeerCircuitBreakers None))"
      "''peer''" "2 * Hour" Hour "[]"] breaker_run.start
  by (auto simp: PeerCircuitBreakers_Reset_def PeerCircuitBreakers_RecordFailure_def NewPeerCircuitBreakers_def
      PeerCircuitBreakers_Get_def put_breaker_def breaker_defs Let_def)

end
