(* ===== verification/Wire_Framing.thy ===== *)
theory Wire_Framing
  imports Prelude
begin

text \<open>
  The two length-prefixed wire formats: messages between nodes
  (\<^verbatim>\<open>src/internal/p2p/message_send.go\<close>) and frames of the exec agent
  (\<^verbatim>\<open>src/cmd/exec-agent/protocol.go\<close>).  A connection is written through \<open>sink\<close>: it takes bytes until
  its peer is gone, and the write that does not fit writes a part and fails.  A connection is read
  through the bytes that arrive before it ends.
\<close>

unbundle bit_operations_syntax

type_synonym byte = "8 word"

subsection \<open>Connections\<close>

record sink =
  sk_sent :: "byte list"
  sk_room :: nat

datatype frame_error = WriteFailed | MessageTooLarge nat | ConnNil | IO_EOF | UnexpectedEOF | InvalidFrameLength nat

definition conn_Write :: "byte list \<Rightarrow> sink \<Rightarrow> sink \<times> frame_error option" where
  "conn_Write p w =
     (if length p \<le> sk_room w
      then (w\<lparr>sk_sent := sk_sent w @ p, sk_room := sk_room w - length p\<rparr>, None)
      else (w\<lparr>sk_sent := sk_sent w @ take (sk_room w) p, sk_room := 0\<rparr>, Some WriteFailed))"

definition io_ReadFull :: "nat \<Rightarrow> byte list \<Rightarrow> frame_error + byte list \<times> byte list" where
  "io_ReadFull n input =
     (if n \<le> length input then Inr (take n input, drop n input)
      else Inl (if input = [] then IO_EOF else UnexpectedEOF))"

definition PutUint32 :: "32 word \<Rightarrow> byte list" where
  "PutUint32 v = [ucast (drop_bit 24 v), ucast (drop_bit 16 v), ucast (drop_bit 8 v), ucast v]"

fun Uint32 :: "byte list \<Rightarrow> 32 word" where
  "Uint32 [a, b, c, d] = ucast d OR push_bit 8 (ucast c) OR push_bit 16 (ucast b) OR push_bit 24 (ucast a)"
| "Uint32 _ = 0"

lemma Uint32_PutUint32 [simp]: "Uint32 (PutUint32 v) = v"
proof (rule bit_word_eqI)
  fix n assume "n < LENGTH(32)"
  then show "bit (Uint32 (PutUint32 v)) n = bit v n"
    by (cases "n < 8"; cases "n < 16"; cases "n < 24")
       (auto simp: PutUint32_def bit_simps)
qed

lemma length_PutUint32 [simp]: "length (PutUint32 v) = 4"
  by (simp add: PutUint32_def)

subsection \<open>Messages between nodes\<close>

definition maxLengthPrefixedSize :: nat where "maxLengthPrefixedSize = 16 * 1024 * 1024"

definition WriteLengthPrefixed :: "sink \<Rightarrow> byte list \<Rightarrow> sink \<times> frame_error option" where
  "WriteLengthPrefixed conn data =
     (if length data > maxLengthPrefixedSize then (conn, Some (MessageTooLarge (length data)))
      else
        case conn_Write (PutUint32 (word_of_nat (length data))) conn of
          (conn, Some err) \<Rightarrow> (conn, Some err)
        | (conn, None) \<Rightarrow> conn_Write data conn)"

definition sendLengthPrefixed :: "sink option \<Rightarrow> byte list \<Rightarrow> sink option \<times> frame_error option" where
  "sendLengthPrefixed conn data =
     (case conn of
        None \<Rightarrow> (None, Some ConnNil)
      | Some conn \<Rightarrow>
          if length data > maxLengthPrefixedSize then (Some conn, Some (MessageTooLarge (length data)))
          else
            case conn_Write (PutUint32 (word_of_nat (length data))) conn of
              (conn, Some err) \<Rightarrow> (Some conn, Some err)
            | (conn, None) \<Rightarrow> map_prod Some (\<lambda>err. err) (conn_Write data conn))"

definition ReadLengthPrefixed :: "byte list \<Rightarrow> frame_error + byte list \<times> byte list" where
  "ReadLengthPrefixed input =
     (case io_ReadFull 4 input of
        Inl err \<Rightarrow> Inl err
      | Inr (lengthBuf, rest) \<Rightarrow>
          let len = unat (Uint32 lengthBuf) in
          if len > maxLengthPrefixedSize then Inl (MessageTooLarge len)
          else io_ReadFull len rest)"

subsection \<open>Frames of the exec agent\<close>

record Frame =
  fr_Type :: byte
  fr_Payload :: "byte list"

definition maxFrameSize :: nat where "maxFrameSize = 2 ^ 20"

definition writeFrame :: "sink \<Rightarrow> Frame \<Rightarrow> sink \<times> frame_error option" where
  "writeFrame w f =
     (if length (fr_Payload f) \<ge> maxFrameSize then (w, Some (MessageTooLarge (length (fr_Payload f))))
      else
        case conn_Write (PutUint32 (word_of_nat (1 + length (fr_Payload f)))) w of
          (w, Some err) \<Rightarrow> (w, Some err)
        | (w, None) \<Rightarrow>
            (case conn_Write [fr_Type f] w of
               (w, Some err) \<Rightarrow> (w, Some err)
             | (w, None) \<Rightarrow>
                 if length (fr_Payload f) > 0 then conn_Write (fr_Payload f) w else (w, None)))"

definition readFrame :: "byte list \<Rightarrow> frame_error + Frame \<times> byte list" where
  "readFrame input =
     (case io_ReadFull 4 input of
        Inl err \<Rightarrow> Inl err
      | Inr (lengthBuf, rest) \<Rightarrow>
          let totalLen = unat (Uint32 lengthBuf) in
          if totalLen < 1 \<or> totalLen > maxFrameSize then Inl (InvalidFrameLength totalLen)
          else
            case io_ReadFull totalLen rest of
              Inl err \<Rightarrow> Inl err
            | Inr (buf, rest) \<Rightarrow> Inr (\<lparr> fr_Type = hd buf, fr_Payload = tl buf \<rparr>, rest))"

subsection \<open>Writing as appending\<close>

text \<open>What a complete write puts on the wire.\<close>

definition message_bytes :: "byte list \<Rightarrow> byte list" where
  "message_bytes data = PutUint32 (word_of_nat (length data)) @ data"

definition frame_bytes :: "Frame \<Rightarrow> byte list" where
  "frame_bytes f = PutUint32 (word_of_nat (1 + length (fr_Payload f))) @ fr_Type f # fr_Payload f"

lemma conn_Write_append:
  "conn_Write p w = (w', None) \<Longrightarrow> conn_Write q w' = conn_Write (p @ q) w"
  by (auto simp: conn_Write_def split: if_splits)

lemma conn_Write_fail:
  "conn_Write p w = (w', Some err) \<Longrightarrow> conn_Write (p @ q) w = (w', Some err)"
  by (auto simp: conn_Write_def split: if_splits)

lemma conn_Write_nil [simp]: "conn_Write [] w = (w, None)"
  by (simp add: conn_Write_def)

lemma conn_Write_seq:
  "(case conn_Write p w of (w, Some err) \<Rightarrow> (w, Some err) | (w, None) \<Rightarrow> conn_Write q w) = conn_Write (p @ q) w"
  by (cases "conn_Write p w"; cases "snd (conn_Write p w)")
     (auto simp: conn_Write_append conn_Write_fail)

lemma WriteLengthPrefixed_eq:
  assumes "length data \<le> maxLengthPrefixedSize"
  shows "WriteLengthPrefixed conn data = conn_Write (message_bytes data) conn"
  using assms by (simp add: WriteLengthPrefixed_def message_bytes_def conn_Write_seq)

lemma writeFrame_eq:
  assumes "length (fr_Payload f) < maxFrameSize"
  shows "writeFrame w f = conn_Write (frame_bytes f) w"
proof -
  let ?l = "PutUint32 (word_of_nat (1 + length (fr_Payload f)))"
  have "writeFrame w f = (case conn_Write ?l w of (w, Some err) \<Rightarrow> (w, Some err)
      | (w, None) \<Rightarrow> conn_Write ([fr_Type f] @ fr_Payload f) w)"
    using assms unfolding writeFrame_def conn_Write_seq [symmetric]
    by (auto intro!: prod.case_cong option.case_cong)
  then show ?thesis unfolding conn_Write_seq by (simp add: frame_bytes_def)
qed

subsection \<open>A sequence of messages over one connection\<close>

text \<open>The sender stops at the first failed write; the receiver reads until the first error, as the
  connection loop of the node does (\<^verbatim>\<open>src/internal/daemon/node.go\<close>).  The fuel bounds the number of reads;
  a read consumes at least one byte, so the length of the input is enough.\<close>

fun send_all :: "(sink \<Rightarrow> 'm \<Rightarrow> sink \<times> frame_error option) \<Rightarrow> 'm list \<Rightarrow> sink \<Rightarrow> sink \<times> frame_error option" where
  "send_all put [] w = (w, None)"
| "send_all put (m # ms) w =
     (case put w m of
        (w, Some err) \<Rightarrow> (w, Some err)
      | (w, None) \<Rightarrow> send_all put ms w)"

fun read_loop :: "(byte list \<Rightarrow> frame_error + 'm \<times> byte list) \<Rightarrow> nat \<Rightarrow> byte list \<Rightarrow> 'm list \<times> frame_error option" where
  "read_loop dec 0 input = ([], None)"
| "read_loop dec (Suc fuel) input =
     (case dec input of
        Inl err \<Rightarrow> ([], Some err)
      | Inr (m, rest) \<Rightarrow> map_prod ((#) m) (\<lambda>err. err) (read_loop dec fuel rest))"

locale frame_codec =
  fixes enc :: "'m \<Rightarrow> byte list"
    and dec :: "byte list \<Rightarrow> frame_error + 'm \<times> byte list"
    and ok :: "'m \<Rightarrow> bool"
    and put :: "sink \<Rightarrow> 'm \<Rightarrow> sink \<times> frame_error option"
  assumes dec_enc: "ok m \<Longrightarrow> dec (enc m @ rest) = Inr (m, rest)"
    and dec_short: "ok m \<Longrightarrow> n < length (enc m) \<Longrightarrow> \<exists>e. dec (take n (enc m)) = Inl e"
    and write_enc: "ok m \<Longrightarrow> put w m = conn_Write (enc m) w"
    and write_refuses: "\<not> ok m \<Longrightarrow> \<exists>e. put w m = (w, Some e)"
    and dec_eof: "dec [] = Inl IO_EOF"
begin

lemma enc_inject: "ok m \<Longrightarrow> ok m' \<Longrightarrow> enc m @ r = enc m' @ r' \<Longrightarrow> m = m' \<and> r = r'"
  by (metis Inr_inject Pair_inject dec_enc)

lemma enc_nonempty: "ok m \<Longrightarrow> enc m \<noteq> []"
  using dec_enc [of m "[]"] dec_eof by auto

lemma sent_shape:
  assumes "send_all put ms w = (w', res)"
  shows "\<exists>k part e. k \<le> length ms \<and> list_all ok (take k ms) \<and> dec part = Inl e \<and>
    sk_sent w' = sk_sent w @ concat (map enc (take k ms)) @ part \<and> (res = None \<longrightarrow> k = length ms \<and> part = [])"
  using assms
proof (induction ms arbitrary: w)
  case Nil
  then show ?case using dec_eof by auto
next
  case (Cons m ms)
  obtain w1 r where w1: "put w m = (w1, r)" by fastforce
  show ?case
  proof (cases "ok m \<and> r = None")
    case True
    then have sent: "sk_sent w1 = sk_sent w @ enc m"
      using w1 write_enc [of m w] by (auto simp: conn_Write_def split: if_splits)
    from Cons.IH [of w1] Cons.prems True w1 obtain k part e where
      "k \<le> length ms" "list_all ok (take k ms)" "dec part = Inl e"
      "sk_sent w' = sk_sent w1 @ concat (map enc (take k ms)) @ part" "res = None \<longrightarrow> k = length ms \<and> part = []"
      by auto
    with sent True show ?thesis
      by (intro exI [of _ "Suc k"] exI [of _ part] exI [of _ e]) simp
  next
    case False
    then obtain err where "r = Some err" using w1 write_refuses [of m w] by (cases r) auto
    with Cons.prems w1 have "res = Some err" "w' = w1" by auto
    moreover have "\<exists>part e. sk_sent w1 = sk_sent w @ part \<and> dec part = Inl e"
    proof (cases "ok m")
      case True
      with w1 \<open>r = Some err\<close> write_enc [of m w]
      have "sk_sent w1 = sk_sent w @ take (sk_room w) (enc m)" "sk_room w < length (enc m)"
        by (auto simp: conn_Write_def split: if_splits)
      with dec_short [OF True] show ?thesis by blast
    next
      case False
      then show ?thesis using write_refuses [of m w] w1 dec_eof by auto
    qed
    ultimately show ?thesis by (intro exI [of _ 0]) auto
  qed
qed

lemma read_loop_concat:
  "list_all ok ms \<Longrightarrow> dec part = Inl e \<Longrightarrow> length ms < fuel \<Longrightarrow>
   read_loop dec fuel (concat (map enc ms) @ part) = (ms, Some e)"
proof (induction ms arbitrary: fuel)
  case Nil
  then show ?case by (cases fuel) auto
next
  case (Cons m ms)
  then show ?case by (cases fuel) (auto simp: dec_enc)
qed

lemma length_concat_enc: "list_all ok ms \<Longrightarrow> length ms \<le> length (concat (map enc ms))"
proof (induction ms)
  case (Cons m ms)
  then show ?case using enc_nonempty [of m] by (cases "enc m") auto
qed simp

lemma delivered_prefix:
  assumes "send_all put ms \<lparr> sk_sent = [], sk_room = n \<rparr> = (w', res)" "length (sk_sent w') < fuel"
  shows "\<exists>k e. k \<le> length ms \<and> read_loop dec fuel (sk_sent w') = (take k ms, Some e) \<and>
               (res = None \<longrightarrow> k = length ms \<and> e = IO_EOF)"
proof -
  from sent_shape [OF assms(1)] obtain k part e where k: "k \<le> length ms" "list_all ok (take k ms)"
    and part: "dec part = Inl e" and sent: "sk_sent w' = concat (map enc (take k ms)) @ part"
    and all: "res = None \<longrightarrow> k = length ms \<and> part = []"
    by auto
  have "length (take k ms) < fuel"
    using length_concat_enc [OF k(2)] assms(2) unfolding sent length_append by linarith
  from read_loop_concat [OF k(2) part this] sent have "read_loop dec fuel (sk_sent w') = (take k ms, Some e)"
    by simp
  with k(1) all part dec_eof show ?thesis by auto
qed

end

subsection \<open>Both formats are codecs\<close>

lemma unat_of_small: "n < 2 ^ 32 \<Longrightarrow> unat (word_of_nat n :: 32 word) = n"
  by (simp add: unat_of_nat)

lemma io_ReadFull_append: "length p = n \<Longrightarrow> io_ReadFull n (p @ rest) = Inr (p, rest)"
  by (simp add: io_ReadFull_def)

lemma io_ReadFull_short: "length p < n \<Longrightarrow> \<exists>e. io_ReadFull n p = Inl e"
  by (auto simp: io_ReadFull_def)

interpretation messages: frame_codec message_bytes ReadLengthPrefixed
  "\<lambda>data. length data \<le> maxLengthPrefixedSize" WriteLengthPrefixed
proof
  fix data rest :: "byte list" and n w
  assume ok: "length data \<le> maxLengthPrefixedSize"
  then have len: "unat (word_of_nat (length data) :: 32 word) = length data"
    by (intro unat_of_small) (simp add: maxLengthPrefixedSize_def)
  show "ReadLengthPrefixed (message_bytes data @ rest) = Inr (data, rest)"
    using ok len by (simp add: ReadLengthPrefixed_def message_bytes_def io_ReadFull_append Let_def)
  show "\<exists>e. ReadLengthPrefixed (take n (message_bytes data)) = Inl e" if "n < length (message_bytes data)"
  proof (cases "n < 4")
    case True
    then have "length (take n (message_bytes data)) < 4" by simp
    from io_ReadFull_short [OF this] show ?thesis by (auto simp: ReadLengthPrefixed_def)
  next
    case False
    then have "take n (message_bytes data) = PutUint32 (word_of_nat (length data)) @ take (n - 4) data"
      by (simp add: message_bytes_def)
    moreover have "length (take (n - 4) data) < length data"
      using that False by (simp add: message_bytes_def)
    ultimately show ?thesis
      using ok len io_ReadFull_short by (auto simp: ReadLengthPrefixed_def io_ReadFull_append Let_def)
  qed
  show "WriteLengthPrefixed w data = conn_Write (message_bytes data) w"
    using ok by (rule WriteLengthPrefixed_eq)
next
  show "\<exists>e. WriteLengthPrefixed w data = (w, Some e)" if "\<not> length data \<le> maxLengthPrefixedSize" for w data
    using that by (simp add: WriteLengthPrefixed_def)
  show "ReadLengthPrefixed [] = Inl IO_EOF" by (simp add: ReadLengthPrefixed_def io_ReadFull_def)
qed

interpretation frames: frame_codec frame_bytes readFrame "\<lambda>f. length (fr_Payload f) < maxFrameSize" writeFrame
proof
  fix f :: Frame and rest :: "byte list" and n w
  assume ok: "length (fr_Payload f) < maxFrameSize"
  define body where "body = fr_Type f # fr_Payload f"
  then have bytes: "frame_bytes f = PutUint32 (word_of_nat (length body)) @ body"
    by (simp add: frame_bytes_def)
  have len: "unat (word_of_nat (length body) :: 32 word) = length body"
    using ok by (intro unat_of_small) (simp add: maxFrameSize_def body_def)
  have size: "body \<noteq> []" "1 \<le> length body" "length body \<le> maxFrameSize" "\<lparr> fr_Type = hd body, fr_Payload = tl body \<rparr> = f"
    using ok by (simp_all add: body_def)
  show "readFrame (frame_bytes f @ rest) = Inr (f, rest)"
    using size len by (simp add: readFrame_def bytes io_ReadFull_append Let_def)
  show "\<exists>e. readFrame (take n (frame_bytes f)) = Inl e" if "n < length (frame_bytes f)"
  proof (cases "n < 4")
    case True
    then have "length (take n (frame_bytes f)) < 4" by simp
    from io_ReadFull_short [OF this] show ?thesis by (auto simp: readFrame_def)
  next
    case False
    then have "take n (frame_bytes f) = PutUint32 (word_of_nat (length body)) @ take (n - 4) body"
      by (simp add: bytes)
    moreover have "length (take (n - 4) body) < length body"
      using that False by (simp add: bytes)
    then obtain e where "io_ReadFull (length body) (take (n - 4) body) = Inl e"
      using io_ReadFull_short by blast
    ultimately show ?thesis
      using size len by (simp add: readFrame_def io_ReadFull_append Let_def)
  qed
  show "writeFrame w f = conn_Write (frame_bytes f) w"
    using ok by (rule writeFrame_eq)
next
  show "\<exists>e. writeFrame w f = (w, Some e)" if "\<not> length (fr_Payload f) < maxFrameSize" for w f
    using that by (simp add: writeFrame_def)
  show "readFrame [] = Inl IO_EOF" by (simp add: readFrame_def io_ReadFull_def)
qed

text \<open>C19. Messages arrive complete and in order: wherever the connection breaks while a sequence of messages is
  sent, the receiver reads a prefix of the sequence and then an error, never a damaged message.  When
  every write succeeded it reads them all and then the end of the connection.\<close>

theorem messages_delivered_in_order:
  assumes "send_all WriteLengthPrefixed ms \<lparr> sk_sent = [], sk_room = n \<rparr> = (conn, res)"
    and "length (sk_sent conn) < fuel"
  shows "\<exists>k e. k \<le> length ms \<and> read_loop ReadLengthPrefixed fuel (sk_sent conn) = (take k ms, Some e) \<and>
               (res = None \<longrightarrow> k = length ms \<and> e = IO_EOF)"
  using assms by (rule messages.delivered_prefix)

theorem messages_delivered_in_order_witness:
  "\<exists>k e conn. send_all WriteLengthPrefixed [[1, 2], [3]] \<lparr> sk_sent = [], sk_room = 8 \<rparr> = (conn, Some WriteFailed) \<and>
     read_loop ReadLengthPrefixed 100 (sk_sent conn) = (take k [[1, 2], [3]], Some e)"
proof -
  obtain conn where conn: "send_all WriteLengthPrefixed [[1, 2], [3]] \<lparr> sk_sent = [], sk_room = 8 \<rparr> = (conn, Some WriteFailed)"
      "length (sk_sent conn) = 8"
    by (simp add: WriteLengthPrefixed_def conn_Write_def maxLengthPrefixedSize_def PutUint32_def)
  from messages_delivered_in_order [OF conn(1), of 100] conn show ?thesis by auto
qed

lemma exec_frames_delivered_in_order:
  assumes "send_all writeFrame fs \<lparr> sk_sent = [], sk_room = n \<rparr> = (w, res)" "length (sk_sent w) < fuel"
  shows "\<exists>k e. k \<le> length fs \<and> read_loop readFrame fuel (sk_sent w) = (take k fs, Some e) \<and>
               (res = None \<longrightarrow> k = length fs \<and> e = IO_EOF)"
  using assms by (rule frames.delivered_prefix)

lemma sendLengthPrefixed_eq:
  "sendLengthPrefixed (Some conn) data = map_prod Some (\<lambda>err. err) (WriteLengthPrefixed conn data)"
  by (auto simp: sendLengthPrefixed_def WriteLengthPrefixed_def split: prod.splits option.splits)

end
