(* ===== verification/Retry.thy ===== *)
theory Retry
  imports Prelude Go_Float
begin

text \<open>
  Retry with exponential backoff (\<^verbatim>\<open>src/internal/util/retry.go\<close>), which the contract clients call around
  every RPC.  The caller's function, the context, the clock and the random source act on an
  abstract world \<open>'s\<close> and are the fields of \<open>retry_env\<close>: \<open>re_wait d\<close> is the select between the context and a
  timer of \<open>d\<close>, and tells whether the context won.  A loop that never returns is \<open>None\<close>.
  \<open>re_overflow\<close> is what the platform gives when a float outside the range of \<^verbatim>\<open>int64\<close> is converted (Go leaves it
  to the implementation).  Floats are unbounded above.
\<close>

record 'e RetryConfig =
  rc_MaxRetries :: int
  rc_BaseDelay :: duration
  rc_MaxDelay :: duration
  rc_Multiplier :: rat
  rc_Jitter :: rat
  rc_RetryIf :: "('e \<Rightarrow> bool) option"

datatype 'e retry_error = PlainError 'e | ErrMaxRetriesExceeded 'e | ErrContextCanceled

record 'e RetryResult =
  rr_Attempts :: int
  rr_LastError :: "'e retry_error option"
  rr_Duration :: duration

record ('s, 'e, 'v) retry_env =
  re_fn :: "'s \<Rightarrow> ('e + 'v) \<times> 's"
  re_wait :: "duration \<Rightarrow> 's \<Rightarrow> bool \<times> 's"
  re_now :: "'s \<Rightarrow> time"
  re_rand :: "'s \<Rightarrow> 64 word \<times> 's"
  re_overflow :: "rat \<Rightarrow> int"

definition DefaultRetryConfig :: "'e RetryConfig" where
  "DefaultRetryConfig =
     \<lparr> rc_MaxRetries = 3, rc_BaseDelay = 100 * Millisecond, rc_MaxDelay = 30 * Second,
       rc_Multiplier = 2, rc_Jitter = round64 (1 / 10), rc_RetryIf = None \<rparr>"

subsection \<open>The delay\<close>

text \<open>\<^verbatim>\<open>math.Pow\<close> on an integral exponent multiplies by repeated squaring.\<close>

function pow_loop :: "nat \<Rightarrow> rat \<Rightarrow> rat \<Rightarrow> rat" where
  "pow_loop i x a =
     (if i = 0 then a
      else pow_loop (i div 2) (round64 (x * x)) (if odd i then round64 (a * x) else a))"
  by auto
termination by (relation "measure fst") auto

declare pow_loop.simps [simp del]

definition math_Pow :: "rat \<Rightarrow> int \<Rightarrow> rat" where
  "math_Pow x y = (if 0 \<le> y then pow_loop (nat y) x 1 else round64 (1 / pow_loop (nat (- y)) x 1))"

definition to_Duration :: "(rat \<Rightarrow> int) \<Rightarrow> rat \<Rightarrow> duration" where
  "to_Duration overflow x =
     (let n = float_trunc x in if int64_min \<le> n \<and> n \<le> int64_max then n else overflow x)"

definition calculateDelay ::
    "('s, 'e, 'v) retry_env \<Rightarrow> 'f RetryConfig \<Rightarrow> int \<Rightarrow> 's \<Rightarrow> duration \<times> 's" where
  "calculateDelay env config attempt s =
     (let multiplier = (if rc_Multiplier config \<le> 0 then 2 else rc_Multiplier config);
          delay = round64 (round64 (of_int (rc_BaseDelay config)) * math_Pow multiplier (attempt - 1));
          (delay, s) =
            (if rc_Jitter config > 0 then
               let jitterRange = round64 (delay * rc_Jitter config);
                   (b, s) = re_rand env s;
                   randFloat = of_nat (unat (drop_bit 11 b)) / 2 ^ 53
               in (round64 (round64 (delay - jitterRange) + round64 (randFloat * 2 * jitterRange)), s)
             else (delay, s));
          delay = (if rc_MaxDelay config > 0 \<and> to_Duration (re_overflow env) delay > rc_MaxDelay config
                   then round64 (of_int (rc_MaxDelay config)) else delay)
      in (to_Duration (re_overflow env) delay, s))"

subsection \<open>The loops\<close>

definition give_up :: "'e RetryConfig \<Rightarrow> int \<Rightarrow> 'e \<Rightarrow> 'e retry_error option" where
  "give_up config attempts err =
     (if (case rc_RetryIf config of None \<Rightarrow> False | Some retryIf \<Rightarrow> \<not> retryIf err) then Some (PlainError err)
      else if rc_MaxRetries config \<ge> 0 \<and> attempts > rc_MaxRetries config then Some (ErrMaxRetriesExceeded err)
      else None)"

partial_function (option) retry_value_loop ::
    "('s, 'e, 'v) retry_env \<Rightarrow> 'e RetryConfig \<Rightarrow> 'v \<Rightarrow> time \<Rightarrow> int \<Rightarrow> 's \<Rightarrow> ('v \<times> 'e RetryResult \<times> 's) option" where
  "retry_value_loop env config zero start attempts s =
     (let attempts = wrap64 (attempts + 1);
          result = (\<lambda>err s. \<lparr> rr_Attempts = attempts, rr_LastError = err, rr_Duration = t_sub (re_now env s) start \<rparr>)
      in case re_fn env s of
           (Inr val, s) \<Rightarrow> Some (val, result None s, s)
         | (Inl err, s) \<Rightarrow>
             (case give_up config attempts err of
                Some e \<Rightarrow> Some (zero, result (Some e) s, s)
              | None \<Rightarrow>
                  (case calculateDelay env config attempts s of
                     (delay, s) \<Rightarrow>
                       (case re_wait env delay s of
                          (ended, s) \<Rightarrow>
                            if ended then Some (zero, result (Some ErrContextCanceled) s, s)
                            else retry_value_loop env config zero start attempts s))))"

definition RetryWithValue ::
    "('s, 'e, 'v) retry_env \<Rightarrow> 'e RetryConfig option \<Rightarrow> 'v \<Rightarrow> 's \<Rightarrow> ('v \<times> 'e RetryResult \<times> 's) option" where
  "RetryWithValue env config zero s =
     retry_value_loop env (case config of None \<Rightarrow> DefaultRetryConfig | Some config \<Rightarrow> config) zero (re_now env s) 0 s"

partial_function (option) retry_loop ::
    "('s, 'e, unit) retry_env \<Rightarrow> 'e RetryConfig \<Rightarrow> time \<Rightarrow> int \<Rightarrow> 's \<Rightarrow> ('e RetryResult \<times> 's) option" where
  "retry_loop env config start attempts s =
     (let attempts = wrap64 (attempts + 1);
          result = (\<lambda>err s. \<lparr> rr_Attempts = attempts, rr_LastError = err, rr_Duration = t_sub (re_now env s) start \<rparr>)
      in case re_fn env s of
           (Inr _, s) \<Rightarrow> Some (result None s, s)
         | (Inl err, s) \<Rightarrow>
             (case give_up config attempts err of
                Some e \<Rightarrow> Some (result (Some e) s, s)
              | None \<Rightarrow>
                  (case calculateDelay env config attempts s of
                     (delay, s) \<Rightarrow>
                       (case re_wait env delay s of
                          (ended, s) \<Rightarrow>
                            if ended then Some (result (Some ErrContextCanceled) s, s)
                            else retry_loop env config start attempts s))))"

definition Retry_fn ::
    "('s, 'e, unit) retry_env \<Rightarrow> 'e RetryConfig option \<Rightarrow> 's \<Rightarrow> ('e RetryResult \<times> 's) option" where
  "Retry_fn env config s =
     retry_loop env (case config of None \<Rightarrow> DefaultRetryConfig | Some config \<Rightarrow> config) (re_now env s) 0 s"

subsection \<open>The loops return\<close>

lemma give_up_at_limit: "0 \<le> rc_MaxRetries config \<Longrightarrow> rc_MaxRetries config < attempts \<Longrightarrow>
    give_up config attempts err \<noteq> None"
  by (simp add: give_up_def)

lemma retry_value_loop_returns:
  assumes "rc_MaxRetries config < int64_max" "0 \<le> attempts" "attempts \<le> rc_MaxRetries config"
  shows "\<exists>v r s'. retry_value_loop env config zero start attempts s = Some (v, r, s') \<and>
    attempts < rr_Attempts r \<and> rr_Attempts r \<le> rc_MaxRetries config + 1"
  using assms(2,3)
proof (induction "nat (rc_MaxRetries config - attempts)" arbitrary: attempts s rule: less_induct)
  case less
  have wrap: "wrap64 (attempts + 1) = attempts + 1"
    using less.prems assms(1) by (intro wrap64_id) simp_all
  have again: "\<exists>v r s''. retry_value_loop env config zero start (attempts + 1) s' = Some (v, r, s'') \<and>
      attempts < rr_Attempts r \<and> rr_Attempts r \<le> rc_MaxRetries config + 1"
    if "attempts + 1 \<le> rc_MaxRetries config" for s'
    using less.hyps [of "attempts + 1" s'] less.prems that by fastforce
  obtain x s1 where fn: "re_fn env s = (x, s1)" by fastforce
  show ?case
  proof (cases x)
    case (Inr v)
    then show ?thesis using less.prems fn wrap by (simp add: retry_value_loop.simps)
  next
    case (Inl err)
    show ?thesis
    proof (cases "give_up config (attempts + 1) err")
      case (Some e)
      then show ?thesis using less.prems fn Inl wrap by (simp add: retry_value_loop.simps)
    next
      case None
      then have "attempts + 1 \<le> rc_MaxRetries config"
        using give_up_at_limit [of config "attempts + 1" err] less.prems by fastforce
      then show ?thesis
        using again less.prems fn Inl wrap None
        by (subst retry_value_loop.simps) (auto simp: Let_def split: prod.split)
    qed
  qed
qed

text \<open>C20. With a limit on the retries, a retried call returns, whatever the called function, the context and the
  clock do, after at least one and at most \<open>MaxRetries + 1\<close> attempts.\<close>

theorem retry_returns:
  assumes "0 \<le> rc_MaxRetries config" "rc_MaxRetries config < int64_max"
  shows "\<exists>v r s'. RetryWithValue env (Some config) zero s = Some (v, r, s') \<and>
    1 \<le> rr_Attempts r \<and> rr_Attempts r \<le> rc_MaxRetries config + 1"
  using retry_value_loop_returns [OF assms(2), of 0 env zero "re_now env s" s] assms(1)
  by (auto simp: RetryWithValue_def)

definition failing_env :: "(unit, unit, nat) retry_env" where
  "failing_env = \<lparr> re_fn = \<lambda>s. (Inl (), s), re_wait = \<lambda>_ s. (False, s), re_now = \<lambda>_. 0, re_rand = \<lambda>s. (0, s),
     re_overflow = \<lambda>_. int64_min \<rparr>"

theorem retry_returns_witness:
  "\<exists>v r s'. RetryWithValue failing_env (Some DefaultRetryConfig) 0 () = Some (v, r, s') \<and> rr_Attempts r \<le> 4"
  using retry_returns [of DefaultRetryConfig failing_env 0 "()"] by (auto simp: DefaultRetryConfig_def)

text \<open>With no limit, or with the largest limit, a call that always fails is retried until the context ends.\<close>

definition endless :: "('s, 'e, 'v) retry_env \<Rightarrow> 'e RetryConfig \<Rightarrow> bool" where
  "endless env config \<longleftrightarrow> (rc_MaxRetries config < 0 \<or> rc_MaxRetries config = int64_max) \<and> rc_RetryIf config = None \<and>
     (\<forall>s. \<exists>e s'. re_fn env s = (Inl e, s')) \<and> (\<forall>d s. \<not> fst (re_wait env d s))"

lemma endlessD:
  assumes "endless env config"
  shows "give_up config (wrap64 n) err = None" "re_fn env s \<noteq> (Inr v, s')" "re_wait env d s \<noteq> (True, s')"
proof -
  show "give_up config (wrap64 n) err = None"
    using assms wrap64_range(2) [of n] by (auto simp: endless_def give_up_def)
  show "re_fn env s \<noteq> (Inr v, s')" using assms unfolding endless_def by (metis Inl_Inr_False Pair_inject)
  show "re_wait env d s \<noteq> (True, s')" using assms unfolding endless_def by (metis fst_conv)
qed

lemma endless_loop: "retry_value_loop env config zero start attempts s = Some y \<Longrightarrow> \<not> endless env config"
proof (erule retry_value_loop.raw_induct [where P = "\<lambda>env config zero start attempts s y. \<not> endless env config", rotated],
    goal_cases)
  case (1 loop env config zero start attempts s y)
  show ?case
  proof
    assume e: "endless env config"
    obtain err s1 where fn: "re_fn env s = (Inl err, s1)" using e unfolding endless_def by blast
    obtain d s2 where d: "calculateDelay env config (wrap64 (attempts + 1)) s1 = (d, s2)" by fastforce
    obtain s3 where w: "re_wait env d s2 = (False, s3)"
      using endlessD(3) [OF e, of d s2] by (cases "re_wait env d s2"; cases "fst (re_wait env d s2)") auto
    from 1(2) have "loop env config zero start (wrap64 (attempts + 1)) s3 = Some y"
      by (simp add: Let_def fn endlessD(1) [OF e] d w)
    from 1(1) [OF this] e show False by blast
  qed
qed

lemma unlimited_retry_diverges: "endless env config \<Longrightarrow> RetryWithValue env (Some config) zero s = None"
  using endless_loop [of env config zero "re_now env s" 0 s]
  by (cases "RetryWithValue env (Some config) zero s") (auto simp: RetryWithValue_def)

text \<open>The two copies of the loop agree: retrying without a value is retrying with a value that is dropped, also
  where neither returns.\<close>

lemma retry_loop_value:
  "retry_loop env config start attempts s = Some y \<Longrightarrow> retry_value_loop env config () start attempts s = Some ((), y)"
proof (erule retry_loop.raw_induct [where P = "\<lambda>env config start attempts s y.
      retry_value_loop env config () start attempts s = Some ((), y)", rotated], goal_cases)
  case (1 loop env config start attempts s y)
  show ?case
  proof (cases "re_fn env s")
    case (Pair x s1)
    show ?thesis
    proof (cases x)
      case (Inr v)
      with Pair 1(2) show ?thesis by (subst retry_value_loop.simps) (auto simp: Let_def)
    next
      case (Inl err)
      obtain d s2 where d: "calculateDelay env config (wrap64 (attempts + 1)) s1 = (d, s2)" by fastforce
      obtain b s3 where w: "re_wait env d s2 = (b, s3)" by fastforce
      from Pair Inl d w 1(2) show ?thesis
        by (subst retry_value_loop.simps, cases "give_up config (wrap64 (attempts + 1)) err"; cases b) (auto simp: Let_def 1(1))
    qed
  qed
qed

lemma retry_value_loop_unit:
  "retry_value_loop env config u start attempts s = Some y \<Longrightarrow> retry_loop env config start attempts s = Some (snd y)"
proof (erule retry_value_loop.raw_induct [where P = "\<lambda>env config u start attempts s y.
      retry_loop env config start attempts s = Some (snd y)", rotated], goal_cases)
  case (1 loop env config u start attempts s y)
  show ?case
  proof (cases "re_fn env s")
    case (Pair x s1)
    show ?thesis
    proof (cases x)
      case (Inr v)
      with Pair 1(2) show ?thesis by (subst retry_loop.simps) (auto simp: Let_def)
    next
      case (Inl err)
      obtain d s2 where d: "calculateDelay env config (wrap64 (attempts + 1)) s1 = (d, s2)" by fastforce
      obtain b s3 where w: "re_wait env d s2 = (b, s3)" by fastforce
      from Pair Inl d w 1(2) show ?thesis
        by (subst retry_loop.simps, cases "give_up config (wrap64 (attempts + 1)) err"; cases b) (auto simp: Let_def 1(1))
    qed
  qed
qed

lemma Retry_is_RetryWithValue: "Retry_fn env config s = map_option snd (RetryWithValue env config () s)"
proof (cases "Retry_fn env config s")
  case None
  then show ?thesis
    using retry_value_loop_unit [of env _ "()" "re_now env s" 0 s]
    by (cases "RetryWithValue env config () s") (auto simp: Retry_fn_def RetryWithValue_def)
next
  case (Some y)
  then show ?thesis
    using retry_loop_value [of env _ "re_now env s" 0 s] by (simp add: Retry_fn_def RetryWithValue_def)
qed

subsection \<open>The delay\<close>

lemma delay_bounded:
  assumes "0 < rc_MaxDelay config" "rc_MaxDelay config < 2 ^ 53" "calculateDelay env config attempt s = (d, s')"
  shows "d \<le> rc_MaxDelay config"
proof -
  have "to_Duration f (round64 (of_int (rc_MaxDelay config))) = rc_MaxDelay config" for f
    using assms(1,2) by (simp add: round64_of_int to_Duration_def float_trunc_def)
  with assms(1,3) show ?thesis
    by (auto simp: calculateDelay_def Let_def split: prod.splits if_splits)
qed

lemma pow_loop_two: "pow_loop i (2 ^ Suc k) (2 ^ j) = 2 ^ (Suc k * i + j)"
proof (induction i arbitrary: k j rule: less_induct)
  case (less i)
  have pow: "round64 (2 ^ n) = 2 ^ n" for n using round64_scaled [of 1 n] by simp
  show ?case
  proof (cases "i = 0")
    case True
    then show ?thesis by (subst pow_loop.simps) simp
  next
    case False
    have "Suc k + Suc k = Suc (2 * k + 1)" by simp
    then have sq: "round64 (2 ^ Suc k * 2 ^ Suc k) = 2 ^ Suc (2 * k + 1)"
      using pow [of "Suc (2 * k + 1)"] power_add [of "2 :: rat" "Suc k" "Suc k"] by argo
    have od: "round64 (2 ^ j * 2 ^ Suc k) = 2 ^ (j + Suc k)"
      using pow [of "j + Suc k"] power_add [of "2 :: rat" j "Suc k"] by argo
    have "pow_loop i (2 ^ Suc k) (2 ^ j) = pow_loop (i div 2) (2 ^ Suc (2 * k + 1)) (2 ^ (if odd i then j + Suc k else j))"
      using False by (subst pow_loop.simps) (simp only: sq od if_False if_distrib [of "\<lambda>e. 2 ^ e"])
    also have "\<dots> = 2 ^ (Suc (2 * k + 1) * (i div 2) + (if odd i then j + Suc k else j))"
      using False by (intro less) simp
    also have "Suc (2 * k + 1) * (i div 2) + (if odd i then j + Suc k else j) = Suc k * i + j"
      by (cases "even i") (auto elim!: evenE oddE simp: algebra_simps)
    finally show ?thesis .
  qed
qed

lemma math_Pow_two: "0 \<le> y \<Longrightarrow> math_Pow 2 y = 2 ^ nat y"
  using pow_loop_two [of "nat y" 0 0] by (simp add: math_Pow_def)

text \<open>From the 38th attempt on, the default backoff without jitter exceeds the range of a duration before it is
  clamped.  On a platform that converts such floats to the smallest integer, the clamp does not see it
  and the delay is negative: the retries no longer wait.\<close>

theorem backoff_collapses:
  assumes "38 \<le> attempt" "\<And>x. re_overflow env x = int64_min"
  shows "calculateDelay env (DefaultRetryConfig\<lparr>rc_Jitter := 0\<rparr>) attempt s = (int64_min, s)"
proof -
  define n where "n = nat (attempt - 1)"
  let ?d = "of_int 100000000 * 2 ^ n :: rat"
  have n: "37 \<le> n" "math_Pow 2 (attempt - 1) = 2 ^ n"
    using assms(1) math_Pow_two [of "attempt - 1"] by (simp_all add: n_def)
  have base: "round64 (of_int (100 * Millisecond)) = of_int 100000000" by (simp add: round64_of_int del: of_int_numeral)
  have exact: "round64 ?d = ?d" by (rule round64_scaled) simp_all
  have "(100000000 :: rat) * 2 ^ 37 \<le> ?d" using n(1) power_increasing [of 37 n "2 :: rat"] by simp
  then have "int64_max < float_trunc ?d"
    by (simp add: float_trunc_def less_floor_iff) 
  then have "to_Duration (re_overflow env) ?d = int64_min" using assms(2) by (simp add: to_Duration_def)
  with n(2) base exact show ?thesis
    by (simp add: calculateDelay_def DefaultRetryConfig_def Let_def del: of_int_numeral)
qed

theorem backoff_collapses_witness:
  "calculateDelay failing_env (DefaultRetryConfig\<lparr>rc_Jitter := 0\<rparr> :: unit RetryConfig) 38 () = (int64_min, ())"
  by (rule backoff_collapses) (simp_all add: failing_env_def)

end
