(* ===== verification/Consensus_Manager.thy ===== *)
theory Consensus_Manager
  imports Prelude "HOL-Library.Multiset"
begin

text \<open>
  Agreement on container state (\<^verbatim>\<open>src/internal/redundancy/consensus.go\<close>): per-container
  state with three replica slots and a signed 64-bit version, last-writer-wins merging, and
  the majority status.  A \<^verbatim>\<open>*Container\<close> is the container's value, \<open>None\<close> for nil; the
  loop over the status counts takes the order Go iterates the map in.
\<close>

type_synonym ContainerStatus = string

record Container =
  c_ID :: string
  c_ImageCID :: string
  c_NodeID :: node_id
  c_Status :: ContainerStatus
  c_CreatedAt :: time
  c_Encrypted :: bool
  c_OnionAddr :: string

record ContainerState =
  cs_ContainerID :: string
  cs_Status :: ContainerStatus
  cs_Replicas :: "Container option list"
  cs_Version :: "64 word"

record ConsensusManager =
  cm_states :: "(string, ContainerState) gomap"

definition NewConsensusManager :: ConsensusManager where
  "NewConsensusManager = \<lparr> cm_states = fmempty \<rparr>"

definition fresh_state :: "string \<Rightarrow> ContainerState" where
  "fresh_state containerID =
     \<lparr> cs_ContainerID = containerID, cs_Status = '''', cs_Replicas = [None, None, None],
       cs_Version = 0 \<rparr>"

definition ConsensusManager_UpdateState ::
    "string \<Rightarrow> ContainerStatus \<Rightarrow> Container option list \<Rightarrow> ConsensusManager \<Rightarrow> ConsensusManager" where
  "ConsensusManager_UpdateState containerID status replicas cm =
     (let state = (case fmlookup (cm_states cm) containerID of
                     Some s \<Rightarrow> s | None \<Rightarrow> fresh_state containerID);
          state = state\<lparr>cs_Status := status, cs_Replicas := replicas,
                        cs_Version := cs_Version state + 1\<rparr>
      in cm\<lparr>cm_states := fmupd containerID state (cm_states cm)\<rparr>)"

definition empty_container :: "string \<Rightarrow> ContainerStatus \<Rightarrow> Container" where
  "empty_container containerID status =
     \<lparr> c_ID = containerID, c_ImageCID = '''', c_NodeID = 0, c_Status = status,
       c_CreatedAt = 0, c_Encrypted = False, c_OnionAddr = '''' \<rparr>"

definition ConsensusManager_UpdateReplicaStatus ::
    "string \<Rightarrow> int \<Rightarrow> ContainerStatus \<Rightarrow> ConsensusManager \<Rightarrow> ConsensusManager" where
  "ConsensusManager_UpdateReplicaStatus containerID replicaIdx status cm =
     (let state = (case fmlookup (cm_states cm) containerID of
                     Some s \<Rightarrow> s | None \<Rightarrow> fresh_state containerID);
          state = (if replicaIdx \<ge> 0 \<and> replicaIdx < 3 then
                     let i = nat replicaIdx;
                         c = (case cs_Replicas state ! i of
                                None \<Rightarrow> empty_container containerID status
                              | Some c \<Rightarrow> c\<lparr>c_Status := status\<rparr>)
                     in state\<lparr>cs_Replicas := (cs_Replicas state)[i := Some c]\<rparr>
                   else state);
          state = state\<lparr>cs_Status := status, cs_Version := cs_Version state + 1\<rparr>
      in cm\<lparr>cm_states := fmupd containerID state (cm_states cm)\<rparr>)"

definition ConsensusManager_GetState :: "string \<Rightarrow> ConsensusManager \<Rightarrow> ContainerState option" where
  "ConsensusManager_GetState containerID cm = fmlookup (cm_states cm) containerID"

definition ConsensusManager_MergeState ::
    "string \<Rightarrow> ContainerState \<Rightarrow> ConsensusManager \<Rightarrow> ConsensusManager" where
  "ConsensusManager_MergeState containerID otherState cm =
     (case fmlookup (cm_states cm) containerID of
        None \<Rightarrow> cm\<lparr>cm_states := fmupd containerID otherState (cm_states cm)\<rparr>
      | Some currentState \<Rightarrow>
          if sint (cs_Version otherState) > sint (cs_Version currentState)
          then cm\<lparr>cm_states := fmupd containerID otherState (cm_states cm)\<rparr>
          else cm)"

definition ConsensusManager_RemoveState :: "string \<Rightarrow> ConsensusManager \<Rightarrow> ConsensusManager" where
  "ConsensusManager_RemoveState containerID cm =
     cm\<lparr>cm_states := fmdrop containerID (cm_states cm)\<rparr>"

definition status_counts :: "Container option list \<Rightarrow> (ContainerStatus, int) gomap" where
  "status_counts replicas =
     fold (\<lambda>replica m.
        case replica of
          None \<Rightarrow> m
        | Some c \<Rightarrow> fmupd (c_Status c)
                       ((case fmlookup m (c_Status c) of Some n \<Rightarrow> n | None \<Rightarrow> 0) + 1) m)
       replicas fmempty"

definition max_status ::
    "(ContainerStatus, int) gomap \<Rightarrow> ContainerStatus list \<Rightarrow> int \<times> ContainerStatus" where
  "max_status counts order =
     fold (\<lambda>status (maxCount, consensusStatus).
        case fmlookup counts status of
          None \<Rightarrow> (maxCount, consensusStatus)
        | Some n \<Rightarrow> if n > maxCount then (n, status) else (maxCount, consensusStatus))
       order (0, '''')"

definition ConsensusManager_GetConsensusStatus ::
    "ContainerStatus list \<Rightarrow> string \<Rightarrow> ConsensusManager \<Rightarrow> ContainerStatus option" where
  "ConsensusManager_GetConsensusStatus order containerID cm =
     (case ConsensusManager_GetState containerID cm of
        None \<Rightarrow> None
      | Some state \<Rightarrow>
          let (maxCount, consensusStatus) = max_status (status_counts (cs_Replicas state)) order
          in if maxCount \<ge> 2 then Some consensusStatus else Some (cs_Status state))"

text \<open>How many replicas report a status.\<close>

definition votes :: "Container option list \<Rightarrow> ContainerStatus \<Rightarrow> nat" where
  "votes replicas s = length (filter (\<lambda>r. case r of None \<Rightarrow> False | Some c \<Rightarrow> c_Status c = s) replicas)"

subsection \<open>The majority loop\<close>

lemma status_counts_lookup:
  "fmlookup (status_counts rs) s = (if votes rs s = 0 then None else Some (int (votes rs s)))"
  by (induction rs rule: rev_induct) (auto simp: status_counts_def votes_def split: option.splits)

lemma max_status_spec:
  "let (m, s) = max_status counts order in
     (m = 0 \<and> s = '''' \<or> s \<in> set order \<and> fmlookup counts s = Some m \<and> 0 < m) \<and>
     (\<forall>t \<in> set order. \<forall>n. fmlookup counts t = Some n \<longrightarrow> n \<le> m)"
  by (induction order rule: rev_induct)
     (fastforce simp: max_status_def Let_def split: prod.splits option.splits)+

lemma votes_sum:
  assumes "s \<noteq> t"
  shows "votes rs s + votes rs t \<le> length rs"
  using assms by (induction rs) (auto simp: votes_def split: option.splits)

text \<open>With at most three replicas a status with two votes is the only one.\<close>

lemma votes_majority_unique:
  "length rs \<le> 3 \<Longrightarrow> 2 \<le> votes rs s \<Longrightarrow> 2 \<le> votes rs t \<Longrightarrow> s = t"
  using votes_sum [of s t rs] by fastforce

lemma consensus_majority:
  assumes "fmlookup (cm_states cm) cid = Some st" "length (cs_Replicas st) = 3"
    and "enumerates order (status_counts (cs_Replicas st))"
  shows "ConsensusManager_GetConsensusStatus order cid cm = Some s \<longleftrightarrow>
         (2 \<le> votes (cs_Replicas st) s \<or>
          (\<forall>t. votes (cs_Replicas st) t < 2) \<and> s = cs_Status st)"
proof -
  let ?rs = "cs_Replicas st"
  obtain m w where mw: "max_status (status_counts ?rs) order = (m, w)" by fastforce
  have sp: "m = 0 \<and> w = '''' \<or> w \<in> set order \<and> fmlookup (status_counts ?rs) w = Some m \<and> 0 < m"
    and le: "\<And>t n. t \<in> set order \<Longrightarrow> fmlookup (status_counts ?rs) t = Some n \<Longrightarrow> n \<le> m"
    using max_status_spec [of "status_counts ?rs" order] by (auto simp: mw)
  have votes_le: "int (votes ?rs t) \<le> m" for t
    using le [of t] enumerates_in [OF assms(3), of t] sp
    by (cases "votes ?rs t = 0") (auto simp: status_counts_lookup)
  have w: "2 \<le> m \<Longrightarrow> 2 \<le> votes ?rs w"
    using sp by (auto simp: status_counts_lookup split: if_splits)
  show ?thesis
  proof (cases "2 \<le> m")
    case True
    have "ConsensusManager_GetConsensusStatus order cid cm = Some w"
      using True assms(1) mw
      by (simp add: ConsensusManager_GetConsensusStatus_def ConsensusManager_GetState_def)
    moreover have "\<not> (\<forall>t. votes ?rs t < 2)" using w [OF True] not_less by blast
    moreover have "2 \<le> votes ?rs s \<longleftrightarrow> s = w"
      using w [OF True] votes_majority_unique [of ?rs s w] assms(2) by auto
    ultimately show ?thesis by auto
  next
    case False
    then have "votes ?rs t < 2" for t using votes_le [of t] by linarith
    then show ?thesis
      using False assms(1) mw
      by (auto simp: ConsensusManager_GetConsensusStatus_def ConsensusManager_GetState_def
          not_le [symmetric])
  qed
qed

subsection \<open>Merging is last-writer-wins\<close>

definition newest :: "ContainerState option \<Rightarrow> ContainerState \<Rightarrow> ContainerState option" where
  "newest cur s =
     (case cur of
        None \<Rightarrow> Some s
      | Some c \<Rightarrow> if sint (cs_Version s) > sint (cs_Version c) then Some s else cur)"

lemma MergeState_newest:
  "fmlookup (cm_states (ConsensusManager_MergeState cid s cm)) k =
     (if k = cid then newest (fmlookup (cm_states cm) cid) s else fmlookup (cm_states cm) k)"
  by (auto simp: ConsensusManager_MergeState_def newest_def split: option.splits)

lemma merges_newest:
  "fmlookup (cm_states (fold (ConsensusManager_MergeState cid) ss cm)) cid =
     fold (\<lambda>s cur. newest cur s) ss (fmlookup (cm_states cm) cid)"
  by (induction ss arbitrary: cm) (simp_all add: MergeState_newest)

lemma fold_newest_spec:
  assumes "fold (\<lambda>s cur. newest cur s) ss (Some c) = r"
  shows "\<exists>w. r = Some w \<and> w \<in> insert c (set ss) \<and>
             (\<forall>s \<in> insert c (set ss). sint (cs_Version s) \<le> sint (cs_Version w))"
  using assms
proof (induction ss arbitrary: c)
  case (Cons s ss)
  let ?d = "if sint (cs_Version s) > sint (cs_Version c) then s else c"
  have "fold (\<lambda>s cur. newest cur s) ss (Some ?d) = r"
    using Cons.prems by (simp add: newest_def split: if_splits)
  from Cons.IH [OF this] obtain w where w: "r = Some w" "w \<in> insert ?d (set ss)"
    "\<forall>t \<in> insert ?d (set ss). sint (cs_Version t) \<le> sint (cs_Version w)" by blast
  then have "sint (cs_Version ?d) \<le> sint (cs_Version w)" by blast
  with w show ?case by (intro exI [of _ w]) (auto split: if_splits)
qed simp

text \<open>
  States with pairwise different versions are merged to the same result in any order.
\<close>

lemma merge_order_independent:
  assumes "mset ss = mset ss'" "inj_on cs_Version (insert c (set ss))"
  shows "fold (\<lambda>s cur. newest cur s) ss (Some c) = fold (\<lambda>s cur. newest cur s) ss' (Some c)"
proof -
  have same: "set ss = set ss'" using assms(1) by (metis set_mset_mset)
  obtain w where w: "fold (\<lambda>s cur. newest cur s) ss (Some c) = Some w" "w \<in> insert c (set ss)"
    "\<forall>s \<in> insert c (set ss). sint (cs_Version s) \<le> sint (cs_Version w)"
    using fold_newest_spec [OF refl] by meson
  obtain w' where w': "fold (\<lambda>s cur. newest cur s) ss' (Some c) = Some w'" "w' \<in> insert c (set ss')"
    "\<forall>s \<in> insert c (set ss'). sint (cs_Version s) \<le> sint (cs_Version w')"
    using fold_newest_spec [OF refl] by meson
  have "sint (cs_Version w) = sint (cs_Version w')"
    using w(2,3) w'(2,3) unfolding same by (intro antisym) blast+
  then have "cs_Version w = cs_Version w'" by (rule signed_word_eqI)
  then have "w = w'" using inj_onD [OF assms(2), of w w'] w(2) w'(2) same by blast
  then show ?thesis using w(1) w'(1) by simp
qed

subsection \<open>Properties\<close>

text \<open>The consensus status of a container with three replica slots is the status at
  least two replicas report, and the recorded status when no two agree; the answer does not
  depend on the order in which Go iterates the status counts.\<close>

theorem consensus_is_majority:
  assumes "fmlookup (cm_states cm) cid = Some st" "length (cs_Replicas st) = 3"
    and "enumerates order (status_counts (cs_Replicas st))"
  shows "ConsensusManager_GetConsensusStatus order cid cm = Some s \<longleftrightarrow>
         (2 \<le> votes (cs_Replicas st) s \<or>
          (\<forall>t. votes (cs_Replicas st) t < 2) \<and> s = cs_Status st)"
  using assms by (rule consensus_majority)

definition example_state :: ContainerState where
  "example_state =
     \<lparr> cs_ContainerID = ''c'', cs_Status = ''pending'',
       cs_Replicas = [Some (empty_container ''c'' ''running''), Some (empty_container ''c'' ''failed''),
                      Some (empty_container ''c'' ''running'')],
       cs_Version = 4 \<rparr>"

lemma example_state_counts:
  "status_counts (cs_Replicas example_state) =
     fmap_of_list [(''running'', 2), (''failed'', 1)]"
  by (rule fmap_ext) (auto simp: example_state_def status_counts_def empty_container_def fmlookup_of_list)

theorem consensus_is_majority_witness:
  "ConsensusManager_GetConsensusStatus [''failed'', ''running''] ''c''
     \<lparr> cm_states = fmap_of_list [(''c'', example_state)] \<rparr> = Some ''running''"
  by (subst consensus_is_majority [where st = example_state])
     (simp_all add: fmlookup_of_list example_state_counts enumerates_def finsert_commute,
      simp_all add: example_state_def empty_container_def votes_def)



text \<open>The version is a signed 64-bit counter: merging a state with the largest version and
  then updating it locally wraps the version to the most negative value, after which any
  other non-minimal version, however old, replaces the local update.\<close>

theorem version_wraps:
  assumes "cs_Version st = 0x7FFFFFFFFFFFFFFF" "fmlookup (cm_states cm) cid = Some st"
    and "cs_Version old \<noteq> 0x8000000000000000"
  shows "ConsensusManager_GetState cid
           (ConsensusManager_MergeState cid old (ConsensusManager_UpdateState cid status rs cm)) = Some old"
proof -
  have "sint (0x8000000000000000 :: 64 word) = - (2 ^ 63)" by simp
  moreover have "- (2 ^ 63) \<le> sint (cs_Version old)" using sint_ge [of "cs_Version old"] by simp
  moreover have "sint (cs_Version old) \<noteq> sint (0x8000000000000000 :: 64 word)"
    using assms(3) signed_word_eqI by blast
  ultimately have "sint (0x8000000000000000 :: 64 word) < sint (cs_Version old)" by linarith
  then show ?thesis
    using assms(1,2)
    by (simp add: ConsensusManager_UpdateState_def ConsensusManager_GetState_def MergeState_newest
        newest_def Let_def)
qed

theorem version_wraps_witness:
  "ConsensusManager_GetState ''c'' (ConsensusManager_MergeState ''c'' example_state
     (ConsensusManager_UpdateState ''c'' ''stopped'' [None, None, None]
       \<lparr> cm_states = fmap_of_list [(''c'', example_state\<lparr>cs_Version := 0x7FFFFFFFFFFFFFFF\<rparr>)] \<rparr>))
     = Some example_state"
  by (rule version_wraps [of "example_state\<lparr>cs_Version := 0x7FFFFFFFFFFFFFFF\<rparr>"])
     (simp_all add: fmlookup_of_list, simp add: example_state_def)

end
