(* ===== verification/Replication.thy ===== *)
theory Replication
  imports Consensus_Manager Complex_Main
begin

text \<open>
  Replica sets, health monitoring and failover
  (\<^verbatim>\<open>src/internal/redundancy/replicator.go\<close>, \<^verbatim>\<open>health.go\<close>, \<^verbatim>\<open>failover.go\<close>).
  Replica sets keep one slot per region, at most three; the health monitor is bounded and
  answers "healthy" only for a fresh heartbeat; failover touches exactly the unhealthy
  slots.  The start/stop life cycles are step functions over the \<^verbatim>\<open>running\<close> flag, the stop
  channel and the number of live loops.
\<close>

subsection \<open>Replicator\<close>

record ReplicaSet =
  rs_ContainerID :: string
  rs_Replicas :: "Container option list"
  rs_Regions :: "string list"
  rs_CreatedAt :: time

record Replicator =
  rp_replicas :: "(string, ReplicaSet) gomap"

datatype replica_error =
    NoRegions | ReplicaSetNotFound | InvalidReplicaIndex | FailoverFailed string

definition NewReplicator :: Replicator where
  "NewReplicator = \<lparr> rp_replicas = fmempty \<rparr>"

definition Replicator_CreateReplicaSet ::
    "time \<Rightarrow> string \<Rightarrow> string list \<Rightarrow> Replicator \<Rightarrow> (replica_error + ReplicaSet) \<times> Replicator" where
  "Replicator_CreateReplicaSet now containerID regions r =
     (if regions = [] then (Inl NoRegions, r)
      else
        let regions = (if length regions > 3 then take 3 regions else regions);
            replicaSet = \<lparr> rs_ContainerID = containerID,
                           rs_Replicas = replicate (length regions) None,
                           rs_Regions = regions, rs_CreatedAt = now \<rparr>
        in (Inr replicaSet, r\<lparr>rp_replicas := fmupd containerID replicaSet (rp_replicas r)\<rparr>))"

definition set_replica ::
    "string \<Rightarrow> int \<Rightarrow> Container option \<Rightarrow> Replicator \<Rightarrow> replica_error option \<times> Replicator" where
  "set_replica containerID replicaIndex slot r =
     (case fmlookup (rp_replicas r) containerID of
        None \<Rightarrow> (Some ReplicaSetNotFound, r)
      | Some rs \<Rightarrow>
          if replicaIndex < 0 \<or> replicaIndex \<ge> int (length (rs_Replicas rs))
          then (Some InvalidReplicaIndex, r)
          else (None, r\<lparr>rp_replicas := fmupd containerID
                  (rs\<lparr>rs_Replicas := (rs_Replicas rs)[nat replicaIndex := slot]\<rparr>) (rp_replicas r)\<rparr>))"

definition Replicator_AddReplica ::
    "string \<Rightarrow> int \<Rightarrow> Container \<Rightarrow> Replicator \<Rightarrow> replica_error option \<times> Replicator" where
  "Replicator_AddReplica containerID replicaIndex container r =
     set_replica containerID replicaIndex (Some container) r"

definition Replicator_RemoveReplica ::
    "string \<Rightarrow> int \<Rightarrow> Replicator \<Rightarrow> replica_error option \<times> Replicator" where
  "Replicator_RemoveReplica containerID replicaIndex r = set_replica containerID replicaIndex None r"

definition Replicator_ReplaceReplica ::
    "string \<Rightarrow> int \<Rightarrow> Container \<Rightarrow> Replicator \<Rightarrow> replica_error option \<times> Replicator" where
  "Replicator_ReplaceReplica containerID replicaIndex newContainer r =
     Replicator_AddReplica containerID replicaIndex newContainer r"

definition Replicator_GetReplicaSet :: "string \<Rightarrow> Replicator \<Rightarrow> ReplicaSet option" where
  "Replicator_GetReplicaSet containerID r = fmlookup (rp_replicas r) containerID"

definition Replicator_GetAllReplicaSets :: "Replicator \<Rightarrow> (string, ReplicaSet) gomap" where
  "Replicator_GetAllReplicaSets r = rp_replicas r"

definition Replicator_DeleteReplicaSet :: "string \<Rightarrow> Replicator \<Rightarrow> Replicator" where
  "Replicator_DeleteReplicaSet containerID r =
     r\<lparr>rp_replicas := fmdrop containerID (rp_replicas r)\<rparr>"

subsection \<open>Health monitor\<close>

definition maxTrackedContainers :: nat where "maxTrackedContainers = 10000"

record HealthStatus =
  hs_CPUUsage :: rat
  hs_MemoryUsage :: "64 word"
  hs_DiskUsage :: "64 word"
  hs_NetworkIn :: "64 word"
  hs_NetworkOut :: "64 word"
  hs_LastUpdate :: time
  hs_Healthy :: bool

record ReplicaHealth =
  rh_ContainerID :: string
  rh_ReplicaIndex :: int
  rh_LastHeartbeat :: time
  rh_Health :: HealthStatus
  rh_Healthy :: bool

record HealthMonitor =
  hm_replicas :: "(string, (int, ReplicaHealth) gomap) gomap"
  hm_interval :: duration
  hm_timeout :: duration

definition NewHealthMonitor :: HealthMonitor where
  "NewHealthMonitor = \<lparr> hm_replicas = fmempty, hm_interval = 10 * Second, hm_timeout = 30 * Second \<rparr>"

definition HealthMonitor_SetInterval :: "duration \<Rightarrow> HealthMonitor \<Rightarrow> HealthMonitor" where
  "HealthMonitor_SetInterval interval hm = hm\<lparr>hm_interval := interval\<rparr>"

text \<open>\<open>probe\<close> is the optional probe function; \<open>None\<close> as its answer is a probe error.\<close>

definition checked_health ::
    "time \<Rightarrow> (string \<Rightarrow> bool option) option \<Rightarrow> duration \<Rightarrow> string \<Rightarrow> int \<Rightarrow> ReplicaHealth \<Rightarrow> ReplicaHealth" where
  "checked_health now probe timeout containerID idx h =
     (let healthy =
        (case probe of
           Some f \<Rightarrow> if idx = 0 then (case f containerID of None \<Rightarrow> False | Some b \<Rightarrow> b)
                     else if t_sub now (rh_LastHeartbeat h) > timeout then False else rh_Healthy h
         | None \<Rightarrow> if t_sub now (rh_LastHeartbeat h) > timeout then False else rh_Healthy h)
      in if healthy \<noteq> rh_Healthy h then h\<lparr>rh_Healthy := healthy, rh_LastHeartbeat := now\<rparr> else h)"

definition HealthMonitor_checkHealth ::
    "time \<Rightarrow> (string \<Rightarrow> bool option) option \<Rightarrow> HealthMonitor \<Rightarrow> HealthMonitor" where
  "HealthMonitor_checkHealth now probe hm =
     hm\<lparr>hm_replicas := fmmap_keys (\<lambda>containerID.
          fmmap_keys (checked_health now probe (hm_timeout hm) containerID)) (hm_replicas hm)\<rparr>"

definition all_stale :: "time \<Rightarrow> (int, ReplicaHealth) gomap \<Rightarrow> bool" where
  "all_stale cutoff replicas \<longleftrightarrow> fBall (fmran replicas) (\<lambda>h. \<not> rh_LastHeartbeat h > cutoff)"

definition HealthMonitor_cleanStaleLocked :: "time \<Rightarrow> duration \<Rightarrow> HealthMonitor \<Rightarrow> HealthMonitor" where
  "HealthMonitor_cleanStaleLocked now maxAge hm =
     (let cutoff = now - maxAge
      in hm\<lparr>hm_replicas := fmfilter
              (\<lambda>cid. case fmlookup (hm_replicas hm) cid of
                       Some replicas \<Rightarrow> \<not> all_stale cutoff replicas | None \<Rightarrow> False)
              (hm_replicas hm)\<rparr>)"

definition HealthMonitor_CleanStale :: "time \<Rightarrow> duration \<Rightarrow> HealthMonitor \<Rightarrow> HealthMonitor" where
  "HealthMonitor_CleanStale now maxAge hm = HealthMonitor_cleanStaleLocked now maxAge hm"

definition HealthMonitor_UpdateHealth ::
    "time \<Rightarrow> string \<Rightarrow> int \<Rightarrow> HealthStatus \<Rightarrow> HealthMonitor \<Rightarrow> HealthMonitor" where
  "HealthMonitor_UpdateHealth now containerID replicaIndex health hm =
     (let record = (\<lambda>hm replicas.
            let lastHeartbeat = (if hs_LastUpdate health = 0 then now else hs_LastUpdate health)
            in hm\<lparr>hm_replicas := fmupd containerID
                 (fmupd replicaIndex
                    \<lparr> rh_ContainerID = containerID, rh_ReplicaIndex = replicaIndex,
                      rh_LastHeartbeat = lastHeartbeat, rh_Health = health,
                      rh_Healthy = hs_Healthy health \<rparr> replicas) (hm_replicas hm)\<rparr>)
      in (case fmlookup (hm_replicas hm) containerID of
            Some replicas \<Rightarrow> record hm replicas
          | None \<Rightarrow>
              let hm = (if mlen (hm_replicas hm) \<ge> maxTrackedContainers
                        then HealthMonitor_cleanStaleLocked now (hm_timeout hm) hm else hm)
              in if mlen (hm_replicas hm) \<ge> maxTrackedContainers then hm
                 else record hm fmempty))"

definition HealthMonitor_GetHealth :: "string \<Rightarrow> int \<Rightarrow> HealthMonitor \<Rightarrow> ReplicaHealth option" where
  "HealthMonitor_GetHealth containerID replicaIndex hm =
     (case fmlookup (hm_replicas hm) containerID of
        Some replicas \<Rightarrow> fmlookup replicas replicaIndex
      | None \<Rightarrow> None)"

definition HealthMonitor_IsHealthy :: "time \<Rightarrow> string \<Rightarrow> int \<Rightarrow> HealthMonitor \<Rightarrow> bool" where
  "HealthMonitor_IsHealthy now containerID replicaIndex hm =
     (case HealthMonitor_GetHealth containerID replicaIndex hm of
        None \<Rightarrow> False
      | Some health \<Rightarrow> rh_Healthy health \<and> t_sub now (rh_LastHeartbeat health) < hm_timeout hm)"

definition HealthMonitor_GetUnhealthyReplicas ::
    "time \<Rightarrow> int list \<Rightarrow> string \<Rightarrow> HealthMonitor \<Rightarrow> int list" where
  "HealthMonitor_GetUnhealthyReplicas now order containerID hm =
     (case fmlookup (hm_replicas hm) containerID of
        None \<Rightarrow> []
      | Some replicas \<Rightarrow>
          filter (\<lambda>idx. case fmlookup replicas idx of
                     None \<Rightarrow> False
                   | Some health \<Rightarrow> \<not> rh_Healthy health \<or>
                                   t_sub now (rh_LastHeartbeat health) > hm_timeout hm) order)"

definition HealthMonitor_RemoveContainer :: "string \<Rightarrow> HealthMonitor \<Rightarrow> HealthMonitor" where
  "HealthMonitor_RemoveContainer containerID hm =
     hm\<lparr>hm_replicas := fmdrop containerID (hm_replicas hm)\<rparr>"

subsection \<open>Failover\<close>

record failover_hooks =
  fo_onFailover :: "(string \<Rightarrow> int \<Rightarrow> string \<Rightarrow> string + Container) option"
  fo_verifyProvider :: "(string \<Rightarrow> string \<Rightarrow> bool) option"

fun failover_loop ::
    "failover_hooks \<Rightarrow> string \<Rightarrow> ReplicaSet \<Rightarrow> int list \<Rightarrow> Replicator \<Rightarrow>
     replica_error option \<times> Replicator" where
  "failover_loop fo containerID rs [] r = (None, r)"
| "failover_loop fo containerID rs (i # is) r =
     (if i < 0 \<or> i \<ge> int (length (rs_Regions rs)) then (Some InvalidReplicaIndex, r)
      else
        let region = rs_Regions rs ! nat i in
        if (case fo_verifyProvider fo of Some v \<Rightarrow> \<not> v containerID region | None \<Rightarrow> False)
        then failover_loop fo containerID rs is r
        else (case fo_onFailover fo of
                None \<Rightarrow> failover_loop fo containerID rs is r
              | Some cb \<Rightarrow>
                  (case cb containerID i region of
                     Inl e \<Rightarrow> (Some (FailoverFailed e), r)
                   | Inr newContainer \<Rightarrow>
                       (case Replicator_AddReplica containerID i newContainer r of
                          (Some e, r) \<Rightarrow> (Some e, r)
                        | (None, r) \<Rightarrow> failover_loop fo containerID rs is r))))"

definition FailoverManager_CheckAndFailover ::
    "failover_hooks \<Rightarrow> time \<Rightarrow> int list \<Rightarrow> string \<Rightarrow> HealthMonitor \<Rightarrow> Replicator \<Rightarrow>
     replica_error option \<times> Replicator" where
  "FailoverManager_CheckAndFailover fo now order containerID hm r =
     (let unhealthy = HealthMonitor_GetUnhealthyReplicas now order containerID hm in
      if unhealthy = [] then (None, r)
      else (case Replicator_GetReplicaSet containerID r of
              None \<Rightarrow> (Some ReplicaSetNotFound, r)
            | Some rs \<Rightarrow> failover_loop fo containerID rs unhealthy r))"

definition FailoverManager_checkAllContainers ::
    "failover_hooks \<Rightarrow> time \<Rightarrow> (string \<Rightarrow> int list) \<Rightarrow> string list \<Rightarrow> HealthMonitor \<Rightarrow> Replicator \<Rightarrow>
     Replicator" where
  "FailoverManager_checkAllContainers fo now order cids hm r =
     fold (\<lambda>cid r. snd (FailoverManager_CheckAndFailover fo now (order cid) cid hm r)) cids r"

subsection \<open>Life cycles\<close>

record life_cycle =
  lc_running :: bool
  lc_stopClosed :: bool
  lc_loops :: nat

datatype lc_op = LCStart | LCContextDone | LCStopSeen | LCStop | LCReset

text \<open>
  \<open>LCStart\<close> is a call of \<^verbatim>\<open>Start\<close> up to its loop; \<open>LCContextDone\<close> and \<open>LCStopSeen\<close> are
  a loop that ends because the context is cancelled or the stop channel is closed.
\<close>

fun HealthMonitor_life :: "lc_op \<Rightarrow> life_cycle \<Rightarrow> life_cycle" where
  "HealthMonitor_life LCStart s =
     (if lc_running s then s else s\<lparr>lc_running := True, lc_loops := lc_loops s + 1\<rparr>)"
| "HealthMonitor_life LCContextDone s =
     (if lc_loops s = 0 then s else s\<lparr>lc_running := False, lc_loops := lc_loops s - 1\<rparr>)"
| "HealthMonitor_life LCStopSeen s =
     (if lc_loops s = 0 \<or> \<not> lc_stopClosed s then s
      else s\<lparr>lc_running := False, lc_loops := lc_loops s - 1\<rparr>)"
| "HealthMonitor_life LCStop s =
     (if \<not> lc_running s then s else s\<lparr>lc_running := False, lc_stopClosed := True\<rparr>)"
| "HealthMonitor_life LCReset s = (if lc_running s then s else s\<lparr>lc_stopClosed := False\<rparr>)"

fun FailoverManager_life :: "lc_op \<Rightarrow> life_cycle \<Rightarrow> life_cycle" where
  "FailoverManager_life LCStart s =
     (if lc_running s then s else s\<lparr>lc_running := True, lc_loops := lc_loops s + 1\<rparr>)"
| "FailoverManager_life LCContextDone s =
     (if lc_loops s = 0 then s else s\<lparr>lc_loops := lc_loops s - 1\<rparr>)"
| "FailoverManager_life LCStopSeen s =
     (if lc_loops s = 0 \<or> \<not> lc_stopClosed s then s else s\<lparr>lc_loops := lc_loops s - 1\<rparr>)"
| "FailoverManager_life LCStop s =
     (if \<not> lc_running s then s else s\<lparr>lc_running := False, lc_stopClosed := True\<rparr>)"
| "FailoverManager_life LCReset s = (if lc_running s then s else s\<lparr>lc_stopClosed := False\<rparr>)"

subsection \<open>Replica sets are well formed\<close>

definition replica_set_ok :: "ReplicaSet \<Rightarrow> bool" where
  "replica_set_ok rs \<longleftrightarrow>
     0 < length (rs_Regions rs) \<and> length (rs_Regions rs) \<le> 3 \<and>
     length (rs_Replicas rs) = length (rs_Regions rs)"

definition replicator_inv :: "Replicator \<Rightarrow> bool" where
  "replicator_inv r \<longleftrightarrow> (\<forall>cid rs. fmlookup (rp_replicas r) cid = Some rs \<longrightarrow> replica_set_ok rs)"

datatype rp_op =
    RPCreate time string "string list" | RPAdd string int Container | RPRemove string int
  | RPDelete string

fun rp_step :: "rp_op \<Rightarrow> Replicator \<Rightarrow> Replicator" where
  "rp_step (RPCreate t cid regions) r = snd (Replicator_CreateReplicaSet t cid regions r)"
| "rp_step (RPAdd cid i c) r = snd (Replicator_AddReplica cid i c r)"
| "rp_step (RPRemove cid i) r = snd (Replicator_RemoveReplica cid i r)"
| "rp_step (RPDelete cid) r = Replicator_DeleteReplicaSet cid r"

lemma replicator_inv_set: "replicator_inv r \<Longrightarrow> replicator_inv (snd (set_replica cid i slot r))"
  by (auto simp: set_replica_def replicator_inv_def replica_set_ok_def split: option.splits)

lemma replicator_inv_Create:
  "replicator_inv r \<Longrightarrow> replicator_inv (snd (Replicator_CreateReplicaSet t cid regions r))"
  by (auto simp: Replicator_CreateReplicaSet_def Let_def replicator_inv_def replica_set_ok_def)

lemma replicator_inv_Delete: "replicator_inv r \<Longrightarrow> replicator_inv (Replicator_DeleteReplicaSet cid r)"
  by (simp add: Replicator_DeleteReplicaSet_def replicator_inv_def)

interpretation replicator_runs: guarded_machine rp_step "\<lambda>_ _. True" replicator_inv
proof
  fix op s
  assume "replicator_inv s"
  then show "replicator_inv (rp_step op s)"
    by (cases op)
       (simp_all add: Replicator_AddReplica_def Replicator_RemoveReplica_def replicator_inv_set
          replicator_inv_Create replicator_inv_Delete)
qed

lemma set_replica_ok:
  assumes "fmlookup (rp_replicas r) cid = Some rs" "0 \<le> i" "i < int (length (rs_Replicas rs))"
  shows "set_replica cid i slot r =
         (None, r\<lparr>rp_replicas := fmupd cid (rs\<lparr>rs_Replicas := (rs_Replicas rs)[nat i := slot]\<rparr>) (rp_replicas r)\<rparr>)"
  using assms by (simp add: set_replica_def)

subsection \<open>The health monitor is bounded and answers for fresh heartbeats\<close>

definition hm_inv :: "HealthMonitor \<Rightarrow> bool" where
  "hm_inv hm \<longleftrightarrow> mlen (hm_replicas hm) \<le> maxTrackedContainers"

datatype hm_op =
    HMUpdate time string int HealthStatus | HMCheck time "(string \<Rightarrow> bool option) option"
  | HMClean time duration | HMRemove string

fun hm_step :: "hm_op \<Rightarrow> HealthMonitor \<Rightarrow> HealthMonitor" where
  "hm_step (HMUpdate t cid i h) hm = HealthMonitor_UpdateHealth t cid i h hm"
| "hm_step (HMCheck t probe) hm = HealthMonitor_checkHealth t probe hm"
| "hm_step (HMClean t d) hm = HealthMonitor_CleanStale t d hm"
| "hm_step (HMRemove cid) hm = HealthMonitor_RemoveContainer cid hm"

lemma mlen_filter_le: "mlen (fmfilter P m) \<le> mlen m"
  by (auto simp: fcard.rep_eq intro!: card_mono)

lemma hm_inv_clean: "hm_inv hm \<Longrightarrow> hm_inv (HealthMonitor_cleanStaleLocked t d hm)"
  using mlen_filter_le [of _ "hm_replicas hm"]
  by (auto simp: hm_inv_def HealthMonitor_cleanStaleLocked_def Let_def simp del: fmdom_filter
      intro: order_trans)

lemma lookup_clean:
  "fmlookup (hm_replicas hm) cid = None \<Longrightarrow>
   fmlookup (hm_replicas (HealthMonitor_cleanStaleLocked t d hm)) cid = None"
  by (simp add: HealthMonitor_cleanStaleLocked_def Let_def)

lemma hm_inv_Update: "hm_inv hm \<Longrightarrow> hm_inv (HealthMonitor_UpdateHealth t cid i h hm)"
  using hm_inv_clean [of hm t "hm_timeout hm"] lookup_clean [of hm cid t "hm_timeout hm"]
  by (auto simp: HealthMonitor_UpdateHealth_def Let_def hm_inv_def mlen_upd simp del: fmdom_fmupd
      split: option.splits)

lemma hm_inv_Check: "hm_inv hm \<Longrightarrow> hm_inv (HealthMonitor_checkHealth t probe hm)"
  by (simp add: hm_inv_def HealthMonitor_checkHealth_def)

lemma hm_inv_Remove: "hm_inv hm \<Longrightarrow> hm_inv (HealthMonitor_RemoveContainer cid hm)"
  using mlen_drop_le [of cid "hm_replicas hm"]
  by (simp add: hm_inv_def HealthMonitor_RemoveContainer_def del: fmdom_drop)

interpretation health_runs: guarded_machine hm_step "\<lambda>_ _. True" hm_inv
proof
  fix op s
  assume "hm_inv s"
  then show "hm_inv (hm_step op s)"
    by (cases op) (simp_all add: hm_inv_Update hm_inv_clean hm_inv_Check hm_inv_Remove
        HealthMonitor_CleanStale_def)
qed

lemma checked_health_remote:
  assumes "probe = None \<or> idx \<noteq> 0" "t_sub now (rh_LastHeartbeat h) > timeout"
  shows "\<not> rh_Healthy (checked_health now probe timeout cid idx h)"
  using assms by (auto simp: checked_health_def Let_def split: option.splits)

lemma GetHealth_check:
  "HealthMonitor_GetHealth cid i (HealthMonitor_checkHealth now probe hm) =
     map_option (checked_health now probe (hm_timeout hm) cid i) (HealthMonitor_GetHealth cid i hm)"
  by (auto simp: HealthMonitor_GetHealth_def HealthMonitor_checkHealth_def split: option.splits)

subsection \<open>Failover replaces exactly the unhealthy slots\<close>

definition verified :: "failover_hooks \<Rightarrow> string \<Rightarrow> ReplicaSet \<Rightarrow> int \<Rightarrow> bool" where
  "verified fo cid rs i \<longleftrightarrow>
     (case fo_verifyProvider fo of None \<Rightarrow> True | Some v \<Rightarrow> v cid (rs_Regions rs ! nat i))"

lemma failover_loop_slots:
  assumes "fo_onFailover fo = Some cb" "\<And>c i g. \<exists>x. cb c i g = Inr x"
    and "\<forall>i \<in> set is. 0 \<le> i \<and> i < int (length (rs_Regions rs))"
    and "fmlookup (rp_replicas r) cid = Some cur"
    and "length (rs_Replicas cur) = length (rs_Regions rs)"
  shows "\<exists>r' cur'. failover_loop fo cid rs is r = (None, r') \<and>
           fmlookup (rp_replicas r') cid = Some cur' \<and>
           (\<forall>c. c \<noteq> cid \<longrightarrow> fmlookup (rp_replicas r') c = fmlookup (rp_replicas r) c) \<and>
           rs_Regions cur' = rs_Regions cur \<and> length (rs_Replicas cur') = length (rs_Replicas cur) \<and>
           (\<forall>j < length (rs_Replicas cur).
              rs_Replicas cur' ! j =
                (if int j \<in> set is \<and> verified fo cid rs (int j)
                 then Some (projr (cb cid (int j) (rs_Regions rs ! j)))
                 else rs_Replicas cur ! j))"
  using assms(3-5)
proof (induction "is" arbitrary: r cur)
  case (Cons i "is")
  show ?case
  proof (cases "verified fo cid rs i")
    case False
    then have eq: "failover_loop fo cid rs (i # is) r = failover_loop fo cid rs is r"
      using Cons.prems(1) by (auto simp: verified_def Let_def split: option.splits)
    have slots: "int j \<in> set (i # is) \<and> verified fo cid rs (int j) \<longleftrightarrow>
                 int j \<in> set is \<and> verified fo cid rs (int j)" for j using False by auto
    show ?thesis unfolding eq slots using Cons.prems by (intro Cons.IH) simp_all
  next
    case True
    obtain x where x: "cb cid i (rs_Regions rs ! nat i) = Inr x" using assms(2) by blast
    let ?cur = "cur\<lparr>rs_Replicas := (rs_Replicas cur)[nat i := Some x]\<rparr>"
    let ?r = "r\<lparr>rp_replicas := fmupd cid ?cur (rp_replicas r)\<rparr>"
    have step: "failover_loop fo cid rs (i # is) r = failover_loop fo cid rs is ?r"
      using Cons.prems True x assms(1)
      by (auto simp: verified_def Let_def Replicator_AddReplica_def set_replica_ok split: option.splits)
    have len: "length (rs_Replicas ?cur) = length (rs_Regions rs)" "fmlookup (rp_replicas ?r) cid = Some ?cur"
      using Cons.prems by simp_all
    from Cons.IH [OF _ len(2,1)] Cons.prems(1) obtain r' cur' where ih:
      "failover_loop fo cid rs is ?r = (None, r')" "fmlookup (rp_replicas r') cid = Some cur'"
      "\<forall>c. c \<noteq> cid \<longrightarrow> fmlookup (rp_replicas r') c = fmlookup (rp_replicas ?r) c"
      "rs_Regions cur' = rs_Regions ?cur" "length (rs_Replicas cur') = length (rs_Replicas ?cur)"
      "\<forall>j < length (rs_Replicas ?cur). rs_Replicas cur' ! j =
         (if int j \<in> set is \<and> verified fo cid rs (int j)
          then Some (projr (cb cid (int j) (rs_Regions rs ! j))) else rs_Replicas ?cur ! j)"
      by auto
    have slots: "rs_Replicas cur' ! j =
        (if int j \<in> set (i # is) \<and> verified fo cid rs (int j)
         then Some (projr (cb cid (int j) (rs_Regions rs ! j))) else rs_Replicas cur ! j)"
      if "j < length (rs_Replicas cur)" for j
    proof (cases "int j = i")
      case True
      then show ?thesis using ih(6) that \<open>verified fo cid rs i\<close> x by auto
    next
      case False
      then have "nat i \<noteq> j" using Cons.prems(1) by auto
      then show ?thesis using ih(6) that False by auto
    qed
    show ?thesis unfolding step using ih slots by (intro exI [of _ r'] exI [of _ cur']) simp
  qed
qed auto

subsection \<open>Properties\<close>

text \<open>Whatever sequence of creations, additions, removals and deletions is performed,
  every replica set has between one and three regions and exactly one slot per region.\<close>

theorem replica_sets_well_formed:
  assumes "Replicator_GetReplicaSet cid (fold rp_step ops NewReplicator) = Some rs"
  shows "1 \<le> length (rs_Regions rs) \<and> length (rs_Regions rs) \<le> 3 \<and>
         length (rs_Replicas rs) = length (rs_Regions rs)"
proof -
  have "replicator_inv (fold rp_step ops NewReplicator)"
    by (rule replicator_runs.run_inv) (simp_all add: replicator_inv_def NewReplicator_def)
  then show ?thesis
    using assms by (auto simp: replicator_inv_def replica_set_ok_def Replicator_GetReplicaSet_def Suc_le_eq)
qed

theorem replica_sets_well_formed_witness:
  "length (rs_Replicas (the (Replicator_GetReplicaSet ''c''
     (fold rp_step [RPCreate 1 ''c'' [''a'', ''b'', ''c'', ''d'']] NewReplicator)))) \<le> 3"
  using replica_sets_well_formed [of "''c''" "[RPCreate 1 ''c'' [''a'', ''b'', ''c'', ''d'']]"
      "\<lparr> rs_ContainerID = ''c'', rs_Replicas = [None, None, None],
         rs_Regions = [''a'', ''b'', ''c''], rs_CreatedAt = 1 \<rparr>"]
  by (simp add: Replicator_GetReplicaSet_def Replicator_CreateReplicaSet_def NewReplicator_def numeral_3_eq_3 Let_def)

text \<open>A failover check whose callback succeeds completes without error, installs the new
  container in exactly the unhealthy slots with a verified provider in their region, and
  leaves every other slot and every other container as it was.\<close>

theorem failover_replaces_unhealthy:
  assumes "fo_onFailover fo = Some cb" "\<And>c i g. \<exists>x. cb c i g = Inr x"
    and "fmlookup (rp_replicas r) cid = Some rs" "replica_set_ok rs"
    and "unhealthy = HealthMonitor_GetUnhealthyReplicas now order cid hm"
    and "\<forall>i \<in> set unhealthy. 0 \<le> i \<and> i < int (length (rs_Regions rs))"
  shows "\<exists>r' rs'. FailoverManager_CheckAndFailover fo now order cid hm r = (None, r') \<and>
           fmlookup (rp_replicas r') cid = Some rs' \<and>
           (\<forall>c. c \<noteq> cid \<longrightarrow> fmlookup (rp_replicas r') c = fmlookup (rp_replicas r) c) \<and>
           (\<forall>j < length (rs_Replicas rs).
              rs_Replicas rs' ! j =
                (if int j \<in> set unhealthy \<and> verified fo cid rs (int j)
                 then Some (projr (cb cid (int j) (rs_Regions rs ! j)))
                 else rs_Replicas rs ! j))"
proof (cases "unhealthy = []")
  case True
  then show ?thesis
    using assms(3,5) by (auto simp: FailoverManager_CheckAndFailover_def)
next
  case False
  have "length (rs_Replicas rs) = length (rs_Regions rs)" using assms(4) by (simp add: replica_set_ok_def)
  from failover_loop_slots [OF assms(1,2,6,3) this] False assms(3,5) show ?thesis
    by (auto simp: FailoverManager_CheckAndFailover_def Replicator_GetReplicaSet_def)
qed

definition example_hooks :: failover_hooks where
  "example_hooks = \<lparr> fo_onFailover = Some (\<lambda>c i g. Inr (empty_container c ''running'')),
                     fo_verifyProvider = None \<rparr>"

definition example_set :: ReplicaSet where
  "example_set = \<lparr> rs_ContainerID = ''c'', rs_Replicas = [None, None], rs_Regions = [''eu'', ''us''],
                   rs_CreatedAt = 1 \<rparr>"

definition example_monitor :: HealthMonitor where
  "example_monitor = HealthMonitor_UpdateHealth 5 ''c'' 1
     \<lparr> hs_CPUUsage = 0, hs_MemoryUsage = 0, hs_DiskUsage = 0, hs_NetworkIn = 0, hs_NetworkOut = 0,
       hs_LastUpdate = 0, hs_Healthy = False \<rparr> NewHealthMonitor"

theorem failover_replaces_unhealthy_witness:
  "\<exists>r' rs'. FailoverManager_CheckAndFailover example_hooks 6 [1] ''c'' example_monitor
       \<lparr> rp_replicas = fmap_of_list [(''c'', example_set)] \<rparr> = (None, r') \<and>
     fmlookup (rp_replicas r') ''c'' = Some rs' \<and>
     rs_Replicas rs' ! 1 = Some (empty_container ''c'' ''running'')"
proof -
  have u: "HealthMonitor_GetUnhealthyReplicas 6 [1] ''c'' example_monitor = [1]"
    by (simp add: HealthMonitor_GetUnhealthyReplicas_def example_monitor_def
        HealthMonitor_UpdateHealth_def NewHealthMonitor_def maxTrackedContainers_def)
  show ?thesis
    using failover_replaces_unhealthy [of example_hooks "\<lambda>c i g. Inr (empty_container c ''running'')"
        "\<lparr> rp_replicas = fmap_of_list [(''c'', example_set)] \<rparr>" "''c''" example_set "[1]" 6 "[1]"
        example_monitor] u
    by (auto simp: example_hooks_def fmlookup_of_list replica_set_ok_def example_set_def verified_def)
qed

text \<open>The health monitor never tracks more than 10,000 containers, a replica is reported
  healthy only on a heartbeat younger than the timeout, and one pass of the health check
  leaves no remote replica with an outdated heartbeat marked healthy.\<close>

theorem health_monitor_sound:
  "mlen (hm_replicas (fold hm_step ops NewHealthMonitor)) \<le> 10000 \<and>
   (HealthMonitor_IsHealthy now cid i hm \<longrightarrow>
      (\<exists>h. HealthMonitor_GetHealth cid i hm = Some h \<and> rh_Healthy h \<and>
           t_sub now (rh_LastHeartbeat h) < hm_timeout hm)) \<and>
   (HealthMonitor_GetHealth cid i hm = Some h \<and> t_sub now (rh_LastHeartbeat h) > hm_timeout hm \<and> i \<noteq> 0 \<longrightarrow>
      \<not> HealthMonitor_IsHealthy u cid i (HealthMonitor_checkHealth now probe hm))"
proof -
  have "hm_inv (fold hm_step ops NewHealthMonitor)"
    by (rule health_runs.run_inv) (simp_all add: hm_inv_def NewHealthMonitor_def maxTrackedContainers_def)
  then show ?thesis
    using checked_health_remote [of probe i "hm_timeout hm" now h cid]
    by (auto simp: hm_inv_def maxTrackedContainers_def HealthMonitor_IsHealthy_def GetHealth_check
        split: option.splits)
qed

theorem health_monitor_sound_witness:
  "\<not> HealthMonitor_IsHealthy 40000000006 ''c'' 1
       (HealthMonitor_checkHealth 40000000006 None example_monitor)"
proof -
  obtain h where "HealthMonitor_GetHealth ''c'' 1 example_monitor = Some h" "rh_LastHeartbeat h = 5"
    by (simp add: example_monitor_def HealthMonitor_GetHealth_def HealthMonitor_UpdateHealth_def
        NewHealthMonitor_def maxTrackedContainers_def)
  moreover have "hm_timeout example_monitor = 30 * Second"
    by (simp add: example_monitor_def HealthMonitor_UpdateHealth_def NewHealthMonitor_def
        maxTrackedContainers_def)
  ultimately show ?thesis
    using health_monitor_sound [of "[]" 40000000006 "''c''" 1 example_monitor h 40000000006 None]
    by (simp add: t_sub_def)
qed

text \<open>A failover manager whose loop ended with its context cannot be started again: it
  still counts as running, so the second start does nothing, while the health monitor's
  second start brings its loop back.\<close>

theorem failover_restart_ignored:
  "fold FailoverManager_life [LCStart, LCContextDone, LCStart]
     \<lparr> lc_running = False, lc_stopClosed = False, lc_loops = 0 \<rparr> =
     \<lparr> lc_running = True, lc_stopClosed = False, lc_loops = 0 \<rparr> \<and>
   fold HealthMonitor_life [LCStart, LCContextDone, LCStart]
     \<lparr> lc_running = False, lc_stopClosed = False, lc_loops = 0 \<rparr> =
     \<lparr> lc_running = True, lc_stopClosed = False, lc_loops = 1 \<rparr>"
  by simp

end
