(* ===== verification/Escrow_Accounts.thy ===== *)
theory Escrow_Accounts
  imports Prelude Go_Float
begin

text \<open>
  Payment escrow and prepaid credits (\<^verbatim>\<open>src/internal/payment/escrow.go\<close>).  The released
  share of an escrow is computed in \<^verbatim>\<open>big.Float\<close> arithmetic; rounding is modelled, and the
  central result is that it can never release more than the escrowed amount.  A result
  \<open>EscrowPanic\<close> stands for the run-time panic of a zero duration.
\<close>

subsection \<open>Escrow\<close>

record Escrow =
  es_ReservationID :: string
  es_Amount :: int
  es_Duration :: duration
  es_StartTime :: time
  es_Released :: int

record EscrowManager =
  em_escrows :: "(string, Escrow) gomap"

datatype escrow_error = EscrowNotFound | EscrowPanic

definition NewEscrowManager :: EscrowManager where
  "NewEscrowManager = \<lparr> em_escrows = fmempty \<rparr>"

definition EscrowManager_CreateEscrow ::
    "time \<Rightarrow> string \<Rightarrow> int \<Rightarrow> duration \<Rightarrow> EscrowManager \<Rightarrow> Escrow \<times> EscrowManager" where
  "EscrowManager_CreateEscrow now reservationID amount d em =
     (let escrow = \<lparr> es_ReservationID = reservationID, es_Amount = amount, es_Duration = d,
                     es_StartTime = now, es_Released = 0 \<rparr>
      in (escrow, em\<lparr>em_escrows := fmupd reservationID escrow (em_escrows em)\<rparr>))"

definition EscrowManager_GetEscrow :: "string \<Rightarrow> EscrowManager \<Rightarrow> Escrow option" where
  "EscrowManager_GetEscrow reservationID em = fmlookup (em_escrows em) reservationID"

text \<open>
  \<^verbatim>\<open>SetInt64\<close> gives precision 64, \<^verbatim>\<open>SetInt\<close> the bit length of the integer but at least 64,
  and \<^verbatim>\<open>Quo\<close> and \<^verbatim>\<open>Mul\<close> the larger precision of their operands; \<^verbatim>\<open>Int\<close> truncates.
\<close>

definition amount_prec :: "int \<Rightarrow> nat" where
  "amount_prec amount = max (nat (bitlen \<bar>amount\<bar>)) 64"

definition release_amount :: "int \<Rightarrow> duration \<Rightarrow> duration \<Rightarrow> int" where
  "release_amount amount elapsed d =
     (let proportion = round_big 64 (of_int elapsed / of_int d);
          releaseFloat = round_big (amount_prec amount) (of_int amount * proportion)
      in float_trunc releaseFloat)"

definition EscrowManager_ReleasePayment ::
    "string \<Rightarrow> duration \<Rightarrow> EscrowManager \<Rightarrow> (escrow_error + int) \<times> EscrowManager" where
  "EscrowManager_ReleasePayment reservationID uptime em =
     (case fmlookup (em_escrows em) reservationID of
        None \<Rightarrow> (Inl EscrowNotFound, em)
      | Some escrow \<Rightarrow>
          let elapsed = (if uptime > es_Duration escrow then es_Duration escrow else uptime) in
          if es_Duration escrow = 0 then (Inl EscrowPanic, em)
          else
            let toRelease = release_amount (es_Amount escrow) elapsed (es_Duration escrow)
                              - es_Released escrow
            in if toRelease \<le> 0 then (Inr 0, em)
               else (Inr toRelease, em\<lparr>em_escrows := fmupd reservationID
                       (escrow\<lparr>es_Released := es_Released escrow + toRelease\<rparr>) (em_escrows em)\<rparr>))"

subsection \<open>Prepaid credits\<close>

record MoltCredit =
  mc_RequesterAddress :: string
  mc_Balance :: int
  mc_TotalDeposited :: int
  mc_TotalSpent :: int
  mc_CreatedAt :: time
  mc_LastInvocation :: time

record MoltCreditManager =
  mcm_credits :: "(string, MoltCredit) gomap"

datatype credit_error = NoCredits | InsufficientCredits

definition NewMoltCreditManager :: MoltCreditManager where
  "NewMoltCreditManager = \<lparr> mcm_credits = fmempty \<rparr>"

definition MoltCreditManager_Deposit ::
    "time \<Rightarrow> string \<Rightarrow> int \<Rightarrow> MoltCreditManager \<Rightarrow> MoltCreditManager" where
  "MoltCreditManager_Deposit now requester amount m =
     (let credit = (case fmlookup (mcm_credits m) requester of
                      Some c \<Rightarrow> c
                    | None \<Rightarrow> \<lparr> mc_RequesterAddress = requester, mc_Balance = 0,
                                mc_TotalDeposited = 0, mc_TotalSpent = 0, mc_CreatedAt = now,
                                mc_LastInvocation = 0 \<rparr>)
      in m\<lparr>mcm_credits := fmupd requester
             (credit\<lparr>mc_Balance := mc_Balance credit + amount,
                     mc_TotalDeposited := mc_TotalDeposited credit + amount\<rparr>) (mcm_credits m)\<rparr>)"

definition MoltCreditManager_Deduct ::
    "time \<Rightarrow> string \<Rightarrow> int \<Rightarrow> MoltCreditManager \<Rightarrow> credit_error option \<times> MoltCreditManager" where
  "MoltCreditManager_Deduct now requester cost m =
     (case fmlookup (mcm_credits m) requester of
        None \<Rightarrow> (Some NoCredits, m)
      | Some credit \<Rightarrow>
          if mc_Balance credit < cost then (Some InsufficientCredits, m)
          else (None, m\<lparr>mcm_credits := fmupd requester
                  (credit\<lparr>mc_Balance := mc_Balance credit - cost,
                          mc_TotalSpent := mc_TotalSpent credit + cost,
                          mc_LastInvocation := now\<rparr>) (mcm_credits m)\<rparr>))"

definition MoltCreditManager_GetBalance :: "string \<Rightarrow> MoltCreditManager \<Rightarrow> int" where
  "MoltCreditManager_GetBalance requester m =
     (case fmlookup (mcm_credits m) requester of None \<Rightarrow> 0 | Some c \<Rightarrow> mc_Balance c)"

definition MoltCreditManager_GetCredit :: "string \<Rightarrow> MoltCreditManager \<Rightarrow> MoltCredit option" where
  "MoltCreditManager_GetCredit requester m = fmlookup (mcm_credits m) requester"

definition MoltCreditManager_RefundAll ::
    "string \<Rightarrow> MoltCreditManager \<Rightarrow> int \<times> MoltCreditManager" where
  "MoltCreditManager_RefundAll requester m =
     (case fmlookup (mcm_credits m) requester of
        None \<Rightarrow> (0, m)
      | Some credit \<Rightarrow> (mc_Balance credit, m\<lparr>mcm_credits := fmdrop requester (mcm_credits m)\<rparr>))"

subsection \<open>The released share is between nothing and everything\<close>

lemma round_big_mono: "0 < p \<Longrightarrow> x \<le> y \<Longrightarrow> round_big p x \<le> round_big p y"
  using big.rnd_mono [of x y "p - 1"] by (simp add: round_big_def)

lemma round_big_zero [simp]: "round_big p 0 = 0"
  by (simp add: round_big_def round_signed_def)

lemma amount_exact:
  assumes "0 \<le> a"
  shows "round_big (amount_prec a) (of_int a) = of_int a"
proof (rule round_big_of_nat)
  show "0 < amount_prec a" by (simp add: amount_prec_def)
  have "a < 2 ^ nat (bitlen a)" using assms bitlen_bounds [of a] by (cases "a = 0") auto
  also have "\<dots> \<le> 2 ^ amount_prec a" using assms by (intro power_increasing) (simp_all add: amount_prec_def)
  finally show "a < 2 ^ amount_prec a" .
qed (use assms in simp)

lemma round_big_one: "round_big 64 1 = 1"
  using round_big_of_nat [of 64 1] by simp

lemma release_bounds:
  assumes "0 \<le> amount" "0 < d" "e \<le> d"
  shows "release_amount amount e d \<le> amount"
    and "0 \<le> e \<Longrightarrow> 0 \<le> release_amount amount e d"
    and "release_amount amount d d = amount"
proof -
  let ?q = "round_big 64 (of_int e / of_int d)"
  have p: "0 < amount_prec amount" by (simp add: amount_prec_def)
  have q1: "?q \<le> 1"
    using assms(2,3) round_big_mono [of 64 "of_int e / of_int d" 1] by (simp add: round_big_one)
  have "of_int amount * ?q \<le> of_int amount"
    using assms(1) q1 by (simp add: mult_left_le)
  then have "round_big (amount_prec amount) (of_int amount * ?q) \<le> of_int amount"
    using round_big_mono [OF p] amount_exact [OF assms(1)] by metis
  then show "release_amount amount e d \<le> amount"
    using assms(1) by (auto simp: release_amount_def float_trunc_def Let_def floor_le_iff ceiling_le_iff)
  show "0 \<le> release_amount amount e d" if "0 \<le> e"
  proof -
    have "0 \<le> ?q" using that assms(2) round_big_mono [of 64 0 "of_int e / of_int d"] by simp
    then have "0 \<le> round_big (amount_prec amount) (of_int amount * ?q)"
      using assms(1) round_big_mono [OF p, of 0 "of_int amount * ?q"] by simp
    then show ?thesis by (simp add: release_amount_def float_trunc_def)
  qed
  show "release_amount amount d d = amount"
    using assms(1,2) by (simp add: release_amount_def round_big_one amount_exact float_trunc_def)
qed

lemma release_mono:
  assumes "0 \<le> amount" "0 < d" "e \<le> e'"
  shows "release_amount amount e d \<le> release_amount amount e' d"
proof -
  have p: "0 < amount_prec amount" by (simp add: amount_prec_def)
  have "(of_int e :: rat) / of_int d \<le> of_int e' / of_int d"
    using assms by (intro divide_right_mono) simp_all
  then have "round_big 64 (of_int e / of_int d) \<le> round_big 64 (of_int e' / of_int d)"
    by (intro round_big_mono) simp_all
  then have "round_big (amount_prec amount) (of_int amount * round_big 64 (of_int e / of_int d)) \<le>
             round_big (amount_prec amount) (of_int amount * round_big 64 (of_int e' / of_int d))"
    using assms(1) by (intro round_big_mono [OF p] mult_left_mono) simp_all
  then show ?thesis
    by (auto simp: release_amount_def float_trunc_def Let_def floor_mono ceiling_mono
        intro: order_trans [of _ 0])
qed

text \<open>Repeated releases on one escrow: the total paid out and the final state.\<close>

fun pay_all :: "string \<Rightarrow> duration list \<Rightarrow> EscrowManager \<Rightarrow> int \<times> EscrowManager" where
  "pay_all rid [] em = (0, em)"
| "pay_all rid (u # us) em =
     (let (res, em') = EscrowManager_ReleasePayment rid u em;
          (rest, em'') = pay_all rid us em'
      in ((case res of Inr x \<Rightarrow> x | Inl _ \<Rightarrow> 0) + rest, em''))"

lemma release_payment_step:
  assumes "fmlookup (em_escrows em) rid = Some e" "es_Duration e \<noteq> 0"
    and "r = max (es_Released e) (release_amount (es_Amount e) (min u (es_Duration e)) (es_Duration e))"
  shows "\<exists>em'. EscrowManager_ReleasePayment rid u em = (Inr (r - es_Released e), em') \<and>
               fmlookup (em_escrows em') rid = Some (e\<lparr>es_Released := r\<rparr>) \<and>
               (\<forall>k. k \<noteq> rid \<longrightarrow> fmlookup (em_escrows em') k = fmlookup (em_escrows em) k)"
proof -
  have m: "(if u > es_Duration e then es_Duration e else u) = min u (es_Duration e)" by simp
  show ?thesis
    using assms unfolding EscrowManager_ReleasePayment_def
    by (cases "release_amount (es_Amount e) (min u (es_Duration e)) (es_Duration e) \<le> es_Released e")
       (simp_all add: m Let_def max_def)
qed

lemma pay_all_total:
  assumes "fmlookup (em_escrows em) rid = Some e" "es_Duration e \<noteq> 0"
  shows "\<exists>em'. pay_all rid us em =
           (fold (\<lambda>u. max (release_amount (es_Amount e) (min u (es_Duration e)) (es_Duration e))) us (es_Released e)
              - es_Released e, em') \<and>
         fmlookup (em_escrows em') rid = Some (e\<lparr>es_Released :=
           fold (\<lambda>u. max (release_amount (es_Amount e) (min u (es_Duration e)) (es_Duration e))) us (es_Released e)\<rparr>)"
  using assms
proof (induction us arbitrary: em e)
  case (Cons u us)
  let ?r = "max (release_amount (es_Amount e) (min u (es_Duration e)) (es_Duration e)) (es_Released e)"
  obtain em' where 1: "EscrowManager_ReleasePayment rid u em = (Inr (?r - es_Released e), em')"
    "fmlookup (em_escrows em') rid = Some (e\<lparr>es_Released := ?r\<rparr>)"
    using release_payment_step [OF Cons.prems(1,2) refl, of u] by (auto simp: max.commute)
  from Cons.IH [OF 1(2)] Cons.prems(2) 1(1) show ?case by auto
qed simp

lemma fold_max_bounds:
  assumes "\<And>u. f u \<le> B" "r \<le> (B::int)"
  shows "r \<le> fold (\<lambda>u. max (f u)) us r" "fold (\<lambda>u. max (f u)) us r \<le> B"
    "u \<in> set us \<Longrightarrow> f u \<le> fold (\<lambda>u. max (f u)) us r"
  using assms(2)
proof (induction us arbitrary: r)
  case (Cons a us)
  { case 1 show ?case using Cons.IH(1) [of "max (f a) r"] 1 assms(1) by fastforce }
  { case 2 show ?case using Cons.IH(2) [of "max (f a) r"] 2 assms(1) by fastforce }
  { case 3 show ?case
      using Cons.IH(1,3) [of "max (f a) r"] 3 assms(1) by fastforce }
qed simp_all

subsection \<open>Credits balance\<close>

definition credit_ok :: "MoltCredit \<Rightarrow> bool" where
  "credit_ok c \<longleftrightarrow> 0 \<le> mc_Balance c \<and> 0 \<le> mc_TotalSpent c \<and>
                  mc_Balance c + mc_TotalSpent c = mc_TotalDeposited c"

definition credits_inv :: "MoltCreditManager \<Rightarrow> bool" where
  "credits_inv m \<longleftrightarrow> (\<forall>k c. fmlookup (mcm_credits m) k = Some c \<longrightarrow> credit_ok c)"

datatype mc_op = MCDeposit time string int | MCDeduct time string int | MCRefund string

fun mc_step :: "mc_op \<Rightarrow> MoltCreditManager \<Rightarrow> MoltCreditManager" where
  "mc_step (MCDeposit t k n) m = MoltCreditManager_Deposit t k n m"
| "mc_step (MCDeduct t k n) m = snd (MoltCreditManager_Deduct t k n m)"
| "mc_step (MCRefund k) m = snd (MoltCreditManager_RefundAll k m)"

fun mc_op_ok :: "mc_op \<Rightarrow> bool" where
  "mc_op_ok (MCDeposit t k n) \<longleftrightarrow> 0 \<le> n"
| "mc_op_ok (MCDeduct t k n) \<longleftrightarrow> 0 \<le> n"
| "mc_op_ok (MCRefund k) \<longleftrightarrow> True"

interpretation credit_runs: guarded_machine mc_step "\<lambda>op _. mc_op_ok op" credits_inv
proof
  fix op s
  assume "credits_inv s" "mc_op_ok op"
  then show "credits_inv (mc_step op s)"
    by (cases op)
       (auto simp: credits_inv_def credit_ok_def MoltCreditManager_Deposit_def
          MoltCreditManager_Deduct_def MoltCreditManager_RefundAll_def Let_def split: option.splits)
qed

subsection \<open>Properties\<close>

text \<open>C29. However often and with whatever uptimes payment is requested, an escrow with a
  non-negative amount and a positive duration never pays out a negative sum nor more than
  its amount in total, what it has paid is what it records as released, and once an uptime
  reaches the full duration the whole amount has been paid.\<close>

theorem escrow_never_overpays:
  assumes "0 \<le> amount" "0 < d"
    and "EscrowManager_CreateEscrow now rid amount d em = (e, em')"
    and "pay_all rid us em' = (paid, em'')"
  shows "0 \<le> paid \<and> paid \<le> amount \<and>
         map_option es_Released (EscrowManager_GetEscrow rid em'') = Some paid \<and>
         ((\<exists>u \<in> set us. d \<le> u) \<longrightarrow> paid = amount)"
proof -
  let ?f = "\<lambda>u. release_amount amount (min u d) d"
  have e: "fmlookup (em_escrows em') rid = Some e" "es_Amount e = amount" "es_Duration e = d" "es_Released e = 0"
    using assms(3) by (auto simp: EscrowManager_CreateEscrow_def Let_def)
  from pay_all_total [OF e(1), of us] assms(2,4) e
  have p: "paid = fold (\<lambda>u. max (?f u)) us 0" "fmlookup (em_escrows em'') rid = Some (e\<lparr>es_Released := paid\<rparr>)"
    by auto
  have le: "?f u \<le> amount" for u using release_bounds(1) [OF assms(1,2)] by simp
  note b = fold_max_bounds [of ?f amount 0, OF le assms(1), where us = us]
  have "paid = amount" if "u \<in> set us" "d \<le> u" for u
  proof (rule antisym)
    show "paid \<le> amount" using b(2) p(1) by simp
    have "?f u = amount" using that(2) release_bounds(3) [OF assms(1,2) order_refl] by simp
    then show "amount \<le> paid" using b(3) [OF that(1)] p(1) by simp
  qed
  then show ?thesis using b(1,2) p by (auto simp: EscrowManager_GetEscrow_def)
qed

theorem escrow_never_overpays_witness:
  "0 \<le> fst (pay_all ''r'' [1, 2, 9] (snd (EscrowManager_CreateEscrow 0 ''r'' 10 7 NewEscrowManager))) \<and>
   fst (pay_all ''r'' [1, 2, 9] (snd (EscrowManager_CreateEscrow 0 ''r'' 10 7 NewEscrowManager))) = 10"
  using escrow_never_overpays [of 10 7 0 "''r''" NewEscrowManager
      "fst (EscrowManager_CreateEscrow 0 ''r'' 10 7 NewEscrowManager)"
      "snd (EscrowManager_CreateEscrow 0 ''r'' 10 7 NewEscrowManager)" "[1, 2, 9]"
      "fst (pay_all ''r'' [1, 2, 9] (snd (EscrowManager_CreateEscrow 0 ''r'' 10 7 NewEscrowManager)))"
      "snd (pay_all ''r'' [1, 2, 9] (snd (EscrowManager_CreateEscrow 0 ''r'' 10 7 NewEscrowManager)))"]
  by simp

text \<open>Through any sequence of deposits, deductions and refunds of non-negative amounts,
  every credit account keeps a non-negative balance equal to its deposits minus its
  spending.\<close>

theorem credits_balance:
  assumes "list_all mc_op_ok ops"
    and "MoltCreditManager_GetCredit k (fold mc_step ops NewMoltCreditManager) = Some c"
  shows "0 \<le> mc_Balance c \<and> mc_Balance c = mc_TotalDeposited c - mc_TotalSpent c"
proof -
  have "credits_inv (fold mc_step ops NewMoltCreditManager)"
    using assms(1) by (intro credit_runs.run_inv) (simp_all add: credits_inv_def NewMoltCreditManager_def)
  then have "credit_ok c" using assms(2) by (simp add: credits_inv_def MoltCreditManager_GetCredit_def)
  then show ?thesis by (auto simp: credit_ok_def)
qed

theorem credits_balance_witness:
  "mc_Balance (the (MoltCreditManager_GetCredit ''a'' (fold mc_step
     [MCDeposit 1 ''a'' 50, MCDeduct 2 ''a'' 20, MCDeduct 3 ''a'' 40] NewMoltCreditManager))) = 30"
  using credits_balance [of "[MCDeposit 1 ''a'' 50, MCDeduct 2 ''a'' 20, MCDeduct 3 ''a'' 40]" "''a''"
      "the (MoltCreditManager_GetCredit ''a'' (fold mc_step
     [MCDeposit 1 ''a'' 50, MCDeduct 2 ''a'' 20, MCDeduct 3 ''a'' 40] NewMoltCreditManager))"]
  by (simp add: MoltCreditManager_GetCredit_def MoltCreditManager_Deposit_def
      MoltCreditManager_Deduct_def NewMoltCreditManager_def)

end
