(* ===== verification/Billing.thy ===== *)
theory Billing
  imports Staking
begin

text \<open>
  Prices and usage metering: \<^verbatim>\<open>src/internal/payment/pricing.go\<close> and
  \<^verbatim>\<open>service_metering.go\<close>.  \<^verbatim>\<open>big.Int.Div\<close> by a positive divisor is the integer division
  of HOL; \<^verbatim>\<open>int64\<close> sums are wrapped at 64 bits where the source computes them at that
  width; the hours of a duration go through \<^verbatim>\<open>float64\<close>.
\<close>

subsection \<open>Resource prices\<close>

record ResourceLimits =
  rl_CPUQuota :: int
  rl_CPUPeriod :: int
  rl_MemoryLimit :: int
  rl_DiskLimit :: int
  rl_NetworkBW :: int
  rl_PIDLimit :: int

record PricingCalculator =
  pc_basePricePerHour :: int

definition NewPricingCalculator :: "int \<Rightarrow> PricingCalculator" where
  "NewPricingCalculator basePricePerHour = \<lparr> pc_basePricePerHour = basePricePerHour \<rparr>"

text \<open>\<^verbatim>\<open>time.Duration.Hours\<close> and the conversion \<^verbatim>\<open>int64(f)\<close> of the language, which truncates.\<close>

definition duration_Hours :: "duration \<Rightarrow> rat" where
  "duration_Hours d =
     (let hour = tdiv d Hour; nsec = d - hour * Hour
      in round64 (round64 (of_int hour) + round64 (round64 (of_int nsec) / 3600000000000)))"

definition float_to_int64 :: "rat \<Rightarrow> int" where
  "float_to_int64 x = (if x \<ge> 0 then \<lfloor>x\<rfloor> else \<lceil>x\<rceil>)"

definition hourly_price :: "ResourceLimits \<Rightarrow> int" where
  "hourly_price resources =
     rl_CPUQuota resources * 1000 +
     rl_MemoryLimit resources div (1024 * 1024 * 1024) +
     rl_DiskLimit resources div (1024 * 1024 * 1024) +
     rl_NetworkBW resources div (1024 * 1024)"

text \<open>The calculator's base price is stored but no price depends on it, so the methods below
  take only their arguments.\<close>

definition PricingCalculator_CalculatePrice :: "ResourceLimits \<Rightarrow> duration \<Rightarrow> int" where
  "PricingCalculator_CalculatePrice resources d =
     hourly_price resources * float_to_int64 (duration_Hours d)"

record PricingConfig =
  pcfg_CPUPerCoreHour :: string
  pcfg_MemoryPerGBHour :: string
  pcfg_StoragePerGBMonth :: string
  pcfg_NetworkPerGB :: string
  pcfg_GPUBasicPerHour :: string
  pcfg_GPUPremiumPerHour :: string
  pcfg_RedundancyMultiplier :: rat
  pcfg_TorMultiplier :: rat
  pcfg_PremiumSLAMultiplier :: rat
  pcfg_SpotMultiplier :: rat
  pcfg_MinimumServiceHours :: int
  pcfg_MinimumJobMinutes :: int
  pcfg_MinimumFunctionMillis :: int

definition DefaultPricingConfig :: PricingConfig where
  "DefaultPricingConfig = \<lparr> pcfg_CPUPerCoreHour = ''500000000000000000'',
                            pcfg_MemoryPerGBHour = ''100000000000000000'',
                            pcfg_StoragePerGBMonth = ''50000000000000000'',
                            pcfg_NetworkPerGB = ''20000000000000000'',
                            pcfg_GPUBasicPerHour = ''5000000000000000000'',
                            pcfg_GPUPremiumPerHour = ''15000000000000000000'',
                            pcfg_RedundancyMultiplier = 3,
                            pcfg_TorMultiplier = round64 (12 / 10),
                            pcfg_PremiumSLAMultiplier = 15 / 10,
                            pcfg_SpotMultiplier = 5 / 10,
                            pcfg_MinimumServiceHours = 1,
                            pcfg_MinimumJobMinutes = 1,
                            pcfg_MinimumFunctionMillis = 100 \<rparr>"

definition defaultRate :: "string \<Rightarrow> int" where
  "defaultRate resource =
     (if resource = ''cpu'' then the (SetString10 ''500000000000000000'')
      else if resource = ''memory'' then the (SetString10 ''100000000000000000'')
      else 0)"

definition parsePricingRate :: "PricingConfig option \<Rightarrow> string \<Rightarrow> int" where
  "parsePricingRate cfg resource =
     (case cfg of
        None \<Rightarrow> defaultRate resource
      | Some c \<Rightarrow>
          let parse = (\<lambda>s. case SetString10 s of
                         None \<Rightarrow> defaultRate resource
                       | Some rate \<Rightarrow> if rate \<le> 0 then defaultRate resource else rate)
          in if resource = ''cpu'' then parse (pcfg_CPUPerCoreHour c)
             else if resource = ''memory'' then parse (pcfg_MemoryPerGBHour c)
             else 0)"

definition PricingCalculator_CalculateMoltInvocationPrice ::
    "duration \<Rightarrow> int \<Rightarrow> PricingConfig option \<Rightarrow> int" where
  "PricingCalculator_CalculateMoltInvocationPrice d memoryUsedBytes cfg =
     (let minimumMs = (case cfg of
                         Some c \<Rightarrow> if pcfg_MinimumFunctionMillis c > 0
                                   then pcfg_MinimumFunctionMillis c else 100
                       | None \<Rightarrow> 100);
          billedMs = (if tdiv d Millisecond < minimumMs then minimumMs else tdiv d Millisecond);
          cpuCost = parsePricingRate cfg ''cpu'' * billedMs div 3600000;
          memMB = tdiv (wrap64 (memoryUsedBytes + 1024 * 1024 - 1)) (1024 * 1024);
          memMB = (if memMB < 1 then 1 else memMB);
          memCost = parsePricingRate cfg ''memory'' * memMB * billedMs div 3600000;
          total = cpuCost + memCost
      in if total \<le> 0 then 1 else total)"

text \<open>\<open>None\<close> is the division by zero when the stake is minus one token.\<close>

definition PricingCalculator_CalculateBid :: "ResourceLimits \<Rightarrow> duration \<Rightarrow> int \<Rightarrow> int option" where
  "PricingCalculator_CalculateBid resources d stake =
     (let basePrice = PricingCalculator_CalculatePrice resources d;
          normalizer = 10 ^ 18;
          denominator = normalizer + stake
      in if denominator = 0 then None
         else
           let adjustedPrice = (if denominator > 0 then basePrice * normalizer div denominator
                                else - (basePrice * normalizer div (- denominator)))
           in Some (if adjustedPrice \<le> 0 \<and> basePrice > 0 then 1 else adjustedPrice))"

subsection \<open>Service metering\<close>

record ServicePricing =
  sp_StoragePerGBMonth :: int
  sp_ProxyPerGB :: int
  sp_CrawlPerPage :: int
  sp_CrawlPerMBResult :: int
  sp_AgentPerInvocation :: int
  sp_AgentPer1KTokens :: int

definition mustParseWei :: "string \<Rightarrow> int option" where
  "mustParseWei s = SetString10 s"

definition DefaultServicePricing :: ServicePricing where
  "DefaultServicePricing =
     \<lparr> sp_StoragePerGBMonth = the (mustParseWei ''50000000000000000''),
       sp_ProxyPerGB = the (mustParseWei ''20000000000000000''),
       sp_CrawlPerPage = the (mustParseWei ''1000000000000000''),
       sp_CrawlPerMBResult = the (mustParseWei ''5000000000000000''),
       sp_AgentPerInvocation = the (mustParseWei ''10000000000000000''),
       sp_AgentPer1KTokens = the (mustParseWei ''100000000000000000'') \<rparr>"

record WalletServiceUsage =
  wu_Wallet :: string
  wu_StorageBytes :: int
  wu_StorageOps :: int
  wu_ProxyBytesIn :: int
  wu_ProxyBytesOut :: int
  wu_ProxySessions :: int
  wu_CrawlPages :: int
  wu_CrawlResultBytes :: int
  wu_CrawlJobs :: int
  wu_AgentInvocations :: int
  wu_AgentTokensUsed :: int
  wu_TotalCharged :: int
  wu_LastActivity :: time

record ServiceMeter =
  svm_records :: "(string, WalletServiceUsage) gomap"
  svm_pricing :: ServicePricing

definition NewServiceMeter :: "ServicePricing \<Rightarrow> ServiceMeter" where
  "NewServiceMeter pricing = \<lparr> svm_records = fmempty, svm_pricing = pricing \<rparr>"

definition ServiceMeter_getOrCreate :: "string \<Rightarrow> ServiceMeter \<Rightarrow> WalletServiceUsage" where
  "ServiceMeter_getOrCreate wallet m =
     (case fmlookup (svm_records m) wallet of
        Some r \<Rightarrow> r
      | None \<Rightarrow> \<lparr> wu_Wallet = wallet, wu_StorageBytes = 0, wu_StorageOps = 0, wu_ProxyBytesIn = 0,
                  wu_ProxyBytesOut = 0, wu_ProxySessions = 0, wu_CrawlPages = 0,
                  wu_CrawlResultBytes = 0, wu_CrawlJobs = 0, wu_AgentInvocations = 0,
                  wu_AgentTokensUsed = 0, wu_TotalCharged = 0, wu_LastActivity = 0 \<rparr>)"

definition meter_put :: "string \<Rightarrow> WalletServiceUsage \<Rightarrow> ServiceMeter \<Rightarrow> ServiceMeter" where
  "meter_put wallet r m = m\<lparr>svm_records := fmupd wallet r (svm_records m)\<rparr>"

definition ServiceMeter_RecordStorageUpload ::
    "time \<Rightarrow> string \<Rightarrow> int \<Rightarrow> ServiceMeter \<Rightarrow> ServiceMeter" where
  "ServiceMeter_RecordStorageUpload now wallet sizeBytes m =
     (let r = ServiceMeter_getOrCreate wallet m
      in meter_put wallet
           (r\<lparr>wu_StorageBytes := wrap64 (wu_StorageBytes r + sizeBytes),
              wu_StorageOps := wrap64 (wu_StorageOps r + 1), wu_LastActivity := now\<rparr>) m)"

definition ServiceMeter_RecordStorageDelete ::
    "time \<Rightarrow> string \<Rightarrow> int \<Rightarrow> ServiceMeter \<Rightarrow> ServiceMeter" where
  "ServiceMeter_RecordStorageDelete now wallet sizeBytes m =
     (let r = ServiceMeter_getOrCreate wallet m;
          bytes = wrap64 (wu_StorageBytes r - sizeBytes)
      in meter_put wallet
           (r\<lparr>wu_StorageBytes := (if bytes < 0 then 0 else bytes),
              wu_StorageOps := wrap64 (wu_StorageOps r + 1), wu_LastActivity := now\<rparr>) m)"

definition ServiceMeter_RecordProxySession ::
    "time \<Rightarrow> string \<Rightarrow> int \<Rightarrow> int \<Rightarrow> ServiceMeter \<Rightarrow> ServiceMeter" where
  "ServiceMeter_RecordProxySession now wallet bytesIn bytesOut m =
     (let r = ServiceMeter_getOrCreate wallet m
      in meter_put wallet
           (r\<lparr>wu_ProxyBytesIn := wrap64 (wu_ProxyBytesIn r + bytesIn),
              wu_ProxyBytesOut := wrap64 (wu_ProxyBytesOut r + bytesOut),
              wu_ProxySessions := wrap64 (wu_ProxySessions r + 1), wu_LastActivity := now\<rparr>) m)"

definition ServiceMeter_RecordCrawlJob ::
    "time \<Rightarrow> string \<Rightarrow> int \<Rightarrow> int \<Rightarrow> ServiceMeter \<Rightarrow> ServiceMeter" where
  "ServiceMeter_RecordCrawlJob now wallet pagesCrawled resultBytes m =
     (let r = ServiceMeter_getOrCreate wallet m
      in meter_put wallet
           (r\<lparr>wu_CrawlPages := wrap64 (wu_CrawlPages r + pagesCrawled),
              wu_CrawlResultBytes := wrap64 (wu_CrawlResultBytes r + resultBytes),
              wu_CrawlJobs := wrap64 (wu_CrawlJobs r + 1), wu_LastActivity := now\<rparr>) m)"

definition ServiceMeter_RecordAgentInvocation ::
    "time \<Rightarrow> string \<Rightarrow> int \<Rightarrow> ServiceMeter \<Rightarrow> ServiceMeter" where
  "ServiceMeter_RecordAgentInvocation now wallet tokensUsed m =
     (let r = ServiceMeter_getOrCreate wallet m
      in meter_put wallet
           (r\<lparr>wu_AgentInvocations := wrap64 (wu_AgentInvocations r + 1),
              wu_AgentTokensUsed := wrap64 (wu_AgentTokensUsed r + tokensUsed),
              wu_LastActivity := now\<rparr>) m)"

definition ServiceMeter_RecordCharge :: "string \<Rightarrow> int \<Rightarrow> ServiceMeter \<Rightarrow> ServiceMeter" where
  "ServiceMeter_RecordCharge wallet amount m =
     (let r = ServiceMeter_getOrCreate wallet m
      in meter_put wallet (r\<lparr>wu_TotalCharged := wu_TotalCharged r + amount\<rparr>) m)"

definition ServiceMeter_CalculateProxyCost :: "int \<Rightarrow> int \<Rightarrow> ServiceMeter \<Rightarrow> int" where
  "ServiceMeter_CalculateProxyCost bytesIn bytesOut m =
     (let totalBytes = wrap64 (bytesIn + bytesOut) in
      if totalBytes \<le> 0 then 0
      else
        let cost = sp_ProxyPerGB (svm_pricing m) * totalBytes div (1024 * 1024 * 1024)
        in if cost \<le> 0 then 1 else cost)"

definition ServiceMeter_CalculateCrawlCost :: "int \<Rightarrow> int \<Rightarrow> ServiceMeter \<Rightarrow> int" where
  "ServiceMeter_CalculateCrawlCost pagesCrawled resultBytes m =
     (let pageCost = sp_CrawlPerPage (svm_pricing m) * pagesCrawled;
          resultMB = tdiv (wrap64 (resultBytes + 1024 * 1024 - 1)) (1024 * 1024);
          resultMB = (if resultMB < 1 \<and> resultBytes > 0 then 1 else resultMB);
          total = pageCost + sp_CrawlPerMBResult (svm_pricing m) * resultMB
      in if total \<le> 0 \<and> pagesCrawled > 0 then 1 else total)"

definition ServiceMeter_CalculateAgentCost :: "int \<Rightarrow> ServiceMeter \<Rightarrow> int" where
  "ServiceMeter_CalculateAgentCost tokensUsed m =
     (let cost = sp_AgentPerInvocation (svm_pricing m) in
      if tokensUsed > 0
      then cost + sp_AgentPer1KTokens (svm_pricing m) * tdiv (wrap64 (tokensUsed + 999)) 1000
      else cost)"

definition ServiceMeter_CalculateStorageBill :: "string \<Rightarrow> ServiceMeter \<Rightarrow> int" where
  "ServiceMeter_CalculateStorageBill wallet m =
     (case fmlookup (svm_records m) wallet of
        None \<Rightarrow> 0
      | Some r \<Rightarrow>
          if wu_StorageBytes r \<le> 0 then 0
          else
            let divisor = 1024 * 1024 * 1024;
                cost = sp_StoragePerGBMonth (svm_pricing m) * wu_StorageBytes r
            in (cost + (divisor - 1)) div divisor)"

definition ServiceMeter_GetUsage :: "string \<Rightarrow> ServiceMeter \<Rightarrow> WalletServiceUsage option" where
  "ServiceMeter_GetUsage wallet m = fmlookup (svm_records m) wallet"

definition ServiceMeter_ActiveWallets :: "ServiceMeter \<Rightarrow> nat" where
  "ServiceMeter_ActiveWallets m = mlen (svm_records m)"

subsection \<open>Hours and bids\<close>

lemma duration_Hours_bounds:
  assumes "0 \<le> d" "d \<le> int64_max"
  shows "of_int (d div Hour) \<le> duration_Hours d" and "duration_Hours d \<le> of_int (d div Hour + 1)"
proof -
  let ?h = "d div Hour" and ?n = "d mod Hour"
  have h: "0 \<le> ?h" "?h + 1 < 2 ^ 53" using assms by auto
  have n: "0 \<le> ?n" "?n < Hour" by auto
  have "d - ?h * Hour = ?n" by (simp add: minus_div_mult_eq_mod)
  then have eq: "duration_Hours d = round64 (of_int ?h + round64 (of_int ?n / 3600000000000))"
    using assms(1) h n by (simp add: duration_Hours_def Let_def round64_of_int del: of_int_diff)
  let ?q = "(of_int ?n / 3600000000000) :: rat"
  have q: "0 \<le> ?q" "?q \<le> 1" using n by (simp_all add: divide_le_eq)
  have q': "0 \<le> round64 ?q" "round64 ?q \<le> 1"
    using f64.rnd_ge_representable [of 0 ?q] f64.rnd_le_representable [of ?q 1]
      round64_of_int [of 0] round64_of_int [of 1] q by (simp_all add: round64_def)
  show "of_int ?h \<le> duration_Hours d"
    unfolding eq using f64.rnd_ge_representable [of "of_int ?h"] round64_of_int [of ?h] h q'
    by (simp add: round64_def)
  show "duration_Hours d \<le> of_int (?h + 1)"
    unfolding eq using f64.rnd_le_representable [of _ "of_int (?h + 1)"] round64_of_int [of "?h + 1"] h q'
    by (simp add: round64_def)
qed

lemma billed_hours:
  assumes "0 \<le> d" "d \<le> int64_max"
  shows "float_to_int64 (duration_Hours d) \<in> {d div Hour, d div Hour + 1}"
proof -
  let ?x = "duration_Hours d"
  have "0 \<le> (of_int (d div Hour) :: rat)" using assms by simp
  then have "0 \<le> ?x" using duration_Hours_bounds(1) [OF assms] by linarith
  moreover have "d div Hour \<le> \<lfloor>?x\<rfloor>" using duration_Hours_bounds(1) [OF assms] by (simp add: le_floor_iff)
  moreover have "\<lfloor>?x\<rfloor> \<le> d div Hour + 1" using duration_Hours_bounds(2) [OF assms] by linarith
  ultimately show ?thesis by (auto simp: float_to_int64_def)
qed

lemma bid_eq:
  assumes "0 \<le> stake" "0 \<le> PricingCalculator_CalculatePrice r d"
  shows "PricingCalculator_CalculateBid r d stake =
    Some (let b = PricingCalculator_CalculatePrice r d; q = b * 10 ^ 18 div (10 ^ 18 + stake)
          in if q = 0 \<and> b > 0 then 1 else q)"
proof -
  have "0 \<le> PricingCalculator_CalculatePrice r d * 10 ^ 18 div (10 ^ 18 + stake)"
    using assms by (simp add: pos_imp_zdiv_nonneg_iff)
  then show ?thesis using assms(1) by (auto simp: PricingCalculator_CalculateBid_def Let_def)
qed

subsection \<open>Stored bytes\<close>

datatype svm_op =
    SVUpload time string int | SVDelete time string int | SVProxy time string int int
  | SVCrawl time string int int | SVAgent time string int | SVCharge string int

fun svm_step :: "svm_op \<Rightarrow> ServiceMeter \<Rightarrow> ServiceMeter" where
  "svm_step (SVUpload now w n) m = ServiceMeter_RecordStorageUpload now w n m"
| "svm_step (SVDelete now w n) m = ServiceMeter_RecordStorageDelete now w n m"
| "svm_step (SVProxy now w i out) m = ServiceMeter_RecordProxySession now w i out m"
| "svm_step (SVCrawl now w p r) m = ServiceMeter_RecordCrawlJob now w p r m"
| "svm_step (SVAgent now w t) m = ServiceMeter_RecordAgentInvocation now w t m"
| "svm_step (SVCharge w a) m = ServiceMeter_RecordCharge w a m"

text \<open>The specification: one wallet's stored bytes as an unbounded number.\<close>

fun stored_step :: "string \<Rightarrow> svm_op \<Rightarrow> int \<Rightarrow> int" where
  "stored_step w (SVUpload now w' n) b = (if w' = w then b + n else b)"
| "stored_step w (SVDelete now w' n) b = (if w' = w then max 0 (b - n) else b)"
| "stored_step w _ b = b"

fun uploaded :: "string \<Rightarrow> svm_op list \<Rightarrow> int" where
  "uploaded w [] = 0"
| "uploaded w (SVUpload now w' n # ops) = (if w' = w then n else 0) + uploaded w ops"
| "uploaded w (_ # ops) = uploaded w ops"

fun storage_op_ok :: "svm_op \<Rightarrow> bool" where
  "storage_op_ok (SVUpload now w n) \<longleftrightarrow> 0 \<le> n"
| "storage_op_ok (SVDelete now w n) \<longleftrightarrow> 0 \<le> n \<and> n \<le> int64_max"
| "storage_op_ok _ \<longleftrightarrow> True"

definition meter_bytes :: "string \<Rightarrow> ServiceMeter \<Rightarrow> int" where
  "meter_bytes w m = wu_StorageBytes (ServiceMeter_getOrCreate w m)"

lemma getOrCreate_put:
  "ServiceMeter_getOrCreate w (meter_put w' r m) =
     (if w = w' then r else ServiceMeter_getOrCreate w m)"
  by (simp add: ServiceMeter_getOrCreate_def meter_put_def)

lemmas meter_ops = ServiceMeter_RecordStorageUpload_def ServiceMeter_RecordStorageDelete_def
  ServiceMeter_RecordProxySession_def ServiceMeter_RecordCrawlJob_def
  ServiceMeter_RecordAgentInvocation_def ServiceMeter_RecordCharge_def Let_def

lemma uploaded_nonneg: "list_all storage_op_ok ops \<Longrightarrow> 0 \<le> uploaded w ops"
  by (induction w ops rule: uploaded.induct) auto

lemma meter_bytes_step:
  assumes "storage_op_ok op" "0 \<le> meter_bytes w m" "meter_bytes w m + uploaded w [op] \<le> int64_max"
  shows "meter_bytes w (svm_step op m) = stored_step w op (meter_bytes w m)"
  using assms by (cases op) (auto simp: meter_bytes_def meter_ops getOrCreate_put split: if_splits)

lemma stored_step_bounds:
  assumes "storage_op_ok op" "0 \<le> b"
  shows "0 \<le> stored_step w op b" "stored_step w op b \<le> b + uploaded w [op]"
  using assms by (cases op; auto)+

lemma uploaded_Cons: "uploaded w (op # ops) = uploaded w [op] + uploaded w ops"
  by (cases op) auto

lemma meter_bytes_run:
  assumes "list_all storage_op_ok ops" "0 \<le> meter_bytes w m"
    and "meter_bytes w m + uploaded w ops \<le> int64_max"
  shows "meter_bytes w (fold svm_step ops m) = fold (stored_step w) ops (meter_bytes w m)"
  using assms
proof (induction ops arbitrary: m)
  case (Cons op ops)
  have ok: "storage_op_ok op" "list_all storage_op_ok ops" using Cons.prems(1) by auto
  have u: "meter_bytes w m + uploaded w [op] + uploaded w ops \<le> int64_max"
    using Cons.prems(3) by (simp add: uploaded_Cons [of w op ops])
  note st = meter_bytes_step [OF ok(1) Cons.prems(2)]
  have 1: "meter_bytes w (svm_step op m) = stored_step w op (meter_bytes w m)"
    using u uploaded_nonneg [OF ok(2), of w] by (intro st) linarith
  show ?case
    using Cons.IH [OF ok(2), of "svm_step op m"] 1 u stored_step_bounds [OF ok(1) Cons.prems(2), of w]
    by simp
qed simp

lemma ceiling_div: "0 < b \<Longrightarrow> (a + (b - 1)) div b = \<lceil>(of_int a :: rat) / of_int b\<rceil>"
proof (rule ceiling_unique [symmetric])
  assume b: "0 < b"
  let ?q = "(a + (b - 1)) div b"
  have "?q * b + (a + (b - 1)) mod b = a + (b - 1)" by (rule div_mult_mod_eq)
  moreover have "0 \<le> (a + (b - 1)) mod b" "(a + (b - 1)) mod b < b" using b by simp_all
  moreover have "(?q - 1) * b = ?q * b - b" by (simp add: left_diff_distrib)
  ultimately have "a \<le> ?q * b" "(?q - 1) * b < a" by linarith+
  then have "(of_int a :: rat) \<le> of_int (?q * b)" "(of_int ((?q - 1) * b) :: rat) < of_int a"
    by (simp_all only: of_int_le_iff of_int_less_iff)
  then show "of_int a / of_int b \<le> (of_int ?q :: rat)" "of_int ?q - 1 < (of_int a :: rat) / of_int b"
    using b by (simp_all add: pos_divide_le_eq pos_less_divide_eq)
qed

lemma storage_bill_eq:
  assumes "0 \<le> meter_bytes w m"
  shows "ServiceMeter_CalculateStorageBill w m =
         \<lceil>(of_int (sp_StoragePerGBMonth (svm_pricing m) * meter_bytes w m) :: rat) / 1073741824\<rceil>"
  using assms ceiling_div [of 1073741824]
  by (auto simp: ServiceMeter_CalculateStorageBill_def meter_bytes_def ServiceMeter_getOrCreate_def
      Let_def split: option.splits)

lemma svm_pricing_step: "svm_pricing (svm_step op m) = svm_pricing m"
  by (cases op) (simp_all add: meter_ops meter_put_def)

lemma svm_pricing_run: "svm_pricing (fold svm_step ops m) = svm_pricing m"
  by (induction ops arbitrary: m) (simp_all add: svm_pricing_step)

subsection \<open>Properties\<close>

text \<open>For every non-negative duration the price charges the whole hours it contains, or
  one hour more (when the \<^verbatim>\<open>float64\<close> sum rounds up to the next hour): it is never below the
  hourly price times the whole hours.\<close>

theorem price_bills_whole_hours:
  assumes "0 \<le> d" "d \<le> int64_max" "0 \<le> hourly_price r"
  shows "hourly_price r * (d div Hour) \<le> PricingCalculator_CalculatePrice r d \<and>
         PricingCalculator_CalculatePrice r d \<le> hourly_price r * (d div Hour + 1)"
  using billed_hours [OF assms(1,2)] assms(3)
  by (auto simp: PricingCalculator_CalculatePrice_def intro!: mult_left_mono)

theorem price_bills_whole_hours_witness:
  "7001 * (5400000000000 div Hour) \<le> PricingCalculator_CalculatePrice
     \<lparr>rl_CPUQuota = 7, rl_CPUPeriod = 0, rl_MemoryLimit = 2 ^ 30, rl_DiskLimit = 0,
      rl_NetworkBW = 0, rl_PIDLimit = 0\<rparr> 5400000000000"
  using price_bills_whole_hours [of 5400000000000
      "\<lparr>rl_CPUQuota = 7, rl_CPUPeriod = 0, rl_MemoryLimit = 2 ^ 30, rl_DiskLimit = 0,
        rl_NetworkBW = 0, rl_PIDLimit = 0\<rparr>"]
  by (simp add: hourly_price_def)

text \<open>A bid for a positive base price is between one and the base price, and a provider
  with more stake never bids higher.\<close>

theorem bid_discount:
  assumes "0 \<le> s" "s \<le> s'" "0 < PricingCalculator_CalculatePrice r d"
  shows "\<exists>bid bid'. PricingCalculator_CalculateBid r d s = Some bid \<and>
           PricingCalculator_CalculateBid r d s' = Some bid' \<and>
           1 \<le> bid' \<and> bid' \<le> bid \<and> bid \<le> PricingCalculator_CalculatePrice r d"
proof -
  let ?b = "PricingCalculator_CalculatePrice r d"
  let ?q = "\<lambda>s. ?b * 10 ^ 18 div (10 ^ 18 + s)"
  have "?q s' \<le> ?q s" using assms by (intro zdiv_mono2) auto
  moreover have "?q s \<le> ?q 0" using assms by (intro zdiv_mono2) auto
  moreover have "0 \<le> ?q s'" using assms by (simp add: pos_imp_zdiv_nonneg_iff)
  ultimately show ?thesis using assms by (auto simp: bid_eq Let_def)
qed

theorem bid_discount_witness:
  "\<exists>bid bid'. PricingCalculator_CalculateBid
       \<lparr>rl_CPUQuota = 7, rl_CPUPeriod = 0, rl_MemoryLimit = 0, rl_DiskLimit = 0,
        rl_NetworkBW = 0, rl_PIDLimit = 0\<rparr> 7200000000000 0 = Some bid \<and>
     PricingCalculator_CalculateBid
       \<lparr>rl_CPUQuota = 7, rl_CPUPeriod = 0, rl_MemoryLimit = 0, rl_DiskLimit = 0,
        rl_NetworkBW = 0, rl_PIDLimit = 0\<rparr> 7200000000000 (10 ^ 18) = Some bid' \<and> bid' \<le> bid"
proof -
  let ?r = "\<lparr>rl_CPUQuota = 7, rl_CPUPeriod = 0, rl_MemoryLimit = 0, rl_DiskLimit = 0,
             rl_NetworkBW = 0, rl_PIDLimit = 0\<rparr>"
  have "0 < PricingCalculator_CalculatePrice ?r 7200000000000" by code_simp
  from bid_discount [OF _ _ this, of 0 "10 ^ 18"] show ?thesis by auto
qed

text \<open>The memory of a function invocation is billed per megabyte at the rate the
  configuration gives per gigabyte: one gigabyte for one hour costs 1024 times the
  configured price of a gigabyte-hour on top of the core-hour.\<close>

theorem invocation_memory_overcharged:
  "PricingCalculator_CalculateMoltInvocationPrice Hour (1024 * 1024 * 1024) (Some DefaultPricingConfig)
     = parsePricingRate (Some DefaultPricingConfig) ''cpu''
       + 1024 * parsePricingRate (Some DefaultPricingConfig) ''memory''"
  by (simp add: PricingCalculator_CalculateMoltInvocationPrice_def DefaultPricingConfig_def
      parsePricingRate_def SetString10_def)

text \<open>As long as a wallet's uploads fit in 63 bits, the meter's stored bytes are the
  exact balance of uploads and deletions (floored at zero) whatever else is recorded, and
  the monthly bill is the price of that balance rounded up to the next wei.\<close>

theorem storage_bill_refines:
  assumes "list_all storage_op_ok ops" "uploaded w ops \<le> int64_max"
  shows "ServiceMeter_CalculateStorageBill w (fold svm_step ops (NewServiceMeter p)) =
         \<lceil>(of_int (sp_StoragePerGBMonth p * fold (stored_step w) ops 0) :: rat) / 1073741824\<rceil>"
proof -
  let ?m = "NewServiceMeter p"
  have m0: "meter_bytes w ?m = 0"
    by (simp add: meter_bytes_def ServiceMeter_getOrCreate_def NewServiceMeter_def)
  have b: "meter_bytes w (fold svm_step ops ?m) = fold (stored_step w) ops 0"
    using meter_bytes_run [OF assms(1), of w ?m] assms(2) m0 by simp
  have "0 \<le> fold (stored_step w) ops c" if "0 \<le> c" for c
    using assms(1) that by (induction ops arbitrary: c) (auto simp: stored_step_bounds)
  then show ?thesis
    using storage_bill_eq [of w "fold svm_step ops ?m"] b
    by (simp add: svm_pricing_run NewServiceMeter_def)
qed

theorem storage_bill_refines_witness:
  "ServiceMeter_CalculateStorageBill ''w'' (fold svm_step
     [SVUpload 1 ''w'' 5000, SVProxy 2 ''w'' 7 7, SVDelete 3 ''w'' 2000] (NewServiceMeter DefaultServicePricing))
   = \<lceil>(150000000000000000000 :: rat) / 1073741824\<rceil>"
  using storage_bill_refines [of "[SVUpload 1 ''w'' 5000, SVProxy 2 ''w'' 7 7, SVDelete 3 ''w'' 2000]"
      "''w''" DefaultServicePricing]
  by (simp add: DefaultServicePricing_def mustParseWei_def SetString10_def)

end
