(* ===== verification/Evm_Base.thy ===== *)
theory Evm_Base
  imports Prelude
begin

text \<open>
  The vocabulary of the contract models (\<^verbatim>\<open>src/contracts/src\<close>).

  A call of a contract function either reverts with a reason, and then changes nothing, or
  returns the new state.  Unsigned integers are natural numbers; the checked operations of
  Solidity 0.8 revert when the exact result leaves the range of the operand type, a
  conversion to \<^verbatim>\<open>uintN\<close> is taken modulo \<open>2 ^ N\<close>.

  The code the contracts inherit or call but that is not part of the repository is a
  parameter, the record \<open>chain\<close>: the OpenZeppelin token (\<^verbatim>\<open>balanceOf\<close>, \<^verbatim>\<open>transfer\<close>,
  \<^verbatim>\<open>transferFrom\<close>, \<^verbatim>\<open>burn\<close>) on an abstract ledger \<open>'t\<close>, and the base contracts \<^verbatim>\<open>Ownable\<close>,
  \<^verbatim>\<open>AccessControl\<close> and \<^verbatim>\<open>Pausable\<close> on an abstract state \<open>'b\<close>.  What the proofs use of the
  token is the predicate \<open>erc20_ok\<close>: a transfer or burn that succeeds moves exactly the
  amount, and one from an account that holds the amount to a non-zero address succeeds.
  \<^verbatim>\<open>nonReentrant\<close> has no counterpart: a call is one atomic step, and the token makes no
  calls back.
\<close>

datatype 'e revert =
    Panic | TokenRevert | Unauthorized | EnforcedPause | BaseRevert | Err 'e

type_synonym ('e, 'a) result = "'e revert + 'a"

definition rbind :: "('e, 'a) result \<Rightarrow> ('a \<Rightarrow> ('e, 'c) result) \<Rightarrow> ('e, 'c) result" where
  "rbind m f = (case m of Inl e \<Rightarrow> Inl e | Inr a \<Rightarrow> f a)"

definition require :: "bool \<Rightarrow> 'e revert \<Rightarrow> ('e, unit) result" where
  "require c e = (if c then Inr () else Inl e)"

definition of_call :: "'a option \<Rightarrow> 'e revert \<Rightarrow> ('e, 'a) result" where
  "of_call m e = (case m of None \<Rightarrow> Inl e | Some a \<Rightarrow> Inr a)"

definition u_add :: "nat \<Rightarrow> nat \<Rightarrow> nat \<Rightarrow> ('e, nat) result" where
  "u_add w a b = (if a + b < 2 ^ w then Inr (a + b) else Inl Panic)"

definition u_sub :: "nat \<Rightarrow> nat \<Rightarrow> ('e, nat) result" where
  "u_sub a b = (if b \<le> a then Inr (a - b) else Inl Panic)"

definition u_mul :: "nat \<Rightarrow> nat \<Rightarrow> nat \<Rightarrow> ('e, nat) result" where
  "u_mul w a b = (if a * b < 2 ^ w then Inr (a * b) else Inl Panic)"

definition u_div :: "nat \<Rightarrow> nat \<Rightarrow> ('e, nat) result" where
  "u_div a b = (if b = 0 then Inl Panic else Inr (a div b))"

definition u_cast :: "nat \<Rightarrow> nat \<Rightarrow> nat" where
  "u_cast w a = a mod 2 ^ w"

record ('b, 't) chain =
  x_this :: address
  x_balanceOf :: "'t \<Rightarrow> address \<Rightarrow> nat"
  x_transfer :: "address \<Rightarrow> address \<Rightarrow> nat \<Rightarrow> 't \<Rightarrow> 't option"
  x_transferFrom :: "address \<Rightarrow> address \<Rightarrow> address \<Rightarrow> nat \<Rightarrow> 't \<Rightarrow> 't option"
  x_burn :: "address \<Rightarrow> nat \<Rightarrow> 't \<Rightarrow> 't option"
  x_owner :: "'b \<Rightarrow> address"
  x_hasRole :: "'b \<Rightarrow> string \<Rightarrow> address \<Rightarrow> bool"
  x_paused :: "'b \<Rightarrow> bool"
  x_pause :: "'b \<Rightarrow> 'b option"
  x_unpause :: "'b \<Rightarrow> 'b option"

record msg =
  m_sender :: address
  m_time :: nat

definition moved :: "(address \<Rightarrow> nat) \<Rightarrow> address \<Rightarrow> address \<Rightarrow> nat \<Rightarrow> address \<Rightarrow> nat" where
  "moved b a c n x = b x - (if x = a then n else 0) + (if x = c then n else 0)"

definition erc20_ok :: "('b, 't) chain \<Rightarrow> bool" where
  "erc20_ok X \<longleftrightarrow>
     (\<forall>a c n t t'. x_transfer X a c n t = Some t' \<longrightarrow>
        n \<le> x_balanceOf X t a \<and> x_balanceOf X t' = moved (x_balanceOf X t) a c n) \<and>
     (\<forall>s a c n t t'. x_transferFrom X s a c n t = Some t' \<longrightarrow>
        n \<le> x_balanceOf X t a \<and> x_balanceOf X t' = moved (x_balanceOf X t) a c n) \<and>
     (\<forall>a n t t'. x_burn X a n t = Some t' \<longrightarrow>
        n \<le> x_balanceOf X t a \<and>
        (\<forall>x. x_balanceOf X t' x = x_balanceOf X t x - (if x = a then n else 0))) \<and>
     (\<forall>a c n t. c \<noteq> 0 \<longrightarrow> n \<le> x_balanceOf X t a \<longrightarrow> x_transfer X a c n t \<noteq> None) \<and>
     (\<forall>a n t. n \<le> x_balanceOf X t a \<longrightarrow> x_burn X a n t \<noteq> None)"

text \<open>A mapping entry that was never written reads as the zero value.\<close>

definition map_get :: "'v \<Rightarrow> ('k, 'v) gomap \<Rightarrow> 'k \<Rightarrow> 'v" where
  "map_get d m k = (case fmlookup m k of None \<Rightarrow> d | Some v \<Rightarrow> v)"

text \<open>The state after a call: a reverted call changes nothing.\<close>

definition commit :: "'s \<Rightarrow> ('e, 's) result \<Rightarrow> 's" where
  "commit s r = (case r of Inl _ \<Rightarrow> s | Inr s' \<Rightarrow> s')"

subsection \<open>Running and inverting calls\<close>

named_theorems call_simps

lemma rbind_simps [simp, call_simps]: "rbind (Inl e) f = Inl e" "rbind (Inr a) f = f a"
  by (simp_all add: rbind_def)

lemma rbind_Inr_iff [call_simps]: "rbind m f = Inr b \<longleftrightarrow> (\<exists>a. m = Inr a \<and> f a = Inr b)"
  by (cases m) simp_all

lemma require_Inr_iff [call_simps]: "require c e = Inr u \<longleftrightarrow> c"
  by (simp add: require_def)

lemma require_simps [simp]: "require True e = Inr ()" "require False e = Inl e"
  by (simp_all add: require_def)

lemma of_call_Inr_iff [call_simps]: "of_call m e = Inr a \<longleftrightarrow> m = Some a"
  by (cases m) (simp_all add: of_call_def)

lemma u_Inr_iff [call_simps]:
  "u_add w a b = Inr c \<longleftrightarrow> c = a + b \<and> a + b < 2 ^ w"
  "u_sub a b = Inr c \<longleftrightarrow> c = a - b \<and> b \<le> a"
  "u_mul w a b = Inr c \<longleftrightarrow> c = a * b \<and> a * b < 2 ^ w"
  "u_div a b = Inr c \<longleftrightarrow> c = a div b \<and> b \<noteq> 0"
  by (auto simp: u_add_def u_sub_def u_mul_def u_div_def)

lemma u_ok:
  "a + b < 2 ^ w \<Longrightarrow> u_add w a b = Inr (a + b)"
  "b \<le> a \<Longrightarrow> u_sub a b = Inr (a - b)"
  "a * b < 2 ^ w \<Longrightarrow> u_mul w a b = Inr (a * b)"
  "b \<noteq> 0 \<Longrightarrow> u_div a b = Inr (a div b)"
  by (simp_all add: u_add_def u_sub_def u_mul_def u_div_def)

lemma u_cast_id [simp]: "a < 2 ^ w \<Longrightarrow> u_cast w a = a"
  by (simp add: u_cast_def)

lemma u_cast_less: "u_cast w a < 2 ^ w"
  by (simp add: u_cast_def)

lemma u_cast_le: "u_cast w a \<le> a"
  by (simp add: u_cast_def)

lemma commit_simps [simp]: "commit s (Inl e) = s" "commit s (Inr s') = s'"
  by (simp_all add: commit_def)

lemma commit_inv: "P s \<Longrightarrow> (\<And>s'. r = Inr s' \<Longrightarrow> P s') \<Longrightarrow> P (commit s r)"
  by (cases r) simp_all

lemma transferD:
  assumes "erc20_ok X" "x_transfer X a c n t = Some t'"
  shows "n \<le> x_balanceOf X t a" "x_balanceOf X t' x = moved (x_balanceOf X t) a c n x"
  using assms unfolding erc20_ok_def by auto

lemma transferFromD:
  assumes "erc20_ok X" "x_transferFrom X s a c n t = Some t'"
  shows "n \<le> x_balanceOf X t a" "x_balanceOf X t' x = moved (x_balanceOf X t) a c n x"
  using assms unfolding erc20_ok_def by auto

lemma burnD:
  assumes "erc20_ok X" "x_burn X a n t = Some t'"
  shows "n \<le> x_balanceOf X t a"
    and "x_balanceOf X t' x = x_balanceOf X t x - (if x = a then n else 0)"
  using assms unfolding erc20_ok_def by auto

lemma transfer_succeeds:
  assumes "erc20_ok X" "c \<noteq> 0" "n \<le> x_balanceOf X t a"
  obtains t' where "x_transfer X a c n t = Some t'"
  using assms unfolding erc20_ok_def by (cases "x_transfer X a c n t") blast+

lemma burn_succeeds:
  assumes "erc20_ok X" "n \<le> x_balanceOf X t a"
  obtains t' where "x_burn X a n t = Some t'"
  using assms unfolding erc20_ok_def by (cases "x_burn X a n t") blast+

subsection \<open>Reading and summing a mapping\<close>

lemma map_get_upd [simp]: "map_get d (fmupd k v m) j = (if j = k then v else map_get d m j)"
  by (simp add: map_get_def)

lemma map_get_drop [simp]: "map_get d (fmdrop k m) j = (if j = k then d else map_get d m j)"
  by (simp add: map_get_def)

lemma map_get_empty [simp]: "map_get d fmempty j = d"
  by (simp add: map_get_def)

definition msum :: "('v \<Rightarrow> nat) \<Rightarrow> ('k, 'v) gomap \<Rightarrow> nat" where
  "msum f m = (\<Sum>k \<in> fmdom' m. case fmlookup m k of None \<Rightarrow> 0 | Some v \<Rightarrow> f v)"

lemma msum_empty [simp]: "msum f fmempty = 0"
  by (simp add: msum_def)

lemma msum_split:
  "msum f m = msum f (fmdrop k m) + (case fmlookup m k of None \<Rightarrow> 0 | Some v \<Rightarrow> f v)"
proof (cases "k \<in> fmdom' m")
  case True
  have "(\<Sum>j \<in> fmdom' m - {k}. case fmlookup m j of None \<Rightarrow> 0 | Some v \<Rightarrow> f v) = msum f (fmdrop k m)"
    unfolding msum_def by (rule sum.cong) auto
  then show ?thesis
    using True by (simp add: msum_def sum.remove [of "fmdom' m" k])
next
  case False
  then have "fmlookup m k = None" by (simp add: fmlookup_dom'_iff)
  moreover from this have "fmdrop k m = m" by (intro fmap_ext) auto
  ultimately show ?thesis by simp
qed

lemma msum_upd: "msum f (fmupd k v m) = msum f (fmdrop k m) + f v"
  using msum_split [of f "fmupd k v m" k] by (simp add: fmdrop_fmupd_same)

lemma msum_ge: "fmlookup m k = Some v \<Longrightarrow> f v \<le> msum f m"
  using msum_split [of f m k] by simp

lemma msum_drop_le: "msum f (fmdrop k m) \<le> msum f m"
  using msum_split [of f m k] by simp

lemma msum_put:
  assumes "f d = 0"
  shows "msum f (fmupd k v m) + f (map_get d m k) = msum f m + f v"
  using msum_split [of f m k] assms by (simp add: msum_upd map_get_def split: option.splits)

lemma msum_get_le: "f d = 0 \<Longrightarrow> f (map_get d m k) \<le> msum f m"
  using msum_split [of f m k] by (simp add: map_get_def split: option.splits)

subsection \<open>A concrete chain\<close>

text \<open>A token whose ledger is the function from accounts to balances, and base contracts without state:
  an instance of the parameters for the examples.  Account 1 owns the contracts, account 2 holds
  every role.\<close>

definition plain_chain :: "address \<Rightarrow> (unit, address \<Rightarrow> nat) chain" where
  "plain_chain this =
     \<lparr> x_this = this, x_balanceOf = (\<lambda>t. t),
       x_transfer = (\<lambda>a c n t. if c \<noteq> 0 \<and> n \<le> t a then Some (moved t a c n) else None),
       x_transferFrom = (\<lambda>_ a c n t. if c \<noteq> 0 \<and> n \<le> t a then Some (moved t a c n) else None),
       x_burn = (\<lambda>a n t. if n \<le> t a then Some (\<lambda>x. t x - (if x = a then n else 0)) else None),
       x_owner = (\<lambda>_. 1), x_hasRole = (\<lambda>_ _ a. a = 2), x_paused = (\<lambda>_. False),
       x_pause = Some, x_unpause = Some \<rparr>"

lemma plain_chain_ok: "erc20_ok (plain_chain this)"
  by (simp add: erc20_ok_def plain_chain_def)

end
