(* ===== verification/Bunker_Escrow.thy ===== *)
theory Bunker_Escrow
  imports Evm_Base
begin

text \<open>
  The escrow contract (\<^verbatim>\<open>src/contracts/src/BunkerEscrow.sol\<close>): reservations funded by
  requesters, progressive release to three providers with a protocol fee that is partly
  burnt, refunds and dispute settlement.

  The state record holds the contract's storage, the state \<open>be_base\<close> of the inherited base
  contracts, the ledger \<open>be_ledger\<close> of the token it calls and the log of its events.  An
  entry that was never written reads as the zero structure, as in Solidity.
\<close>

datatype Status = SNone | Created | Active | Completed | Refunded | Disputed

record Reservation =
  r_requester :: address
  r_totalAmount :: nat
  r_releasedAmount :: nat
  r_duration :: nat
  r_startTime :: nat
  r_status :: Status
  r_providers :: "address \<times> address \<times> address"

datatype escrow_revert =
    ZeroAmount | ZeroAddress | ZeroDuration | AmountOverflow nat | DurationOverflow nat
  | InvalidReservation nat | InvalidStatus nat Status Status
  | SettledDurationExceedsTotal nat nat | NothingToRelease nat | ProtocolFeeTooHigh nat nat
  | NotRequesterOrOperator address nat | InvalidDisputeAmounts nat nat nat
  | NotRequester address nat | ThresholdTooHigh nat nat | NotProvider address nat
  | ProviderNotStaked address | DuplicateProvider | CannotDisableStakingVerification
  | InvalidFeeSplit

datatype escrow_event =
    ReservationCreated nat address nat nat | ProvidersSelected nat address address address
  | PaymentReleased nat nat nat nat nat nat | ReservationFinalized nat
  | RefundedEvent nat address nat | DisputeSettled nat nat nat | ProtocolFeeUpdated nat nat
  | TreasuryUpdated address address | DepositIncreased nat address nat nat
  | LowBalance nat nat nat | StakingContractUpdated address address | FeeSplitUpdated nat nat

record ('b, 't) BunkerEscrow =
  be_feeBurnBps :: nat
  be_feeTreasuryBps :: nat
  be_treasury :: address
  be_protocolFeeBps :: nat
  be_nextReservationId :: nat
  be_totalBurned :: nat
  be_totalTreasuryFees :: nat
  be_lowBalanceThresholdBps :: nat
  be_stakingContract :: address
  be_reservations :: "(nat, Reservation) gomap"
  be_reservationFeeBps :: "(nat, nat) gomap"
  be_base :: 'b
  be_ledger :: 't
  be_events :: "escrow_event list"

definition PROVIDERS_PER_RESERVATION :: nat where "PROVIDERS_PER_RESERVATION = 3"
definition MAX_PROTOCOL_FEE_BPS :: nat where "MAX_PROTOCOL_FEE_BPS = 2000"
definition BPS_DENOMINATOR :: nat where "BPS_DENOMINATOR = 10000"
definition OPERATOR_ROLE :: string where "OPERATOR_ROLE = ''OPERATOR_ROLE''"

definition BunkerEscrow_constructor ::
    "address \<Rightarrow> address \<Rightarrow> address \<Rightarrow> 'b \<Rightarrow> 't \<Rightarrow> (escrow_revert, ('b, 't) BunkerEscrow) result" where
  "BunkerEscrow_constructor token treasury initialOwner base ledger =
     (if token = 0 \<or> treasury = 0 \<or> initialOwner = 0 then Inl (Err ZeroAddress)
      else Inr \<lparr> be_feeBurnBps = 8000, be_feeTreasuryBps = 2000, be_treasury = treasury,
                 be_protocolFeeBps = 500, be_nextReservationId = 1, be_totalBurned = 0,
                 be_totalTreasuryFees = 0, be_lowBalanceThresholdBps = 2000,
                 be_stakingContract = 0, be_reservations = fmempty,
                 be_reservationFeeBps = fmempty, be_base = base, be_ledger = ledger,
                 be_events = [] \<rparr>)"

definition zero_reservation :: Reservation where
  "zero_reservation = \<lparr> r_requester = 0, r_totalAmount = 0, r_releasedAmount = 0, r_duration = 0,
                        r_startTime = 0, r_status = SNone, r_providers = (0, 0, 0) \<rparr>"

definition get_res :: "nat \<Rightarrow> ('b, 't) BunkerEscrow \<Rightarrow> Reservation" where
  "get_res rid s = (case fmlookup (be_reservations s) rid of None \<Rightarrow> zero_reservation | Some r \<Rightarrow> r)"

definition put_res :: "nat \<Rightarrow> Reservation \<Rightarrow> ('b, 't) BunkerEscrow \<Rightarrow> ('b, 't) BunkerEscrow" where
  "put_res rid r s = s\<lparr>be_reservations := fmupd rid r (be_reservations s)\<rparr>"

definition get_fee :: "nat \<Rightarrow> ('b, 't) BunkerEscrow \<Rightarrow> nat" where
  "get_fee rid s = (case fmlookup (be_reservationFeeBps s) rid of None \<Rightarrow> 0 | Some n \<Rightarrow> n)"

definition emit :: "escrow_event \<Rightarrow> ('b, 't) BunkerEscrow \<Rightarrow> ('b, 't) BunkerEscrow" where
  "emit e s = s\<lparr>be_events := be_events s @ [e]\<rparr>"

subsection \<open>Calls of the token\<close>

definition safeTransfer ::
    "('b, 't) chain \<Rightarrow> address \<Rightarrow> nat \<Rightarrow> ('b, 't) BunkerEscrow \<Rightarrow> (escrow_revert, ('b, 't) BunkerEscrow) result" where
  "safeTransfer X to_addr amount s =
     rbind (of_call (x_transfer X (x_this X) to_addr amount (be_ledger s)) TokenRevert)
       (\<lambda>t. Inr (s\<lparr>be_ledger := t\<rparr>))"

definition safeTransferFrom ::
    "('b, 't) chain \<Rightarrow> address \<Rightarrow> nat \<Rightarrow> ('b, 't) BunkerEscrow \<Rightarrow> (escrow_revert, ('b, 't) BunkerEscrow) result" where
  "safeTransferFrom X sender amount s =
     rbind (of_call (x_transferFrom X (x_this X) sender (x_this X) amount (be_ledger s)) TokenRevert)
       (\<lambda>t. Inr (s\<lparr>be_ledger := t\<rparr>))"

definition burnTokens ::
    "('b, 't) chain \<Rightarrow> nat \<Rightarrow> ('b, 't) BunkerEscrow \<Rightarrow> (escrow_revert, ('b, 't) BunkerEscrow) result" where
  "burnTokens X amount s =
     rbind (of_call (x_burn X (x_this X) amount (be_ledger s)) TokenRevert)
       (\<lambda>t. Inr (s\<lparr>be_ledger := t\<rparr>))"

subsection \<open>Internal functions\<close>

definition pay_if ::
    "('b, 't) chain \<Rightarrow> address \<Rightarrow> nat \<Rightarrow> ('b, 't) BunkerEscrow \<Rightarrow> (escrow_revert, ('b, 't) BunkerEscrow) result" where
  "pay_if X to_addr amt s = (if amt > 0 then safeTransfer X to_addr amt s else Inr s)"

text \<open>The last part of \<^verbatim>\<open>_distributePayment\<close>: equal shares, the first provider gets the dust.\<close>

definition pay_providers ::
    "('b, 't) chain \<Rightarrow> Reservation \<Rightarrow> nat \<Rightarrow> ('b, 't) BunkerEscrow \<Rightarrow>
     (escrow_revert, ('b, 't) BunkerEscrow) result" where
  "pay_providers X res netToProviders s =
     (let perProvider = netToProviders div PROVIDERS_PER_RESERVATION in
      rbind (u_mul 256 perProvider PROVIDERS_PER_RESERVATION) (\<lambda>shares.
      rbind (u_sub netToProviders shares) (\<lambda>dust.
      rbind (u_add 256 perProvider dust) (\<lambda>first_amt.
      case r_providers res of (p0, p1, p2) \<Rightarrow>
      rbind (pay_if X p0 first_amt s) (\<lambda>s.
      rbind (pay_if X p1 perProvider s) (\<lambda>s.
      pay_if X p2 perProvider s))))))"

definition distributePayment ::
    "('b, 't) chain \<Rightarrow> nat \<Rightarrow> Reservation \<Rightarrow> nat \<Rightarrow> ('b, 't) BunkerEscrow \<Rightarrow>
     (escrow_revert, (nat \<times> nat \<times> nat) \<times> ('b, 't) BunkerEscrow) result" where
  "distributePayment X rid res grossAmount s =
     rbind (u_mul 256 grossAmount (get_fee rid s)) (\<lambda>product.
     let fee = product div BPS_DENOMINATOR in
     rbind (u_sub grossAmount fee) (\<lambda>netToProviders.
     rbind (u_mul 256 fee (be_feeBurnBps s)) (\<lambda>burn_product.
     let burnAmount = burn_product div BPS_DENOMINATOR in
     rbind (u_sub fee burnAmount) (\<lambda>treasuryAmount.
     rbind (u_add 256 (be_totalBurned s) burnAmount) (\<lambda>totalBurned.
     rbind (u_add 256 (be_totalTreasuryFees s) treasuryAmount) (\<lambda>totalTreasuryFees.
     let s = s\<lparr>be_totalBurned := totalBurned, be_totalTreasuryFees := totalTreasuryFees\<rparr> in
     rbind (if burnAmount > 0 then burnTokens X burnAmount s else Inr s) (\<lambda>s.
     rbind (pay_if X (be_treasury s) treasuryAmount s) (\<lambda>s.
     rbind (pay_providers X res netToProviders s) (\<lambda>s.
     Inr ((fee, burnAmount, treasuryAmount), s))))))))))"

definition distribute_if ::
    "('b, 't) chain \<Rightarrow> nat \<Rightarrow> Reservation \<Rightarrow> nat \<Rightarrow> ('b, 't) BunkerEscrow \<Rightarrow>
     (escrow_revert, ('b, 't) BunkerEscrow) result" where
  "distribute_if X rid res amount s =
     (if amount > 0 then rbind (distributePayment X rid res amount s) (\<lambda>(_, s). Inr s) else Inr s)"

definition checkLowBalance ::
    "nat \<Rightarrow> Reservation \<Rightarrow> ('b, 't) BunkerEscrow \<Rightarrow> (escrow_revert, ('b, 't) BunkerEscrow) result" where
  "checkLowBalance rid res s =
     rbind (u_sub (r_totalAmount res) (r_releasedAmount res)) (\<lambda>remaining.
     rbind (u_mul 256 (r_totalAmount res) (be_lowBalanceThresholdBps s)) (\<lambda>product.
     let threshold = product div BPS_DENOMINATOR in
     Inr (if remaining < threshold then emit (LowBalance rid remaining threshold) s else s)))"

text \<open>The share of the total that a period has earned.\<close>

definition proportional_total :: "Reservation \<Rightarrow> nat \<Rightarrow> (escrow_revert, nat) result" where
  "proportional_total res period =
     rbind (u_mul 256 (r_totalAmount res) period) (\<lambda>product. u_div product (r_duration res))"

text \<open>The part shared by \<^verbatim>\<open>claim\<close> and \<^verbatim>\<open>releasePayment\<close> once the period is known.\<close>

definition release_for ::
    "('b, 't) chain \<Rightarrow> nat \<Rightarrow> Reservation \<Rightarrow> nat \<Rightarrow> ('b, 't) BunkerEscrow \<Rightarrow>
     (escrow_revert, ('b, 't) BunkerEscrow) result" where
  "release_for X rid res period s =
     rbind (proportional_total res period) (\<lambda>proportionalTotal.
     if proportionalTotal \<le> r_releasedAmount res then Inl (Err (NothingToRelease rid))
     else
       rbind (u_sub proportionalTotal (r_releasedAmount res)) (\<lambda>grossRelease.
       rbind (u_add 128 (r_releasedAmount res) (u_cast 128 grossRelease)) (\<lambda>released.
       let res = res\<lparr>r_releasedAmount := released\<rparr>;
           s = put_res rid res s in
       rbind (distributePayment X rid res grossRelease s) (\<lambda>((fee, burnAmount, treasuryAmount), s).
       rbind (checkLowBalance rid res s) (\<lambda>s.
       rbind (u_sub grossRelease fee) (\<lambda>net.
       Inr (emit (PaymentReleased rid grossRelease net fee burnAmount treasuryAmount) s)))))))"

subsection \<open>External functions\<close>

type_synonym ('b, 't) escrow_call =
  "('b, 't) BunkerEscrow \<Rightarrow> (escrow_revert, ('b, 't) BunkerEscrow) result"

definition onlyOperator :: "('b, 't) chain \<Rightarrow> msg \<Rightarrow> ('b, 't) escrow_call \<Rightarrow> ('b, 't) escrow_call" where
  "onlyOperator X m f s =
     (if x_hasRole X (be_base s) OPERATOR_ROLE (m_sender m) then f s else Inl Unauthorized)"

definition onlyOwner :: "('b, 't) chain \<Rightarrow> msg \<Rightarrow> ('b, 't) escrow_call \<Rightarrow> ('b, 't) escrow_call" where
  "onlyOwner X m f s = (if m_sender m = x_owner X (be_base s) then f s else Inl Unauthorized)"

definition whenNotPaused :: "('b, 't) chain \<Rightarrow> ('b, 't) escrow_call \<Rightarrow> ('b, 't) escrow_call" where
  "whenNotPaused X f s = (if x_paused X (be_base s) then Inl EnforcedPause else f s)"

definition createReservation ::
    "('b, 't) chain \<Rightarrow> msg \<Rightarrow> nat \<Rightarrow> nat \<Rightarrow> ('b, 't) escrow_call" where
  "createReservation X m amount duration = whenNotPaused X (\<lambda>s.
     if amount = 0 then Inl (Err ZeroAmount)
     else if duration = 0 then Inl (Err ZeroDuration)
     else if amount > 2 ^ 128 - 1 then Inl (Err (AmountOverflow amount))
     else if duration > 2 ^ 48 - 1 then Inl (Err (DurationOverflow duration))
     else
       let reservationId = be_nextReservationId s;
           s = s\<lparr>be_nextReservationId := u_cast 256 (be_nextReservationId s + 1)\<rparr>;
           s = put_res reservationId
                 \<lparr> r_requester = m_sender m, r_totalAmount = u_cast 128 amount,
                   r_releasedAmount = 0, r_duration = u_cast 48 duration, r_startTime = 0,
                   r_status = Created, r_providers = (0, 0, 0) \<rparr> s;
           s = s\<lparr>be_reservationFeeBps :=
                    fmupd reservationId (u_cast 16 (be_protocolFeeBps s)) (be_reservationFeeBps s)\<rparr>
       in rbind (safeTransferFrom X (m_sender m) amount s) (\<lambda>s.
          Inr (emit (ReservationCreated reservationId (m_sender m) amount duration) s)))"

definition increaseDeposit ::
    "('b, 't) chain \<Rightarrow> msg \<Rightarrow> nat \<Rightarrow> nat \<Rightarrow> ('b, 't) escrow_call" where
  "increaseDeposit X m rid amount = whenNotPaused X (\<lambda>s.
     let res = get_res rid s in
     if amount = 0 then Inl (Err ZeroAmount)
     else if r_requester res = 0 then Inl (Err (InvalidReservation rid))
     else if m_sender m \<noteq> r_requester res then Inl (Err (NotRequester (m_sender m) rid))
     else if r_status res \<noteq> Created \<and> r_status res \<noteq> Active
       then Inl (Err (InvalidStatus rid Created (r_status res)))
     else
       rbind (u_add 256 (r_totalAmount res) amount) (\<lambda>newTotal.
       if newTotal > 2 ^ 128 - 1 then Inl (Err (AmountOverflow newTotal))
       else
         let s = put_res rid (res\<lparr>r_totalAmount := u_cast 128 newTotal\<rparr>) s in
         rbind (safeTransferFrom X (m_sender m) amount s) (\<lambda>s.
         Inr (emit (DepositIncreased rid (m_sender m) amount newTotal) s))))"

definition elapsed_time :: "msg \<Rightarrow> Reservation \<Rightarrow> (escrow_revert, nat) result" where
  "elapsed_time m res =
     rbind (u_sub (m_time m) (r_startTime res)) (\<lambda>elapsed.
     Inr (if elapsed > r_duration res then r_duration res else elapsed))"

definition is_provider :: "address \<Rightarrow> Reservation \<Rightarrow> bool" where
  "is_provider a res = (case r_providers res of (p0, p1, p2) \<Rightarrow> p0 = a \<or> p1 = a \<or> p2 = a)"

definition claim :: "('b, 't) chain \<Rightarrow> msg \<Rightarrow> nat \<Rightarrow> ('b, 't) escrow_call" where
  "claim X m rid = whenNotPaused X (\<lambda>s.
     let res = get_res rid s in
     if r_status res \<noteq> Active then Inl (Err (InvalidStatus rid Active (r_status res)))
     else if \<not> is_provider (m_sender m) res then Inl (Err (NotProvider (m_sender m) rid))
     else rbind (elapsed_time m res) (\<lambda>elapsed. release_for X rid res elapsed s))"

text \<open>One turn of the loop of \<^verbatim>\<open>selectProviders\<close>; \<open>active\<close> is the staking contract's answer.\<close>

definition check_provider ::
    "(address \<Rightarrow> address \<Rightarrow> bool) \<Rightarrow> address \<Rightarrow> ('b, 't) BunkerEscrow \<Rightarrow> (escrow_revert, unit) result" where
  "check_provider active p s =
     (if p = 0 then Inl (Err ZeroAddress)
      else if be_stakingContract s \<noteq> 0 \<and> \<not> active (be_stakingContract s) p
        then Inl (Err (ProviderNotStaked p))
      else Inr ())"

definition selectProviders ::
    "('b, 't) chain \<Rightarrow> msg \<Rightarrow> (address \<Rightarrow> address \<Rightarrow> bool) \<Rightarrow> nat \<Rightarrow> address \<times> address \<times> address \<Rightarrow>
     ('b, 't) escrow_call" where
  "selectProviders X m active rid addrs = onlyOperator X m (whenNotPaused X (\<lambda>s.
     let res = get_res rid s in
     if r_status res \<noteq> Created then Inl (Err (InvalidStatus rid Created (r_status res)))
     else case addrs of (p0, p1, p2) \<Rightarrow>
       rbind (check_provider active p0 s) (\<lambda>_.
       rbind (check_provider active p1 s) (\<lambda>_.
       rbind (check_provider active p2 s) (\<lambda>_.
       if p0 = p1 \<or> p0 = p2 \<or> p1 = p2 then Inl (Err DuplicateProvider)
       else
         let res = res\<lparr>r_providers := (p0, p1, p2), r_startTime := u_cast 48 (m_time m),
                       r_status := Active\<rparr>
         in Inr (emit (ProvidersSelected rid p0 p1 p2) (put_res rid res s)))))))"

definition releasePayment ::
    "('b, 't) chain \<Rightarrow> msg \<Rightarrow> nat \<Rightarrow> nat \<Rightarrow> ('b, 't) escrow_call" where
  "releasePayment X m rid settledDuration = onlyOperator X m (whenNotPaused X (\<lambda>s.
     let res = get_res rid s in
     if r_status res \<noteq> Active then Inl (Err (InvalidStatus rid Active (r_status res)))
     else if settledDuration > r_duration res
       then Inl (Err (SettledDurationExceedsTotal settledDuration (r_duration res)))
     else release_for X rid res settledDuration s))"

definition finalizeReservation :: "('b, 't) chain \<Rightarrow> msg \<Rightarrow> nat \<Rightarrow> ('b, 't) escrow_call" where
  "finalizeReservation X m rid = onlyOperator X m (\<lambda>s.
     let res = get_res rid s in
     if r_status res \<noteq> Active then Inl (Err (InvalidStatus rid Active (r_status res)))
     else
       rbind (u_sub (r_totalAmount res) (r_releasedAmount res)) (\<lambda>remaining.
       let res = res\<lparr>r_releasedAmount := r_totalAmount res, r_status := Completed\<rparr>;
           s = put_res rid res s in
       rbind (distribute_if X rid res remaining s) (\<lambda>s.
       rbind (checkLowBalance rid res s) (\<lambda>s.
       Inr (emit (ReservationFinalized rid) s)))))"

text \<open>The earned part of an active reservation that \<^verbatim>\<open>refund\<close> pays first.\<close>

definition settle_earned ::
    "('b, 't) chain \<Rightarrow> msg \<Rightarrow> nat \<Rightarrow> Reservation \<Rightarrow> ('b, 't) BunkerEscrow \<Rightarrow>
     (escrow_revert, Reservation \<times> ('b, 't) BunkerEscrow) result" where
  "settle_earned X m rid res s =
     (if r_status res = Active then
        rbind (elapsed_time m res) (\<lambda>elapsed.
        rbind (proportional_total res elapsed) (\<lambda>proportionalTotal.
        if proportionalTotal > r_releasedAmount res then
          rbind (u_sub proportionalTotal (r_releasedAmount res)) (\<lambda>earnedUnreleased.
          rbind (distributePayment X rid res earnedUnreleased s) (\<lambda>(_, s).
          rbind (u_add 128 (r_releasedAmount res) (u_cast 128 earnedUnreleased)) (\<lambda>released.
          Inr (res\<lparr>r_releasedAmount := released\<rparr>, put_res rid (res\<lparr>r_releasedAmount := released\<rparr>) s))))
        else Inr (res, s)))
      else Inr (res, s))"

definition refund :: "('b, 't) chain \<Rightarrow> msg \<Rightarrow> nat \<Rightarrow> ('b, 't) escrow_call" where
  "refund X m rid s =
     (let res = get_res rid s in
      if r_status res \<noteq> Active \<and> r_status res \<noteq> Created
        then Inl (Err (InvalidStatus rid Active (r_status res)))
      else if m_sender m \<noteq> r_requester res \<and> \<not> x_hasRole X (be_base s) OPERATOR_ROLE (m_sender m)
        then Inl (Err (NotRequesterOrOperator (m_sender m) rid))
      else
        rbind (settle_earned X m rid res s) (\<lambda>(res, s).
        rbind (u_sub (r_totalAmount res) (r_releasedAmount res)) (\<lambda>remaining.
        let res = res\<lparr>r_releasedAmount := r_totalAmount res, r_status := Refunded\<rparr>;
            s = put_res rid res s in
        rbind (pay_if X (r_requester res) remaining s) (\<lambda>s.
        Inr (emit (RefundedEvent rid (r_requester res) remaining) s)))))"

definition settleDispute ::
    "('b, 't) chain \<Rightarrow> msg \<Rightarrow> nat \<Rightarrow> nat \<Rightarrow> nat \<Rightarrow> ('b, 't) escrow_call" where
  "settleDispute X m rid requesterAmount providerAmount = onlyOperator X m (\<lambda>s.
     let res = get_res rid s in
     if r_status res \<noteq> Active then Inl (Err (InvalidStatus rid Active (r_status res)))
     else
       rbind (u_sub (r_totalAmount res) (r_releasedAmount res)) (\<lambda>remaining.
       rbind (u_add 256 requesterAmount providerAmount) (\<lambda>sum_amounts.
       if sum_amounts \<noteq> remaining
         then Inl (Err (InvalidDisputeAmounts requesterAmount providerAmount remaining))
       else
         let res = res\<lparr>r_releasedAmount := r_totalAmount res, r_status := Disputed\<rparr>;
             s = put_res rid res s in
         rbind (pay_if X (r_requester res) requesterAmount s) (\<lambda>s.
         rbind (distribute_if X rid res providerAmount s) (\<lambda>s.
         Inr (emit (DisputeSettled rid requesterAmount providerAmount) s))))))"

definition getReservation :: "nat \<Rightarrow> ('b, 't) BunkerEscrow \<Rightarrow> Reservation" where
  "getReservation rid s = get_res rid s"

definition getProviders :: "nat \<Rightarrow> ('b, 't) BunkerEscrow \<Rightarrow> address \<times> address \<times> address" where
  "getProviders rid s = r_providers (get_res rid s)"

definition calculateProtocolFee :: "nat \<Rightarrow> ('b, 't) BunkerEscrow \<Rightarrow> (escrow_revert, nat) result" where
  "calculateProtocolFee amount s =
     rbind (u_mul 256 amount (be_protocolFeeBps s)) (\<lambda>product. Inr (product div BPS_DENOMINATOR))"

definition setProtocolFee :: "('b, 't) chain \<Rightarrow> msg \<Rightarrow> nat \<Rightarrow> ('b, 't) escrow_call" where
  "setProtocolFee X m newFeeBps = onlyOwner X m (\<lambda>s.
     if newFeeBps > MAX_PROTOCOL_FEE_BPS
       then Inl (Err (ProtocolFeeTooHigh newFeeBps MAX_PROTOCOL_FEE_BPS))
     else Inr (emit (ProtocolFeeUpdated (be_protocolFeeBps s) newFeeBps)
                 (s\<lparr>be_protocolFeeBps := newFeeBps\<rparr>)))"

definition setTreasury :: "('b, 't) chain \<Rightarrow> msg \<Rightarrow> address \<Rightarrow> ('b, 't) escrow_call" where
  "setTreasury X m newTreasury = onlyOwner X m (\<lambda>s.
     if newTreasury = 0 then Inl (Err ZeroAddress)
     else Inr (emit (TreasuryUpdated (be_treasury s) newTreasury) (s\<lparr>be_treasury := newTreasury\<rparr>)))"

definition setLowBalanceThreshold :: "('b, 't) chain \<Rightarrow> msg \<Rightarrow> nat \<Rightarrow> ('b, 't) escrow_call" where
  "setLowBalanceThreshold X m newThresholdBps = onlyOwner X m (\<lambda>s.
     if newThresholdBps > 5000 then Inl (Err (ThresholdTooHigh newThresholdBps 5000))
     else Inr (s\<lparr>be_lowBalanceThresholdBps := newThresholdBps\<rparr>))"

definition setStakingContract :: "('b, 't) chain \<Rightarrow> msg \<Rightarrow> address \<Rightarrow> ('b, 't) escrow_call" where
  "setStakingContract X m newStaking = onlyOwner X m (\<lambda>s.
     if be_stakingContract s \<noteq> 0 \<and> newStaking = 0
       then Inl (Err CannotDisableStakingVerification)
     else Inr (emit (StakingContractUpdated (be_stakingContract s) newStaking)
                 (s\<lparr>be_stakingContract := newStaking\<rparr>)))"

definition setFeeSplit :: "('b, 't) chain \<Rightarrow> msg \<Rightarrow> nat \<Rightarrow> nat \<Rightarrow> ('b, 't) escrow_call" where
  "setFeeSplit X m burnBps treasuryBps = onlyOwner X m (\<lambda>s.
     rbind (u_add 256 burnBps treasuryBps) (\<lambda>total_bps.
     if total_bps \<noteq> BPS_DENOMINATOR then Inl (Err InvalidFeeSplit)
     else Inr (emit (FeeSplitUpdated burnBps treasuryBps)
                 (s\<lparr>be_feeBurnBps := burnBps, be_feeTreasuryBps := treasuryBps\<rparr>))))"

definition pause :: "('b, 't) chain \<Rightarrow> msg \<Rightarrow> ('b, 't) escrow_call" where
  "pause X m = onlyOwner X m (\<lambda>s.
     rbind (of_call (x_pause X (be_base s)) BaseRevert) (\<lambda>b. Inr (s\<lparr>be_base := b\<rparr>)))"

definition unpause :: "('b, 't) chain \<Rightarrow> msg \<Rightarrow> ('b, 't) escrow_call" where
  "unpause X m = onlyOwner X m (\<lambda>s.
     rbind (of_call (x_unpause X (be_base s)) BaseRevert) (\<lambda>b. Inr (s\<lparr>be_base := b\<rparr>)))"

subsection \<open>The contract as a machine\<close>

text \<open>
  Besides the calls of the contract itself, the environment may change the state of the base
  contracts (granting roles, transferring ownership) and the token ledger (transfers between
  other accounts, mints, gifts to the contract), the latter without taking tokens out of the
  contract.
\<close>

datatype ('b, 't) escrow_op =
    OpCreate msg nat nat | OpIncrease msg nat nat | OpClaim msg nat
  | OpSelect msg "address \<Rightarrow> address \<Rightarrow> bool" nat "address \<times> address \<times> address"
  | OpRelease msg nat nat | OpFinalize msg nat | OpRefund msg nat | OpSettle msg nat nat nat
  | OpSetFee msg nat | OpSetTreasury msg address | OpSetThreshold msg nat
  | OpSetStaking msg address | OpSetSplit msg nat nat | OpPause msg | OpUnpause msg
  | EnvBase 'b | EnvLedger 't

fun escrow_call :: "('b, 't) chain \<Rightarrow> ('b, 't) escrow_op \<Rightarrow> ('b, 't) escrow_call" where
  "escrow_call X (OpCreate m a d) s = createReservation X m a d s"
| "escrow_call X (OpIncrease m rid a) s = increaseDeposit X m rid a s"
| "escrow_call X (OpClaim m rid) s = claim X m rid s"
| "escrow_call X (OpSelect m act rid ps) s = selectProviders X m act rid ps s"
| "escrow_call X (OpRelease m rid d) s = releasePayment X m rid d s"
| "escrow_call X (OpFinalize m rid) s = finalizeReservation X m rid s"
| "escrow_call X (OpRefund m rid) s = refund X m rid s"
| "escrow_call X (OpSettle m rid a b) s = settleDispute X m rid a b s"
| "escrow_call X (OpSetFee m n) s = setProtocolFee X m n s"
| "escrow_call X (OpSetTreasury m a) s = setTreasury X m a s"
| "escrow_call X (OpSetThreshold m n) s = setLowBalanceThreshold X m n s"
| "escrow_call X (OpSetStaking m a) s = setStakingContract X m a s"
| "escrow_call X (OpSetSplit m a b) s = setFeeSplit X m a b s"
| "escrow_call X (OpPause m) s = pause X m s"
| "escrow_call X (OpUnpause m) s = unpause X m s"
| "escrow_call X (EnvBase b) s = Inr (s\<lparr>be_base := b\<rparr>)"
| "escrow_call X (EnvLedger t) s = Inr (s\<lparr>be_ledger := t\<rparr>)"

definition escrow_step :: "('b, 't) chain \<Rightarrow> ('b, 't) escrow_op \<Rightarrow> ('b, 't) BunkerEscrow \<Rightarrow> ('b, 't) BunkerEscrow" where
  "escrow_step X op s = commit s (escrow_call X op s)"

subsection \<open>Invariant: the contract covers what it owes\<close>

definition owed :: "Reservation \<Rightarrow> nat" where
  "owed r = r_totalAmount r - r_releasedAmount r"

definition held :: "('b, 't) chain \<Rightarrow> ('b, 't) BunkerEscrow \<Rightarrow> nat" where
  "held X s = x_balanceOf X (be_ledger s) (x_this X)"

definition providers_of :: "Reservation \<Rightarrow> address set" where
  "providers_of r = (case r_providers r of (p0, p1, p2) \<Rightarrow> {p0, p1, p2})"

definition res_ok :: "Reservation \<Rightarrow> bool" where
  "res_ok r \<longleftrightarrow>
     r_releasedAmount r \<le> r_totalAmount r \<and> r_totalAmount r < 2 ^ 128 \<and>
     0 < r_duration r \<and> r_duration r < 2 ^ 48 \<and> r_requester r \<noteq> 0 \<and> r_status r \<noteq> SNone \<and>
     (r_status r = Created \<longrightarrow> r_releasedAmount r = 0) \<and>
     (r_status r = Active \<longrightarrow> 0 \<notin> providers_of r) \<and>
     (r_status r \<in> {Completed, Refunded, Disputed} \<longrightarrow> r_releasedAmount r = r_totalAmount r)"

text \<open>
  With \<open>strict\<close> the parties are other accounts than the contract and the books balance
  exactly; without it the contract may be its own counterparty and may have received gifts.
\<close>

definition config_ok :: "('b, 't) BunkerEscrow \<Rightarrow> bool" where
  "config_ok s \<longleftrightarrow> be_protocolFeeBps s \<le> 2000 \<and> fmpred (\<lambda>_ n. n \<le> 2000) (be_reservationFeeBps s) \<and>
     be_feeBurnBps s + be_feeTreasuryBps s = 10000 \<and> be_treasury s \<noteq> 0 \<and>
     be_lowBalanceThresholdBps s \<le> 5000"

definition external :: "('b, 't) chain \<Rightarrow> ('b, 't) BunkerEscrow \<Rightarrow> bool" where
  "external X s \<longleftrightarrow> x_this X \<noteq> 0 \<and> x_this X \<noteq> be_treasury s \<and>
     fmpred (\<lambda>rid r. rid < be_nextReservationId s \<and> x_this X \<notin> insert (r_requester r) (providers_of r))
       (be_reservations s)"

definition escrow_inv :: "('b, 't) chain \<Rightarrow> bool \<Rightarrow> ('b, 't) BunkerEscrow \<Rightarrow> bool" where
  "escrow_inv X strict s \<longleftrightarrow>
     fmpred (\<lambda>_. res_ok) (be_reservations s) \<and> config_ok s \<and>
     msum owed (be_reservations s) \<le> held X s \<and>
     (strict \<longrightarrow> external X s \<and> msum owed (be_reservations s) = held X s)"

fun op_msg :: "('b, 't) escrow_op \<Rightarrow> msg option" where
  "op_msg (OpCreate m _ _) = Some m"
| "op_msg (OpIncrease m _ _) = Some m"
| "op_msg (OpClaim m _) = Some m"
| "op_msg (OpSelect m _ _ _) = Some m"
| "op_msg (OpRelease m _ _) = Some m"
| "op_msg (OpFinalize m _) = Some m"
| "op_msg (OpRefund m _) = Some m"
| "op_msg (OpSettle m _ _ _) = Some m"
| "op_msg (OpSetFee m _) = Some m"
| "op_msg (OpSetTreasury m _) = Some m"
| "op_msg (OpSetThreshold m _) = Some m"
| "op_msg (OpSetStaking m _) = Some m"
| "op_msg (OpSetSplit m _ _) = Some m"
| "op_msg (OpPause m) = Some m"
| "op_msg (OpUnpause m) = Some m"
| "op_msg (EnvBase _) = None"
| "op_msg (EnvLedger _) = None"

text \<open>
  The sender of a call is a non-zero address other than the contract, which never calls
  itself; the ledger is not changed to the contract's disadvantage; for the exact balance
  the reservation numbers are not used up.
\<close>

fun op_env_ok :: "('b, 't) chain \<Rightarrow> bool \<Rightarrow> ('b, 't) escrow_op \<Rightarrow> ('b, 't) BunkerEscrow \<Rightarrow> bool" where
  "op_env_ok X strict (EnvLedger t) s \<longleftrightarrow>
     held X s \<le> x_balanceOf X t (x_this X) \<and> (strict \<longrightarrow> held X s = x_balanceOf X t (x_this X))"
| "op_env_ok X strict (OpSelect _ _ _ (p0, p1, p2)) s \<longleftrightarrow> (strict \<longrightarrow> x_this X \<notin> {p0, p1, p2})"
| "op_env_ok X strict (OpCreate _ _ _) s \<longleftrightarrow> (strict \<longrightarrow> be_nextReservationId s + 1 < 2 ^ 256)"
| "op_env_ok X strict (OpSetTreasury _ a) s \<longleftrightarrow> (strict \<longrightarrow> a \<noteq> x_this X)"
| "op_env_ok X strict _ s \<longleftrightarrow> True"

definition escrow_op_ok :: "('b, 't) chain \<Rightarrow> bool \<Rightarrow> ('b, 't) escrow_op \<Rightarrow> ('b, 't) BunkerEscrow \<Rightarrow> bool" where
  "escrow_op_ok X strict op s \<longleftrightarrow>
     pred_option (\<lambda>m. m_sender m \<noteq> 0 \<and> m_sender m \<noteq> x_this X) (op_msg op) \<and> op_env_ok X strict op s"

subsection \<open>Payments\<close>

text \<open>\<open>s'\<close> differs from \<open>s\<close> only in the ledger, the fee totals and the log, and the contract
  has paid at most \<open>n\<close>, exactly \<open>n\<close> if it is not among the recipients \<open>A\<close>.\<close>

definition same_books :: "('b, 't) BunkerEscrow \<Rightarrow> ('b, 't) BunkerEscrow \<Rightarrow> bool" where
  "same_books s s' \<longleftrightarrow>
     be_reservations s' = be_reservations s \<and> be_reservationFeeBps s' = be_reservationFeeBps s \<and>
     be_feeBurnBps s' = be_feeBurnBps s \<and> be_feeTreasuryBps s' = be_feeTreasuryBps s \<and>
     be_treasury s' = be_treasury s \<and> be_protocolFeeBps s' = be_protocolFeeBps s \<and>
     be_lowBalanceThresholdBps s' = be_lowBalanceThresholdBps s \<and>
     be_nextReservationId s' = be_nextReservationId s \<and> be_base s' = be_base s \<and>
     be_stakingContract s' = be_stakingContract s"

definition paid_out ::
    "('b, 't) chain \<Rightarrow> address set \<Rightarrow> nat \<Rightarrow> ('b, 't) BunkerEscrow \<Rightarrow> ('b, 't) BunkerEscrow \<Rightarrow> bool" where
  "paid_out X A n s s' \<longleftrightarrow>
     same_books s s' \<and> held X s \<le> held X s' + n \<and> (x_this X \<notin> A \<longrightarrow> held X s = held X s' + n)"

lemma paid_out_trans:
  "paid_out X A n s s' \<Longrightarrow> paid_out X B m s' s'' \<Longrightarrow> paid_out X (A \<union> B) (n + m) s s''"
  by (auto simp: paid_out_def same_books_def)

lemma paid_out_refl: "paid_out X A 0 s s"
  by (simp add: paid_out_def same_books_def)

lemma paid_out_mono: "paid_out X A n s s' \<Longrightarrow> A \<subseteq> B \<Longrightarrow> paid_out X B n s s'"
  by (auto simp: paid_out_def)

lemma paid_out_emit: "paid_out X A n s s' \<Longrightarrow> paid_out X A n s (emit e s')"
  by (simp add: paid_out_def same_books_def held_def emit_def)

lemma paid_out_counters:
  "paid_out X A n (s\<lparr>be_totalBurned := a, be_totalTreasuryFees := b\<rparr>) s' \<longleftrightarrow> paid_out X A n s s'"
  by (simp add: paid_out_def same_books_def held_def)

lemma safeTransfer_pays:
  assumes "erc20_ok X" "safeTransfer X a n s = Inr s'"
  shows "paid_out X {a} n s s'"
proof -
  obtain t where t: "x_transfer X (x_this X) a n (be_ledger s) = Some t" "s' = s\<lparr>be_ledger := t\<rparr>"
    using assms(2) by (auto simp: safeTransfer_def call_simps)
  show ?thesis using transferD [OF assms(1) t(1)] t(2)
    by (auto simp: paid_out_def same_books_def held_def moved_def)
qed

lemma pay_if_pays: "erc20_ok X \<Longrightarrow> pay_if X a n s = Inr s' \<Longrightarrow> paid_out X {a} n s s'"
  by (auto simp: pay_if_def safeTransfer_pays paid_out_refl split: if_splits)

lemma burnTokens_pays:
  assumes "erc20_ok X" "burnTokens X n s = Inr s'"
  shows "paid_out X {} n s s'"
proof -
  obtain t where t: "x_burn X (x_this X) n (be_ledger s) = Some t" "s' = s\<lparr>be_ledger := t\<rparr>"
    using assms(2) by (auto simp: burnTokens_def call_simps)
  show ?thesis using burnD [OF assms(1) t(1)] t(2)
    by (simp add: paid_out_def same_books_def held_def)
qed

text \<open>A distribution pays out exactly its gross amount: fee, burn and dust included.\<close>

lemma shares_sum: "(n::nat) div 3 + (n - n div 3 * 3) + n div 3 + n div 3 = n"
  by presburger

lemma pay_providers_pays:
  assumes "erc20_ok X" "pay_providers X r n s = Inr s'"
  shows "paid_out X (providers_of r) n s s'"
proof -
  obtain p0 p1 p2 where ps: "r_providers r = (p0, p1, p2)" by (cases "r_providers r")
  obtain s1 s2 where
    p: "pay_if X p0 (n div 3 + (n - n div 3 * 3)) s = Inr s1" "pay_if X p1 (n div 3) s1 = Inr s2"
       "pay_if X p2 (n div 3) s2 = Inr s'"
    using assms(2)
    by (auto simp only: pay_providers_def Let_def call_simps PROVIDERS_PER_RESERVATION_def ps prod.case)
  note q = p [THEN pay_if_pays [OF assms(1)]]
  have "paid_out X (({p0} \<union> {p1}) \<union> {p2}) (n div 3 + (n - n div 3 * 3) + n div 3 + n div 3) s s'"
    by (rule paid_out_trans [OF paid_out_trans [OF q(1,2)] q(3)])
  then have "paid_out X (({p0} \<union> {p1}) \<union> {p2}) n s s'" by (simp only: shares_sum)
  then show ?thesis by (rule paid_out_mono) (simp add: providers_of_def ps)
qed

lemma distributePaymentE:
  assumes "distributePayment X rid r g s = Inr (x, s')"
  obtains fee burn s1 s2 where "fee = g * get_fee rid s div BPS_DENOMINATOR"
    "burn = fee * be_feeBurnBps s div BPS_DENOMINATOR" "fee \<le> g" "burn \<le> fee"
    "x = (fee, burn, fee - burn)"
    "(if burn > 0 then burnTokens X burn (s\<lparr>be_totalBurned := be_totalBurned s + burn,
        be_totalTreasuryFees := be_totalTreasuryFees s + (fee - burn)\<rparr>)
      else Inr (s\<lparr>be_totalBurned := be_totalBurned s + burn,
        be_totalTreasuryFees := be_totalTreasuryFees s + (fee - burn)\<rparr>)) = Inr s1"
    "pay_if X (be_treasury s1) (fee - burn) s1 = Inr s2"
    "pay_providers X r (g - fee) s2 = Inr s'"
  using assms unfolding distributePayment_def Let_def call_simps prod.inject sum.inject by metis

lemma distribute_pays:
  assumes "erc20_ok X" "distributePayment X rid r g s = Inr (x, s')"
  shows "paid_out X (insert (be_treasury s) (providers_of r)) g s s'"
  using assms(2)
proof (rule distributePaymentE)
  fix fee burn s1 s2
  let ?s0 = "s\<lparr>be_totalBurned := be_totalBurned s + burn,
               be_totalTreasuryFees := be_totalTreasuryFees s + (fee - burn)\<rparr>"
  assume le: "fee \<le> g" "burn \<le> fee"
    and b: "(if burn > 0 then burnTokens X burn ?s0 else Inr ?s0) = Inr s1"
    and t: "pay_if X (be_treasury s1) (fee - burn) s1 = Inr s2"
    and p: "pay_providers X r (g - fee) s2 = Inr s'"
  have "paid_out X {} burn ?s0 s1"
    using b assms(1) by (auto simp: burnTokens_pays paid_out_refl split: if_splits)
  then have 1: "paid_out X {} burn s s1" by (simp only: paid_out_counters)
  then have tr: "be_treasury s1 = be_treasury s" by (simp add: paid_out_def same_books_def)
  note 2 = pay_if_pays [OF assms(1) t] and 3 = pay_providers_pays [OF assms(1) p]
  have "paid_out X (({} \<union> {be_treasury s1}) \<union> providers_of r) (burn + (fee - burn) + (g - fee)) s s'"
    by (rule paid_out_trans [OF paid_out_trans [OF 1 2] 3])
  then show ?thesis using le tr by simp
qed

lemma distribute_if_pays:
  assumes "erc20_ok X" "distribute_if X rid r g s = Inr s'"
  shows "paid_out X (insert (be_treasury s) (providers_of r)) g s s'"
  using assms distribute_pays [OF assms(1), of rid r g s]
  by (auto simp: distribute_if_def call_simps paid_out_refl split: if_splits)

lemma checkLowBalance_pays:
  "checkLowBalance rid r s = Inr s' \<Longrightarrow> paid_out X {} 0 s s'"
  by (auto simp: checkLowBalance_def call_simps Let_def paid_out_refl paid_out_emit)

subsection \<open>Every call keeps the invariant\<close>

lemma owed_put:
  "msum owed (be_reservations (put_res rid r s)) + owed (get_res rid s) =
   msum owed (be_reservations s) + owed r"
  using msum_split [of owed "be_reservations s" rid]
  by (simp add: put_res_def get_res_def msum_upd owed_def zero_reservation_def split: option.splits)

lemma get_res_put [simp]: "get_res rid (put_res rid' r s) = (if rid = rid' then r else get_res rid s)"
  by (simp add: get_res_def put_res_def)

lemma held_put [simp]: "held X (put_res rid r s) = held X s"
  by (simp add: held_def put_res_def)

lemma config_ok_same: "same_books s s' \<Longrightarrow> config_ok s \<Longrightarrow> config_ok s'"
  by (simp add: same_books_def config_ok_def)

lemma external_same: "same_books s s' \<Longrightarrow> external X s \<Longrightarrow> external X s'"
  by (simp add: same_books_def external_def)

lemma same_books_put: "same_books s s' \<Longrightarrow> same_books (put_res rid r s) (put_res rid r s')"
  by (simp add: same_books_def put_res_def)

lemma external_put:
  "external X s \<Longrightarrow> rid < be_nextReservationId s \<and> x_this X \<notin> insert (r_requester r) (providers_of r) \<Longrightarrow>
   external X (put_res rid r s)"
  by (auto simp: external_def put_res_def intro!: fmpred_upd)

lemma config_ok_put [simp]: "config_ok (put_res rid r s) = config_ok s"
  by (simp add: config_ok_def put_res_def)

text \<open>The one rule behind all calls that change a reservation: what the contract holds
  changes by what it owes.\<close>

lemma inv_settle:
  assumes inv: "escrow_inv X strict s" and r: "res_ok r" and sb: "same_books (put_res rid r s) s'"
    and le: "held X s + owed r \<le> held X s' + owed (get_res rid s)"
    and ex: "strict \<Longrightarrow> rid < be_nextReservationId s \<and> x_this X \<notin> insert (r_requester r) (providers_of r)"
    and eq: "strict \<Longrightarrow> held X s + owed r = held X s' + owed (get_res rid s)"
  shows "escrow_inv X strict s'"
proof -
  have res: "be_reservations s' = fmupd rid r (be_reservations s)"
    using sb by (simp add: same_books_def put_res_def)
  have "fmpred (\<lambda>_. res_ok) (be_reservations s')"
    unfolding res using inv r by (intro fmpred_upd) (simp_all add: escrow_inv_def)
  moreover have "config_ok s'" using config_ok_same [OF sb] inv by (simp add: escrow_inv_def)
  moreover have "be_reservations (put_res rid r s) = be_reservations s'" using res by (simp add: put_res_def)
  then have sum: "msum owed (be_reservations s') + owed (get_res rid s) =
                  msum owed (be_reservations s) + owed r"
    using owed_put [of rid r s] by simp
  moreover have "msum owed (be_reservations s') \<le> held X s'"
    using sum le inv by (simp add: escrow_inv_def)
  moreover have "external X s'" "msum owed (be_reservations s') = held X s'" if strict
    using that sum eq inv external_same [OF sb external_put [OF _ ex]] by (auto simp: escrow_inv_def)
  ultimately show ?thesis by (simp add: escrow_inv_def)
qed

text \<open>A payment out of the contract that the reservation's books account for.\<close>

lemma inv_payout:
  assumes inv: "escrow_inv X strict s" and r: "res_ok r" and p: "paid_out X A n (put_res rid r s) s'"
    and o: "owed r + n = owed (get_res rid s)"
    and ex: "strict \<Longrightarrow> rid < be_nextReservationId s \<and> x_this X \<notin> insert (r_requester r) (providers_of r)"
    and A: "strict \<Longrightarrow> x_this X \<notin> A"
  shows "escrow_inv X strict s'"
  by (rule inv_settle [OF inv r _ _ ex]) (use p o A in \<open>auto simp: paid_out_def\<close>)

lemma inv_books:
  assumes "escrow_inv X strict s" "same_books s s'" "held X s' = held X s"
  shows "escrow_inv X strict s'"
  using assms(1,3) config_ok_same [OF assms(2)] external_same [OF assms(2), of X] assms(2)
  by (auto simp: escrow_inv_def same_books_def)

lemma get_res_ok:
  assumes "escrow_inv X strict s" "r_status (get_res rid s) \<noteq> SNone"
  shows "res_ok (get_res rid s)" "fmlookup (be_reservations s) rid = Some (get_res rid s)"
  using assms
  by (auto simp: get_res_def escrow_inv_def fmpred_iff zero_reservation_def split: option.splits)

lemma get_res_external:
  assumes "escrow_inv X strict s" "r_status (get_res rid s) \<noteq> SNone" "strict"
  shows "rid < be_nextReservationId s \<and>
    x_this X \<notin> insert (r_requester (get_res rid s)) (providers_of (get_res rid s))"
  using assms get_res_ok(2) [OF assms(1,2)] by (auto simp: escrow_inv_def external_def fmpred_iff)

lemma strict_treasury: "escrow_inv X strict s \<Longrightarrow> strict \<Longrightarrow> x_this X \<noteq> be_treasury s"
  by (simp add: escrow_inv_def external_def)

lemma providers_of_upd [simp]:
  "providers_of (r\<lparr>r_releasedAmount := a\<rparr>) = providers_of r"
  "providers_of (r\<lparr>r_status := b\<rparr>) = providers_of r"
  "providers_of (r\<lparr>r_totalAmount := a\<rparr>) = providers_of r"
  by (simp_all add: providers_of_def)

lemma proportional_total_le:
  assumes "proportional_total r p = Inr n" "p \<le> r_duration r"
  shows "n \<le> r_totalAmount r"
proof -
  have n: "n = r_totalAmount r * p div r_duration r" "r_duration r \<noteq> 0"
    using assms(1) by (auto simp: proportional_total_def call_simps)
  have "r_totalAmount r * p div r_duration r \<le> r_totalAmount r * r_duration r div r_duration r"
    using assms(2) by (intro div_le_mono) simp
  then show ?thesis using n by simp
qed

lemma inv_release_for:
  assumes X: "erc20_ok X" and inv: "escrow_inv X strict s" and st: "r_status (get_res rid s) = Active"
    and le: "p \<le> r_duration (get_res rid s)" and call: "release_for X rid (get_res rid s) p s = Inr s'"
  shows "escrow_inv X strict s'"
proof -
  let ?r = "get_res rid s"
  have ok: "res_ok ?r"
    and ex: "strict \<Longrightarrow> rid < be_nextReservationId s \<and> x_this X \<notin> insert (r_requester ?r) (providers_of ?r)"
    using get_res_ok [OF inv] get_res_external [OF inv] st by auto
  obtain n where n: "proportional_total ?r p = Inr n" using call by (auto simp: release_for_def call_simps)
  note n_le = proportional_total_le [OF n le]
  define r where "r = ?r\<lparr>r_releasedAmount := n\<rparr>"
  have cast: "u_cast 128 (n - r_releasedAmount ?r) = n - r_releasedAmount ?r"
    using n_le ok le_less_trans [OF diff_le_self [of n]] by (intro u_cast_id) (simp add: res_ok_def)
  obtain x s1 s2 e where gt: "r_releasedAmount ?r < n"
    and d: "distributePayment X rid r (n - r_releasedAmount ?r) (put_res rid r s) = Inr (x, s1)"
    and l: "checkLowBalance rid r s1 = Inr s2" and s': "s' = emit e s2"
    using call n cast by (auto simp: release_for_def call_simps Let_def r_def split: if_splits)
  have "paid_out X (insert (be_treasury (put_res rid r s)) (providers_of r) \<union> {}) (n - r_releasedAmount ?r + 0)
          (put_res rid r s) s'"
    unfolding s' by (intro paid_out_emit paid_out_trans [OF distribute_pays [OF X d] checkLowBalance_pays [OF l]])
  then have p: "paid_out X (insert (be_treasury s) (providers_of r)) (n - r_releasedAmount ?r) (put_res rid r s) s'"
    by (simp add: put_res_def)
  have "res_ok r" using ok st n_le by (simp add: res_ok_def r_def)
  from inv_payout [OF inv this p] show ?thesis
    using gt n_le ex strict_treasury [OF inv] by (simp add: owed_def r_def)
qed

lemma inv_create:
  assumes X: "erc20_ok X" and inv: "escrow_inv X strict s" and m: "m_sender m \<noteq> 0" "m_sender m \<noteq> x_this X"
    and n: "strict \<Longrightarrow> be_nextReservationId s + 1 < 2 ^ 256"
    and call: "createReservation X m a d s = Inr s'"
  shows "escrow_inv X strict s'"
proof -
  let ?id = "be_nextReservationId s"
  define r where "r = \<lparr> r_requester = m_sender m, r_totalAmount = a, r_releasedAmount = 0, r_duration = d,
    r_startTime = 0, r_status = Created, r_providers = (0, 0, 0) \<rparr>"
  define s0 where "s0 = s\<lparr>be_nextReservationId := u_cast 256 (?id + 1),
    be_reservationFeeBps := fmupd ?id (u_cast 16 (be_protocolFeeBps s)) (be_reservationFeeBps s)\<rparr>"
  have ad: "a \<noteq> 0" "d \<noteq> 0" "a < 2 ^ 128" "d < 2 ^ 48"
    using call by (auto simp: createReservation_def whenNotPaused_def split: if_splits)
  obtain t where t: "x_transferFrom X (x_this X) (m_sender m) (x_this X) a (be_ledger s) = Some t"
    and s': "same_books (put_res ?id r s0) s'" "be_ledger s' = t"
    using call ad
    by (auto simp: createReservation_def whenNotPaused_def safeTransferFrom_def call_simps Let_def
        put_res_def s0_def r_def same_books_def emit_def split: if_splits)
  have "config_ok s0" using inv u_cast_le [of 16 "be_protocolFeeBps s"]
    by (auto simp: escrow_inv_def config_ok_def s0_def intro!: fmpred_upd)
  moreover have "external X s0" if strict
    using that inv n [OF that] by (auto simp: escrow_inv_def external_def s0_def fmpred_iff less_SucI)
  ultimately have inv0: "escrow_inv X strict s0" using inv by (simp add: escrow_inv_def held_def s0_def)
  have ok: "res_ok r" using ad m by (simp add: res_ok_def r_def)
  have h: "held X s' = held X s0 + a" "owed r = a"
    using transferFromD [OF X t] m(2) s'(2) by (simp_all add: held_def s0_def moved_def owed_def r_def)
  have new: "get_res ?id s0 = zero_reservation" "?id < be_nextReservationId s0" "x_this X \<noteq> 0" if strict
    using that inv n [OF that]
    by (auto simp: escrow_inv_def external_def fmpred_iff get_res_def s0_def split: option.splits)
  show ?thesis
    by (rule inv_settle [OF inv0 ok s'(1)])
       (use h new m(2) in \<open>auto simp: owed_def zero_reservation_def r_def providers_of_def\<close>)
qed

lemma inv_increase:
  assumes X: "erc20_ok X" and inv: "escrow_inv X strict s" and m: "m_sender m \<noteq> 0" "m_sender m \<noteq> x_this X"
    and call: "increaseDeposit X m rid a s = Inr s'"
  shows "escrow_inv X strict s'"
proof -
  let ?r = "get_res rid s"
  define r where "r = ?r\<lparr>r_totalAmount := r_totalAmount ?r + a\<rparr>"
  have st: "r_status ?r = Created \<or> r_status ?r = Active" and lt: "r_totalAmount ?r + a < 2 ^ 128"
    using call by (auto simp: increaseDeposit_def whenNotPaused_def call_simps Let_def split: if_splits)
  then have st': "r_status ?r \<noteq> SNone" by auto
  obtain t where t: "x_transferFrom X (x_this X) (m_sender m) (x_this X) a (be_ledger s) = Some t"
    and s': "same_books (put_res rid r s) s'" "be_ledger s' = t"
    using call lt
    by (auto simp: increaseDeposit_def whenNotPaused_def safeTransferFrom_def call_simps Let_def
        put_res_def r_def same_books_def emit_def split: if_splits)
  have ok: "res_ok r" using get_res_ok(1) [OF inv st'] st lt by (auto simp: res_ok_def r_def)
  have h: "held X s' = held X s + a" "owed r = owed ?r + a"
    using transferFromD [OF X t] m(2) s'(2) get_res_ok(1) [OF inv st']
    by (simp_all add: held_def moved_def owed_def r_def res_ok_def)
  show ?thesis
    by (rule inv_settle [OF inv ok s'(1)])
       (use h get_res_external [OF inv st'] in \<open>auto simp: r_def\<close>)
qed

lemma inv_select:
  assumes inv: "escrow_inv X strict s" and ps: "strict \<Longrightarrow> x_this X \<notin> {p0, p1, p2}"
    and call: "selectProviders X m act rid (p0, p1, p2) s = Inr s'"
  shows "escrow_inv X strict s'"
proof -
  let ?r = "get_res rid s"
  define r where "r = ?r\<lparr>r_providers := (p0, p1, p2), r_startTime := u_cast 48 (m_time m), r_status := Active\<rparr>"
  have st: "r_status ?r = Created" and nz: "p0 \<noteq> 0" "p1 \<noteq> 0" "p2 \<noteq> 0"
    and s': "s' = emit (ProvidersSelected rid p0 p1 p2) (put_res rid r s)"
    using call
    by (auto simp: selectProviders_def onlyOperator_def whenNotPaused_def check_provider_def call_simps
        Let_def r_def split: if_splits)
  then have st': "r_status ?r \<noteq> SNone" by simp
  have ok: "res_ok r" using get_res_ok(1) [OF inv st'] nz by (simp add: res_ok_def r_def providers_of_def)
  have "paid_out X {} 0 (put_res rid r s) s'" unfolding s' by (intro paid_out_emit paid_out_refl)
  from inv_payout [OF inv ok this] show ?thesis
    using get_res_external [OF inv st'] ps by (simp add: owed_def r_def providers_of_def)
qed

lemma inv_finalize:
  assumes X: "erc20_ok X" and inv: "escrow_inv X strict s" and call: "finalizeReservation X m rid s = Inr s'"
  shows "escrow_inv X strict s'"
proof -
  let ?r = "get_res rid s"
  define r where "r = ?r\<lparr>r_releasedAmount := r_totalAmount ?r, r_status := Completed\<rparr>"
  have st: "r_status ?r = Active"
    using call by (auto simp: finalizeReservation_def onlyOperator_def Let_def split: if_splits)
  then have st': "r_status ?r \<noteq> SNone" by simp
  obtain s1 s2 e where
      d: "distribute_if X rid r (owed ?r) (put_res rid r s) = Inr s1"
    and l: "checkLowBalance rid r s1 = Inr s2" and s': "s' = emit e s2"
    using call st by (auto simp: finalizeReservation_def onlyOperator_def call_simps Let_def r_def owed_def
        split: if_splits)
  have "paid_out X (insert (be_treasury s) (providers_of r)) (owed ?r) (put_res rid r s) s1"
    using distribute_if_pays [OF X d] by (simp add: put_res_def)
  from paid_out_emit [OF paid_out_trans [OF this checkLowBalance_pays [OF l]], of e]
  have p: "paid_out X (insert (be_treasury s) (providers_of r)) (owed ?r) (put_res rid r s) s'"
    using s' by simp
  have "res_ok r" using get_res_ok(1) [OF inv st'] by (simp add: res_ok_def r_def)
  from inv_payout [OF inv this p] show ?thesis
    using get_res_external [OF inv st'] strict_treasury [OF inv] by (simp add: owed_def r_def)
qed

lemma inv_dispute:
  assumes X: "erc20_ok X" and inv: "escrow_inv X strict s" and call: "settleDispute X m rid a b s = Inr s'"
  shows "escrow_inv X strict s'"
proof -
  let ?r = "get_res rid s"
  define r where "r = ?r\<lparr>r_releasedAmount := r_totalAmount ?r, r_status := Disputed\<rparr>"
  have st: "r_status ?r = Active" and ab: "a + b = owed ?r"
    using call by (auto simp: settleDispute_def onlyOperator_def call_simps Let_def owed_def split: if_splits)
  then have st': "r_status ?r \<noteq> SNone" by simp
  obtain s1 s2 e where a: "pay_if X (r_requester r) a (put_res rid r s) = Inr s1"
    and b: "distribute_if X rid r b s1 = Inr s2"
    and s': "s' = emit e s2"
    using call st by (auto simp: settleDispute_def onlyOperator_def call_simps Let_def r_def owed_def
        split: if_splits)
  note 1 = pay_if_pays [OF X a]
  then have tr: "be_treasury s1 = be_treasury s" by (simp add: paid_out_def same_books_def put_res_def)
  have "paid_out X (insert (be_treasury s) (providers_of r)) b s1 s2"
    using distribute_if_pays [OF X b] tr by simp
  from paid_out_emit [OF paid_out_trans [OF 1 this], of e]
  have p: "paid_out X ({r_requester r} \<union> insert (be_treasury s) (providers_of r)) (owed ?r) (put_res rid r s) s'"
    using s' ab by simp
  have "res_ok r" using get_res_ok(1) [OF inv st'] by (simp add: res_ok_def r_def)
  from inv_payout [OF inv this p] show ?thesis
    using get_res_external [OF inv st'] strict_treasury [OF inv] by (simp add: owed_def r_def)
qed

lemma elapsed_le: "elapsed_time m r = Inr e \<Longrightarrow> e \<le> r_duration r"
  by (auto simp: elapsed_time_def call_simps split: if_splits)

lemma inv_settle_earned:
  assumes X: "erc20_ok X" and inv: "escrow_inv X strict s"
    and call: "settle_earned X m rid (get_res rid s) s = Inr (r, s')"
  shows "escrow_inv X strict s'" "get_res rid s' = r" "r_requester r = r_requester (get_res rid s)"
    "r_status r = r_status (get_res rid s)"
proof -
  let ?r = "get_res rid s"
  have "escrow_inv X strict s' \<and> get_res rid s' = r \<and> r_requester r = r_requester ?r \<and> r_status r = r_status ?r"
  proof (cases "s' = s \<and> r = ?r")
    case True
    then show ?thesis using inv by simp
  next
    case False
    obtain e n x s1 where st: "r_status ?r = Active" and e: "elapsed_time m ?r = Inr e"
      and n: "proportional_total ?r e = Inr n" and gt: "r_releasedAmount ?r < n"
      and d: "distributePayment X rid ?r (n - r_releasedAmount ?r) s = Inr (x, s1)"
      and r0: "r = ?r\<lparr>r_releasedAmount := r_releasedAmount ?r + u_cast 128 (n - r_releasedAmount ?r)\<rparr>"
      and s': "s' = put_res rid r s1"
      using call False by (auto simp: settle_earned_def call_simps Let_def split: if_splits)
    have st': "r_status ?r \<noteq> SNone" using st by simp
    note ok = get_res_ok(1) [OF inv st'] and n_le = proportional_total_le [OF n elapsed_le [OF e]]
    have "u_cast 128 (n - r_releasedAmount ?r) = n - r_releasedAmount ?r"
      using n_le ok le_less_trans [OF diff_le_self [of n]] by (intro u_cast_id) (simp add: res_ok_def)
    then have r: "r = ?r\<lparr>r_releasedAmount := n\<rparr>" using r0 gt by simp
    note p = distribute_pays [OF X d]
    have "same_books (put_res rid r s) s'"
      unfolding s' using p by (intro same_books_put) (simp add: paid_out_def)
    moreover have "res_ok r" using ok st n_le by (simp add: r res_ok_def)
    moreover have "held X s + owed r \<le> held X s' + owed ?r"
      using p gt n_le by (auto simp: s' owed_def r paid_out_def)
    moreover have "held X s + owed r = held X s' + owed ?r" if strict
      using p gt n_le that strict_treasury [OF inv that] get_res_external [OF inv st' that]
      by (auto simp: s' owed_def r paid_out_def)
    ultimately have "escrow_inv X strict s'"
      using get_res_external [OF inv st'] by (intro inv_settle [OF inv]) (auto simp: r)
    then show ?thesis by (simp add: s' r)
  qed
  then show "escrow_inv X strict s'" "get_res rid s' = r" "r_requester r = r_requester ?r"
    "r_status r = r_status ?r" by auto
qed

lemma inv_refund:
  assumes X: "erc20_ok X" and inv: "escrow_inv X strict s" and call: "refund X m rid s = Inr s'"
  shows "escrow_inv X strict s'"
proof -
  have st: "r_status (get_res rid s) \<in> {Active, Created}"
    using call by (auto simp: refund_def Let_def split: if_splits)
  obtain r1 s1 s2 e where se: "settle_earned X m rid (get_res rid s) s = Inr (r1, s1)"
    and p: "pay_if X (r_requester r1) (owed r1)
        (put_res rid (r1\<lparr>r_releasedAmount := r_totalAmount r1, r_status := Refunded\<rparr>) s1) = Inr s2"
    and s': "s' = emit e s2"
    using call by (auto simp: refund_def call_simps Let_def owed_def split: if_splits)
  note 1 = inv_settle_earned [OF X inv se]
  define r where "r = r1\<lparr>r_releasedAmount := r_totalAmount r1, r_status := Refunded\<rparr>"
  have st': "r_status (get_res rid s1) \<noteq> SNone" using 1 st by auto
  have p': "paid_out X {r_requester r} (owed r1) (put_res rid r s1) s'"
    unfolding s' using pay_if_pays [OF X p] by (intro paid_out_emit) (simp add: r_def)
  have "res_ok r" using get_res_ok(1) [OF 1(1) st'] 1(2) by (simp add: r_def res_ok_def)
  from inv_payout [OF 1(1) this p'] show ?thesis
    using get_res_external [OF 1(1) st'] 1(2) by (simp add: owed_def r_def)
qed

lemma inv_admin:
  assumes inv: "escrow_inv X strict s"
  shows "setProtocolFee X m n s = Inr s' \<Longrightarrow> escrow_inv X strict s'"
    and "setTreasury X m a s = Inr s' \<Longrightarrow> (strict \<Longrightarrow> a \<noteq> x_this X) \<Longrightarrow> escrow_inv X strict s'"
    and "setLowBalanceThreshold X m n s = Inr s' \<Longrightarrow> escrow_inv X strict s'"
    and "setStakingContract X m a s = Inr s' \<Longrightarrow> escrow_inv X strict s'"
    and "setFeeSplit X m n n' s = Inr s' \<Longrightarrow> escrow_inv X strict s'"
    and "pause X m s = Inr s' \<Longrightarrow> escrow_inv X strict s'"
    and "unpause X m s = Inr s' \<Longrightarrow> escrow_inv X strict s'"
  using inv
  by (auto simp: escrow_inv_def config_ok_def external_def held_def emit_def onlyOwner_def call_simps
      setProtocolFee_def setTreasury_def setLowBalanceThreshold_def setStakingContract_def setFeeSplit_def
      pause_def unpause_def MAX_PROTOCOL_FEE_BPS_def BPS_DENOMINATOR_def split: if_splits)

lemma inv_env:
  assumes "escrow_inv X strict s"
  shows "escrow_inv X strict (s\<lparr>be_base := b\<rparr>)"
    and "op_env_ok X strict (EnvLedger t) s \<Longrightarrow> escrow_inv X strict (s\<lparr>be_ledger := t\<rparr>)"
  using assms by (auto simp: escrow_inv_def config_ok_def external_def held_def)

lemma inv_claim:
  assumes "erc20_ok X" "escrow_inv X strict s" "claim X m rid s = Inr s'"
  shows "escrow_inv X strict s'"
proof -
  obtain e where "r_status (get_res rid s) = Active" "elapsed_time m (get_res rid s) = Inr e"
    "release_for X rid (get_res rid s) e s = Inr s'"
    using assms(3) by (auto simp: claim_def whenNotPaused_def Let_def call_simps split: if_splits)
  then show ?thesis using inv_release_for [OF assms(1,2)] elapsed_le by blast
qed

lemma inv_releasePayment:
  assumes "erc20_ok X" "escrow_inv X strict s" "releasePayment X m rid d s = Inr s'"
  shows "escrow_inv X strict s'"
proof -
  have "r_status (get_res rid s) = Active" "d \<le> r_duration (get_res rid s)"
    "release_for X rid (get_res rid s) d s = Inr s'"
    using assms(3)
    by (auto simp: releasePayment_def onlyOperator_def whenNotPaused_def Let_def split: if_splits)
  then show ?thesis by (rule inv_release_for [OF assms(1,2)])
qed

lemma escrow_call_inv:
  assumes X: "erc20_ok X" and inv: "escrow_inv X strict s" and ok: "escrow_op_ok X strict op s"
    and call: "escrow_call X op s = Inr s'"
  shows "escrow_inv X strict s'"
proof (cases op)
  case (OpCreate m a d)
  then show ?thesis using inv_create [OF X inv, of m a d s'] ok call by (simp add: escrow_op_ok_def)
next
  case (OpIncrease m rid a)
  then show ?thesis using inv_increase [OF X inv, of m rid a s'] ok call by (simp add: escrow_op_ok_def)
next
  case (OpSelect m act rid ps)
  then show ?thesis using inv_select [OF inv] ok call by (cases ps) (force simp: escrow_op_ok_def)
next
  case (OpSetTreasury m a)
  then show ?thesis using inv_admin(2) [OF inv, of m a s'] ok call by (simp add: escrow_op_ok_def)
next
  case (EnvLedger t)
  then show ?thesis using inv_env(2) [OF inv, of t] ok call by (simp add: escrow_op_ok_def)
qed (use call inv_claim [OF X inv] inv_releasePayment [OF X inv] inv_finalize [OF X inv] inv_refund [OF X inv]
      inv_dispute [OF X inv] inv_admin(1,3-7) [OF inv] inv_env(1) [OF inv] in \<open>auto\<close>)

interpretation escrow_runs:
  guarded_machine "escrow_step X" "escrow_op_ok X strict" "\<lambda>s. erc20_ok X \<and> escrow_inv X strict s" for X strict
proof
  fix s op
  assume "erc20_ok X \<and> escrow_inv X strict s" "escrow_op_ok X strict op s"
  then have X: "erc20_ok X" and inv: "escrow_inv X strict s" and ok: "escrow_op_ok X strict op s" by auto
  have "escrow_inv X strict (escrow_step X op s)"
    unfolding escrow_step_def by (rule commit_inv [where P = "escrow_inv X strict", OF inv escrow_call_inv [OF X inv ok]])
  then show "erc20_ok X \<and> escrow_inv X strict (escrow_step X op s)" using X by simp
qed

subsection \<open>Payments that cannot fail\<close>

lemma pay_if_succeeds:
  assumes X: "erc20_ok X" and "a \<noteq> 0" "n \<le> held X s"
  obtains s' where "pay_if X a n s = Inr s'" "paid_out X {a} n s s'"
proof -
  obtain t where "x_transfer X (x_this X) a n (be_ledger s) = Some t"
    by (rule transfer_succeeds [OF X assms(2)]) (use assms(3) in \<open>auto simp: held_def\<close>)
  then have "\<exists>s'. pay_if X a n s = Inr s'" by (simp add: pay_if_def safeTransfer_def of_call_def)
  then show ?thesis using that pay_if_pays [OF X] by blast
qed

lemma burnTokens_succeeds:
  assumes X: "erc20_ok X" and "n \<le> held X s"
  obtains s' where "burnTokens X n s = Inr s'" "paid_out X {} n s s'"
proof -
  obtain t where "x_burn X (x_this X) n (be_ledger s) = Some t"
    by (rule burn_succeeds [OF X]) (use assms(2) in \<open>auto simp: held_def\<close>)
  then have "\<exists>s'. burnTokens X n s = Inr s'" by (simp add: burnTokens_def of_call_def)
  then show ?thesis using that burnTokens_pays [OF X] by blast
qed

lemma pay_providers_succeeds:
  assumes X: "erc20_ok X" and z: "0 \<notin> providers_of r" and n: "n \<le> held X s" "n < 2 ^ 128"
  obtains s' where "pay_providers X r n s = Inr s'"
proof -
  obtain p0 p1 p2 where ps: "r_providers r = (p0, p1, p2)" by (cases "r_providers r")
  let ?q = "n div 3" and ?f = "n div 3 + (n - n div 3 * 3)"
  have nz: "p0 \<noteq> 0" "p1 \<noteq> 0" "p2 \<noteq> 0" using z ps by (auto simp: providers_of_def)
  note sum = shares_sum [of n]
  obtain s1 where 1: "pay_if X p0 ?f s = Inr s1" "paid_out X {p0} ?f s s1"
    by (rule pay_if_succeeds [OF X nz(1), of ?f s]) (use n(1) sum in linarith)
  obtain s2 where 2: "pay_if X p1 ?q s1 = Inr s2" "paid_out X {p1} ?q s1 s2"
    by (rule pay_if_succeeds [OF X nz(2), of ?q s1]) (use n(1) sum 1(2) in \<open>unfold paid_out_def, linarith\<close>)
  obtain s3 where 3: "pay_if X p2 ?q s2 = Inr s3"
    by (rule pay_if_succeeds [OF X nz(3), of ?q s2]) (use n(1) sum 1(2) 2(2) in \<open>unfold paid_out_def, linarith\<close>)
  have "?q * 3 \<le> n" "?q * 3 < 2 ^ 256" "?f < 2 ^ 256" using n(2) by (auto intro: le_less_trans)
  then have "pay_providers X r n s = Inr s3"
    using 1(1) 2(1) 3
    by (simp only: pay_providers_def Let_def PROVIDERS_PER_RESERVATION_def u_ok rbind_simps ps prod.case)
  then show ?thesis by (rule that)
qed

lemma get_fee_le: "config_ok s \<Longrightarrow> get_fee rid s \<le> 2000"
  by (auto simp: config_ok_def get_fee_def fmpred_iff split: option.splits)

lemma bps_share: "b \<le> 10000 \<Longrightarrow> n * b div 10000 \<le> (n::nat)"
  using div_le_mono [OF mult_le_mono2 [of b 10000 n], of 10000] by simp

lemma distribute_succeeds:
  assumes X: "erc20_ok X" and c: "config_ok s" and z: "0 \<notin> providers_of r"
    and g: "g \<le> held X s" "g < 2 ^ 128"
    and totals: "be_totalBurned s + g < 2 ^ 256" "be_totalTreasuryFees s + g < 2 ^ 256"
  obtains x s' where "distributePayment X rid r g s = Inr (x, s')"
proof -
  let ?f = "get_fee rid s" and ?b = "be_feeBurnBps s"
  have bps: "?f \<le> 2000" "?b \<le> 10000" using get_fee_le [OF c] c by (auto simp: config_ok_def)
  define fee where "fee = g * ?f div BPS_DENOMINATOR"
  define burn where "burn = fee * ?b div BPS_DENOMINATOR"
  have le: "fee \<le> g" "burn \<le> fee"
    using bps_share [of ?f g] bps_share [of ?b fee] bps by (simp_all add: fee_def burn_def BPS_DENOMINATOR_def)
  have ov: "g * ?f < 2 ^ 256" "fee * ?b < 2 ^ 256"
    using mult_le_mono [of g "2 ^ 128" ?f 2000] mult_le_mono [of fee "2 ^ 128" ?b 10000] bps g le by simp_all
  define s0 where "s0 = s\<lparr>be_totalBurned := be_totalBurned s + burn,
                          be_totalTreasuryFees := be_totalTreasuryFees s + (fee - burn)\<rparr>"
  have h0: "held X s0 = held X s" and t0: "be_treasury s0 = be_treasury s" by (simp_all add: s0_def held_def)
  obtain s1 where 1: "(if burn > 0 then burnTokens X burn s0 else Inr s0) = Inr s1" "paid_out X {} burn s0 s1"
  proof (cases "burn > 0")
    case True
    obtain s1 where "burnTokens X burn s0 = Inr s1" "paid_out X {} burn s0 s1"
      by (rule burnTokens_succeeds [OF X, of burn s0]) (use h0 g(1) le in linarith)
    then show ?thesis using that True by simp
  qed (use that paid_out_refl [of X "{}" s0] in simp)
  have tr: "be_treasury s1 \<noteq> 0" using 1(2) c t0 by (simp add: paid_out_def same_books_def config_ok_def)
  obtain s2 where 2: "pay_if X (be_treasury s1) (fee - burn) s1 = Inr s2"
    "paid_out X {be_treasury s1} (fee - burn) s1 s2"
    by (rule pay_if_succeeds [OF X tr, of "fee - burn" s1])
       (use 1(2) h0 g(1) le in \<open>unfold paid_out_def, linarith\<close>)
  obtain s3 where 3: "pay_providers X r (g - fee) s2 = Inr s3"
    by (rule pay_providers_succeeds [OF X z, of "g - fee" s2])
       (use 1(2) 2(2) h0 g le in \<open>unfold paid_out_def, linarith\<close>)+
  have "be_totalBurned s + burn < 2 ^ 256" "be_totalTreasuryFees s + (fee - burn) < 2 ^ 256"
    using totals le by linarith+
  then have "distributePayment X rid r g s = Inr ((fee, burn, fee - burn), s3)"
    using ov le 1(1) 2(1) 3
    by (simp only: distributePayment_def Let_def u_ok rbind_simps fee_def [symmetric] burn_def [symmetric]
        s0_def [symmetric])
  then show ?thesis by (rule that)
qed

text \<open>What a period has earned, and the reservation after it has been paid.\<close>

definition earned :: "Reservation \<Rightarrow> nat \<Rightarrow> nat" where
  "earned r now = r_totalAmount r * min (now - r_startTime r) (r_duration r) div r_duration r"

lemma proportional_ok:
  assumes "res_ok r" "p \<le> r_duration r"
  shows "proportional_total r p = Inr (r_totalAmount r * p div r_duration r)"
proof -
  have "r_totalAmount r * p \<le> 2 ^ 128 * 2 ^ 48" using assms by (intro mult_le_mono) (auto simp: res_ok_def)
  then have "r_totalAmount r * p < 2 ^ 256" by (rule le_less_trans) simp
  moreover have "r_duration r \<noteq> 0" using assms by (simp add: res_ok_def)
  ultimately show ?thesis by (simp only: proportional_total_def u_ok rbind_simps not_False_eq_True)
qed

lemma elapsed_ok:
  "r_startTime r \<le> m_time m \<Longrightarrow> elapsed_time m r = Inr (min (m_time m - r_startTime r) (r_duration r))"
  by (simp add: elapsed_time_def u_ok min_def)

lemma earned_le: "res_ok r \<Longrightarrow> earned r now \<le> r_totalAmount r"
  using proportional_total_le [OF proportional_ok, of r "min (now - r_startTime r) (r_duration r)"]
  by (simp add: earned_def)

lemma owed_le_held: "escrow_inv X strict s \<Longrightarrow> owed (get_res rid s) \<le> held X s"
  using msum_ge [of "be_reservations s" rid _ owed]
  by (auto simp: get_res_def escrow_inv_def owed_def zero_reservation_def split: option.splits
      intro: order_trans)

lemma settle_earned_succeeds:
  assumes X: "erc20_ok X" and inv: "escrow_inv X strict s"
    and st: "r_status (get_res rid s) = Created \<or>
             r_status (get_res rid s) = Active \<and> r_startTime (get_res rid s) \<le> m_time m"
    and totals: "be_totalBurned s + r_totalAmount (get_res rid s) < 2 ^ 256"
      "be_totalTreasuryFees s + r_totalAmount (get_res rid s) < 2 ^ 256"
  obtains s' where "settle_earned X m rid (get_res rid s) s =
    Inr ((get_res rid s)\<lparr>r_releasedAmount := if r_status (get_res rid s) = Active
           then max (r_releasedAmount (get_res rid s)) (earned (get_res rid s) (m_time m)) else 0\<rparr>, s')"
proof (cases "r_status (get_res rid s) = Active \<and> r_releasedAmount (get_res rid s) < earned (get_res rid s) (m_time m)")
  case False
  have ok: "res_ok (get_res rid s)" using get_res_ok(1) [OF inv] st by auto
  have "settle_earned X m rid (get_res rid s) s = Inr ((get_res rid s)\<lparr>r_releasedAmount :=
      if r_status (get_res rid s) = Active
      then max (r_releasedAmount (get_res rid s)) (earned (get_res rid s) (m_time m)) else 0\<rparr>, s)"
    using False st ok proportional_ok [OF ok]
    by (auto simp: settle_earned_def elapsed_ok earned_def res_ok_def)
  then show ?thesis by (rule that)
next
  case True
  let ?r = "get_res rid s" and ?e = "earned (get_res rid s) (m_time m)"
  have ok: "res_ok ?r" using get_res_ok(1) [OF inv] True by auto
  note e = earned_le [OF ok, of "m_time m"]
  have c: "config_ok s" using inv by (simp add: escrow_inv_def)
  have t: "r_totalAmount ?r < 2 ^ 128" "0 \<notin> providers_of ?r" using ok True by (auto simp: res_ok_def)
  have g: "?e - r_releasedAmount ?r \<le> held X s" "?e - r_releasedAmount ?r < 2 ^ 128"
    using owed_le_held [OF inv, of rid] e t(1) by (auto simp: owed_def)
  obtain x s1 where d: "distributePayment X rid ?r (?e - r_releasedAmount ?r) s = Inr (x, s1)"
    by (rule distribute_succeeds [OF X c t(2) g, of rid]) (use totals e in linarith)+
  have "u_cast 128 (?e - r_releasedAmount ?r) = ?e - r_releasedAmount ?r" using g(2) by (rule u_cast_id)
  then have "settle_earned X m rid ?r s = Inr (?r\<lparr>r_releasedAmount := ?e\<rparr>, put_res rid (?r\<lparr>r_releasedAmount := ?e\<rparr>) s1)"
    using True st d e t(1) proportional_ok [OF ok, of "min (m_time m - r_startTime ?r) (r_duration ?r)"]
    by (simp add: settle_earned_def elapsed_ok earned_def [symmetric] u_ok)
  then show ?thesis using that True by simp
qed

lemma refund_succeeds:
  assumes X: "erc20_ok X" and inv: "escrow_inv X strict s"
    and st: "r_status (get_res rid s) = Created \<or>
             r_status (get_res rid s) = Active \<and> r_startTime (get_res rid s) \<le> m_time m"
    and who: "m_sender m = r_requester (get_res rid s)"
    and totals: "be_totalBurned s + r_totalAmount (get_res rid s) < 2 ^ 256"
      "be_totalTreasuryFees s + r_totalAmount (get_res rid s) < 2 ^ 256"
  obtains s' l where "refund X m rid s = Inr s'" "r_status (get_res rid s') = Refunded"
    "be_events s' = l @ [RefundedEvent rid (r_requester (get_res rid s)) (r_totalAmount (get_res rid s) -
       (if r_status (get_res rid s) = Active
        then max (r_releasedAmount (get_res rid s)) (earned (get_res rid s) (m_time m)) else 0))]"
proof -
  let ?r = "get_res rid s"
  define n where "n = (if r_status ?r = Active then max (r_releasedAmount ?r) (earned ?r (m_time m)) else 0)"
  define r1 where "r1 = ?r\<lparr>r_releasedAmount := n\<rparr>"
  have ok: "res_ok ?r" using get_res_ok(1) [OF inv] st by auto
  have n: "n \<le> r_totalAmount ?r" using earned_le [OF ok] ok by (simp add: n_def res_ok_def)
  obtain s1 where se: "settle_earned X m rid ?r s = Inr (r1, s1)"
    unfolding r1_def n_def by (rule settle_earned_succeeds [OF X inv st totals])
  note 1 = inv_settle_earned [OF X inv se]
  define r where "r = r1\<lparr>r_releasedAmount := r_totalAmount r1, r_status := Refunded\<rparr>"
  have "owed r1 \<le> held X (put_res rid r s1)" using owed_le_held [OF 1(1), of rid] 1(2) by simp
  moreover have nz: "r_requester r \<noteq> 0" using ok by (simp add: r_def r1_def res_ok_def)
  ultimately obtain s2 where p: "pay_if X (r_requester r) (owed r1) (put_res rid r s1) = Inr s2"
    and s2: "paid_out X {r_requester r} (owed r1) (put_res rid r s1) s2"
    using pay_if_succeeds [OF X nz] by metis
  define s' where "s' = emit (RefundedEvent rid (r_requester r) (owed r1)) s2"
  have "refund X m rid s = Inr s'"
    using se p n st who
    by (auto simp: refund_def Let_def u_ok owed_def r_def r1_def s'_def)
  moreover have "r_status (get_res rid s') = Refunded"
    using s2 by (simp add: s'_def emit_def paid_out_def same_books_def get_res_def put_res_def r_def)
  moreover have "be_events s' = be_events s2 @ [RefundedEvent rid (r_requester ?r) (r_totalAmount ?r - n)]"
    by (simp add: s'_def emit_def r_def r1_def owed_def)
  ultimately show ?thesis by (intro that) (simp_all add: n_def)
qed

subsection \<open>The initial state and an example\<close>

lemma inv_constructor:
  assumes "BunkerEscrow_constructor tok tre own b t = Inr s"
  shows "escrow_inv X False s"
    and "x_this X \<noteq> 0 \<Longrightarrow> tre \<noteq> x_this X \<Longrightarrow> x_balanceOf X t (x_this X) = 0 \<Longrightarrow> escrow_inv X True s"
  using assms
  by (auto simp: BunkerEscrow_constructor_def escrow_inv_def config_ok_def external_def held_def split: if_splits)

definition example_escrow :: "(unit, address \<Rightarrow> nat) BunkerEscrow" where
  "example_escrow = projr (BunkerEscrow_constructor 10 3 1 () (\<lambda>x. if x = 5 then 1000 else 0))"

definition example_run :: "(unit, address \<Rightarrow> nat) escrow_op list" where
  "example_run = [OpCreate \<lparr>m_sender = 5, m_time = 0\<rparr> 101 10,
                  OpSelect \<lparr>m_sender = 2, m_time = 100\<rparr> (\<lambda>_ _. True) 1 (6, 7, 8),
                  OpClaim \<lparr>m_sender = 7, m_time = 103\<rparr> 1]"

definition example_active :: "(unit, address \<Rightarrow> nat) BunkerEscrow" where
  "example_active = fold (escrow_step (plain_chain 99)) example_run example_escrow"

lemma example_constructor:
  "BunkerEscrow_constructor 10 3 1 () (\<lambda>x. if x = 5 then 1000 else 0) = Inr example_escrow"
  by (simp add: example_escrow_def BunkerEscrow_constructor_def)

lemmas escrow_eval = escrow_step_def createReservation_def selectProviders_def claim_def
  release_for_def elapsed_time_def proportional_total_def distributePayment_def pay_providers_def
  checkLowBalance_def check_provider_def is_provider_def onlyOperator_def whenNotPaused_def
  safeTransferFrom_def safeTransfer_def burnTokens_def pay_if_def of_call_def put_res_def get_res_def
  get_fee_def emit_def moved_def u_add_def u_sub_def u_mul_def u_div_def u_cast_def
  PROVIDERS_PER_RESERVATION_def BPS_DENOMINATOR_def plain_chain_def Let_def

lemma example_active_res:
  "get_res 1 example_active = \<lparr>r_requester = 5, r_totalAmount = 101, r_releasedAmount = 30,
     r_duration = 10, r_startTime = 100, r_status = Active, r_providers = (6, 7, 8)\<rparr>"
  "be_totalBurned example_active = 0" "be_totalTreasuryFees example_active = 1"
  by (simp_all add: example_active_def example_run_def example_escrow_def BunkerEscrow_constructor_def
      escrow_eval)

subsection \<open>Properties\<close>

text \<open>C1. Through any sequence of calls by anybody to the escrow contract, interleaved with any
  role changes and any token transfers of other accounts, the contract's token balance covers
  the unreleased amounts of all reservations, no reservation releases more than its total, and
  every settled one has released exactly its total.\<close>

theorem escrow_contract_solvent:
  assumes "erc20_ok X" "BunkerEscrow_constructor tok tre own b t = Inr s0"
    and "run_ok (escrow_step X) (escrow_op_ok X False) ops s0"
    and "s = fold (escrow_step X) ops s0"
  shows "msum owed (be_reservations s) \<le> x_balanceOf X (be_ledger s) (x_this X) \<and>
         (\<forall>rid r. fmlookup (be_reservations s) rid = Some r \<longrightarrow>
            r_releasedAmount r \<le> r_totalAmount r \<and>
            (r_status r \<in> {Completed, Refunded, Disputed} \<longrightarrow> r_releasedAmount r = r_totalAmount r))"
proof -
  have "escrow_inv X False s"
    using escrow_runs.run_inv [OF _ assms(3)] inv_constructor(1) [OF assms(2)] assms(1,4) by auto
  then show ?thesis by (auto simp: escrow_inv_def held_def fmpred_iff res_ok_def)
qed

theorem escrow_contract_solvent_witness:
  "msum owed (be_reservations example_active) \<le> x_balanceOf (plain_chain 99) (be_ledger example_active) 99"
  using escrow_contract_solvent [OF plain_chain_ok example_constructor, of 99 example_run example_active]
  by (simp add: example_active_def example_run_def escrow_op_ok_def) (simp add: plain_chain_def)

text \<open>C2. If the contract started without tokens, receives no gifts and is not its own treasury,
  requester or provider, its balance is at all times exactly what it still owes: every release,
  finalisation, refund and settlement pays out to the wei what it takes off the books, fee,
  burn and rounding dust included.\<close>

theorem escrow_contract_exact:
  assumes "erc20_ok X" "BunkerEscrow_constructor tok tre own b t = Inr s0"
    and "x_this X \<noteq> 0" "tre \<noteq> x_this X" "x_balanceOf X t (x_this X) = 0"
    and "run_ok (escrow_step X) (escrow_op_ok X True) ops s0"
    and "s = fold (escrow_step X) ops s0"
  shows "x_balanceOf X (be_ledger s) (x_this X) = msum owed (be_reservations s)"
proof -
  have "escrow_inv X True s"
    using escrow_runs.run_inv [OF _ assms(6)] inv_constructor(2) [OF assms(2-5)] assms(1,7) by auto
  then show ?thesis by (simp add: escrow_inv_def held_def)
qed

theorem escrow_contract_exact_witness:
  "be_ledger example_active 99 = msum owed (be_reservations example_active)"
proof -
  have "run_ok (escrow_step (plain_chain 99)) (escrow_op_ok (plain_chain 99) True) example_run example_escrow"
    by (simp add: example_run_def escrow_op_ok_def plain_chain_def example_escrow_def BunkerEscrow_constructor_def)
  from escrow_contract_exact [OF plain_chain_ok example_constructor _ _ _ this, of example_active]
  show ?thesis by (simp add: example_active_def plain_chain_def)
qed



end
