(* ===== verification/Bunker_Staking.thy ===== *)
theory Bunker_Staking
  imports Evm_Base
begin

text \<open>
  The staking contract (\<^verbatim>\<open>src/contracts/src/BunkerStaking.sol\<close>): provider stakes with tiers and
  an unbonding queue, beneficiaries, freezing, slashing with proposals and appeals, rewards with
  vesting, and the owner's parameters.  Every external function that changes storage is a
  definition; events, which no function reads, are left out.  The state record holds the
  storage, the state \<open>bs_base\<close> of the inherited base contracts and the ledger \<open>bs_ledger\<close> of the
  token.
\<close>

datatype Tier = TierNone | Starter | Bronze | Silver | Gold | Platinum

datatype SlashReason =
    ReasonNone | Downtime | JobAbandonment | SecurityViolation | Fraud | SLAViolation | DataLoss

record TierConfig =
  tc_minStake :: nat
  tc_maxConcurrentJobs :: nat
  tc_rewardMultiplierBps :: nat
  tc_priorityQueue :: bool
  tc_governance :: bool

record UnstakeRequest =
  uq_amount :: nat
  uq_unlockTime :: nat
  uq_completed :: bool

record PendingBeneficiary =
  pb_newBeneficiary :: address
  pb_effectiveTime :: nat

record SlashProposal =
  slp_provider :: address
  slp_amount :: nat
  slp_reason :: string
  slp_proposedAt :: nat
  slp_executed :: bool
  slp_appealed :: bool
  slp_resolved :: bool
  slp_slashReason :: SlashReason
  slp_appealWindowSnapshot :: nat
  slp_slashBurnBpsSnapshot :: nat

record ProviderInfo =
  pi_stakedAmount :: nat
  pi_totalUnbonding :: nat
  pi_beneficiary :: address
  pi_registeredAt :: nat
  pi_active :: bool
  pi_nodeId :: node_id
  pi_region :: node_id
  pi_capabilities :: nat
  pi_frozen :: bool

record VestedReward =
  vr_totalAmount :: nat
  vr_releasedAmount :: nat
  vr_vestingStart :: nat

datatype staking_revert =
    StkZeroAmount | BelowMinimumStake nat nat | InsufficientStake nat nat
  | UnbondingNotReady nat nat | UnstakeAlreadyCompleted nat | InvalidUnstakeIndex nat nat
  | ProviderNotActive address | BeneficiaryTimelockNotElapsed nat nat
  | NoPendingBeneficiaryChange address | StkZeroAddress | InsufficientSlashableBalance nat nat
  | NoRewardsToClaimError | RewardDurationNotFinished | RewardsDurationZero
  | RewardRateTooHigh nat nat | InvalidProposalId nat | ProposalAlreadyExecuted nat
  | ProposalAppealed nat | AppealWindowNotElapsed nat nat | AppealWindowElapsed nat
  | NotProposalProvider nat address | ProposalAlreadyAppealed nat | ProposalNotAppealed nat
  | ProposalAlreadyResolved nat | CannotConfigureNoneTier | TierOrderViolation Tier nat Tier nat
  | NodeIdAlreadyClaimed node_id | ProviderIsFrozen address | InvalidSlashReason
  | InvalidImmediateReleaseBps nat | NoVestedRewardsClaimable | InvalidSlashPercentage nat
  | InvalidEmissionMultiplier nat | InvalidVestingPeriod | TooManyUnstakeRequests
  | UseUpdateIdentity | MultiplierTooLow | MultiplierTooHigh | InvalidMultiplierCap
  | InvalidUnbondingPeriod | StkInvalidFeeSplit | InvalidAppealWindow | SlashingNotEnabled

record ('b, 't) BunkerStaking =
  bs_unbondingPeriod :: nat
  bs_slashBurnBps :: nat
  bs_slashTreasuryBps :: nat
  bs_maxTierMultiplierBps :: nat
  bs_appealWindow :: nat
  bs_treasury :: address
  bs_totalStaked :: nat
  bs_totalUnbonding :: nat
  bs_providers :: "(address, ProviderInfo) gomap"
  bs_unstakeQueues :: "(address, UnstakeRequest list) gomap"
  bs_pendingBeneficiaries :: "(address, PendingBeneficiary) gomap"
  bs_tierConfigs :: "Tier \<Rightarrow> TierConfig"
  bs_rewardsDuration :: nat
  bs_rewardRate :: nat
  bs_periodFinish :: nat
  bs_lastUpdateTime :: nat
  bs_rewardPerTokenStored :: nat
  bs_userRewardPerTokenPaid :: "(address, nat) gomap"
  bs_rewards :: "(address, nat) gomap"
  bs_slashProposalCount :: nat
  bs_slashProposals :: "(nat, SlashProposal) gomap"
  bs_nodeIdToProvider :: "(node_id, address) gomap"
  bs_slashPercentageBps :: "SlashReason \<Rightarrow> nat"
  bs_slashingEnabled :: bool
  bs_vestingPeriod :: nat
  bs_immediateReleaseBps :: nat
  bs_vestedRewards :: "(address, VestedReward list) gomap"
  bs_totalComputeHoursReported :: nat
  bs_emissionMultiplier :: nat
  bs_maxEmissionRate :: nat
  bs_base :: 'b
  bs_ledger :: 't

type_synonym ('b, 't) staking_call =
  "('b, 't) BunkerStaking \<Rightarrow> (staking_revert, ('b, 't) BunkerStaking) result"

definition SLASHER_ROLE :: string where "SLASHER_ROLE = ''SLASHER_ROLE''"
definition BENEFICIARY_TIMELOCK :: nat where "BENEFICIARY_TIMELOCK = 24 * 3600"
definition STK_BPS_DENOMINATOR :: nat where "STK_BPS_DENOMINATOR = 10000"
definition MAX_EMISSION_MULTIPLIER :: nat where "MAX_EMISSION_MULTIPLIER = 50000"

subsection \<open>Storage access\<close>

definition zero_info :: ProviderInfo where
  "zero_info = \<lparr> pi_stakedAmount = 0, pi_totalUnbonding = 0, pi_beneficiary = 0, pi_registeredAt = 0,
                 pi_active = False, pi_nodeId = 0, pi_region = 0, pi_capabilities = 0, pi_frozen = False \<rparr>"

definition get_info :: "address \<Rightarrow> ('b, 't) BunkerStaking \<Rightarrow> ProviderInfo" where
  "get_info p s = map_get zero_info (bs_providers s) p"

definition put_info :: "address \<Rightarrow> ProviderInfo \<Rightarrow> ('b, 't) BunkerStaking \<Rightarrow> ('b, 't) BunkerStaking" where
  "put_info p i s = s\<lparr>bs_providers := fmupd p i (bs_providers s)\<rparr>"

definition get_queue :: "address \<Rightarrow> ('b, 't) BunkerStaking \<Rightarrow> UnstakeRequest list" where
  "get_queue p s = map_get [] (bs_unstakeQueues s) p"

definition put_queue :: "address \<Rightarrow> UnstakeRequest list \<Rightarrow> ('b, 't) BunkerStaking \<Rightarrow> ('b, 't) BunkerStaking" where
  "put_queue p q s = s\<lparr>bs_unstakeQueues := fmupd p q (bs_unstakeQueues s)\<rparr>"

definition get_vested :: "address \<Rightarrow> ('b, 't) BunkerStaking \<Rightarrow> VestedReward list" where
  "get_vested p s = map_get [] (bs_vestedRewards s) p"

definition put_vested :: "address \<Rightarrow> VestedReward list \<Rightarrow> ('b, 't) BunkerStaking \<Rightarrow> ('b, 't) BunkerStaking" where
  "put_vested p v s = s\<lparr>bs_vestedRewards := fmupd p v (bs_vestedRewards s)\<rparr>"

definition minStake :: "Tier \<Rightarrow> ('b, 't) BunkerStaking \<Rightarrow> nat" where
  "minStake tier s = tc_minStake (bs_tierConfigs s tier)"

subsection \<open>Constructor and modifiers\<close>

definition default_tiers :: "Tier \<Rightarrow> TierConfig" where
  "default_tiers tier =
     (case tier of
        TierNone \<Rightarrow> \<lparr> tc_minStake = 0, tc_maxConcurrentJobs = 0, tc_rewardMultiplierBps = 0,
                     tc_priorityQueue = False, tc_governance = False \<rparr>
      | Starter \<Rightarrow> \<lparr> tc_minStake = 1000000 * 10 ^ 18, tc_maxConcurrentJobs = 3,
                    tc_rewardMultiplierBps = 10000, tc_priorityQueue = False, tc_governance = False \<rparr>
      | Bronze \<Rightarrow> \<lparr> tc_minStake = 5000000 * 10 ^ 18, tc_maxConcurrentJobs = 10,
                   tc_rewardMultiplierBps = 10000, tc_priorityQueue = False, tc_governance = False \<rparr>
      | Silver \<Rightarrow> \<lparr> tc_minStake = 10000000 * 10 ^ 18, tc_maxConcurrentJobs = 50,
                   tc_rewardMultiplierBps = 10500, tc_priorityQueue = True, tc_governance = False \<rparr>
      | Gold \<Rightarrow> \<lparr> tc_minStake = 100000000 * 10 ^ 18, tc_maxConcurrentJobs = 200,
                 tc_rewardMultiplierBps = 11000, tc_priorityQueue = True, tc_governance = True \<rparr>
      | Platinum \<Rightarrow> \<lparr> tc_minStake = 1000000000 * 10 ^ 18, tc_maxConcurrentJobs = 0,
                     tc_rewardMultiplierBps = 12000, tc_priorityQueue = True, tc_governance = True \<rparr>)"

definition default_slash_bps :: "SlashReason \<Rightarrow> nat" where
  "default_slash_bps r =
     (case r of ReasonNone \<Rightarrow> 0 | Downtime \<Rightarrow> 100 | JobAbandonment \<Rightarrow> 500 | SLAViolation \<Rightarrow> 1000
      | DataLoss \<Rightarrow> 2500 | SecurityViolation \<Rightarrow> 5000 | Fraud \<Rightarrow> 10000)"

definition BunkerStaking_constructor ::
    "address \<Rightarrow> address \<Rightarrow> address \<Rightarrow> 'b \<Rightarrow> 't \<Rightarrow> (staking_revert, ('b, 't) BunkerStaking) result" where
  "BunkerStaking_constructor token treasury initialOwner base ledger =
     (if token = 0 \<or> treasury = 0 \<or> initialOwner = 0 then Inl (Err StkZeroAddress)
      else Inr \<lparr> bs_unbondingPeriod = 14 * 24 * 3600, bs_slashBurnBps = 8000, bs_slashTreasuryBps = 2000,
                 bs_maxTierMultiplierBps = 12000, bs_appealWindow = 48 * 3600, bs_treasury = treasury,
                 bs_totalStaked = 0, bs_totalUnbonding = 0, bs_providers = fmempty,
                 bs_unstakeQueues = fmempty, bs_pendingBeneficiaries = fmempty,
                 bs_tierConfigs = default_tiers, bs_rewardsDuration = 7 * 24 * 3600,
                 bs_rewardRate = 0, bs_periodFinish = 0, bs_lastUpdateTime = 0,
                 bs_rewardPerTokenStored = 0, bs_userRewardPerTokenPaid = fmempty,
                 bs_rewards = fmempty, bs_slashProposalCount = 0, bs_slashProposals = fmempty,
                 bs_nodeIdToProvider = fmempty, bs_slashPercentageBps = default_slash_bps,
                 bs_slashingEnabled = False, bs_vestingPeriod = 90 * 24 * 3600,
                 bs_immediateReleaseBps = 2500, bs_vestedRewards = fmempty,
                 bs_totalComputeHoursReported = 0, bs_emissionMultiplier = 10000,
                 bs_maxEmissionRate = 0, bs_base = base, bs_ledger = ledger \<rparr>)"

definition stk_onlySlasher :: "('b, 't) chain \<Rightarrow> msg \<Rightarrow> ('b, 't) staking_call \<Rightarrow> ('b, 't) staking_call" where
  "stk_onlySlasher X m f s =
     (if x_hasRole X (bs_base s) SLASHER_ROLE (m_sender m) then f s else Inl Unauthorized)"

definition stk_onlyOwner :: "('b, 't) chain \<Rightarrow> msg \<Rightarrow> ('b, 't) staking_call \<Rightarrow> ('b, 't) staking_call" where
  "stk_onlyOwner X m f s = (if m_sender m = x_owner X (bs_base s) then f s else Inl Unauthorized)"

definition stk_whenNotPaused :: "('b, 't) chain \<Rightarrow> ('b, 't) staking_call \<Rightarrow> ('b, 't) staking_call" where
  "stk_whenNotPaused X f s = (if x_paused X (bs_base s) then Inl EnforcedPause else f s)"

subsection \<open>Tiers and reward accounting\<close>

definition getTier :: "nat \<Rightarrow> ('b, 't) BunkerStaking \<Rightarrow> Tier" where
  "getTier amount s =
     (if amount \<ge> minStake Platinum s then Platinum
      else if amount \<ge> minStake Gold s then Gold
      else if amount \<ge> minStake Silver s then Silver
      else if amount \<ge> minStake Bronze s then Bronze
      else if amount \<ge> minStake Starter s then Starter
      else TierNone)"

definition lastTimeRewardApplicable :: "msg \<Rightarrow> ('b, 't) BunkerStaking \<Rightarrow> nat" where
  "lastTimeRewardApplicable m s = (if m_time m < bs_periodFinish s then m_time m else bs_periodFinish s)"

definition rewardPerToken :: "msg \<Rightarrow> ('b, 't) BunkerStaking \<Rightarrow> (staking_revert, nat) result" where
  "rewardPerToken m s =
     (if bs_totalStaked s = 0 then Inr (bs_rewardPerTokenStored s)
      else
        rbind (u_sub (lastTimeRewardApplicable m s) (bs_lastUpdateTime s)) (\<lambda>dt.
        rbind (u_mul 256 dt (bs_rewardRate s)) (\<lambda>r.
        rbind (u_mul 256 r (10 ^ 18)) (\<lambda>scaled.
        u_add 256 (bs_rewardPerTokenStored s) (scaled div bs_totalStaked s)))))"

definition stk_earned :: "msg \<Rightarrow> address \<Rightarrow> ('b, 't) BunkerStaking \<Rightarrow> (staking_revert, nat) result" where
  "stk_earned m p s =
     (let stakedAmount = pi_stakedAmount (get_info p s) in
      rbind (rewardPerToken m s) (\<lambda>rpt.
      rbind (u_sub rpt (map_get 0 (bs_userRewardPerTokenPaid s) p)) (\<lambda>diff.
      rbind (u_mul 256 stakedAmount diff) (\<lambda>product.
      let newDelta = product div 10 ^ 18;
          tier = getTier stakedAmount s in
      rbind (if tier \<noteq> TierNone
             then rbind (u_mul 256 newDelta (tc_rewardMultiplierBps (bs_tierConfigs s tier)))
                    (\<lambda>scaled. Inr (scaled div STK_BPS_DENOMINATOR))
             else Inr newDelta) (\<lambda>delta.
      u_add 256 delta (map_get 0 (bs_rewards s) p))))))"

definition checkpoint_rewards :: "msg \<Rightarrow> nat \<Rightarrow> ('b, 't) BunkerStaking \<Rightarrow> ('b, 't) BunkerStaking" where
  "checkpoint_rewards m rpt s =
     s\<lparr>bs_rewardPerTokenStored := rpt, bs_lastUpdateTime := lastTimeRewardApplicable m s\<rparr>"

definition credit_reward :: "address \<Rightarrow> nat \<Rightarrow> ('b, 't) BunkerStaking \<Rightarrow> ('b, 't) BunkerStaking" where
  "credit_reward account e s =
     s\<lparr>bs_rewards := fmupd account e (bs_rewards s),
       bs_userRewardPerTokenPaid :=
         fmupd account (bs_rewardPerTokenStored s) (bs_userRewardPerTokenPaid s)\<rparr>"

definition doUpdateReward :: "msg \<Rightarrow> address \<Rightarrow> ('b, 't) staking_call" where
  "doUpdateReward m account s =
     rbind (rewardPerToken m s) (\<lambda>rpt.
     let s = checkpoint_rewards m rpt s in
     if account \<noteq> 0 then
       rbind (stk_earned m account s) (\<lambda>e. Inr (credit_reward account e s))
     else Inr s)"

definition updateReward :: "msg \<Rightarrow> address \<Rightarrow> ('b, 't) staking_call \<Rightarrow> ('b, 't) staking_call" where
  "updateReward m account f s = rbind (doUpdateReward m account s) f"

subsection \<open>Token calls\<close>

definition stk_transfer :: "('b, 't) chain \<Rightarrow> address \<Rightarrow> nat \<Rightarrow> ('b, 't) staking_call" where
  "stk_transfer X a n s =
     rbind (of_call (x_transfer X (x_this X) a n (bs_ledger s)) TokenRevert) (\<lambda>t. Inr (s\<lparr>bs_ledger := t\<rparr>))"

definition stk_transferFrom :: "('b, 't) chain \<Rightarrow> address \<Rightarrow> nat \<Rightarrow> ('b, 't) staking_call" where
  "stk_transferFrom X a n s =
     rbind (of_call (x_transferFrom X (x_this X) a (x_this X) n (bs_ledger s)) TokenRevert)
       (\<lambda>t. Inr (s\<lparr>bs_ledger := t\<rparr>))"

definition stk_burn :: "('b, 't) chain \<Rightarrow> nat \<Rightarrow> ('b, 't) staking_call" where
  "stk_burn X n s =
     rbind (of_call (x_burn X (x_this X) n (bs_ledger s)) TokenRevert) (\<lambda>t. Inr (s\<lparr>bs_ledger := t\<rparr>))"

definition stk_held :: "('b, 't) chain \<Rightarrow> ('b, 't) BunkerStaking \<Rightarrow> nat" where
  "stk_held X s = x_balanceOf X (bs_ledger s) (x_this X)"

subsection \<open>Staking and unstaking\<close>

text \<open>The common end of both staking functions.\<close>

definition deposit_stake ::
    "('b, 't) chain \<Rightarrow> msg \<Rightarrow> nat \<Rightarrow> nat \<Rightarrow> ProviderInfo \<Rightarrow> ('b, 't) staking_call" where
  "deposit_stake X m amount newTotal info s =
     (let s = put_info (m_sender m) (info\<lparr>pi_stakedAmount := u_cast 128 newTotal\<rparr>) s in
      rbind (u_add 256 (bs_totalStaked s) amount) (\<lambda>total.
      stk_transferFrom X (m_sender m) amount (s\<lparr>bs_totalStaked := total\<rparr>)))"

definition registered :: "msg \<Rightarrow> ProviderInfo \<Rightarrow> ProviderInfo" where
  "registered m info =
     info\<lparr>pi_active := True, pi_beneficiary := m_sender m, pi_registeredAt := u_cast 48 (m_time m)\<rparr>"

definition BunkerStaking_stake :: "('b, 't) chain \<Rightarrow> msg \<Rightarrow> nat \<Rightarrow> ('b, 't) staking_call" where
  "BunkerStaking_stake X m amount = stk_whenNotPaused X (updateReward m (m_sender m) (\<lambda>s.
     if amount = 0 then Inl (Err StkZeroAmount)
     else
       let info = get_info (m_sender m) s in
       if pi_frozen info then Inl (Err (ProviderIsFrozen (m_sender m)))
       else
         rbind (u_add 256 (pi_stakedAmount info) amount) (\<lambda>newTotal.
         if \<not> pi_active info then
           if newTotal < minStake Starter s
             then Inl (Err (BelowMinimumStake newTotal (minStake Starter s)))
           else deposit_stake X m amount newTotal (registered m info) s
         else deposit_stake X m amount newTotal info s)))"

definition BunkerStaking_stakeWithIdentity ::
    "('b, 't) chain \<Rightarrow> msg \<Rightarrow> nat \<Rightarrow> node_id \<Rightarrow> node_id \<Rightarrow> nat \<Rightarrow> ('b, 't) staking_call" where
  "BunkerStaking_stakeWithIdentity X m amount nodeId region capabilities =
     stk_whenNotPaused X (updateReward m (m_sender m) (\<lambda>s.
     if amount = 0 then Inl (Err StkZeroAmount)
     else
       let info = get_info (m_sender m) s in
       if pi_frozen info then Inl (Err (ProviderIsFrozen (m_sender m)))
       else
         rbind (u_add 256 (pi_stakedAmount info) amount) (\<lambda>newTotal.
         if \<not> pi_active info then
           if newTotal < minStake Starter s
             then Inl (Err (BelowMinimumStake newTotal (minStake Starter s)))
           else
             let info = registered m info in
             if nodeId \<noteq> 0 then
               if map_get 0 (bs_nodeIdToProvider s) nodeId \<noteq> 0
                 then Inl (Err (NodeIdAlreadyClaimed nodeId))
               else deposit_stake X m amount newTotal
                      (info\<lparr>pi_nodeId := nodeId, pi_region := region, pi_capabilities := capabilities\<rparr>)
                      (s\<lparr>bs_nodeIdToProvider := fmupd nodeId (m_sender m) (bs_nodeIdToProvider s)\<rparr>)
             else deposit_stake X m amount newTotal info s
         else if nodeId \<noteq> 0 then Inl (Err UseUpdateIdentity)
         else deposit_stake X m amount newTotal info s)))"

definition BunkerStaking_updateIdentity ::
    "msg \<Rightarrow> node_id \<Rightarrow> node_id \<Rightarrow> nat \<Rightarrow> ('b, 't) staking_call" where
  "BunkerStaking_updateIdentity m nodeId region capabilities s =
     (let info = get_info (m_sender m) s in
      if \<not> pi_active info then Inl (Err (ProviderNotActive (m_sender m)))
      else if pi_frozen info then Inl (Err (ProviderIsFrozen (m_sender m)))
      else if nodeId \<noteq> pi_nodeId info then
        if nodeId \<noteq> 0 \<and> map_get 0 (bs_nodeIdToProvider s) nodeId \<noteq> 0
          then Inl (Err (NodeIdAlreadyClaimed nodeId))
        else
          let ids = bs_nodeIdToProvider s;
              ids = (if pi_nodeId info \<noteq> 0 then fmdrop (pi_nodeId info) ids else ids);
              ids = (if nodeId \<noteq> 0 then fmupd nodeId (m_sender m) ids else ids)
          in Inr (put_info (m_sender m)
                    (info\<lparr>pi_nodeId := nodeId, pi_region := region, pi_capabilities := capabilities\<rparr>)
                    (s\<lparr>bs_nodeIdToProvider := ids\<rparr>))
      else Inr (put_info (m_sender m) (info\<lparr>pi_region := region, pi_capabilities := capabilities\<rparr>) s))"

definition BunkerStaking_requestUnstake :: "('b, 't) chain \<Rightarrow> msg \<Rightarrow> nat \<Rightarrow> ('b, 't) staking_call" where
  "BunkerStaking_requestUnstake X m amount = stk_whenNotPaused X (updateReward m (m_sender m) (\<lambda>s.
     let p = m_sender m; info = get_info p s in
     if amount = 0 then Inl (Err StkZeroAmount)
     else if \<not> pi_active info then Inl (Err (ProviderNotActive p))
     else if pi_frozen info then Inl (Err (ProviderIsFrozen p))
     else if amount > pi_stakedAmount info then Inl (Err (InsufficientStake amount (pi_stakedAmount info)))
     else
       rbind (u_sub (pi_stakedAmount info) (u_cast 128 amount)) (\<lambda>staked.
       rbind (u_add 128 (pi_totalUnbonding info) (u_cast 128 amount)) (\<lambda>unbonding.
       rbind (u_sub (bs_totalStaked s) amount) (\<lambda>totalStaked.
       rbind (u_add 256 (bs_totalUnbonding s) amount) (\<lambda>totalUnbonding.
       if length (get_queue p s) > 50 then Inl (Err TooManyUnstakeRequests)
       else
         rbind (u_add 256 (m_time m) (bs_unbondingPeriod s)) (\<lambda>unlock.
         let info = info\<lparr>pi_stakedAmount := staked, pi_totalUnbonding := unbonding,
                         pi_active := staked \<ge> minStake Starter s\<rparr>;
             req = \<lparr> uq_amount = u_cast 128 amount, uq_unlockTime = u_cast 48 unlock, uq_completed = False \<rparr>
         in Inr (put_queue p (get_queue p s @ [req])
                  (put_info p info
                    (s\<lparr>bs_totalStaked := totalStaked, bs_totalUnbonding := totalUnbonding\<rparr>))))))))))"

definition BunkerStaking_completeUnstake :: "('b, 't) chain \<Rightarrow> msg \<Rightarrow> nat \<Rightarrow> ('b, 't) staking_call" where
  "BunkerStaking_completeUnstake X m requestIndex s =
     (let p = m_sender m; info = get_info p s; queue = get_queue p s in
      if pi_frozen info then Inl (Err (ProviderIsFrozen p))
      else if requestIndex \<ge> length queue then Inl (Err (InvalidUnstakeIndex requestIndex (length queue)))
      else
        let req = queue ! requestIndex in
        if uq_completed req then Inl (Err (UnstakeAlreadyCompleted requestIndex))
        else if m_time m < uq_unlockTime req
          then Inl (Err (UnbondingNotReady (uq_unlockTime req) (m_time m)))
        else
          rbind (u_sub (pi_totalUnbonding info) (u_cast 128 (uq_amount req))) (\<lambda>unbonding.
          rbind (u_sub (bs_totalUnbonding s) (uq_amount req)) (\<lambda>totalUnbonding.
          stk_transfer X p (uq_amount req)
            (put_queue p (queue[requestIndex := req\<lparr>uq_completed := True\<rparr>])
              (put_info p (info\<lparr>pi_totalUnbonding := unbonding\<rparr>)
                (s\<lparr>bs_totalUnbonding := totalUnbonding\<rparr>))))))"

subsection \<open>Beneficiaries and freezing\<close>

definition BunkerStaking_initiateBeneficiaryChange :: "msg \<Rightarrow> address \<Rightarrow> ('b, 't) staking_call" where
  "BunkerStaking_initiateBeneficiaryChange m newBeneficiary s =
     (if newBeneficiary = 0 then Inl (Err StkZeroAddress)
      else if \<not> pi_active (get_info (m_sender m) s) then Inl (Err (ProviderNotActive (m_sender m)))
      else
        rbind (u_add 256 (m_time m) BENEFICIARY_TIMELOCK) (\<lambda>eff.
        Inr (s\<lparr>bs_pendingBeneficiaries :=
                 fmupd (m_sender m) \<lparr> pb_newBeneficiary = newBeneficiary, pb_effectiveTime = u_cast 48 eff \<rparr>
                   (bs_pendingBeneficiaries s)\<rparr>)))"

definition BunkerStaking_executeBeneficiaryChange :: "msg \<Rightarrow> ('b, 't) staking_call" where
  "BunkerStaking_executeBeneficiaryChange m s =
     (let pending = map_get \<lparr> pb_newBeneficiary = 0, pb_effectiveTime = 0 \<rparr>
                      (bs_pendingBeneficiaries s) (m_sender m) in
      if pb_newBeneficiary pending = 0 then Inl (Err (NoPendingBeneficiaryChange (m_sender m)))
      else if m_time m < pb_effectiveTime pending
        then Inl (Err (BeneficiaryTimelockNotElapsed (pb_effectiveTime pending) (m_time m)))
      else Inr ((put_info (m_sender m)
                   ((get_info (m_sender m) s)\<lparr>pi_beneficiary := pb_newBeneficiary pending\<rparr>) s)
                \<lparr>bs_pendingBeneficiaries := fmdrop (m_sender m) (bs_pendingBeneficiaries s)\<rparr>))"

definition BunkerStaking_freezeProvider :: "('b, 't) chain \<Rightarrow> msg \<Rightarrow> address \<Rightarrow> ('b, 't) staking_call" where
  "BunkerStaking_freezeProvider X m p = stk_onlySlasher X m (\<lambda>s.
     if \<not> pi_active (get_info p s) then Inl (Err (ProviderNotActive p))
     else Inr (put_info p ((get_info p s)\<lparr>pi_frozen := True\<rparr>) s))"

definition BunkerStaking_unfreezeProvider :: "('b, 't) chain \<Rightarrow> msg \<Rightarrow> address \<Rightarrow> ('b, 't) staking_call" where
  "BunkerStaking_unfreezeProvider X m p = stk_onlyOwner X m (\<lambda>s.
     Inr (put_info p ((get_info p s)\<lparr>pi_frozen := False\<rparr>) s))"

subsection \<open>Vesting and slashing\<close>

definition vestedAmount :: "msg \<Rightarrow> ('b, 't) BunkerStaking \<Rightarrow> VestedReward \<Rightarrow> (staking_revert, nat) result" where
  "vestedAmount m s entry =
     (if bs_vestingPeriod s = 0 then Inr (vr_totalAmount entry)
      else
        rbind (u_sub (m_time m) (vr_vestingStart entry)) (\<lambda>elapsed.
        if elapsed \<ge> bs_vestingPeriod s then Inr (vr_totalAmount entry)
        else
          rbind (u_mul 256 (vr_totalAmount entry) elapsed) (\<lambda>product.
          Inr (product div bs_vestingPeriod s))))"

text \<open>The loop of \<^verbatim>\<open>_forfeitUnvestedRewards\<close>.\<close>

fun forfeit_entries ::
    "msg \<Rightarrow> ('b, 't) BunkerStaking \<Rightarrow> VestedReward list \<Rightarrow> nat \<Rightarrow>
     (staking_revert, VestedReward list \<times> nat) result" where
  "forfeit_entries m s [] forfeited = Inr ([], forfeited)"
| "forfeit_entries m s (entry # entries) forfeited =
     rbind (vestedAmount m s entry) (\<lambda>vested.
     rbind (u_sub (vr_totalAmount entry) vested) (\<lambda>unvested.
     if unvested > 0 then
       rbind (u_add 256 forfeited unvested) (\<lambda>forfeited.
       rbind (forfeit_entries m s entries forfeited) (\<lambda>(rest, total).
       Inr (entry\<lparr>vr_releasedAmount := vr_totalAmount entry\<rparr> # rest, total)))
     else
       rbind (forfeit_entries m s entries forfeited) (\<lambda>(rest, total). Inr (entry # rest, total))))"

text \<open>The loop over the unbonding queue, newest request first: the list is the reversed queue.\<close>

fun slash_requests ::
    "UnstakeRequest list \<Rightarrow> nat \<Rightarrow> nat \<Rightarrow> nat \<Rightarrow>
     (staking_revert, UnstakeRequest list \<times> nat \<times> nat \<times> nat) result" where
  "slash_requests [] remaining infoUnbonding totalUnbonding =
     Inr ([], remaining, infoUnbonding, totalUnbonding)"
| "slash_requests (req # reqs) remaining infoUnbonding totalUnbonding =
     (if remaining = 0 then Inr (req # reqs, remaining, infoUnbonding, totalUnbonding)
      else if uq_completed req then
        rbind (slash_requests reqs remaining infoUnbonding totalUnbonding) (\<lambda>(rest, r).
        Inr (req # rest, r))
      else
        let fromReq = (if remaining > uq_amount req then uq_amount req else remaining) in
        rbind (u_sub (uq_amount req) (u_cast 128 fromReq)) (\<lambda>amt.
        rbind (u_sub infoUnbonding (u_cast 128 fromReq)) (\<lambda>infoUnbonding.
        rbind (u_sub totalUnbonding fromReq) (\<lambda>totalUnbonding.
        rbind (u_sub remaining fromReq) (\<lambda>remaining.
        rbind (slash_requests reqs remaining infoUnbonding totalUnbonding) (\<lambda>(rest, r).
        Inr (req\<lparr>uq_amount := amt, uq_completed := amt = 0\<rparr> # rest, r)))))))"

text \<open>The first two steps of \<^verbatim>\<open>_executeSlash\<close>: active stake, then the queue.\<close>

definition slash_stake :: "address \<Rightarrow> nat \<Rightarrow> ('b, 't) BunkerStaking \<Rightarrow> (staking_revert, nat \<times> ('b, 't) BunkerStaking) result" where
  "slash_stake p remaining s =
     (let info = get_info p s in
      if remaining > 0 \<and> pi_stakedAmount info > 0 then
        let fromActive = (if remaining > pi_stakedAmount info then pi_stakedAmount info else remaining) in
        rbind (u_sub (pi_stakedAmount info) (u_cast 128 fromActive)) (\<lambda>staked.
        rbind (u_sub (bs_totalStaked s) fromActive) (\<lambda>totalStaked.
        rbind (u_sub remaining fromActive) (\<lambda>remaining.
        Inr (remaining, put_info p (info\<lparr>pi_stakedAmount := staked\<rparr>) (s\<lparr>bs_totalStaked := totalStaked\<rparr>)))))
      else Inr (remaining, s))"

definition slash_queue :: "address \<Rightarrow> nat \<Rightarrow> ('b, 't) BunkerStaking \<Rightarrow> (staking_revert, nat \<times> ('b, 't) BunkerStaking) result" where
  "slash_queue p remaining s =
     (if remaining > 0 then
        rbind (slash_requests (rev (get_queue p s)) remaining (pi_totalUnbonding (get_info p s))
                 (bs_totalUnbonding s)) (\<lambda>(q, remaining, infoUnbonding, totalUnbonding).
        Inr (remaining,
             put_queue p (rev q)
               (put_info p ((get_info p s)\<lparr>pi_totalUnbonding := infoUnbonding\<rparr>)
                 (s\<lparr>bs_totalUnbonding := totalUnbonding\<rparr>))))
      else Inr (remaining, s))"

definition forfeitUnvestedRewards ::
    "msg \<Rightarrow> address \<Rightarrow> ('b, 't) BunkerStaking \<Rightarrow> (staking_revert, nat \<times> ('b, 't) BunkerStaking) result" where
  "forfeitUnvestedRewards m p s =
     rbind (forfeit_entries m s (get_vested p s) 0) (\<lambda>(entries, forfeited).
     Inr (forfeited, put_vested p entries s))"

definition deactivate_below_minimum :: "address \<Rightarrow> ('b, 't) BunkerStaking \<Rightarrow> ('b, 't) BunkerStaking" where
  "deactivate_below_minimum p s =
     (if pi_stakedAmount (get_info p s) < minStake Starter s \<and> pi_active (get_info p s)
      then put_info p ((get_info p s)\<lparr>pi_active := False\<rparr>) s else s)"

text \<open>The last step: burn the burn share, send the rest to the treasury.\<close>

definition distribute_slash :: "('b, 't) chain \<Rightarrow> nat \<Rightarrow> nat \<Rightarrow> ('b, 't) staking_call" where
  "distribute_slash X totalSlashAmount burnBps s =
     rbind (u_mul 256 totalSlashAmount burnBps) (\<lambda>product.
     let burnAmount = product div STK_BPS_DENOMINATOR in
     rbind (u_sub totalSlashAmount burnAmount) (\<lambda>treasuryAmount.
     rbind (stk_burn X burnAmount s) (\<lambda>s.
     if treasuryAmount > 0 then stk_transfer X (bs_treasury s) treasuryAmount s else Inr s)))"

definition executeSlash_internal ::
    "('b, 't) chain \<Rightarrow> msg \<Rightarrow> address \<Rightarrow> nat \<Rightarrow> nat \<Rightarrow> ('b, 't) staking_call" where
  "executeSlash_internal X m p amount burnBps s =
     (if amount = 0 then Inl (Err StkZeroAmount)
      else
        let info = get_info p s in
        rbind (u_add 256 (pi_stakedAmount info) (pi_totalUnbonding info)) (\<lambda>slashableTotal.
        if amount > slashableTotal then Inl (Err (InsufficientSlashableBalance amount slashableTotal))
        else
          rbind (slash_stake p amount s) (\<lambda>(remaining, s).
          rbind (slash_queue p remaining s) (\<lambda>(_, s).
          rbind (forfeitUnvestedRewards m p s) (\<lambda>(forfeited, s).
          rbind (u_sub (stk_held X s) (bs_totalStaked s)) (\<lambda>unstaked_balance.
          rbind (u_sub unstaked_balance (bs_totalUnbonding s)) (\<lambda>availableForForfeit.
          let forfeited = (if forfeited > availableForForfeit then availableForForfeit else forfeited) in
          rbind (u_add 256 amount forfeited) (\<lambda>totalSlashAmount.
          distribute_slash X totalSlashAmount burnBps (deactivate_below_minimum p s)))))))))"

definition BunkerStaking_slashImmediate :: "('b, 't) chain \<Rightarrow> msg \<Rightarrow> address \<Rightarrow> nat \<Rightarrow> ('b, 't) staking_call" where
  "BunkerStaking_slashImmediate X m p amount = stk_onlySlasher X m (updateReward m p (\<lambda>s.
     if \<not> bs_slashingEnabled s then Inl (Err SlashingNotEnabled)
     else executeSlash_internal X m p amount (u_cast 16 (bs_slashBurnBps s)) s))"

definition BunkerStaking_slash :: "('b, 't) chain \<Rightarrow> msg \<Rightarrow> address \<Rightarrow> nat \<Rightarrow> ('b, 't) staking_call" where
  "BunkerStaking_slash X m p amount = stk_onlySlasher X m (updateReward m p (\<lambda>s.
     if \<not> bs_slashingEnabled s then Inl (Err SlashingNotEnabled)
     else executeSlash_internal X m p amount (u_cast 16 (bs_slashBurnBps s)) s))"

subsection \<open>Slash proposals and appeals\<close>

definition new_proposal ::
    "msg \<Rightarrow> address \<Rightarrow> nat \<Rightarrow> string \<Rightarrow> SlashReason \<Rightarrow> ('b, 't) staking_call" where
  "new_proposal m p amount reason slashReason s =
     rbind (u_add 256 (bs_slashProposalCount s) 1) (\<lambda>count.
     Inr (s\<lparr>bs_slashProposalCount := count,
            bs_slashProposals := fmupd (bs_slashProposalCount s)
              \<lparr> slp_provider = p, slp_amount = amount, slp_reason = reason, slp_proposedAt = m_time m,
                slp_executed = False, slp_appealed = False, slp_resolved = False,
                slp_slashReason = slashReason, slp_appealWindowSnapshot = bs_appealWindow s,
                slp_slashBurnBpsSnapshot = u_cast 16 (bs_slashBurnBps s) \<rparr> (bs_slashProposals s)\<rparr>))"

definition BunkerStaking_proposeSlash ::
    "('b, 't) chain \<Rightarrow> msg \<Rightarrow> address \<Rightarrow> nat \<Rightarrow> string \<Rightarrow> ('b, 't) staking_call" where
  "BunkerStaking_proposeSlash X m p amount reason = stk_onlySlasher X m (\<lambda>s.
     if amount = 0 then Inl (Err StkZeroAmount)
     else
       rbind (u_add 256 (pi_stakedAmount (get_info p s)) (pi_totalUnbonding (get_info p s))) (\<lambda>slashableTotal.
       if amount > slashableTotal then Inl (Err (InsufficientSlashableBalance amount slashableTotal))
       else new_proposal m p amount reason ReasonNone s))"

definition BunkerStaking_proposeSlashByReason ::
    "('b, 't) chain \<Rightarrow> msg \<Rightarrow> address \<Rightarrow> SlashReason \<Rightarrow> ('b, 't) staking_call" where
  "BunkerStaking_proposeSlashByReason X m p reason = stk_onlySlasher X m (\<lambda>s.
     if reason = ReasonNone then Inl (Err InvalidSlashReason)
     else
       let stakedAmount = pi_stakedAmount (get_info p s) in
       rbind (u_mul 256 stakedAmount (bs_slashPercentageBps s reason)) (\<lambda>product.
       let amount = product div STK_BPS_DENOMINATOR in
       if amount = 0 then Inl (Err StkZeroAmount)
       else
         rbind (u_add 256 stakedAmount (pi_totalUnbonding (get_info p s))) (\<lambda>slashableTotal.
         if amount > slashableTotal then Inl (Err (InsufficientSlashableBalance amount slashableTotal))
         else new_proposal m p amount [] reason s)))"

definition getValidProposal :: "nat \<Rightarrow> ('b, 't) BunkerStaking \<Rightarrow> (staking_revert, SlashProposal) result" where
  "getValidProposal pid s =
     (if pid \<ge> bs_slashProposalCount s then Inl (Err (InvalidProposalId pid))
      else Inr (map_get \<lparr> slp_provider = 0, slp_amount = 0, slp_reason = [], slp_proposedAt = 0,
                          slp_executed = False, slp_appealed = False, slp_resolved = False,
                          slp_slashReason = ReasonNone, slp_appealWindowSnapshot = 0,
                          slp_slashBurnBpsSnapshot = 0 \<rparr> (bs_slashProposals s) pid))"

definition put_proposal :: "nat \<Rightarrow> SlashProposal \<Rightarrow> ('b, 't) BunkerStaking \<Rightarrow> ('b, 't) BunkerStaking" where
  "put_proposal pid prop s = s\<lparr>bs_slashProposals := fmupd pid prop (bs_slashProposals s)\<rparr>"

text \<open>The execution shared by \<^verbatim>\<open>executeSlash\<close> and an upheld appeal.\<close>

definition run_proposal :: "('b, 't) chain \<Rightarrow> msg \<Rightarrow> SlashProposal \<Rightarrow> ('b, 't) staking_call" where
  "run_proposal X m prop s =
     rbind (doUpdateReward m (slp_provider prop) s) (\<lambda>s.
     let info = get_info (slp_provider prop) s in
     rbind (u_add 256 (pi_stakedAmount info) (pi_totalUnbonding info)) (\<lambda>slashableTotal.
     let actualAmount = (if slp_amount prop > slashableTotal then slashableTotal else slp_amount prop) in
     if actualAmount > 0
     then executeSlash_internal X m (slp_provider prop) actualAmount (slp_slashBurnBpsSnapshot prop) s
     else Inr s))"

definition BunkerStaking_executeSlash :: "('b, 't) chain \<Rightarrow> msg \<Rightarrow> nat \<Rightarrow> ('b, 't) staking_call" where
  "BunkerStaking_executeSlash X m pid = stk_onlySlasher X m (\<lambda>s.
     if \<not> bs_slashingEnabled s then Inl (Err SlashingNotEnabled)
     else
       rbind (getValidProposal pid s) (\<lambda>prop.
       if slp_executed prop then Inl (Err (ProposalAlreadyExecuted pid))
       else if slp_appealed prop then Inl (Err (ProposalAppealed pid))
       else
         rbind (u_add 256 (slp_proposedAt prop) (slp_appealWindowSnapshot prop)) (\<lambda>windowEnd.
         if m_time m < windowEnd then Inl (Err (AppealWindowNotElapsed pid windowEnd))
         else run_proposal X m prop (put_proposal pid (prop\<lparr>slp_executed := True\<rparr>) s))))"

definition BunkerStaking_appealSlash :: "msg \<Rightarrow> nat \<Rightarrow> ('b, 't) staking_call" where
  "BunkerStaking_appealSlash m pid s =
     rbind (getValidProposal pid s) (\<lambda>prop.
     if slp_executed prop then Inl (Err (ProposalAlreadyExecuted pid))
     else if slp_appealed prop then Inl (Err (ProposalAlreadyAppealed pid))
     else if m_sender m \<noteq> slp_provider prop then Inl (Err (NotProposalProvider pid (m_sender m)))
     else
       rbind (u_add 256 (slp_proposedAt prop) (slp_appealWindowSnapshot prop)) (\<lambda>windowEnd.
       if m_time m \<ge> windowEnd then Inl (Err (AppealWindowElapsed pid))
       else Inr (put_proposal pid (prop\<lparr>slp_appealed := True\<rparr>) s)))"

definition BunkerStaking_resolveAppeal :: "('b, 't) chain \<Rightarrow> msg \<Rightarrow> nat \<Rightarrow> bool \<Rightarrow> ('b, 't) staking_call" where
  "BunkerStaking_resolveAppeal X m pid uphold = stk_onlyOwner X m (\<lambda>s.
     rbind (getValidProposal pid s) (\<lambda>prop.
     if \<not> slp_appealed prop then Inl (Err (ProposalNotAppealed pid))
     else if slp_resolved prop then Inl (Err (ProposalAlreadyResolved pid))
     else if slp_executed prop then Inl (Err (ProposalAlreadyExecuted pid))
     else
       let prop = prop\<lparr>slp_resolved := True\<rparr> in
       if uphold then
         if \<not> bs_slashingEnabled s then Inl (Err SlashingNotEnabled)
         else run_proposal X m prop (put_proposal pid (prop\<lparr>slp_executed := True\<rparr>) s)
       else Inr (put_proposal pid prop s)))"

definition BunkerStaking_setSlashPercentage ::
    "('b, 't) chain \<Rightarrow> msg \<Rightarrow> SlashReason \<Rightarrow> nat \<Rightarrow> ('b, 't) staking_call" where
  "BunkerStaking_setSlashPercentage X m reason bps = stk_onlyOwner X m (\<lambda>s.
     if reason = ReasonNone then Inl (Err InvalidSlashReason)
     else if bps > STK_BPS_DENOMINATOR then Inl (Err (InvalidSlashPercentage bps))
     else Inr (s\<lparr>bs_slashPercentageBps := (bs_slashPercentageBps s)(reason := bps)\<rparr>))"

subsection \<open>Rewards\<close>

definition BunkerStaking_claimRewards :: "('b, 't) chain \<Rightarrow> msg \<Rightarrow> ('b, 't) staking_call" where
  "BunkerStaking_claimRewards X m = updateReward m (m_sender m) (\<lambda>s.
     let p = m_sender m; reward = map_get 0 (bs_rewards s) p in
     if pi_frozen (get_info p s) then Inl (Err (ProviderIsFrozen p))
     else if reward = 0 then Inl (Err NoRewardsToClaimError)
     else
       let s = s\<lparr>bs_rewards := fmupd p 0 (bs_rewards s)\<rparr> in
       rbind (u_mul 256 reward (bs_immediateReleaseBps s)) (\<lambda>product.
       let immediateAmount = product div STK_BPS_DENOMINATOR in
       rbind (u_sub reward immediateAmount) (\<lambda>vested.
       rbind (if immediateAmount > 0 then stk_transfer X p immediateAmount s else Inr s) (\<lambda>s.
       Inr (if vested > 0
            then put_vested p (get_vested p s @
                   [\<lparr> vr_totalAmount = u_cast 128 vested, vr_releasedAmount = 0,
                      vr_vestingStart = u_cast 48 (m_time m) \<rparr>]) s
            else s)))))"

text \<open>The two loops of \<^verbatim>\<open>claimVestedRewards\<close>: collecting what has vested, and removing the
  entries that are fully claimed by moving the last entry into their place.\<close>

fun claim_entries ::
    "msg \<Rightarrow> ('b, 't) BunkerStaking \<Rightarrow> VestedReward list \<Rightarrow> nat \<Rightarrow>
     (staking_revert, VestedReward list \<times> nat) result" where
  "claim_entries m s [] claimed = Inr ([], claimed)"
| "claim_entries m s (entry # entries) claimed =
     rbind (vestedAmount m s entry) (\<lambda>vested.
     rbind (u_sub vested (vr_releasedAmount entry)) (\<lambda>claimable.
     if claimable > 0 then
       rbind (u_add 128 (vr_releasedAmount entry) (u_cast 128 claimable)) (\<lambda>released.
       rbind (u_add 256 claimed claimable) (\<lambda>claimed.
       rbind (claim_entries m s entries claimed) (\<lambda>(rest, sum_claimed).
       Inr (entry\<lparr>vr_releasedAmount := released\<rparr> # rest, sum_claimed))))
     else
       rbind (claim_entries m s entries claimed) (\<lambda>(rest, sum_claimed). Inr (entry # rest, sum_claimed))))"

function compact_entries :: "nat \<Rightarrow> VestedReward list \<Rightarrow> VestedReward list" where
  "compact_entries j entries =
     (if j < length entries then
        if vr_releasedAmount (entries ! j) = vr_totalAmount (entries ! j)
        then compact_entries j (butlast (entries[j := last entries]))
        else compact_entries (Suc j) entries
      else entries)"
  by pat_completeness auto
termination
  by (relation "measure (\<lambda>(j, entries). length entries - j)") auto

declare compact_entries.simps [simp del]

definition BunkerStaking_claimVestedRewards :: "('b, 't) chain \<Rightarrow> msg \<Rightarrow> ('b, 't) staking_call" where
  "BunkerStaking_claimVestedRewards X m s =
     (let p = m_sender m in
      if pi_frozen (get_info p s) then Inl (Err (ProviderIsFrozen p))
      else
        rbind (claim_entries m s (get_vested p s) 0) (\<lambda>(entries, totalClaimable).
        if totalClaimable = 0 then Inl (Err NoVestedRewardsClaimable)
        else stk_transfer X p totalClaimable (put_vested p (compact_entries 0 entries) s)))"

fun claimable_sum ::
    "msg \<Rightarrow> ('b, 't) BunkerStaking \<Rightarrow> VestedReward list \<Rightarrow> nat \<Rightarrow> (staking_revert, nat) result" where
  "claimable_sum m s [] claimable = Inr claimable"
| "claimable_sum m s (entry # entries) claimable =
     rbind (vestedAmount m s entry) (\<lambda>vested.
     rbind (u_sub vested (vr_releasedAmount entry)) (\<lambda>d.
     rbind (u_add 256 claimable d) (\<lambda>claimable. claimable_sum m s entries claimable)))"

definition BunkerStaking_getClaimableVested ::
    "msg \<Rightarrow> address \<Rightarrow> ('b, 't) BunkerStaking \<Rightarrow> (staking_revert, nat) result" where
  "BunkerStaking_getClaimableVested m p s = claimable_sum m s (get_vested p s) 0"

text \<open>What the contract holds beyond the locked stakes.\<close>

definition reward_balance :: "('b, 't) chain \<Rightarrow> ('b, 't) BunkerStaking \<Rightarrow> (staking_revert, nat) result" where
  "reward_balance X s =
     rbind (u_add 256 (bs_totalStaked s) (bs_totalUnbonding s)) (\<lambda>lockedStake.
     Inr (if stk_held X s > lockedStake then stk_held X s - lockedStake else 0))"

definition max_liability :: "nat \<Rightarrow> nat \<Rightarrow> nat \<Rightarrow> (staking_revert, nat) result" where
  "max_liability rewardRate rewardsDuration multiplierBps =
     rbind (u_mul 256 rewardRate rewardsDuration) (\<lambda>a.
     rbind (u_mul 256 a multiplierBps) (\<lambda>b. Inr (b div STK_BPS_DENOMINATOR)))"

definition new_reward_rate :: "msg \<Rightarrow> nat \<Rightarrow> ('b, 't) BunkerStaking \<Rightarrow> (staking_revert, nat) result" where
  "new_reward_rate m reward s =
     rbind (u_mul 256 reward (bs_emissionMultiplier s)) (\<lambda>product.
     let adjustedReward = product div STK_BPS_DENOMINATOR in
     rbind (if m_time m \<ge> bs_periodFinish s then Inr (adjustedReward div bs_rewardsDuration s)
            else
              rbind (u_sub (bs_periodFinish s) (m_time m)) (\<lambda>remaining.
              rbind (u_mul 256 remaining (bs_rewardRate s)) (\<lambda>leftover.
              rbind (u_add 256 adjustedReward leftover) (\<lambda>total_reward.
              Inr (total_reward div bs_rewardsDuration s))))) (\<lambda>rate.
     Inr (if bs_maxEmissionRate s > 0 \<and> rate > bs_maxEmissionRate s then bs_maxEmissionRate s else rate)))"

definition BunkerStaking_notifyRewardAmount :: "('b, 't) chain \<Rightarrow> msg \<Rightarrow> nat \<Rightarrow> ('b, 't) staking_call" where
  "BunkerStaking_notifyRewardAmount X m reward = stk_onlyOwner X m (updateReward m 0 (\<lambda>s.
     if bs_rewardsDuration s = 0 then Inl (Err RewardsDurationZero)
     else
       rbind (new_reward_rate m reward s) (\<lambda>rate.
       rbind (reward_balance X s) (\<lambda>rewardBalance.
       rbind (max_liability rate (bs_rewardsDuration s) (bs_maxTierMultiplierBps s)) (\<lambda>maxLiability.
       if maxLiability > rewardBalance then Inl (Err (RewardRateTooHigh rate rewardBalance))
       else
         rbind (u_add 256 (m_time m) (bs_rewardsDuration s)) (\<lambda>finish.
         Inr (s\<lparr>bs_rewardRate := rate, bs_lastUpdateTime := m_time m, bs_periodFinish := finish\<rparr>)))))))"

definition BunkerStaking_setRewardsDuration :: "('b, 't) chain \<Rightarrow> msg \<Rightarrow> nat \<Rightarrow> ('b, 't) staking_call" where
  "BunkerStaking_setRewardsDuration X m duration = stk_onlyOwner X m (\<lambda>s.
     if duration = 0 then Inl (Err RewardsDurationZero)
     else if m_time m < bs_periodFinish s then Inl (Err RewardDurationNotFinished)
     else Inr (s\<lparr>bs_rewardsDuration := duration\<rparr>))"

definition BunkerStaking_setVestingParams :: "('b, 't) chain \<Rightarrow> msg \<Rightarrow> nat \<Rightarrow> nat \<Rightarrow> ('b, 't) staking_call" where
  "BunkerStaking_setVestingParams X m period bps = stk_onlyOwner X m (\<lambda>s.
     if bps > STK_BPS_DENOMINATOR then Inl (Err (InvalidImmediateReleaseBps bps))
     else if period > 0 \<and> period < 60 then Inl (Err InvalidVestingPeriod)
     else Inr (s\<lparr>bs_vestingPeriod := period, bs_immediateReleaseBps := bps\<rparr>))"

definition BunkerStaking_reportComputeHours :: "('b, 't) chain \<Rightarrow> msg \<Rightarrow> nat \<Rightarrow> ('b, 't) staking_call" where
  "BunkerStaking_reportComputeHours X m hours = stk_onlySlasher X m (\<lambda>s.
     rbind (u_add 256 (bs_totalComputeHoursReported s) hours) (\<lambda>h.
     Inr (s\<lparr>bs_totalComputeHoursReported := h\<rparr>)))"

definition BunkerStaking_setEmissionMultiplier :: "('b, 't) chain \<Rightarrow> msg \<Rightarrow> nat \<Rightarrow> ('b, 't) staking_call" where
  "BunkerStaking_setEmissionMultiplier X m bps = stk_onlyOwner X m (\<lambda>s.
     if bps = 0 \<or> bps > MAX_EMISSION_MULTIPLIER then Inl (Err (InvalidEmissionMultiplier bps))
     else Inr (s\<lparr>bs_emissionMultiplier := bps\<rparr>))"

definition BunkerStaking_setMaxEmissionRate :: "('b, 't) chain \<Rightarrow> msg \<Rightarrow> nat \<Rightarrow> ('b, 't) staking_call" where
  "BunkerStaking_setMaxEmissionRate X m rate = stk_onlyOwner X m (\<lambda>s. Inr (s\<lparr>bs_maxEmissionRate := rate\<rparr>))"

subsection \<open>Views and owner parameters\<close>

definition BunkerStaking_getTier :: "address \<Rightarrow> ('b, 't) BunkerStaking \<Rightarrow> Tier" where
  "BunkerStaking_getTier p s = getTier (pi_stakedAmount (get_info p s)) s"

definition BunkerStaking_getSlashableBalance :: "address \<Rightarrow> ('b, 't) BunkerStaking \<Rightarrow> (staking_revert, nat) result" where
  "BunkerStaking_getSlashableBalance p s =
     u_add 256 (pi_stakedAmount (get_info p s)) (pi_totalUnbonding (get_info p s))"

definition BunkerStaking_isActiveProvider :: "address \<Rightarrow> ('b, 't) BunkerStaking \<Rightarrow> bool" where
  "BunkerStaking_isActiveProvider p s = pi_active (get_info p s)"

definition BunkerStaking_setTreasury :: "('b, 't) chain \<Rightarrow> msg \<Rightarrow> address \<Rightarrow> ('b, 't) staking_call" where
  "BunkerStaking_setTreasury X m a = stk_onlyOwner X m (\<lambda>s.
     if a = 0 then Inl (Err StkZeroAddress) else Inr (s\<lparr>bs_treasury := a\<rparr>))"

definition tier_below :: "Tier \<Rightarrow> Tier option" where
  "tier_below t = (case t of Bronze \<Rightarrow> Some Starter | Silver \<Rightarrow> Some Bronze | Gold \<Rightarrow> Some Silver
                   | Platinum \<Rightarrow> Some Gold | _ \<Rightarrow> None)"

definition tier_above :: "Tier \<Rightarrow> Tier option" where
  "tier_above t = (case t of TierNone \<Rightarrow> Some Starter | Starter \<Rightarrow> Some Bronze | Bronze \<Rightarrow> Some Silver
                   | Silver \<Rightarrow> Some Gold | Gold \<Rightarrow> Some Platinum | Platinum \<Rightarrow> None)"

definition BunkerStaking_setTierMinStake :: "('b, 't) chain \<Rightarrow> msg \<Rightarrow> Tier \<Rightarrow> nat \<Rightarrow> ('b, 't) staking_call" where
  "BunkerStaking_setTierMinStake X m tier newMin = stk_onlyOwner X m (\<lambda>s.
     if tier = TierNone then Inl (Err CannotConfigureNoneTier)
     else
       rbind (case tier_below tier of
                Some lower \<Rightarrow> require (newMin > minStake lower s)
                                (Err (TierOrderViolation tier newMin lower (minStake lower s)))
              | None \<Rightarrow> Inr ()) (\<lambda>_.
       rbind (case tier_above tier of
                Some upper \<Rightarrow> require (newMin < minStake upper s)
                                (Err (TierOrderViolation tier newMin upper (minStake upper s)))
              | None \<Rightarrow> Inr ()) (\<lambda>_.
       Inr (s\<lparr>bs_tierConfigs :=
                (bs_tierConfigs s)(tier := (bs_tierConfigs s tier)\<lparr>tc_minStake := newMin\<rparr>)\<rparr>))))"

definition BunkerStaking_setTierRewardMultiplier ::
    "('b, 't) chain \<Rightarrow> msg \<Rightarrow> Tier \<Rightarrow> nat \<Rightarrow> ('b, 't) staking_call" where
  "BunkerStaking_setTierRewardMultiplier X m tier bps = stk_onlyOwner X m (\<lambda>s.
     if tier = TierNone then Inl (Err CannotConfigureNoneTier)
     else if bps < STK_BPS_DENOMINATOR then Inl (Err MultiplierTooLow)
     else if bps > bs_maxTierMultiplierBps s then Inl (Err MultiplierTooHigh)
     else Inr (s\<lparr>bs_tierConfigs :=
                   (bs_tierConfigs s)(tier := (bs_tierConfigs s tier)\<lparr>tc_rewardMultiplierBps := bps\<rparr>)\<rparr>))"

definition BunkerStaking_setMaxTierMultiplierBps :: "('b, 't) chain \<Rightarrow> msg \<Rightarrow> nat \<Rightarrow> ('b, 't) staking_call" where
  "BunkerStaking_setMaxTierMultiplierBps X m newMax = stk_onlyOwner X m (\<lambda>s.
     if newMax < STK_BPS_DENOMINATOR \<or> newMax > 20000 then Inl (Err InvalidMultiplierCap)
     else
       rbind (if m_time m < bs_periodFinish s \<and> bs_rewardRate s > 0 then
                rbind (reward_balance X s) (\<lambda>rewardBalance.
                rbind (max_liability (bs_rewardRate s) (bs_rewardsDuration s) newMax) (\<lambda>maxLiability.
                require (maxLiability \<le> rewardBalance) (Err (RewardRateTooHigh (bs_rewardRate s) rewardBalance))))
              else Inr ()) (\<lambda>_.
       Inr (s\<lparr>bs_maxTierMultiplierBps := newMax\<rparr>)))"

definition BunkerStaking_setUnbondingPeriod :: "('b, 't) chain \<Rightarrow> msg \<Rightarrow> nat \<Rightarrow> ('b, 't) staking_call" where
  "BunkerStaking_setUnbondingPeriod X m period = stk_onlyOwner X m (\<lambda>s.
     if period < 60 \<or> period > 90 * 24 * 3600 then Inl (Err InvalidUnbondingPeriod)
     else Inr (s\<lparr>bs_unbondingPeriod := period\<rparr>))"

definition BunkerStaking_setSlashFeeSplit :: "('b, 't) chain \<Rightarrow> msg \<Rightarrow> nat \<Rightarrow> nat \<Rightarrow> ('b, 't) staking_call" where
  "BunkerStaking_setSlashFeeSplit X m burnBps treasuryBps = stk_onlyOwner X m (\<lambda>s.
     rbind (u_add 256 burnBps treasuryBps) (\<lambda>total_bps.
     if total_bps \<noteq> STK_BPS_DENOMINATOR then Inl (Err StkInvalidFeeSplit)
     else Inr (s\<lparr>bs_slashBurnBps := burnBps, bs_slashTreasuryBps := treasuryBps\<rparr>)))"

definition BunkerStaking_setAppealWindow :: "('b, 't) chain \<Rightarrow> msg \<Rightarrow> nat \<Rightarrow> ('b, 't) staking_call" where
  "BunkerStaking_setAppealWindow X m window = stk_onlyOwner X m (\<lambda>s.
     if window < 60 \<or> window > 14 * 24 * 3600 then Inl (Err InvalidAppealWindow)
     else Inr (s\<lparr>bs_appealWindow := window\<rparr>))"

definition BunkerStaking_setSlashingEnabled :: "('b, 't) chain \<Rightarrow> msg \<Rightarrow> bool \<Rightarrow> ('b, 't) staking_call" where
  "BunkerStaking_setSlashingEnabled X m enabled = stk_onlyOwner X m (\<lambda>s. Inr (s\<lparr>bs_slashingEnabled := enabled\<rparr>))"

definition BunkerStaking_pause :: "('b, 't) chain \<Rightarrow> msg \<Rightarrow> ('b, 't) staking_call" where
  "BunkerStaking_pause X m = stk_onlyOwner X m (\<lambda>s.
     rbind (of_call (x_pause X (bs_base s)) BaseRevert) (\<lambda>b. Inr (s\<lparr>bs_base := b\<rparr>)))"

definition BunkerStaking_unpause :: "('b, 't) chain \<Rightarrow> msg \<Rightarrow> ('b, 't) staking_call" where
  "BunkerStaking_unpause X m = stk_onlyOwner X m (\<lambda>s.
     rbind (of_call (x_unpause X (bs_base s)) BaseRevert) (\<lambda>b. Inr (s\<lparr>bs_base := b\<rparr>)))"

subsection \<open>The contract as a machine\<close>

datatype ('b, 't) staking_op =
    StkStake nat | StkStakeId nat node_id node_id nat | StkUpdateId node_id node_id nat
  | StkRequest nat | StkComplete nat | StkInitBenef address | StkExecBenef
  | StkFreeze address | StkUnfreeze address | StkSlashNow address nat | StkSlash address nat
  | StkPropose address nat string | StkProposeReason address SlashReason | StkExecute nat
  | StkAppeal nat | StkResolve nat bool | StkSetPercentage SlashReason nat | StkClaim
  | StkClaimVested | StkNotify nat | StkSetDuration nat | StkSetVesting nat nat | StkReport nat
  | StkSetEmission nat | StkSetMaxRate nat | StkSetTreasury address | StkSetTierMin Tier nat
  | StkSetTierMult Tier nat | StkSetMaxMult nat | StkSetUnbonding nat | StkSetSplit nat nat
  | StkSetWindow nat | StkSetEnabled bool | StkPause | StkUnpause
  | StkEnvBase 'b | StkEnvLedger 't

fun staking_call :: "('b, 't) chain \<Rightarrow> msg \<Rightarrow> ('b, 't) staking_op \<Rightarrow> ('b, 't) staking_call" where
  "staking_call X m (StkStake n) s = BunkerStaking_stake X m n s"
| "staking_call X m (StkStakeId n i r c) s = BunkerStaking_stakeWithIdentity X m n i r c s"
| "staking_call X m (StkUpdateId i r c) s = BunkerStaking_updateIdentity m i r c s"
| "staking_call X m (StkRequest n) s = BunkerStaking_requestUnstake X m n s"
| "staking_call X m (StkComplete i) s = BunkerStaking_completeUnstake X m i s"
| "staking_call X m (StkInitBenef a) s = BunkerStaking_initiateBeneficiaryChange m a s"
| "staking_call X m StkExecBenef s = BunkerStaking_executeBeneficiaryChange m s"
| "staking_call X m (StkFreeze p) s = BunkerStaking_freezeProvider X m p s"
| "staking_call X m (StkUnfreeze p) s = BunkerStaking_unfreezeProvider X m p s"
| "staking_call X m (StkSlashNow p n) s = BunkerStaking_slashImmediate X m p n s"
| "staking_call X m (StkSlash p n) s = BunkerStaking_slash X m p n s"
| "staking_call X m (StkPropose p n r) s = BunkerStaking_proposeSlash X m p n r s"
| "staking_call X m (StkProposeReason p r) s = BunkerStaking_proposeSlashByReason X m p r s"
| "staking_call X m (StkExecute i) s = BunkerStaking_executeSlash X m i s"
| "staking_call X m (StkAppeal i) s = BunkerStaking_appealSlash m i s"
| "staking_call X m (StkResolve i b) s = BunkerStaking_resolveAppeal X m i b s"
| "staking_call X m (StkSetPercentage r n) s = BunkerStaking_setSlashPercentage X m r n s"
| "staking_call X m StkClaim s = BunkerStaking_claimRewards X m s"
| "staking_call X m StkClaimVested s = BunkerStaking_claimVestedRewards X m s"
| "staking_call X m (StkNotify n) s = BunkerStaking_notifyRewardAmount X m n s"
| "staking_call X m (StkSetDuration n) s = BunkerStaking_setRewardsDuration X m n s"
| "staking_call X m (StkSetVesting n b) s = BunkerStaking_setVestingParams X m n b s"
| "staking_call X m (StkReport n) s = BunkerStaking_reportComputeHours X m n s"
| "staking_call X m (StkSetEmission n) s = BunkerStaking_setEmissionMultiplier X m n s"
| "staking_call X m (StkSetMaxRate n) s = BunkerStaking_setMaxEmissionRate X m n s"
| "staking_call X m (StkSetTreasury a) s = BunkerStaking_setTreasury X m a s"
| "staking_call X m (StkSetTierMin t n) s = BunkerStaking_setTierMinStake X m t n s"
| "staking_call X m (StkSetTierMult t n) s = BunkerStaking_setTierRewardMultiplier X m t n s"
| "staking_call X m (StkSetMaxMult n) s = BunkerStaking_setMaxTierMultiplierBps X m n s"
| "staking_call X m (StkSetUnbonding n) s = BunkerStaking_setUnbondingPeriod X m n s"
| "staking_call X m (StkSetSplit a b) s = BunkerStaking_setSlashFeeSplit X m a b s"
| "staking_call X m (StkSetWindow n) s = BunkerStaking_setAppealWindow X m n s"
| "staking_call X m (StkSetEnabled b) s = BunkerStaking_setSlashingEnabled X m b s"
| "staking_call X m StkPause s = BunkerStaking_pause X m s"
| "staking_call X m StkUnpause s = BunkerStaking_unpause X m s"
| "staking_call X m (StkEnvBase b) s = Inr (s\<lparr>bs_base := b\<rparr>)"
| "staking_call X m (StkEnvLedger t) s = Inr (s\<lparr>bs_ledger := t\<rparr>)"

definition staking_step ::
    "('b, 't) chain \<Rightarrow> msg \<times> ('b, 't) staking_op \<Rightarrow> ('b, 't) BunkerStaking \<Rightarrow> ('b, 't) BunkerStaking" where
  "staking_step X mop s = commit s (staking_call X (fst mop) (snd mop) s)"

end
