(* ===== verification/Bunker_Staking_Safety.thy ===== *)
theory Bunker_Staking_Safety
  imports Bunker_Staking
begin

text \<open>
  What the staking contract guarantees.  The totals are the sums over all providers and their
  open unbonding requests; no two providers hold the same node identifier; a slash takes exactly
  its amount, active stake first; the contract's balance covers all locked stakes as long as
  reward payments are covered by the rest of the balance.  The last properties show two
  histories in which the reward side breaks this: forfeited rewards are forfeited again by the
  next slash, and block the claims of all later rewards.
\<close>

subsection \<open>The accounts invariant\<close>

definition open_amount :: "UnstakeRequest \<Rightarrow> nat" where
  "open_amount r = (if uq_completed r then 0 else uq_amount r)"

definition open_sum :: "UnstakeRequest list \<Rightarrow> nat" where
  "open_sum q = sum_list (map open_amount q)"

definition accounts_ok :: "('b, 't) BunkerStaking \<Rightarrow> bool" where
  "accounts_ok s \<longleftrightarrow>
     msum pi_stakedAmount (bs_providers s) = bs_totalStaked s \<and>
     msum pi_totalUnbonding (bs_providers s) = bs_totalUnbonding s \<and>
     (\<forall>p. pi_totalUnbonding (get_info p s) = open_sum (get_queue p s) \<and>
          pi_stakedAmount (get_info p s) < 2 ^ 128 \<and>
          (\<forall>r \<in> set (get_queue p s). uq_amount r < 2 ^ 128))"

definition ids_ok :: "('b, 't) BunkerStaking \<Rightarrow> bool" where
  "ids_ok s \<longleftrightarrow> (\<forall>p. pi_nodeId (get_info p s) \<noteq> 0 \<longrightarrow>
     p \<noteq> 0 \<and> map_get 0 (bs_nodeIdToProvider s) (pi_nodeId (get_info p s)) = p)"

definition same_accounts :: "('b, 't) BunkerStaking \<Rightarrow> ('b, 't) BunkerStaking \<Rightarrow> bool" where
  "same_accounts s s' \<longleftrightarrow>
     bs_providers s' = bs_providers s \<and> bs_unstakeQueues s' = bs_unstakeQueues s \<and>
     bs_totalStaked s' = bs_totalStaked s \<and> bs_totalUnbonding s' = bs_totalUnbonding s \<and>
     bs_nodeIdToProvider s' = bs_nodeIdToProvider s"

lemma same_accounts_refl [simp]: "same_accounts s s"
  by (simp add: same_accounts_def)

lemma same_accounts_trans: "same_accounts s s' \<Longrightarrow> same_accounts s' s'' \<Longrightarrow> same_accounts s s''"
  by (simp add: same_accounts_def)

lemma same_accounts_get:
  "same_accounts s s' \<Longrightarrow> get_info p s' = get_info p s"
  "same_accounts s s' \<Longrightarrow> get_queue p s' = get_queue p s"
  by (simp_all add: same_accounts_def get_info_def get_queue_def)

lemma same_accounts_inv:
  assumes "same_accounts s s'"
  shows "accounts_ok s' = accounts_ok s" "ids_ok s' = ids_ok s"
  using assms same_accounts_get [OF assms]
  by (simp_all add: accounts_ok_def ids_ok_def same_accounts_def)

lemma get_info_put [simp]: "get_info p (put_info p' i s) = (if p = p' then i else get_info p s)"
  by (simp add: get_info_def put_info_def)

lemma get_info_other [simp]:
  "get_info p (put_queue p' q s) = get_info p s"
  "get_info p (s\<lparr>bs_totalStaked := n\<rparr>) = get_info p s"
  "get_info p (s\<lparr>bs_totalUnbonding := n\<rparr>) = get_info p s"
  "get_info p (s\<lparr>bs_nodeIdToProvider := ids\<rparr>) = get_info p s"
  "get_info p (s\<lparr>bs_ledger := t\<rparr>) = get_info p s"
  by (simp_all add: get_info_def put_queue_def)

lemma get_queue_put [simp]: "get_queue p (put_queue p' q s) = (if p = p' then q else get_queue p s)"
  by (simp add: get_queue_def put_queue_def)

lemma get_queue_other [simp]:
  "get_queue p (put_info p' i s) = get_queue p s"
  "get_queue p (s\<lparr>bs_totalStaked := n\<rparr>) = get_queue p s"
  "get_queue p (s\<lparr>bs_totalUnbonding := n\<rparr>) = get_queue p s"
  "get_queue p (s\<lparr>bs_nodeIdToProvider := ids\<rparr>) = get_queue p s"
  "get_queue p (s\<lparr>bs_ledger := t\<rparr>) = get_queue p s"
  by (simp_all add: get_queue_def put_info_def)

lemma zero_info_simps [simp]:
  "pi_stakedAmount zero_info = 0" "pi_totalUnbonding zero_info = 0" "pi_nodeId zero_info = 0"
  "pi_active zero_info = False" "pi_frozen zero_info = False"
  by (simp_all add: zero_info_def)

text \<open>The one rule behind every operation that changes one provider's accounts.\<close>

lemma accounts_update:
  assumes ok: "accounts_ok s"
    and s': "bs_providers s' = fmupd p i (bs_providers s)"
      "\<And>r. get_queue r s' = (if r = p then q else get_queue r s)"
    and staked: "bs_totalStaked s' + pi_stakedAmount (get_info p s) = bs_totalStaked s + pi_stakedAmount i"
    and unb: "bs_totalUnbonding s' + pi_totalUnbonding (get_info p s) = bs_totalUnbonding s + pi_totalUnbonding i"
    and i: "pi_totalUnbonding i = open_sum q" "pi_stakedAmount i < 2 ^ 128"
      "\<forall>r \<in> set q. uq_amount r < 2 ^ 128"
  shows "accounts_ok s'"
proof -
  have "get_info r s' = (if r = p then i else get_info r s)" for r
    by (simp add: get_info_def s'(1))
  moreover have "msum pi_stakedAmount (bs_providers s') = bs_totalStaked s'"
    using msum_put [of pi_stakedAmount zero_info p i "bs_providers s"] staked ok
    by (simp add: s'(1) accounts_ok_def get_info_def)
  moreover have "msum pi_totalUnbonding (bs_providers s') = bs_totalUnbonding s'"
    using msum_put [of pi_totalUnbonding zero_info p i "bs_providers s"] unb ok
    by (simp add: s'(1) accounts_ok_def get_info_def)
  ultimately show ?thesis using ok i by (simp add: accounts_ok_def s'(2))
qed

lemma accounts_bounds:
  assumes "accounts_ok s"
  shows "pi_stakedAmount (get_info p s) \<le> bs_totalStaked s"
    and "pi_totalUnbonding (get_info p s) \<le> bs_totalUnbonding s"
    and "pi_totalUnbonding (get_info p s) = open_sum (get_queue p s)"
    and "pi_stakedAmount (get_info p s) < 2 ^ 128"
    and "\<forall>r \<in> set (get_queue p s). uq_amount r < 2 ^ 128"
  using assms msum_get_le [of pi_stakedAmount zero_info "bs_providers s" p]
    msum_get_le [of pi_totalUnbonding zero_info "bs_providers s" p]
  by (auto simp: accounts_ok_def get_info_def)

subsection \<open>Calls that leave the accounts alone\<close>

named_theorems keeps_accounts

lemma keeps_rewards [simp]:
  "same_accounts s (checkpoint_rewards m r s)" "bs_ledger (checkpoint_rewards m r s) = bs_ledger s"
  "same_accounts s (credit_reward a e s)" "bs_ledger (credit_reward a e s) = bs_ledger s"
  by (simp_all add: same_accounts_def checkpoint_rewards_def credit_reward_def)

lemma keeps_update [keeps_accounts]:
  assumes "doUpdateReward m a s = Inr s'"
  shows "same_accounts s s' \<and> bs_ledger s' = bs_ledger s"
  using assms
  by (auto simp: doUpdateReward_def call_simps Let_def split: if_splits
      intro: same_accounts_trans [OF keeps_rewards(1) keeps_rewards(3)])

lemma keeps_transfer [keeps_accounts]: "stk_transfer X a n s = Inr s' \<Longrightarrow> same_accounts s s'"
  by (auto simp: stk_transfer_def call_simps same_accounts_def)

lemma keeps_burn [keeps_accounts]: "stk_burn X n s = Inr s' \<Longrightarrow> same_accounts s s'"
  by (auto simp: stk_burn_def call_simps same_accounts_def)

lemma keeps_distribute: "distribute_slash X n b s = Inr s' \<Longrightarrow> same_accounts s s'"
  by (auto simp: distribute_slash_def call_simps Let_def split: if_splits
      intro: same_accounts_trans keeps_burn keeps_transfer)

lemma keeps_put [simp]:
  "same_accounts s (put_vested p v s)" "same_accounts s (put_proposal i x s)"
  by (simp_all add: same_accounts_def put_vested_def put_proposal_def)

lemma keeps_forfeit: "forfeitUnvestedRewards m p s = Inr (n, s') \<Longrightarrow> same_accounts s s' \<and> bs_ledger s' = bs_ledger s"
  by (auto simp: forfeitUnvestedRewards_def call_simps) (simp add: put_vested_def)

lemma keeps_claim: "BunkerStaking_claimRewards X m s = Inr s' \<Longrightarrow> same_accounts s s'"
  by (auto simp: BunkerStaking_claimRewards_def updateReward_def call_simps Let_def
      dest!: keeps_update keeps_transfer split: if_splits intro!: same_accounts_trans [OF _ keeps_put(1)])
     (auto simp: same_accounts_def)

subsection \<open>Staking and unstaking keep the invariant\<close>

lemma ids_keep:
  assumes "ids_ok s" "bs_providers s' = fmupd p i (bs_providers s)"
    and "pi_nodeId i = pi_nodeId (get_info p s)" "bs_nodeIdToProvider s' = bs_nodeIdToProvider s"
  shows "ids_ok s'"
  using assms by (auto simp: ids_ok_def get_info_def)

text \<open>A provider takes a free identifier, giving up its old one or not.\<close>

lemma ids_claim:
  assumes ok: "ids_ok s" and s': "bs_providers s' = fmupd p i (bs_providers s)"
    and p: "p \<noteq> 0" and free: "map_get 0 (bs_nodeIdToProvider s) (pi_nodeId i) = 0 \<or> pi_nodeId i = 0"
    and ids: "\<And>n. n \<noteq> 0 \<Longrightarrow> map_get 0 (bs_nodeIdToProvider s') n =
      (if n = pi_nodeId i then p
       else if drop_old \<and> n = pi_nodeId (get_info p s) then 0
       else map_get 0 (bs_nodeIdToProvider s) n)"
  shows "ids_ok s'"
proof -
  have info: "get_info r s' = (if r = p then i else get_info r s)" for r
    by (simp add: get_info_def s')
  show ?thesis unfolding ids_ok_def
  proof (intro allI impI)
    fix r
    assume n: "pi_nodeId (get_info r s') \<noteq> 0"
    show "r \<noteq> 0 \<and> map_get 0 (bs_nodeIdToProvider s') (pi_nodeId (get_info r s')) = r"
    proof (cases "r = p")
      case True
      then show ?thesis using p n by (simp add: info ids)
    next
      case False
      then have r: "pi_nodeId (get_info r s) \<noteq> 0" using n by (simp add: info)
      then have "r \<noteq> 0" "map_get 0 (bs_nodeIdToProvider s) (pi_nodeId (get_info r s)) = r"
        using ok by (simp_all add: ids_ok_def)
      moreover from this have "pi_nodeId (get_info r s) \<noteq> pi_nodeId i"
        using free r by metis
      moreover have "pi_nodeId (get_info r s) \<noteq> pi_nodeId (get_info p s)"
        using ok r False unfolding ids_ok_def by metis
      ultimately show ?thesis using False r by (simp add: info ids)
    qed
  qed
qed

lemma deposit_result:
  assumes "deposit_stake X m n nt i s = Inr s'"
  obtains t where "x_transferFrom X (x_this X) (m_sender m) (x_this X) n (bs_ledger s) = Some t"
    "s' = (put_info (m_sender m) (i\<lparr>pi_stakedAmount := u_cast 128 nt\<rparr>) s)
            \<lparr>bs_totalStaked := bs_totalStaked s + n, bs_ledger := t\<rparr>"
  using assms by (auto simp: deposit_stake_def stk_transferFrom_def call_simps Let_def put_info_def)

lemma deposit_accounts:
  assumes ok: "accounts_ok s" and call: "deposit_stake X m n (pi_stakedAmount (get_info (m_sender m) s) + n) i s = Inr s'"
    and fits: "pi_stakedAmount (get_info (m_sender m) s) + n < 2 ^ 128"
    and i: "pi_totalUnbonding i = pi_totalUnbonding (get_info (m_sender m) s)"
  shows "accounts_ok s'"
proof -
  let ?p = "m_sender m"
  obtain t where s': "s' = (put_info ?p (i\<lparr>pi_stakedAmount := u_cast 128 (pi_stakedAmount (get_info ?p s) + n)\<rparr>) s)
      \<lparr>bs_totalStaked := bs_totalStaked s + n, bs_ledger := t\<rparr>"
    by (rule deposit_result [OF call])
  have c: "u_cast 128 (pi_stakedAmount (get_info ?p s) + n) = pi_stakedAmount (get_info ?p s) + n"
    using fits by (rule u_cast_id)
  show ?thesis
    by (rule accounts_update [OF ok, of s' ?p "i\<lparr>pi_stakedAmount := pi_stakedAmount (get_info ?p s) + n\<rparr>" "get_queue ?p s"])
       (use ok i fits c in \<open>auto simp: s' put_info_def get_queue_def accounts_ok_def\<close>)
qed

lemma registered_simps [simp]:
  "pi_stakedAmount (registered m i) = pi_stakedAmount i" "pi_totalUnbonding (registered m i) = pi_totalUnbonding i"
  "pi_nodeId (registered m i) = pi_nodeId i"
  by (simp_all add: registered_def)

text \<open>Both staking functions end in a deposit on the state whose rewards are brought up to date.\<close>

lemma stake_deposits:
  assumes "BunkerStaking_stake X m n s = Inr s'"
  obtains s1 i where "doUpdateReward m (m_sender m) s = Inr s1"
    "deposit_stake X m n (pi_stakedAmount (get_info (m_sender m) s1) + n) i s1 = Inr s'"
    "pi_totalUnbonding i = pi_totalUnbonding (get_info (m_sender m) s1)"
    "pi_nodeId i = pi_nodeId (get_info (m_sender m) s1)"
  using assms
  by (auto simp: BunkerStaking_stake_def stk_whenNotPaused_def updateReward_def call_simps Let_def
      split: if_splits)

lemma stakeWithIdentity_deposits:
  assumes "BunkerStaking_stakeWithIdentity X m n nid reg cap s = Inr s'"
  obtains s1 s2 i where "doUpdateReward m (m_sender m) s = Inr s1"
    "deposit_stake X m n (pi_stakedAmount (get_info (m_sender m) s1) + n) i s2 = Inr s'"
    "pi_totalUnbonding i = pi_totalUnbonding (get_info (m_sender m) s1)"
    "s2 = s1 \<and> pi_nodeId i = pi_nodeId (get_info (m_sender m) s1) \<or>
     s2 = s1\<lparr>bs_nodeIdToProvider := fmupd nid (m_sender m) (bs_nodeIdToProvider s1)\<rparr> \<and>
       nid \<noteq> 0 \<and> map_get 0 (bs_nodeIdToProvider s1) nid = 0 \<and> pi_nodeId i = nid"
  using assms
  by (auto simp: BunkerStaking_stakeWithIdentity_def stk_whenNotPaused_def updateReward_def call_simps Let_def
      split: if_splits)

lemma deposit_ids:
  assumes "deposit_stake X m n nt i s2 = Inr s'" "ids_ok s" "m_sender m \<noteq> 0"
    and "s2 = s \<and> pi_nodeId i = pi_nodeId (get_info (m_sender m) s) \<or>
         s2 = s\<lparr>bs_nodeIdToProvider := fmupd nid (m_sender m) (bs_nodeIdToProvider s)\<rparr> \<and>
           nid \<noteq> 0 \<and> map_get 0 (bs_nodeIdToProvider s) nid = 0 \<and> pi_nodeId i = nid"
  shows "ids_ok s'"
proof -
  obtain t where s': "s' = (put_info (m_sender m) (i\<lparr>pi_stakedAmount := u_cast 128 nt\<rparr>) s2)
      \<lparr>bs_totalStaked := bs_totalStaked s2 + n, bs_ledger := t\<rparr>"
    by (rule deposit_result [OF assms(1)])
  from assms(4) show ?thesis
  proof
    assume "s2 = s \<and> pi_nodeId i = pi_nodeId (get_info (m_sender m) s)"
    then show ?thesis by (intro ids_keep [OF assms(2), of s' "m_sender m" "i\<lparr>pi_stakedAmount := u_cast 128 nt\<rparr>"])
         (simp_all add: s' put_info_def)
  next
    assume c: "s2 = s\<lparr>bs_nodeIdToProvider := fmupd nid (m_sender m) (bs_nodeIdToProvider s)\<rparr> \<and>
           nid \<noteq> 0 \<and> map_get 0 (bs_nodeIdToProvider s) nid = 0 \<and> pi_nodeId i = nid"
    show ?thesis
      by (rule ids_claim [OF assms(2) _ assms(3), of s' "i\<lparr>pi_stakedAmount := u_cast 128 nt\<rparr>" False])
         (use c in \<open>auto simp: s' put_info_def\<close>)
  qed
qed

definition stk_inv :: "('b, 't) BunkerStaking \<Rightarrow> bool" where
  "stk_inv s \<longleftrightarrow> accounts_ok s \<and> ids_ok s"

lemma stk_inv_same: "same_accounts s s' \<Longrightarrow> stk_inv s \<Longrightarrow> stk_inv s'"
  by (simp add: stk_inv_def same_accounts_inv)

text \<open>The new stake fits into its 128 bits; the token supply is below \<open>2 ^ 97\<close>.\<close>

definition stake_fits :: "msg \<Rightarrow> nat \<Rightarrow> ('b, 't) BunkerStaking \<Rightarrow> bool" where
  "stake_fits m n s \<longleftrightarrow> m_sender m \<noteq> 0 \<and> pi_stakedAmount (get_info (m_sender m) s) + n < 2 ^ 128"

lemma inv_stake:
  assumes "stk_inv s" "stake_fits m n s" "BunkerStaking_stake X m n s = Inr s'"
  shows "stk_inv s'"
  using assms(3)
proof (rule stake_deposits)
  fix s1 i
  assume u: "doUpdateReward m (m_sender m) s = Inr s1"
    and d: "deposit_stake X m n (pi_stakedAmount (get_info (m_sender m) s1) + n) i s1 = Inr s'"
    and i: "pi_totalUnbonding i = pi_totalUnbonding (get_info (m_sender m) s1)"
           "pi_nodeId i = pi_nodeId (get_info (m_sender m) s1)"
  have same: "same_accounts s s1" using keeps_update [OF u] by simp
  then have inv: "accounts_ok s1" "ids_ok s1" using stk_inv_same assms(1) by (auto simp: stk_inv_def)
  have fits: "m_sender m \<noteq> 0" "pi_stakedAmount (get_info (m_sender m) s1) + n < 2 ^ 128"
    using assms(2) by (simp_all add: stake_fits_def same_accounts_get [OF same])
  have "ids_ok s'" by (rule deposit_ids [OF d inv(2) fits(1), of 0]) (use i(2) in simp)
  with deposit_accounts [OF inv(1) d fits(2) i(1)] show ?thesis by (simp only: stk_inv_def simp_thms)
qed

lemma inv_stakeWithIdentity:
  assumes "stk_inv s" "stake_fits m n s" "BunkerStaking_stakeWithIdentity X m n nid reg cap s = Inr s'"
  shows "stk_inv s'"
  using assms(3)
proof (rule stakeWithIdentity_deposits)
  fix s1 s2 i
  assume u: "doUpdateReward m (m_sender m) s = Inr s1"
    and d: "deposit_stake X m n (pi_stakedAmount (get_info (m_sender m) s1) + n) i s2 = Inr s'"
    and i: "pi_totalUnbonding i = pi_totalUnbonding (get_info (m_sender m) s1)"
    and c: "s2 = s1 \<and> pi_nodeId i = pi_nodeId (get_info (m_sender m) s1) \<or>
     s2 = s1\<lparr>bs_nodeIdToProvider := fmupd nid (m_sender m) (bs_nodeIdToProvider s1)\<rparr> \<and>
       nid \<noteq> 0 \<and> map_get 0 (bs_nodeIdToProvider s1) nid = 0 \<and> pi_nodeId i = nid"
  have same: "same_accounts s s1" using keeps_update [OF u] by simp
  then have inv: "accounts_ok s1" "ids_ok s1" using stk_inv_same assms(1) by (auto simp: stk_inv_def)
  have fits: "m_sender m \<noteq> 0" "pi_stakedAmount (get_info (m_sender m) s1) + n < 2 ^ 128"
    using assms(2) by (simp_all add: stake_fits_def same_accounts_get [OF same])
  have g: "get_info (m_sender m) s2 = get_info (m_sender m) s1" using c by auto
  have ids: "accounts_ok (s1\<lparr>bs_nodeIdToProvider := ids\<rparr>) = accounts_ok s1" for ids
    by (simp add: accounts_ok_def)
  have ok2: "accounts_ok s2" using c inv(1) ids by blast
  have "accounts_ok s'"
    by (rule deposit_accounts [OF ok2 d [folded g] fits(2) [folded g] i [folded g]])
  with deposit_ids [OF d inv(2) fits(1) c] show ?thesis by (simp only: stk_inv_def simp_thms)
qed

lemma open_sum_append [simp]: "open_sum (q @ q') = open_sum q + open_sum q'"
  by (simp add: open_sum_def)

lemma open_sum_update:
  "i < length q \<Longrightarrow> open_sum (q[i := r]) + open_amount (q ! i) = open_sum q + open_amount r"
proof (induction q arbitrary: i)
  case (Cons x q)
  then show ?case by (cases i) (auto simp: open_sum_def)
qed simp

lemma request_result:
  assumes "BunkerStaking_requestUnstake X m n s = Inr s'"
  obtains s1 i r where "doUpdateReward m (m_sender m) s = Inr s1"
    "s' = put_queue (m_sender m) (get_queue (m_sender m) s1 @ [r]) (put_info (m_sender m) i
        (s1\<lparr>bs_totalStaked := bs_totalStaked s1 - n, bs_totalUnbonding := bs_totalUnbonding s1 + n\<rparr>))"
    "n \<le> pi_stakedAmount (get_info (m_sender m) s1)" "n \<le> bs_totalStaked s1"
    "pi_stakedAmount i = pi_stakedAmount (get_info (m_sender m) s1) - u_cast 128 n"
    "pi_totalUnbonding i = pi_totalUnbonding (get_info (m_sender m) s1) + u_cast 128 n"
    "pi_nodeId i = pi_nodeId (get_info (m_sender m) s1)"
    "uq_amount r = u_cast 128 n" "\<not> uq_completed r"
    "uq_unlockTime r = u_cast 48 (m_time m + bs_unbondingPeriod s1)"
proof -
  obtain s1 where u: "doUpdateReward m (m_sender m) s = Inr s1"
    using assms by (auto simp: BunkerStaking_requestUnstake_def stk_whenNotPaused_def updateReward_def call_simps
        split: if_splits)
  let ?i = "get_info (m_sender m) s1"
  show thesis
    by (rule that [OF u, of
          "\<lparr> uq_amount = u_cast 128 n, uq_unlockTime = u_cast 48 (m_time m + bs_unbondingPeriod s1),
             uq_completed = False \<rparr>"
          "?i\<lparr>pi_stakedAmount := pi_stakedAmount ?i - u_cast 128 n,
             pi_totalUnbonding := pi_totalUnbonding ?i + u_cast 128 n,
             pi_active := minStake Starter s1 \<le> pi_stakedAmount ?i - u_cast 128 n\<rparr>"])
       (use assms u in \<open>auto simp: BunkerStaking_requestUnstake_def stk_whenNotPaused_def updateReward_def
          call_simps Let_def split: if_splits\<close>)
qed

lemma inv_request:
  assumes inv: "stk_inv s" and call: "BunkerStaking_requestUnstake X m n s = Inr s'"
  shows "stk_inv s'"
  using call
proof (rule request_result)
  let ?p = "m_sender m"
  fix s1 i r
  assume u: "doUpdateReward m ?p s = Inr s1"
    and s': "s' = put_queue ?p (get_queue ?p s1 @ [r]) (put_info ?p i
        (s1\<lparr>bs_totalStaked := bs_totalStaked s1 - n, bs_totalUnbonding := bs_totalUnbonding s1 + n\<rparr>))"
    and n: "n \<le> pi_stakedAmount (get_info ?p s1)" "n \<le> bs_totalStaked s1"
    and i: "pi_stakedAmount i = pi_stakedAmount (get_info ?p s1) - u_cast 128 n"
      "pi_totalUnbonding i = pi_totalUnbonding (get_info ?p s1) + u_cast 128 n"
      "pi_nodeId i = pi_nodeId (get_info ?p s1)"
    and r: "uq_amount r = u_cast 128 n" "\<not> uq_completed r"
  have "stk_inv s1" using stk_inv_same keeps_update [OF u] inv by blast
  then have ok: "accounts_ok s1" "ids_ok s1" by (simp_all add: stk_inv_def)
  note b = accounts_bounds [OF ok(1), of ?p]
  have n128: "n < 2 ^ 128" using n(1) b(4) by (rule le_less_trans)
  then have c: "u_cast 128 n = n" by (rule u_cast_id)
  have prov: "bs_providers s' = fmupd ?p i (bs_providers s1)" by (simp add: s' put_queue_def put_info_def)
  have tot: "bs_totalStaked s' = bs_totalStaked s1 - n" "bs_totalUnbonding s' = bs_totalUnbonding s1 + n"
    by (simp_all add: s' put_queue_def put_info_def)
  have sum: "open_sum (get_queue ?p s1 @ [r]) = open_sum (get_queue ?p s1) + n"
    using r c by (simp add: open_sum_def open_amount_def)
  have "accounts_ok s'"
  proof (rule accounts_update [OF ok(1) prov])
    show "get_queue x s' = (if x = ?p then get_queue ?p s1 @ [r] else get_queue x s1)" for x by (simp add: s')
    show "pi_stakedAmount i < 2 ^ 128" using b(4) i(1) by linarith
  qed (use n tot i c b r(1) n128 sum in auto)
  moreover have "ids_ok s'"
    by (rule ids_keep [OF ok(2) prov i(3)]) (simp add: s' put_queue_def put_info_def)
  ultimately show ?thesis by (simp add: stk_inv_def)
qed

text \<open>A completed request is paid once, after its unlock time.\<close>

lemma complete_result:
  assumes "BunkerStaking_completeUnstake X m j s = Inr s'"
  obtains t where
    "s' = (put_queue (m_sender m) ((get_queue (m_sender m) s)[j := (get_queue (m_sender m) s ! j)\<lparr>uq_completed := True\<rparr>])
       (put_info (m_sender m) ((get_info (m_sender m) s)\<lparr>pi_totalUnbonding :=
            pi_totalUnbonding (get_info (m_sender m) s) - u_cast 128 (uq_amount (get_queue (m_sender m) s ! j))\<rparr>)
          (s\<lparr>bs_totalUnbonding := bs_totalUnbonding s - uq_amount (get_queue (m_sender m) s ! j)\<rparr>)))\<lparr>bs_ledger := t\<rparr>"
    "x_transfer X (x_this X) (m_sender m) (uq_amount (get_queue (m_sender m) s ! j)) (bs_ledger s) = Some t"
    "j < length (get_queue (m_sender m) s)" "\<not> uq_completed (get_queue (m_sender m) s ! j)"
    "uq_unlockTime (get_queue (m_sender m) s ! j) \<le> m_time m" "\<not> pi_frozen (get_info (m_sender m) s)"
    "uq_amount (get_queue (m_sender m) s ! j) \<le> bs_totalUnbonding s"
  using assms
  by (auto simp: BunkerStaking_completeUnstake_def stk_transfer_def call_simps Let_def put_queue_def put_info_def
      split: if_splits)

lemma inv_complete:
  assumes inv: "stk_inv s" and call: "BunkerStaking_completeUnstake X m j s = Inr s'"
  shows "stk_inv s'"
  using call
proof (rule complete_result)
  let ?p = "m_sender m" and ?q = "get_queue (m_sender m) s"
  let ?i = "(get_info ?p s)\<lparr>pi_totalUnbonding := pi_totalUnbonding (get_info ?p s) - u_cast 128 (uq_amount (?q ! j))\<rparr>"
  let ?q' = "?q[j := (?q ! j)\<lparr>uq_completed := True\<rparr>]"
  fix t
  assume s': "s' = (put_queue ?p ?q' (put_info ?p ?i
      (s\<lparr>bs_totalUnbonding := bs_totalUnbonding s - uq_amount (?q ! j)\<rparr>)))\<lparr>bs_ledger := t\<rparr>"
    and j: "j < length ?q" "\<not> uq_completed (?q ! j)" and le: "uq_amount (?q ! j) \<le> bs_totalUnbonding s"
  have ok: "accounts_ok s" "ids_ok s" using inv by (simp_all add: stk_inv_def)
  note b = accounts_bounds [OF ok(1), of ?p]
  have c: "u_cast 128 (uq_amount (?q ! j)) = uq_amount (?q ! j)" using b(5) j(1) by simp
  have sum: "open_sum ?q' + uq_amount (?q ! j) = open_sum ?q"
    using open_sum_update [OF j(1), of "(?q ! j)\<lparr>uq_completed := True\<rparr>"] j(2) by (simp add: open_amount_def)
  have prov: "bs_providers s' = fmupd ?p ?i (bs_providers s)" by (simp add: s' put_queue_def put_info_def)
  have tot: "bs_totalStaked s' = bs_totalStaked s" "bs_totalUnbonding s' = bs_totalUnbonding s - uq_amount (?q ! j)"
    by (simp_all add: s' put_queue_def put_info_def)
  have "accounts_ok s'"
  proof (rule accounts_update [OF ok(1) prov])
    show "get_queue x s' = (if x = ?p then ?q' else get_queue x s)" for x by (simp add: s')
    show "\<forall>r \<in> set ?q'. uq_amount r < 2 ^ 128"
      using b(5) j(1) by (auto dest!: subsetD [OF set_update_subset_insert])
  qed (use tot c b(3,4) le sum in auto)
  moreover have "ids_ok s'"
    by (rule ids_keep [OF ok(2) prov]) (simp_all add: s' put_queue_def put_info_def)
  ultimately show ?thesis by (simp add: stk_inv_def)
qed

text \<open>Calls that change nothing of a provider but its identity, beneficiary and flags.\<close>

lemma inv_info:
  assumes inv: "stk_inv s" and same: "same_accounts (put_info p i s) s'"
    and i: "pi_stakedAmount i = pi_stakedAmount (get_info p s)"
      "pi_totalUnbonding i = pi_totalUnbonding (get_info p s)" "pi_nodeId i = pi_nodeId (get_info p s)"
  shows "stk_inv s'"
proof -
  have ok: "accounts_ok s" "ids_ok s" using inv by (simp_all add: stk_inv_def)
  have prov: "bs_providers (put_info p i s) = fmupd p i (bs_providers s)" by (simp add: put_info_def)
  have tot: "bs_totalStaked (put_info p i s) = bs_totalStaked s"
    "bs_totalUnbonding (put_info p i s) = bs_totalUnbonding s" by (simp_all add: put_info_def)
  have "accounts_ok (put_info p i s)"
    by (rule accounts_update [OF ok(1) prov, of "get_queue p s"])
       (use i tot accounts_bounds [OF ok(1), of p] in auto)
  moreover have "ids_ok (put_info p i s)"
    by (rule ids_keep [OF ok(2) prov i(3)]) (simp add: put_info_def)
  ultimately show ?thesis using same stk_inv_same by (metis stk_inv_def)
qed

lemma inv_updateIdentity:
  assumes inv: "stk_inv s" and call: "BunkerStaking_updateIdentity m nid reg cap s = Inr s'" and "m_sender m \<noteq> 0"
  shows "stk_inv s'"
proof (cases "nid = pi_nodeId (get_info (m_sender m) s)")
  case True
  then have s': "s' = put_info (m_sender m) ((get_info (m_sender m) s)\<lparr>pi_region := reg, pi_capabilities := cap\<rparr>) s"
    using call by (auto simp: BunkerStaking_updateIdentity_def Let_def split: if_splits)
  show ?thesis unfolding s'
    by (rule inv_info [OF inv same_accounts_refl]) simp_all
next
  case False
  let ?p = "m_sender m" and ?old = "pi_nodeId (get_info (m_sender m) s)"
  let ?i = "(get_info ?p s)\<lparr>pi_nodeId := nid, pi_region := reg, pi_capabilities := cap\<rparr>"
  obtain ids where s': "s' = put_info ?p ?i (s\<lparr>bs_nodeIdToProvider := ids\<rparr>)"
    and ids: "ids = (if nid \<noteq> 0 then fmupd nid ?p (if ?old \<noteq> 0 then fmdrop ?old (bs_nodeIdToProvider s) else bs_nodeIdToProvider s)
        else if ?old \<noteq> 0 then fmdrop ?old (bs_nodeIdToProvider s) else bs_nodeIdToProvider s)"
    and free: "map_get 0 (bs_nodeIdToProvider s) nid = 0 \<or> nid = 0"
    using call False by (auto simp: BunkerStaking_updateIdentity_def Let_def split: if_splits)
  have ok: "accounts_ok s" "ids_ok s" using inv by (simp_all add: stk_inv_def)
  have prov: "bs_providers s' = fmupd ?p ?i (bs_providers s)" by (simp add: s' put_info_def)
  have "ids_ok s'"
    by (rule ids_claim [OF ok(2) prov assms(3), of True])
       (use free ids False in \<open>auto simp: s' put_info_def\<close>)
  moreover have "accounts_ok s'"
    by (rule accounts_update [OF ok(1) prov, of "get_queue ?p s"])
       (use accounts_bounds [OF ok(1), of ?p] in \<open>auto simp: s'\<close>, simp_all add: put_info_def)
  ultimately show ?thesis by (simp add: stk_inv_def)
qed

subsection \<open>Slashing\<close>

text \<open>The queue loop takes exactly what is open, up to the remaining amount.\<close>

lemma slash_requests_exact:
  assumes "\<forall>r \<in> set q. uq_amount r < 2 ^ 128" "open_sum q \<le> u" "u \<le> tot"
  shows "\<exists>q'. slash_requests q n u tot =
             Inr (q', n - min n (open_sum q), u - min n (open_sum q), tot - min n (open_sum q)) \<and>
           open_sum q' = open_sum q - min n (open_sum q) \<and> (\<forall>r \<in> set q'. uq_amount r < 2 ^ 128) \<and>
           map uq_unlockTime q' = map uq_unlockTime q"
  using assms
proof (induction q arbitrary: n u tot)
  case Nil
  then show ?case by (simp add: open_sum_def)
next
  case (Cons r q)
  show ?case
  proof (cases "n = 0 \<or> uq_completed r")
    case True
    then show ?thesis
      using Cons.IH [of u tot n] Cons.prems by (auto simp: open_sum_def open_amount_def)
  next
    case False
    define f where "f = min n (uq_amount r)"
    have f: "(if n > uq_amount r then uq_amount r else n) = f" "f \<le> uq_amount r" "f \<le> n" "u_cast 128 f = f"
      using Cons.prems(1) by (auto simp: f_def min_def u_cast_id)
    have sum: "open_sum (r # q) = uq_amount r + open_sum q" using False by (simp add: open_sum_def open_amount_def)
    have bounds: "open_sum q \<le> u - f" "u - f \<le> tot - f" using Cons.prems sum f by auto
    obtain q' where q': "slash_requests q (n - f) (u - f) (tot - f) =
        Inr (q', n - f - min (n - f) (open_sum q), u - f - min (n - f) (open_sum q), tot - f - min (n - f) (open_sum q))"
      "open_sum q' = open_sum q - min (n - f) (open_sum q)" "\<forall>r \<in> set q'. uq_amount r < 2 ^ 128"
      "map uq_unlockTime q' = map uq_unlockTime q"
      using Cons.IH [OF _ bounds, of "n - f"] Cons.prems(1) by auto
    have m: "f + min (n - f) (open_sum q) = min n (open_sum (r # q))" using sum by (auto simp: f_def min_def)
    have le: "f \<le> u" "f \<le> tot" using Cons.prems sum f by auto
    let ?r = "r\<lparr>uq_amount := uq_amount r - f, uq_completed := uq_amount r - f = 0\<rparr>"
    have eq: "slash_requests (r # q) n u tot = Inr (?r # q', n - min n (open_sum (r # q)),
        u - min n (open_sum (r # q)), tot - min n (open_sum (r # q)))"
      using False f le q'(1) by (simp add: u_ok Let_def diff_diff_left m)
    have "open_sum (?r # q') = (uq_amount r - f) + open_sum q'" by (simp add: open_sum_def open_amount_def)
    then have "open_sum (?r # q') = open_sum (r # q) - min n (open_sum (r # q))"
      using q'(2) m sum f(2) min.cobounded2 [of "n - f" "open_sum q"] by linarith
    moreover have "uq_amount ?r < 2 ^ 128" using Cons.prems(1) less_imp_diff_less by simp
    ultimately show ?thesis
      using q'(3,4) eq by (intro exI [of _ "?r # q'"]) (simp del: slash_requests.simps)
  qed
qed

lemma open_sum_rev [simp]: "open_sum (rev q) = open_sum q"
  by (simp add: open_sum_def flip: rev_map)

lemma inv_slash_stake:
  assumes inv: "stk_inv s" and call: "slash_stake p n s = Inr (n', s')"
  shows "stk_inv s' \<and> n' = n - min n (pi_stakedAmount (get_info p s)) \<and> bs_ledger s' = bs_ledger s \<and>
    get_info p s' = (get_info p s)\<lparr>pi_stakedAmount := pi_stakedAmount (get_info p s) - min n (pi_stakedAmount (get_info p s))\<rparr> \<and>
    get_queue p s' = get_queue p s \<and>
    bs_totalStaked s' + min n (pi_stakedAmount (get_info p s)) = bs_totalStaked s \<and>
    bs_totalUnbonding s' = bs_totalUnbonding s"
proof (cases "0 < n \<and> 0 < pi_stakedAmount (get_info p s)")
  case False
  then have "n' = n" "s' = s" using call by (auto simp: slash_stake_def Let_def)
  then show ?thesis using False inv by auto
next
  case True
  define f where "f = min n (pi_stakedAmount (get_info p s))"
  let ?i = "(get_info p s)\<lparr>pi_stakedAmount := pi_stakedAmount (get_info p s) - f\<rparr>"
  have ok: "accounts_ok s" "ids_ok s" using inv by (simp_all add: stk_inv_def)
  note b = accounts_bounds [OF ok(1), of p]
  have f: "(if n > pi_stakedAmount (get_info p s) then pi_stakedAmount (get_info p s) else n) = f"
    "f \<le> pi_stakedAmount (get_info p s)" "f \<le> n" by (auto simp: f_def min_def)
  have c: "u_cast 128 f = f" using f(2) b(4) by (intro u_cast_id) (rule le_less_trans)
  have tot: "f \<le> bs_totalStaked s" using f(2) b(1) by (rule le_trans)
  have s': "n' = n - f" "s' = put_info p ?i (s\<lparr>bs_totalStaked := bs_totalStaked s - f\<rparr>)"
    using call True by (simp_all add: slash_stake_def Let_def f c tot u_ok)
  have prov: "bs_providers s' = fmupd p ?i (bs_providers s)" by (simp add: s' put_info_def)
  have t: "bs_totalStaked s' = bs_totalStaked s - f" "bs_totalUnbonding s' = bs_totalUnbonding s"
    by (simp_all add: s' put_info_def)
  have "accounts_ok s'"
    by (rule accounts_update [OF ok(1) prov, of "get_queue p s"]) (use b f tot t in \<open>auto simp: s'\<close>)
  moreover have "ids_ok s'" by (rule ids_keep [OF ok(2) prov]) (simp_all add: s' put_info_def)
  moreover have "bs_ledger s' = bs_ledger s" by (simp add: s' put_info_def)
  ultimately show ?thesis using s' t tot unfolding f_def [symmetric] by (simp add: stk_inv_def)
qed

lemma inv_slash_queue:
  assumes inv: "stk_inv s" and call: "slash_queue p n s = Inr (n', s')"
  shows "stk_inv s' \<and> n' = n - min n (pi_totalUnbonding (get_info p s)) \<and> bs_ledger s' = bs_ledger s \<and>
    get_info p s' = (get_info p s)\<lparr>pi_totalUnbonding := pi_totalUnbonding (get_info p s) - min n (pi_totalUnbonding (get_info p s))\<rparr> \<and>
    bs_totalStaked s' = bs_totalStaked s \<and>
    bs_totalUnbonding s' + min n (pi_totalUnbonding (get_info p s)) = bs_totalUnbonding s"
proof (cases "n = 0")
  case True
  then have "n' = n" "s' = s" using call by (auto simp: slash_queue_def Let_def)
  then show ?thesis using True inv by auto
next
  case False
  have ok: "accounts_ok s" "ids_ok s" using inv by (simp_all add: stk_inv_def)
  note b = accounts_bounds [OF ok(1), of p]
  define f where "f = min n (pi_totalUnbonding (get_info p s))"
  let ?i = "(get_info p s)\<lparr>pi_totalUnbonding := pi_totalUnbonding (get_info p s) - f\<rparr>"
  obtain q where q: "slash_requests (rev (get_queue p s)) n (pi_totalUnbonding (get_info p s)) (bs_totalUnbonding s) =
      Inr (q, n - f, pi_totalUnbonding (get_info p s) - f, bs_totalUnbonding s - f)"
    "open_sum q = pi_totalUnbonding (get_info p s) - f" "\<forall>r \<in> set q. uq_amount r < 2 ^ 128"
    using slash_requests_exact [of "rev (get_queue p s)" "pi_totalUnbonding (get_info p s)" "bs_totalUnbonding s" n]
      b by (auto simp: f_def)
  have f: "f \<le> pi_totalUnbonding (get_info p s)" "f \<le> bs_totalUnbonding s" using b by (auto simp: f_def)
  have s': "n' = n - f" "s' = put_queue p (rev q) (put_info p ?i (s\<lparr>bs_totalUnbonding := bs_totalUnbonding s - f\<rparr>))"
    using call False by (simp_all add: slash_queue_def q(1))
  have prov: "bs_providers s' = fmupd p ?i (bs_providers s)" by (simp add: s' put_info_def put_queue_def)
  have t: "bs_totalStaked s' = bs_totalStaked s" "bs_totalUnbonding s' = bs_totalUnbonding s - f"
    by (simp_all add: s' put_info_def put_queue_def)
  have "accounts_ok s'"
    by (rule accounts_update [OF ok(1) prov, of "rev q"]) (use b f t q in \<open>auto simp: s'\<close>)
  moreover have "ids_ok s'" by (rule ids_keep [OF ok(2) prov]) (simp_all add: s' put_info_def put_queue_def)
  moreover have "bs_ledger s' = bs_ledger s" by (simp add: s' put_info_def put_queue_def)
  ultimately show ?thesis using s' t f unfolding f_def [symmetric] by (simp add: stk_inv_def)
qed

lemma held_transfer:
  assumes "erc20_ok X" "stk_transfer X a n s = Inr s'"
  shows "stk_held X s \<le> stk_held X s' + n" "n \<le> stk_held X s" "a \<noteq> x_this X \<Longrightarrow> stk_held X s' + n = stk_held X s"
  using assms transferD [OF assms(1)]
  by (auto simp: stk_transfer_def call_simps stk_held_def moved_def)

lemma held_burn:
  assumes "erc20_ok X" "stk_burn X n s = Inr s'"
  shows "stk_held X s' + n = stk_held X s" "bs_treasury s' = bs_treasury s"
  using assms burnD [OF assms(1)]
  by (auto simp: stk_burn_def call_simps stk_held_def)

lemma held_distribute:
  assumes X: "erc20_ok X" and call: "distribute_slash X n b s = Inr s'"
  shows "stk_held X s \<le> stk_held X s' + n"
    and "bs_treasury s \<noteq> x_this X \<Longrightarrow> stk_held X s' + n = stk_held X s"
proof -
  obtain k s1 where k: "k \<le> n" "stk_burn X k s = Inr s1"
    "n - k > 0 \<and> stk_transfer X (bs_treasury s1) (n - k) s1 = Inr s' \<or> n = k \<and> s' = s1"
    using call by (auto simp: distribute_slash_def call_simps Let_def split: if_splits)
  note b = held_burn [OF X k(2)]
  show "stk_held X s \<le> stk_held X s' + n"
    using k(1,3) b held_transfer(1) [OF X, of "bs_treasury s1" "n - k" s1 s'] by auto
  show "stk_held X s' + n = stk_held X s" if "bs_treasury s \<noteq> x_this X"
    using k(1,3) b held_transfer(3) [OF X, of "bs_treasury s1" "n - k" s1 s'] that by auto
qed

lemma deactivate_same:
  "pi_stakedAmount (get_info r (deactivate_below_minimum p s)) = pi_stakedAmount (get_info r s)"
  "pi_totalUnbonding (get_info r (deactivate_below_minimum p s)) = pi_totalUnbonding (get_info r s)"
  "bs_totalStaked (deactivate_below_minimum p s) = bs_totalStaked s"
  "bs_totalUnbonding (deactivate_below_minimum p s) = bs_totalUnbonding s"
  "bs_ledger (deactivate_below_minimum p s) = bs_ledger s"
  by (auto simp: deactivate_below_minimum_def) (auto simp: put_info_def)

lemma inv_deactivate: "stk_inv s \<Longrightarrow> stk_inv (deactivate_below_minimum p s)"
  using inv_info [of s p _ "put_info p _ s", OF _ same_accounts_refl]
  by (simp add: deactivate_below_minimum_def)

text \<open>What a provider's vested entries would forfeit at this moment.\<close>

definition unvested_part :: "msg \<Rightarrow> address \<Rightarrow> ('b, 't) BunkerStaking \<Rightarrow> nat" where
  "unvested_part m p s = (case forfeit_entries m s (get_vested p s) 0 of Inl _ \<Rightarrow> 0 | Inr (_, f) \<Rightarrow> f)"

definition locked :: "('b, 't) BunkerStaking \<Rightarrow> nat" where
  "locked s = bs_totalStaked s + bs_totalUnbonding s"

text \<open>The parts of the state that decide what a slash forfeits and where it goes.\<close>

definition same_vesting :: "('b, 't) BunkerStaking \<Rightarrow> ('b, 't) BunkerStaking \<Rightarrow> bool" where
  "same_vesting s s' \<longleftrightarrow> bs_vestedRewards s' = bs_vestedRewards s \<and> bs_vestingPeriod s' = bs_vestingPeriod s \<and>
     bs_treasury s' = bs_treasury s"

lemma same_vesting_entries:
  assumes "same_vesting s s'"
  shows "forfeit_entries m s' es f = forfeit_entries m s es f"
proof -
  have "bs_vestingPeriod s' = bs_vestingPeriod s" using assms by (simp add: same_vesting_def)
  then have "vestedAmount m s' e = vestedAmount m s e" for e unfolding vestedAmount_def by (simp only:)
  then show ?thesis by (induction es arbitrary: f) (simp_all cong: if_cong)
qed

lemma same_vesting_part: "same_vesting s s' \<Longrightarrow> unvested_part m p s' = unvested_part m p s"
  using same_vesting_entries [of s s'] by (simp add: unvested_part_def get_vested_def same_vesting_def)

lemma same_vesting_simps [simp]:
  "same_vesting s s" "same_vesting s (put_info p i s') = same_vesting s s'"
  "same_vesting s (put_queue p q s') = same_vesting s s'"
  "same_vesting s (s'\<lparr>bs_totalStaked := n\<rparr>) = same_vesting s s'"
  "same_vesting s (s'\<lparr>bs_totalUnbonding := n\<rparr>) = same_vesting s s'"
  "same_vesting s (checkpoint_rewards m r s') = same_vesting s s'"
  "same_vesting s (credit_reward a e s') = same_vesting s s'"
  by (simp_all add: same_vesting_def put_info_def put_queue_def checkpoint_rewards_def credit_reward_def)

lemma vesting_update: "doUpdateReward m a s = Inr s' \<Longrightarrow> same_vesting s s'"
  by (auto simp: doUpdateReward_def call_simps Let_def split: if_splits)

lemma vesting_slash:
  "slash_stake p n s = Inr (n', s') \<Longrightarrow> same_vesting s s'"
  "slash_queue p n s = Inr (n', s') \<Longrightarrow> same_vesting s s'"
  by (auto simp: slash_stake_def slash_queue_def call_simps Let_def split: if_splits)

lemma forfeit_part:
  assumes "forfeitUnvestedRewards m p s = Inr (f, s')"
  shows "f = unvested_part m p s" "same_accounts s s'" "bs_ledger s' = bs_ledger s" "bs_treasury s' = bs_treasury s"
  using assms keeps_forfeit [OF assms]
  by (auto simp: forfeitUnvestedRewards_def unvested_part_def call_simps put_vested_def)

text \<open>The steps of \<^verbatim>\<open>_executeSlash\<close> as one chain of intermediate states.\<close>

lemma slash_chain:
  assumes "executeSlash_internal X m p n b s = Inr s'"
  obtains n1 s1 n2 s2 f0 s3 where "0 < n" "n \<le> pi_stakedAmount (get_info p s) + pi_totalUnbonding (get_info p s)"
    "slash_stake p n s = Inr (n1, s1)" "slash_queue p n1 s1 = Inr (n2, s2)"
    "forfeitUnvestedRewards m p s2 = Inr (f0, s3)" "locked s3 \<le> stk_held X s3"
    "distribute_slash X (n + min f0 (stk_held X s3 - locked s3)) b (deactivate_below_minimum p s3) = Inr s'"
proof -
  let ?t = "pi_stakedAmount (get_info p s) + pi_totalUnbonding (get_info p s)"
  have n: "0 < n" using assms by (cases "n = 0") (simp_all add: executeSlash_internal_def)
  have fits: "?t < 2 ^ 256"
    using assms n by (cases "?t < 2 ^ 256") (simp_all add: executeSlash_internal_def Let_def u_add_def)
  have le: "n \<le> ?t"
    using assms n fits by (cases "n \<le> ?t") (simp_all add: executeSlash_internal_def Let_def u_ok)
  have "rbind (slash_stake p n s) (\<lambda>(remaining, s).
          rbind (slash_queue p remaining s) (\<lambda>(_, s).
          rbind (forfeitUnvestedRewards m p s) (\<lambda>(forfeited, s).
          rbind (u_sub (stk_held X s) (bs_totalStaked s)) (\<lambda>unstaked_balance.
          rbind (u_sub unstaked_balance (bs_totalUnbonding s)) (\<lambda>availableForForfeit.
          rbind (u_add 256 n (if forfeited > availableForForfeit then availableForForfeit else forfeited)) (\<lambda>totalSlashAmount.
          distribute_slash X totalSlashAmount b (deactivate_below_minimum p s))))))) = Inr s'"
    using assms n le unfolding executeSlash_internal_def Let_def u_ok(1) [OF fits] rbind_simps by simp
  then obtain n1 s1 n2 s2 f0 s3 where "slash_stake p n s = Inr (n1, s1)" "slash_queue p n1 s1 = Inr (n2, s2)"
    "forfeitUnvestedRewards m p s2 = Inr (f0, s3)" "bs_totalStaked s3 \<le> stk_held X s3"
    "bs_totalUnbonding s3 \<le> stk_held X s3 - bs_totalStaked s3"
    "distribute_slash X (n + (if f0 > stk_held X s3 - bs_totalStaked s3 - bs_totalUnbonding s3
        then stk_held X s3 - bs_totalStaked s3 - bs_totalUnbonding s3 else f0)) b (deactivate_below_minimum p s3) = Inr s'"
    by (auto simp only: rbind_Inr_iff u_Inr_iff split_paired_Ex prod.case)
  moreover have "(if f0 > stk_held X s3 - bs_totalStaked s3 - bs_totalUnbonding s3
        then stk_held X s3 - bs_totalStaked s3 - bs_totalUnbonding s3 else f0) = min f0 (stk_held X s3 - locked s3)"
    by (simp add: locked_def min_def)
  ultimately show thesis using n le by (intro that) (simp_all add: locked_def)
qed

lemma slash_effect:
  assumes inv: "stk_inv s" and X: "erc20_ok X" and call: "executeSlash_internal X m p n b s = Inr s'"
  obtains f where "stk_inv s'" "0 < n" "n \<le> pi_stakedAmount (get_info p s) + pi_totalUnbonding (get_info p s)"
    "pi_stakedAmount (get_info p s') = pi_stakedAmount (get_info p s) - n"
    "pi_totalUnbonding (get_info p s') = pi_totalUnbonding (get_info p s) - (n - pi_stakedAmount (get_info p s))"
    "locked s' + n = locked s" "locked s' + f \<le> stk_held X s" "stk_held X s \<le> stk_held X s' + (n + f)"
    "f \<le> unvested_part m p s" "bs_treasury s \<noteq> x_this X \<Longrightarrow> stk_held X s' + (n + f) = stk_held X s"
  using call
proof (rule slash_chain)
  let ?st = "pi_stakedAmount (get_info p s)" and ?un = "pi_totalUnbonding (get_info p s)"
  fix n1 s1 n2 s2 f0 s3
  assume n: "0 < n" "n \<le> ?st + ?un" and c1: "slash_stake p n s = Inr (n1, s1)"
    and c2: "slash_queue p n1 s1 = Inr (n2, s2)" and c3: "forfeitUnvestedRewards m p s2 = Inr (f0, s3)"
    and le: "locked s3 \<le> stk_held X s3"
    and c4: "distribute_slash X (n + min f0 (stk_held X s3 - locked s3)) b (deactivate_below_minimum p s3) = Inr s'"
  let ?f = "min f0 (stk_held X s3 - locked s3)" and ?d = "deactivate_below_minimum p s3"
  note e1 = inv_slash_stake [OF inv c1]
  note e2 = inv_slash_queue [OF conjunct1 [OF e1] c2]
  note e3 = forfeit_part [OF c3]
  note e4 = keeps_distribute [OF c4]
  have inv3: "stk_inv s3" using e2 e3(2) stk_inv_same by blast
  have info: "pi_stakedAmount (get_info p s') = ?st - n" "pi_totalUnbonding (get_info p s') = ?un - (n - ?st)"
    using e1 e2 same_accounts_get(1) [OF e4, of p] same_accounts_get(1) [OF e3(2), of p]
    by (auto simp: deactivate_same min_def)
  have l3: "locked s3 + n = locked s"
    using e1 e2 n e3(2) by (auto simp: locked_def same_accounts_def min_def split: if_splits)
  have l': "locked s' = locked s3" using e4 by (simp add: locked_def same_accounts_def deactivate_same)
  have h: "stk_held X ?d = stk_held X s" "stk_held X s3 = stk_held X s"
    using e1 e2 e3(3) by (simp_all add: stk_held_def deactivate_same)
  have v: "same_vesting s s2" "bs_treasury ?d = bs_treasury s"
    using vesting_slash(1) [OF c1] vesting_slash(2) [OF c2] e3(4)
    by (auto simp: same_vesting_def deactivate_below_minimum_def put_info_def)
  show thesis
  proof (rule that)
    show "stk_inv s'" using inv_deactivate [OF inv3] e4 stk_inv_same by blast
    show "locked s' + ?f \<le> stk_held X s" using le h l' by simp
    show "?f \<le> unvested_part m p s" using e3(1) same_vesting_part [OF v(1)] by simp
    show "stk_held X s \<le> stk_held X s' + (n + ?f)" using held_distribute(1) [OF X c4] h by simp
    show "stk_held X s' + (n + ?f) = stk_held X s" if "bs_treasury s \<noteq> x_this X"
      using held_distribute(2) [OF X c4] h v(2) that by simp
  qed (use n info l3 l' in simp_all)
qed

subsection \<open>The balance covers the locked stakes\<close>

definition stk_safe :: "('b, 't) chain \<Rightarrow> ('b, 't) BunkerStaking \<Rightarrow> bool" where
  "stk_safe X s \<longleftrightarrow> stk_inv s \<and> locked s \<le> stk_held X s"

definition surplus :: "('b, 't) chain \<Rightarrow> ('b, 't) BunkerStaking \<Rightarrow> nat" where
  "surplus X s = stk_held X s - locked s"

lemma same_locked: "same_accounts s s' \<Longrightarrow> locked s' = locked s"
  by (simp add: same_accounts_def locked_def)

lemma safe_same: "stk_safe X s \<Longrightarrow> same_accounts s s' \<Longrightarrow> stk_held X s \<le> stk_held X s' \<Longrightarrow> stk_safe X s'"
  using stk_inv_same [of s s'] same_locked [of s s'] by (auto simp: stk_safe_def)

lemma safe_slash:
  assumes "stk_safe X s" "erc20_ok X" "executeSlash_internal X m p n b s = Inr s'"
    and "unvested_part m p s \<le> surplus X s"
  shows "stk_safe X s'"
proof -
  have "stk_inv s" using assms(1) by (simp add: stk_safe_def)
  then show ?thesis
    by (rule slash_effect [OF _ assms(2,3)]) (use assms(1,4) in \<open>auto simp: stk_safe_def surplus_def\<close>)
qed

lemma update_surplus: "doUpdateReward m a s = Inr s' \<Longrightarrow> surplus X s' = surplus X s \<and> stk_held X s' = stk_held X s"
  using keeps_update [of m a s s'] same_locked [of s s'] by (auto simp: surplus_def stk_held_def)

lemma safe_update: "stk_safe X s \<Longrightarrow> doUpdateReward m a s = Inr s' \<Longrightarrow> stk_safe X s'"
  using safe_same [of X s s'] keeps_update [of m a s s'] update_surplus [of m a s s' X] by simp

text \<open>Calls that touch neither the accounts nor the ledger.\<close>

definition quiet :: "('b, 't) BunkerStaking \<Rightarrow> ('b, 't) BunkerStaking \<Rightarrow> bool" where
  "quiet s s' \<longleftrightarrow> same_accounts s s' \<and> bs_ledger s' = bs_ledger s"

lemma quiet_simps [simp]:
  "quiet s s" "quiet s (s'\<lparr>bs_unbondingPeriod := n\<rparr>) = quiet s s'"
  "quiet s (s'\<lparr>bs_slashBurnBps := n\<rparr>) = quiet s s'" "quiet s (s'\<lparr>bs_slashTreasuryBps := n\<rparr>) = quiet s s'"
  "quiet s (s'\<lparr>bs_maxTierMultiplierBps := n\<rparr>) = quiet s s'" "quiet s (s'\<lparr>bs_appealWindow := n\<rparr>) = quiet s s'"
  "quiet s (s'\<lparr>bs_treasury := a\<rparr>) = quiet s s'" "quiet s (s'\<lparr>bs_pendingBeneficiaries := pb\<rparr>) = quiet s s'"
  "quiet s (s'\<lparr>bs_tierConfigs := tc\<rparr>) = quiet s s'" "quiet s (s'\<lparr>bs_rewardsDuration := n\<rparr>) = quiet s s'"
  "quiet s (s'\<lparr>bs_rewardRate := n\<rparr>) = quiet s s'" "quiet s (s'\<lparr>bs_periodFinish := n\<rparr>) = quiet s s'"
  "quiet s (s'\<lparr>bs_lastUpdateTime := n\<rparr>) = quiet s s'" "quiet s (s'\<lparr>bs_slashProposalCount := n\<rparr>) = quiet s s'"
  "quiet s (s'\<lparr>bs_slashProposals := ps\<rparr>) = quiet s s'" "quiet s (s'\<lparr>bs_slashPercentageBps := pc\<rparr>) = quiet s s'"
  "quiet s (s'\<lparr>bs_slashingEnabled := e\<rparr>) = quiet s s'" "quiet s (s'\<lparr>bs_vestingPeriod := n\<rparr>) = quiet s s'"
  "quiet s (s'\<lparr>bs_immediateReleaseBps := n\<rparr>) = quiet s s'"
  "quiet s (s'\<lparr>bs_totalComputeHoursReported := n\<rparr>) = quiet s s'"
  "quiet s (s'\<lparr>bs_emissionMultiplier := n\<rparr>) = quiet s s'" "quiet s (s'\<lparr>bs_maxEmissionRate := n\<rparr>) = quiet s s'"
  "quiet s (s'\<lparr>bs_base := b\<rparr>) = quiet s s'" "quiet s (put_proposal i pr s') = quiet s s'"
  "quiet s (put_vested p v s') = quiet s s'" "quiet s (s'\<lparr>bs_rewards := rw\<rparr>) = quiet s s'"
  by (simp_all add: quiet_def same_accounts_def put_proposal_def put_vested_def)

lemma quiet_update: "doUpdateReward m a s = Inr s' \<Longrightarrow> quiet s s'"
  using keeps_update by (simp add: quiet_def)

lemma safe_quiet: "stk_safe X s \<Longrightarrow> quiet s s' \<Longrightarrow> stk_safe X s'"
  using safe_same [of X s s'] by (simp add: quiet_def stk_held_def)

named_theorems quiet_calls

lemma quiet_beneficiary [quiet_calls]:
  "BunkerStaking_initiateBeneficiaryChange m a s = Inr s' \<Longrightarrow> quiet s s'"
  by (auto simp: BunkerStaking_initiateBeneficiaryChange_def call_simps split: if_splits)

lemma quiet_propose [quiet_calls]:
  "BunkerStaking_proposeSlash X m p n r s = Inr s' \<Longrightarrow> quiet s s'"
  "BunkerStaking_proposeSlashByReason X m p sr s = Inr s' \<Longrightarrow> quiet s s'"
  by (auto simp: BunkerStaking_proposeSlash_def BunkerStaking_proposeSlashByReason_def stk_onlySlasher_def
      new_proposal_def call_simps Let_def split: if_splits)

lemma quiet_appeal [quiet_calls]: "BunkerStaking_appealSlash m i s = Inr s' \<Longrightarrow> quiet s s'"
  by (auto simp: BunkerStaking_appealSlash_def call_simps Let_def split: if_splits)

lemma quiet_notify [quiet_calls]: "BunkerStaking_notifyRewardAmount X m n s = Inr s' \<Longrightarrow> quiet s s'"
  by (auto simp: BunkerStaking_notifyRewardAmount_def stk_onlyOwner_def updateReward_def rbind_Inr_iff
      dest!: quiet_update split: if_splits)

lemma quiet_parameters [quiet_calls]:
  "BunkerStaking_setSlashPercentage X m sr n s = Inr s' \<Longrightarrow> quiet s s'"
  "BunkerStaking_setRewardsDuration X m n s = Inr s' \<Longrightarrow> quiet s s'"
  "BunkerStaking_setVestingParams X m n k s = Inr s' \<Longrightarrow> quiet s s'"
  "BunkerStaking_setEmissionMultiplier X m n s = Inr s' \<Longrightarrow> quiet s s'"
  "BunkerStaking_setMaxEmissionRate X m n s = Inr s' \<Longrightarrow> quiet s s'"
  "BunkerStaking_setTreasury X m a s = Inr s' \<Longrightarrow> quiet s s'"
  "BunkerStaking_setTierRewardMultiplier X m t n s = Inr s' \<Longrightarrow> quiet s s'"
  "BunkerStaking_setUnbondingPeriod X m n s = Inr s' \<Longrightarrow> quiet s s'"
  "BunkerStaking_setAppealWindow X m n s = Inr s' \<Longrightarrow> quiet s s'"
  "BunkerStaking_setSlashingEnabled X m e s = Inr s' \<Longrightarrow> quiet s s'"
  by (auto simp: BunkerStaking_setSlashPercentage_def BunkerStaking_setRewardsDuration_def
      BunkerStaking_setVestingParams_def BunkerStaking_setEmissionMultiplier_def
      BunkerStaking_setMaxEmissionRate_def BunkerStaking_setTreasury_def
      BunkerStaking_setTierRewardMultiplier_def BunkerStaking_setUnbondingPeriod_def
      BunkerStaking_setAppealWindow_def BunkerStaking_setSlashingEnabled_def stk_onlyOwner_def split: if_splits)

lemma quiet_checked_parameters [quiet_calls]:
  "BunkerStaking_reportComputeHours X m n s = Inr s' \<Longrightarrow> quiet s s'"
  "BunkerStaking_setTierMinStake X m t n s = Inr s' \<Longrightarrow> quiet s s'"
  "BunkerStaking_setMaxTierMultiplierBps X m n s = Inr s' \<Longrightarrow> quiet s s'"
  "BunkerStaking_setSlashFeeSplit X m n k s = Inr s' \<Longrightarrow> quiet s s'"
  "BunkerStaking_pause X m s = Inr s' \<Longrightarrow> quiet s s'"
  "BunkerStaking_unpause X m s = Inr s' \<Longrightarrow> quiet s s'"
  by (auto simp: BunkerStaking_reportComputeHours_def BunkerStaking_setTierMinStake_def
      BunkerStaking_setMaxTierMultiplierBps_def BunkerStaking_setSlashFeeSplit_def BunkerStaking_pause_def
      BunkerStaking_unpause_def stk_onlyOwner_def stk_onlySlasher_def rbind_Inr_iff split: if_splits)

lemma deposit_held:
  assumes "erc20_ok X" "deposit_stake X m n nt i s = Inr s'" "m_sender m \<noteq> x_this X"
  shows "stk_held X s' = stk_held X s + n" "locked s' = locked s + n"
proof -
  obtain t where t: "x_transferFrom X (x_this X) (m_sender m) (x_this X) n (bs_ledger s) = Some t"
    and s': "s' = (put_info (m_sender m) (i\<lparr>pi_stakedAmount := u_cast 128 nt\<rparr>) s)
            \<lparr>bs_totalStaked := bs_totalStaked s + n, bs_ledger := t\<rparr>"
    by (rule deposit_result [OF assms(2)])
  show "stk_held X s' = stk_held X s + n"
    using transferFromD(2) [OF assms(1) t, of "x_this X"] assms(3) by (simp add: s' stk_held_def moved_def)
  show "locked s' = locked s + n" by (simp add: s' locked_def put_info_def)
qed

lemma safe_stake:
  assumes X: "erc20_ok X" and safe: "stk_safe X s" and ok: "stake_fits m n s" "m_sender m \<noteq> x_this X"
    and call: "BunkerStaking_stake X m n s = Inr s' \<or> BunkerStaking_stakeWithIdentity X m n nid reg cap s = Inr s'"
  shows "stk_safe X s'"
proof -
  obtain s1 s2 nt i where u: "doUpdateReward m (m_sender m) s = Inr s1" and d: "deposit_stake X m n nt i s2 = Inr s'"
    and s2: "locked s2 = locked s1" "bs_ledger s2 = bs_ledger s1"
  proof (cases "BunkerStaking_stake X m n s = Inr s'")
    case True
    then show thesis by (rule stake_deposits) (rule that, auto)
  next
    case False
    then have "BunkerStaking_stakeWithIdentity X m n nid reg cap s = Inr s'" using call by simp
    then show thesis by (rule stakeWithIdentity_deposits) (rule that, assumption, assumption, auto simp: locked_def)
  qed
  have "stk_inv s'" using call inv_stake [of s m n X s'] inv_stakeWithIdentity [of s m n X nid reg cap s'] safe ok(1)
    by (auto simp: stk_safe_def)
  moreover have "locked s' \<le> stk_held X s'"
    using safe_update [OF safe u] deposit_held [OF X d ok(2)] s2 by (simp add: stk_safe_def stk_held_def)
  ultimately show ?thesis by (simp add: stk_safe_def)
qed

lemma safe_request:
  assumes "stk_safe X s" "BunkerStaking_requestUnstake X m n s = Inr s'"
  shows "stk_safe X s'"
  using assms(2)
proof (rule request_result)
  fix s1 i r
  assume u: "doUpdateReward m (m_sender m) s = Inr s1"
    and s': "s' = put_queue (m_sender m) (get_queue (m_sender m) s1 @ [r]) (put_info (m_sender m) i
        (s1\<lparr>bs_totalStaked := bs_totalStaked s1 - n, bs_totalUnbonding := bs_totalUnbonding s1 + n\<rparr>))"
    and n: "n \<le> bs_totalStaked s1"
  have "locked s' = locked s1" "stk_held X s' = stk_held X s1"
    using n by (simp_all add: s' locked_def stk_held_def put_queue_def put_info_def)
  moreover have "stk_inv s'" using inv_request [OF _ assms(2)] assms(1) by (simp add: stk_safe_def)
  ultimately show ?thesis using safe_update [OF assms(1) u] by (simp add: stk_safe_def)
qed

lemma safe_complete:
  assumes X: "erc20_ok X" and safe: "stk_safe X s" and call: "BunkerStaking_completeUnstake X m j s = Inr s'"
  shows "stk_safe X s'"
  using call
proof (rule complete_result)
  let ?n = "uq_amount (get_queue (m_sender m) s ! j)"
  fix t
  assume s': "s' = (put_queue (m_sender m) ((get_queue (m_sender m) s)[j := (get_queue (m_sender m) s ! j)\<lparr>uq_completed := True\<rparr>])
       (put_info (m_sender m) ((get_info (m_sender m) s)\<lparr>pi_totalUnbonding :=
            pi_totalUnbonding (get_info (m_sender m) s) - u_cast 128 ?n\<rparr>)
          (s\<lparr>bs_totalUnbonding := bs_totalUnbonding s - ?n\<rparr>)))\<lparr>bs_ledger := t\<rparr>"
    and t: "x_transfer X (x_this X) (m_sender m) ?n (bs_ledger s) = Some t" and n: "?n \<le> bs_totalUnbonding s"
  have "locked s' + ?n = locked s" using n by (simp add: s' locked_def put_queue_def put_info_def)
  moreover have "stk_held X s \<le> stk_held X s' + ?n"
    using transferD(1) [OF X t] transferD(2) [OF X t, of "x_this X"] by (simp add: s' stk_held_def moved_def)
  moreover have "stk_inv s'" using inv_complete [OF _ call] safe by (simp add: stk_safe_def)
  ultimately show ?thesis using safe by (simp add: stk_safe_def)
qed

lemma safe_info:
  assumes "stk_safe X s" "quiet (put_info p i s) s'"
    and "pi_stakedAmount i = pi_stakedAmount (get_info p s)"
      "pi_totalUnbonding i = pi_totalUnbonding (get_info p s)" "pi_nodeId i = pi_nodeId (get_info p s)"
  shows "stk_safe X s'"
  using inv_info [OF _ _ assms(3-5), of s'] assms(1,2)
  by (auto simp: stk_safe_def quiet_def locked_def stk_held_def same_accounts_def put_info_def)

lemma safe_pending [simp]: "stk_safe X (s\<lparr>bs_pendingBeneficiaries := pb\<rparr>) = stk_safe X s"
  by (simp add: stk_safe_def stk_inv_def accounts_ok_def ids_ok_def locked_def stk_held_def get_info_def get_queue_def)

lemma safe_flags:
  "stk_safe X s \<Longrightarrow> BunkerStaking_executeBeneficiaryChange m s = Inr s' \<Longrightarrow> stk_safe X s'"
  "stk_safe X s \<Longrightarrow> BunkerStaking_freezeProvider X m p s = Inr s' \<Longrightarrow> stk_safe X s'"
  "stk_safe X s \<Longrightarrow> BunkerStaking_unfreezeProvider X m p s = Inr s' \<Longrightarrow> stk_safe X s'"
  by (auto simp: BunkerStaking_executeBeneficiaryChange_def BunkerStaking_freezeProvider_def
      BunkerStaking_unfreezeProvider_def stk_onlySlasher_def stk_onlyOwner_def Let_def split: if_splits
      intro!: safe_info [OF _ quiet_simps(1)])

lemma safe_updateIdentity:
  assumes "stk_safe X s" "BunkerStaking_updateIdentity m nid reg cap s = Inr s'" "m_sender m \<noteq> 0"
  shows "stk_safe X s'"
proof -
  have "locked s' = locked s \<and> stk_held X s' = stk_held X s"
    using assms(2) by (auto simp: BunkerStaking_updateIdentity_def Let_def locked_def stk_held_def put_info_def
        split: if_splits)
  then show ?thesis using inv_updateIdentity [OF _ assms(2,3)] assms(1) by (simp add: stk_safe_def)
qed

text \<open>What the two claims pay.\<close>

definition immediate_part :: "msg \<Rightarrow> ('b, 't) BunkerStaking \<Rightarrow> nat" where
  "immediate_part m s =
     (case doUpdateReward m (m_sender m) s of Inl _ \<Rightarrow> 0
      | Inr s1 \<Rightarrow> map_get 0 (bs_rewards s1) (m_sender m) * bs_immediateReleaseBps s1 div STK_BPS_DENOMINATOR)"

definition vested_part :: "msg \<Rightarrow> ('b, 't) BunkerStaking \<Rightarrow> nat" where
  "vested_part m s = (case claim_entries m s (get_vested (m_sender m) s) 0 of Inl _ \<Rightarrow> 0 | Inr (_, c) \<Rightarrow> c)"

lemma safe_pay:
  assumes "erc20_ok X" "stk_safe X s" "quiet s s1" "stk_transfer X a n s1 = Inr s2" "quiet s2 s'" "n \<le> surplus X s"
  shows "stk_safe X s'"
proof -
  have "same_accounts s s'"
    using assms(3,5) keeps_transfer [OF assms(4)] same_accounts_trans by (metis quiet_def)
  moreover have "stk_held X s \<le> stk_held X s' + n"
    using held_transfer(1) [OF assms(1,4)] assms(3,5) by (simp add: quiet_def stk_held_def)
  ultimately show ?thesis
    using assms(2,6) stk_inv_same [of s s'] same_locked [of s s'] by (auto simp: stk_safe_def surplus_def)
qed

lemma safe_claim:
  assumes X: "erc20_ok X" and safe: "stk_safe X s" and call: "BunkerStaking_claimRewards X m s = Inr s'"
    and pay: "immediate_part m s \<le> surplus X s"
  shows "stk_safe X s'"
proof -
  let ?p = "m_sender m"
  obtain s1 where u: "doUpdateReward m ?p s = Inr s1" using call
    by (auto simp: BunkerStaking_claimRewards_def updateReward_def rbind_Inr_iff)
  let ?n = "map_get 0 (bs_rewards s1) ?p * bs_immediateReleaseBps s1 div STK_BPS_DENOMINATOR"
  let ?s1 = "s1\<lparr>bs_rewards := fmupd ?p 0 (bs_rewards s1)\<rparr>"
  have n: "immediate_part m s = ?n" by (simp add: immediate_part_def u)
  obtain s2 where s2: "(if ?n > 0 then stk_transfer X ?p ?n ?s1 else Inr ?s1) = Inr s2" and s': "quiet s2 s'"
    using call u by (auto simp: BunkerStaking_claimRewards_def updateReward_def call_simps Let_def split: if_splits)
  have q: "quiet s ?s1" using quiet_update [OF u] by simp
  show ?thesis
  proof (cases "?n > 0")
    case True
    then show ?thesis using safe_pay [OF X safe q _ s'] s2 pay n by auto
  next
    case False
    then have "s2 = ?s1" using s2 by simp
    with safe_quiet [OF safe q] s' show ?thesis using safe_quiet by blast
  qed
qed

lemma safe_claimVested:
  assumes X: "erc20_ok X" and safe: "stk_safe X s" and call: "BunkerStaking_claimVestedRewards X m s = Inr s'"
    and pay: "vested_part m s \<le> surplus X s"
  shows "stk_safe X s'"
proof -
  obtain es n where e: "claim_entries m s (get_vested (m_sender m) s) 0 = Inr (es, n)"
    and t: "stk_transfer X (m_sender m) n (put_vested (m_sender m) (compact_entries 0 es) s) = Inr s'"
    using call by (auto simp: BunkerStaking_claimVestedRewards_def Let_def rbind_Inr_iff split: if_splits)
  have "n \<le> surplus X s" using pay e by (simp add: vested_part_def)
  then show ?thesis using safe_pay [OF X safe _ t] by simp
qed

lemma safe_run_proposal:
  assumes X: "erc20_ok X" and safe: "stk_safe X s" and call: "run_proposal X m pr (put_proposal i pr' s) = Inr s'"
    and pay: "unvested_part m (slp_provider pr) s \<le> surplus X s"
  shows "stk_safe X s'"
proof -
  let ?s0 = "put_proposal i pr' s"
  obtain s1 n where u: "doUpdateReward m (slp_provider pr) ?s0 = Inr s1"
    and n: "n > 0 \<and> executeSlash_internal X m (slp_provider pr) n (slp_slashBurnBpsSnapshot pr) s1 = Inr s' \<or> s' = s1"
    using call unfolding run_proposal_def Let_def by (auto simp only: rbind_Inr_iff split: if_splits)
  have safe1: "stk_safe X s1" using safe_update [OF safe_quiet [OF safe] u] by simp
  have "same_vesting s s1" using vesting_update [OF u] by (simp add: same_vesting_def put_proposal_def)
  moreover have "surplus X (put_proposal i pr' s) = surplus X s"
    by (simp add: surplus_def locked_def stk_held_def put_proposal_def)
  then have "surplus X s1 = surplus X s" using update_surplus [OF u, of X] by simp
  ultimately show ?thesis
    using n safe1 pay same_vesting_part [of s s1 m] safe_slash [OF safe1 X] by auto
qed

lemma safe_slash_now:
  assumes "erc20_ok X" "stk_safe X s" "unvested_part m p s \<le> surplus X s"
    and "BunkerStaking_slash X m p n s = Inr s' \<or> BunkerStaking_slashImmediate X m p n s = Inr s'"
  shows "stk_safe X s'"
proof -
  obtain s1 b where u: "doUpdateReward m p s = Inr s1" and call: "executeSlash_internal X m p n b s1 = Inr s'"
    using assms(4) unfolding BunkerStaking_slash_def BunkerStaking_slashImmediate_def stk_onlySlasher_def updateReward_def
    by (auto simp only: rbind_Inr_iff split: if_splits)
  show ?thesis
    using safe_slash [OF safe_update [OF assms(2) u] assms(1) call] assms(3)
      same_vesting_part [OF vesting_update [OF u]] update_surplus [OF u, of X] by simp
qed

lemma execute_result:
  assumes "BunkerStaking_executeSlash X m i s = Inr s'"
  obtains pr where "getValidProposal i s = Inr pr" "x_hasRole X (bs_base s) SLASHER_ROLE (m_sender m)"
    "bs_slashingEnabled s" "\<not> slp_executed pr" "\<not> slp_appealed pr"
    "slp_proposedAt pr + slp_appealWindowSnapshot pr \<le> m_time m"
    "run_proposal X m pr (put_proposal i (pr\<lparr>slp_executed := True\<rparr>) s) = Inr s'"
  using assms
  by (auto simp: BunkerStaking_executeSlash_def stk_onlySlasher_def Let_def rbind_Inr_iff u_Inr_iff split: if_splits)

lemma resolve_result:
  assumes "BunkerStaking_resolveAppeal X m i uphold s = Inr s'"
  obtains pr where "getValidProposal i s = Inr pr" "m_sender m = x_owner X (bs_base s)"
    "slp_appealed pr" "\<not> slp_resolved pr" "\<not> slp_executed pr" "uphold" "bs_slashingEnabled s"
    "run_proposal X m (pr\<lparr>slp_resolved := True\<rparr>)
       (put_proposal i (pr\<lparr>slp_resolved := True, slp_executed := True\<rparr>) s) = Inr s'"
  | pr where "getValidProposal i s = Inr pr" "m_sender m = x_owner X (bs_base s)"
    "slp_appealed pr" "\<not> slp_resolved pr" "\<not> slp_executed pr" "\<not> uphold"
    "s' = put_proposal i (pr\<lparr>slp_resolved := True\<rparr>) s"
  using assms
  by (cases uphold) (auto simp: BunkerStaking_resolveAppeal_def stk_onlyOwner_def Let_def rbind_Inr_iff split: if_splits)

lemma safe_proposals:
  assumes "erc20_ok X" "stk_safe X s" "\<And>pr. getValidProposal i s = Inr pr \<Longrightarrow> unvested_part m (slp_provider pr) s \<le> surplus X s"
  shows "BunkerStaking_executeSlash X m i s = Inr s' \<Longrightarrow> stk_safe X s'"
    and "BunkerStaking_resolveAppeal X m i uphold s = Inr s' \<Longrightarrow> stk_safe X s'"
proof -
  show "stk_safe X s'" if "BunkerStaking_executeSlash X m i s = Inr s'"
    using that by (rule execute_result) (rule safe_run_proposal [OF assms(1,2)], assumption, erule assms(3))
  show "stk_safe X s'" if "BunkerStaking_resolveAppeal X m i uphold s = Inr s'"
    using that
  proof (rule resolve_result)
    fix pr
    assume pr: "getValidProposal i s = Inr pr" and run: "run_proposal X m (pr\<lparr>slp_resolved := True\<rparr>)
       (put_proposal i (pr\<lparr>slp_resolved := True, slp_executed := True\<rparr>) s) = Inr s'"
    show ?thesis by (rule safe_run_proposal [OF assms(1,2) run]) (use assms(3) [OF pr] in simp)
  next
    fix pr
    assume "s' = put_proposal i (pr\<lparr>slp_resolved := True\<rparr>) s"
    then show ?thesis using safe_quiet [OF assms(2)] by simp
  qed
qed

text \<open>
  What the environment is asked for.  A staker is not the zero address or the contract itself,
  and its stake fits into 128 bits; other accounts do not take tokens out of the contract; and
  every reward that is paid, or forfeited by a slash, is covered by what the contract holds
  beyond the locked stakes.  Owner, slasher and everybody else are otherwise free to call
  anything at any time.
\<close>

fun staking_op_ok :: "('b, 't) chain \<Rightarrow> msg \<times> ('b, 't) staking_op \<Rightarrow> ('b, 't) BunkerStaking \<Rightarrow> bool" where
  "staking_op_ok X (m, StkStake n) s = (stake_fits m n s \<and> m_sender m \<noteq> x_this X)"
| "staking_op_ok X (m, StkStakeId n _ _ _) s = (stake_fits m n s \<and> m_sender m \<noteq> x_this X)"
| "staking_op_ok X (m, StkUpdateId _ _ _) s = (m_sender m \<noteq> 0)"
| "staking_op_ok X (m, StkSlashNow p _) s = (unvested_part m p s \<le> surplus X s)"
| "staking_op_ok X (m, StkSlash p _) s = (unvested_part m p s \<le> surplus X s)"
| "staking_op_ok X (m, StkExecute i) s =
     (case getValidProposal i s of Inl _ \<Rightarrow> True | Inr pr \<Rightarrow> unvested_part m (slp_provider pr) s \<le> surplus X s)"
| "staking_op_ok X (m, StkResolve i _) s =
     (case getValidProposal i s of Inl _ \<Rightarrow> True | Inr pr \<Rightarrow> unvested_part m (slp_provider pr) s \<le> surplus X s)"
| "staking_op_ok X (m, StkClaim) s = (immediate_part m s \<le> surplus X s)"
| "staking_op_ok X (m, StkClaimVested) s = (vested_part m s \<le> surplus X s)"
| "staking_op_ok X (m, StkEnvLedger t) s = (stk_held X s \<le> x_balanceOf X t (x_this X))"
| "staking_op_ok X (m, _) s = True"

lemma safe_ledger: "stk_safe X s \<Longrightarrow> stk_held X s \<le> x_balanceOf X t (x_this X) \<Longrightarrow> stk_safe X (s\<lparr>bs_ledger := t\<rparr>)"
  using safe_same [of X s "s\<lparr>bs_ledger := t\<rparr>"] by (simp add: same_accounts_def stk_held_def)

lemma staking_call_safe:
  assumes X: "erc20_ok X" and safe: "stk_safe X s" and ok: "staking_op_ok X (m, op) s"
    and call: "staking_call X m op s = Inr s'"
  shows "stk_safe X s'"
proof (cases op)
  case (StkStake n)
  then show ?thesis using safe_stake [OF X safe, of m n s'] ok call by simp
next
  case (StkStakeId n i r c)
  then show ?thesis using safe_stake [OF X safe, of m n s' i r c] ok call by simp
next
  case (StkUpdateId i r c)
  then show ?thesis using safe_updateIdentity [OF safe, of m i r c s'] ok call by simp
next
  case (StkRequest n)
  then show ?thesis using safe_request [OF safe, of m n s'] ok call by simp
next
  case (StkComplete j)
  then show ?thesis using safe_complete [OF X safe, of m j s'] ok call by simp
next
  case StkExecBenef
  then show ?thesis using safe_flags(1) [OF safe, of m s'] ok call by simp
next
  case (StkFreeze p)
  then show ?thesis using safe_flags(2) [OF safe, of m p s'] ok call by simp
next
  case (StkUnfreeze p)
  then show ?thesis using safe_flags(3) [OF safe, of m p s'] ok call by simp
next
  case (StkSlashNow p n)
  then show ?thesis using safe_slash_now [OF X safe, of m p n s'] ok call by simp
next
  case (StkSlash p n)
  then show ?thesis using safe_slash_now [OF X safe, of m p n s'] ok call by simp
next
  case (StkExecute i)
  then show ?thesis using safe_proposals(1) [OF X safe, of i m s'] ok call by (simp split: sum.splits)
next
  case (StkResolve i u)
  then show ?thesis using safe_proposals(2) [OF X safe, of i m u s'] ok call by (simp split: sum.splits)
next
  case StkClaim
  then show ?thesis using safe_claim [OF X safe, of m s'] ok call by simp
next
  case StkClaimVested
  then show ?thesis using safe_claimVested [OF X safe, of m s'] ok call by simp
next
  case (StkEnvLedger t)
  then show ?thesis using safe_ledger [OF safe, of t] ok call by simp
qed (use call in \<open>auto intro: safe_quiet [OF safe] dest: quiet_calls\<close>)

interpretation staking_runs:
  guarded_machine "staking_step X" "staking_op_ok X" "\<lambda>s. erc20_ok X \<and> stk_safe X s" for X
proof
  fix s mop
  assume a: "erc20_ok X \<and> stk_safe X s" "staking_op_ok X mop s"
  have "stk_safe X (staking_step X mop s)"
    unfolding staking_step_def
    by (rule commit_inv [where P = "stk_safe X"]) (use a staking_call_safe [of X s "fst mop" "snd mop"] in auto)
  then show "erc20_ok X \<and> stk_safe X (staking_step X mop s)" using a by simp
qed

lemma staking_constructor_safe:
  "BunkerStaking_constructor tok tre own b t = Inr s \<Longrightarrow> stk_safe X s"
  by (auto simp: BunkerStaking_constructor_def stk_safe_def stk_inv_def accounts_ok_def ids_ok_def locked_def
      get_info_def get_queue_def open_sum_def split: if_splits)

end
