(* ===== verification/Bunker_Staking_Properties.thy ===== *)
theory Bunker_Staking_Properties
  imports Bunker_Staking_Safety "HOL-Library.Multiset"
begin

text \<open>
  The properties of the staking contract: what holds through every history of calls, the
  procedure in front of a slash, and two consequences of the way forfeited rewards are booked.
\<close>

subsection \<open>Slash proposals\<close>

definition same_props :: "('b, 't) BunkerStaking \<Rightarrow> ('b, 't) BunkerStaking \<Rightarrow> bool" where
  "same_props s s' \<longleftrightarrow> bs_slashProposals s' = bs_slashProposals s \<and> bs_slashProposalCount s' = bs_slashProposalCount s"

lemma same_props_trans: "same_props s s' \<Longrightarrow> same_props s' s'' \<Longrightarrow> same_props s s''"
  by (simp add: same_props_def)

lemma same_props_simps [simp]:
  "same_props s s" "same_props s (s'\<lparr>bs_unbondingPeriod := n\<rparr>) = same_props s s'"
  "same_props s (s'\<lparr>bs_slashBurnBps := n\<rparr>) = same_props s s'" "same_props s (s'\<lparr>bs_slashTreasuryBps := n\<rparr>) = same_props s s'"
  "same_props s (s'\<lparr>bs_maxTierMultiplierBps := n\<rparr>) = same_props s s'" "same_props s (s'\<lparr>bs_appealWindow := n\<rparr>) = same_props s s'"
  "same_props s (s'\<lparr>bs_treasury := a\<rparr>) = same_props s s'" "same_props s (s'\<lparr>bs_pendingBeneficiaries := pb\<rparr>) = same_props s s'"
  "same_props s (s'\<lparr>bs_tierConfigs := tc\<rparr>) = same_props s s'" "same_props s (s'\<lparr>bs_rewardsDuration := n\<rparr>) = same_props s s'"
  "same_props s (s'\<lparr>bs_rewardRate := n\<rparr>) = same_props s s'" "same_props s (s'\<lparr>bs_periodFinish := n\<rparr>) = same_props s s'"
  "same_props s (s'\<lparr>bs_lastUpdateTime := n\<rparr>) = same_props s s'" "same_props s (s'\<lparr>bs_totalStaked := n\<rparr>) = same_props s s'"
  "same_props s (s'\<lparr>bs_totalUnbonding := n\<rparr>) = same_props s s'" "same_props s (s'\<lparr>bs_slashPercentageBps := pc\<rparr>) = same_props s s'"
  "same_props s (s'\<lparr>bs_slashingEnabled := en\<rparr>) = same_props s s'" "same_props s (s'\<lparr>bs_vestingPeriod := n\<rparr>) = same_props s s'"
  "same_props s (s'\<lparr>bs_immediateReleaseBps := n\<rparr>) = same_props s s'" "same_props s (s'\<lparr>bs_ledger := t\<rparr>) = same_props s s'"
  "same_props s (s'\<lparr>bs_totalComputeHoursReported := n\<rparr>) = same_props s s'"
  "same_props s (s'\<lparr>bs_emissionMultiplier := n\<rparr>) = same_props s s'" "same_props s (s'\<lparr>bs_maxEmissionRate := n\<rparr>) = same_props s s'"
  "same_props s (s'\<lparr>bs_base := b\<rparr>) = same_props s s'" "same_props s (s'\<lparr>bs_nodeIdToProvider := ids\<rparr>) = same_props s s'"
  "same_props s (put_vested p v s') = same_props s s'" "same_props s (s'\<lparr>bs_rewards := rw\<rparr>) = same_props s s'"
  "same_props s (put_info p i s') = same_props s s'" "same_props s (put_queue p q s') = same_props s s'"
  "same_props s (checkpoint_rewards m r s') = same_props s s'" "same_props s (credit_reward a e s') = same_props s s'"
  by (simp_all add: same_props_def put_vested_def put_info_def put_queue_def checkpoint_rewards_def credit_reward_def)

lemma props_update: "doUpdateReward m a s = Inr s' \<Longrightarrow> same_props s s'"
  by (auto simp: doUpdateReward_def call_simps Let_def split: if_splits)

lemma props_token:
  "stk_transfer X a n s = Inr s' \<Longrightarrow> same_props s s'" "stk_burn X n s = Inr s' \<Longrightarrow> same_props s s'"
  by (auto simp: stk_transfer_def stk_burn_def call_simps)

lemma props_distribute: "distribute_slash X n b s = Inr s' \<Longrightarrow> same_props s s'"
  by (auto simp: distribute_slash_def call_simps Let_def split: if_splits intro: same_props_trans props_token)

lemma props_internal_slash:
  assumes "executeSlash_internal X m p n b s = Inr s'"
  shows "same_props s s'"
  using assms
proof (rule slash_chain)
  fix n1 s1 n2 s2 f0 s3
  assume c: "slash_stake p n s = Inr (n1, s1)" "slash_queue p n1 s1 = Inr (n2, s2)"
    "forfeitUnvestedRewards m p s2 = Inr (f0, s3)"
    and d: "distribute_slash X (n + min f0 (stk_held X s3 - locked s3)) b (deactivate_below_minimum p s3) = Inr s'"
  have "same_props s s1" using c(1) by (auto simp: slash_stake_def call_simps Let_def split: if_splits)
  moreover have "same_props s1 s2" using c(2) by (auto simp: slash_queue_def call_simps Let_def split: if_splits)
  moreover have "same_props s2 s3" using c(3) by (auto simp: forfeitUnvestedRewards_def call_simps)
  moreover have "same_props s3 (deactivate_below_minimum p s3)" by (simp add: deactivate_below_minimum_def)
  ultimately show ?thesis using props_distribute [OF d] same_props_trans by blast
qed

lemma props_run_proposal: "run_proposal X m pr s = Inr s' \<Longrightarrow> same_props s s'"
  unfolding run_proposal_def Let_def
  by (auto simp only: rbind_Inr_iff sum.inject split: if_splits
      intro: same_props_trans [OF props_update props_internal_slash] props_update)

lemma props_accounts:
  "BunkerStaking_stake X m n s = Inr s' \<Longrightarrow> same_props s s'"
  "BunkerStaking_stakeWithIdentity X m n nid reg cap s = Inr s' \<Longrightarrow> same_props s s'"
  "BunkerStaking_updateIdentity m nid reg cap s = Inr s' \<Longrightarrow> same_props s s'"
  "BunkerStaking_requestUnstake X m n s = Inr s' \<Longrightarrow> same_props s s'"
  "BunkerStaking_completeUnstake X m j s = Inr s' \<Longrightarrow> same_props s s'"
proof -
  show "same_props s s'" if "BunkerStaking_stake X m n s = Inr s'"
    using that by (rule stake_deposits) (auto dest!: props_update elim!: deposit_result)
  show "same_props s s'" if "BunkerStaking_stakeWithIdentity X m n nid reg cap s = Inr s'"
    using that by (rule stakeWithIdentity_deposits) (auto dest!: props_update elim!: deposit_result)
  show "same_props s s'" if "BunkerStaking_updateIdentity m nid reg cap s = Inr s'"
    using that by (auto simp: BunkerStaking_updateIdentity_def Let_def split: if_splits)
  show "same_props s s'" if "BunkerStaking_requestUnstake X m n s = Inr s'"
    using that by (rule request_result) (auto dest!: props_update)
  show "same_props s s'" if "BunkerStaking_completeUnstake X m j s = Inr s'"
    using that by (rule complete_result) auto
qed

lemma props_flags:
  "BunkerStaking_initiateBeneficiaryChange m a s = Inr s' \<Longrightarrow> same_props s s'"
  "BunkerStaking_executeBeneficiaryChange m s = Inr s' \<Longrightarrow> same_props s s'"
  "BunkerStaking_freezeProvider X m p s = Inr s' \<Longrightarrow> same_props s s'"
  "BunkerStaking_unfreezeProvider X m p s = Inr s' \<Longrightarrow> same_props s s'"
  by (auto simp: BunkerStaking_initiateBeneficiaryChange_def BunkerStaking_executeBeneficiaryChange_def
      BunkerStaking_freezeProvider_def BunkerStaking_unfreezeProvider_def stk_onlySlasher_def stk_onlyOwner_def
      Let_def call_simps split: if_splits)

lemma props_slash_now:
  "BunkerStaking_slash X m p n s = Inr s' \<Longrightarrow> same_props s s'"
  "BunkerStaking_slashImmediate X m p n s = Inr s' \<Longrightarrow> same_props s s'"
  unfolding BunkerStaking_slash_def BunkerStaking_slashImmediate_def stk_onlySlasher_def updateReward_def
  by (auto simp only: rbind_Inr_iff split: if_splits intro: same_props_trans [OF props_update props_internal_slash])

lemma props_claims:
  "BunkerStaking_claimRewards X m s = Inr s' \<Longrightarrow> same_props s s'"
  "BunkerStaking_claimVestedRewards X m s = Inr s' \<Longrightarrow> same_props s s'"
proof -
  show "same_props s s'" if "BunkerStaking_claimRewards X m s = Inr s'"
    using that
    by (auto simp: BunkerStaking_claimRewards_def updateReward_def call_simps Let_def split: if_splits
        dest!: props_update props_token elim: same_props_trans)
       (auto simp: same_props_def)
  show "same_props s s'" if "BunkerStaking_claimVestedRewards X m s = Inr s'"
    using that
    by (auto simp: BunkerStaking_claimVestedRewards_def call_simps Let_def split: if_splits dest!: props_token)
       (auto simp: same_props_def put_vested_def)
qed

lemma props_parameters:
  "BunkerStaking_setSlashPercentage X m sr n s = Inr s' \<Longrightarrow> same_props s s'"
  "BunkerStaking_setRewardsDuration X m n s = Inr s' \<Longrightarrow> same_props s s'"
  "BunkerStaking_setVestingParams X m n k s = Inr s' \<Longrightarrow> same_props s s'"
  "BunkerStaking_setEmissionMultiplier X m n s = Inr s' \<Longrightarrow> same_props s s'"
  "BunkerStaking_setMaxEmissionRate X m n s = Inr s' \<Longrightarrow> same_props s s'"
  "BunkerStaking_setTreasury X m a s = Inr s' \<Longrightarrow> same_props s s'"
  "BunkerStaking_setTierRewardMultiplier X m t n s = Inr s' \<Longrightarrow> same_props s s'"
  "BunkerStaking_setUnbondingPeriod X m n s = Inr s' \<Longrightarrow> same_props s s'"
  "BunkerStaking_setAppealWindow X m n s = Inr s' \<Longrightarrow> same_props s s'"
  "BunkerStaking_setSlashingEnabled X m e s = Inr s' \<Longrightarrow> same_props s s'"
  by (auto simp: BunkerStaking_setSlashPercentage_def BunkerStaking_setRewardsDuration_def
      BunkerStaking_setVestingParams_def BunkerStaking_setEmissionMultiplier_def
      BunkerStaking_setMaxEmissionRate_def BunkerStaking_setTreasury_def
      BunkerStaking_setTierRewardMultiplier_def BunkerStaking_setUnbondingPeriod_def
      BunkerStaking_setAppealWindow_def BunkerStaking_setSlashingEnabled_def stk_onlyOwner_def split: if_splits)

lemma props_checked_parameters:
  "BunkerStaking_notifyRewardAmount X m n s = Inr s' \<Longrightarrow> same_props s s'"
  "BunkerStaking_reportComputeHours X m n s = Inr s' \<Longrightarrow> same_props s s'"
  "BunkerStaking_setTierMinStake X m t n s = Inr s' \<Longrightarrow> same_props s s'"
  "BunkerStaking_setMaxTierMultiplierBps X m n s = Inr s' \<Longrightarrow> same_props s s'"
  "BunkerStaking_setSlashFeeSplit X m n k s = Inr s' \<Longrightarrow> same_props s s'"
  "BunkerStaking_pause X m s = Inr s' \<Longrightarrow> same_props s s'"
  "BunkerStaking_unpause X m s = Inr s' \<Longrightarrow> same_props s s'"
  by (auto simp: BunkerStaking_notifyRewardAmount_def updateReward_def BunkerStaking_reportComputeHours_def
      BunkerStaking_setTierMinStake_def BunkerStaking_setMaxTierMultiplierBps_def BunkerStaking_setSlashFeeSplit_def
      BunkerStaking_pause_def BunkerStaking_unpause_def stk_onlyOwner_def stk_onlySlasher_def rbind_Inr_iff
      dest!: props_update split: if_splits)

lemmas props_frame = props_accounts props_flags props_slash_now props_claims props_parameters
  props_checked_parameters

text \<open>The calls that settle proposal \<open>i\<close> with a slash, and the procedure each one requires.\<close>

fun settles :: "nat \<Rightarrow> ('b, 't) staking_op \<Rightarrow> bool" where
  "settles i (StkExecute j) = (j = i)"
| "settles i (StkResolve j uphold) = (j = i \<and> uphold)"
| "settles i _ = False"

fun due_process :: "('b, 't) chain \<Rightarrow> msg \<Rightarrow> ('b, 't) BunkerStaking \<Rightarrow> SlashProposal \<Rightarrow> ('b, 't) staking_op \<Rightarrow> bool" where
  "due_process X m s pr (StkExecute j) \<longleftrightarrow>
     x_hasRole X (bs_base s) SLASHER_ROLE (m_sender m) \<and> \<not> slp_appealed pr \<and>
     slp_proposedAt pr + slp_appealWindowSnapshot pr \<le> m_time m"
| "due_process X m s pr (StkResolve j uphold) \<longleftrightarrow>
     m_sender m = x_owner X (bs_base s) \<and> slp_appealed pr \<and> \<not> slp_resolved pr"
| "due_process X m s pr _ \<longleftrightarrow> False"

lemma valid_same: "same_props s s' \<Longrightarrow> getValidProposal i s' = getValidProposal i s"
  by (simp add: same_props_def getValidProposal_def)

lemma valid_env [simp]:
  "getValidProposal i (s\<lparr>bs_base := b\<rparr>) = getValidProposal i s" "getValidProposal i (s\<lparr>bs_ledger := t\<rparr>) = getValidProposal i s"
  by (simp_all add: getValidProposal_def)

lemma valid_put:
  "getValidProposal i s = Inr pr \<Longrightarrow> getValidProposal j (put_proposal i pr' s) =
     (if j = i then Inr pr' else getValidProposal j s)"
  by (auto simp: getValidProposal_def put_proposal_def split: if_splits)

lemma valid_new:
  assumes "new_proposal m p n r sr s = Inr s'" "getValidProposal i s = Inr pr"
  shows "getValidProposal i s' = Inr pr"
  using assms by (auto simp: new_proposal_def getValidProposal_def call_simps split: if_splits)

lemma valid_propose:
  assumes "getValidProposal i s = Inr pr"
  shows "BunkerStaking_proposeSlash X m p n r s = Inr s' \<Longrightarrow> getValidProposal i s' = Inr pr"
    and "BunkerStaking_proposeSlashByReason X m p sr s = Inr s' \<Longrightarrow> getValidProposal i s' = Inr pr"
  using assms
  by (auto simp: BunkerStaking_proposeSlash_def BunkerStaking_proposeSlashByReason_def stk_onlySlasher_def
      rbind_Inr_iff Let_def dest: valid_new split: if_splits)

lemma appeal_result:
  assumes "BunkerStaking_appealSlash m i s = Inr s'"
  obtains pr where "getValidProposal i s = Inr pr" "\<not> slp_executed pr" "\<not> slp_appealed pr"
    "m_sender m = slp_provider pr" "s' = put_proposal i (pr\<lparr>slp_appealed := True\<rparr>) s"
  using assms
  by (auto simp: BunkerStaking_appealSlash_def Let_def rbind_Inr_iff split: if_splits)

text \<open>What one successful call can do to a proposal.\<close>

definition prop_step :: "bool \<Rightarrow> bool \<Rightarrow> SlashProposal \<Rightarrow> SlashProposal \<Rightarrow> bool" where
  "prop_step settled fair pr pr' \<longleftrightarrow>
     slp_provider pr' = slp_provider pr \<and> slp_amount pr' = slp_amount pr \<and>
     slp_proposedAt pr' = slp_proposedAt pr \<and> slp_appealWindowSnapshot pr' = slp_appealWindowSnapshot pr \<and>
     (if settled then \<not> slp_executed pr \<and> slp_executed pr' \<and> fair else slp_executed pr' = slp_executed pr)"

lemma proposal_step:
  assumes call: "staking_call X m op s = Inr s'" and pr: "getValidProposal i s = Inr pr"
  shows "\<exists>pr'. getValidProposal i s' = Inr pr' \<and> prop_step (settles i op) (due_process X m s pr op) pr pr'"
proof (cases op)
  case (StkExecute j)
  then have "BunkerStaking_executeSlash X m j s = Inr s'" using call by simp
  then show ?thesis
    by (rule execute_result; cases "j = i")
       (use pr StkExecute in \<open>auto simp: valid_put prop_step_def dest!: props_run_proposal valid_same [where i = i]\<close>)
next
  case (StkResolve j uphold)
  then have "BunkerStaking_resolveAppeal X m j uphold s = Inr s'" using call by simp
  then show ?thesis
    by (rule resolve_result; cases "j = i")
       (use pr StkResolve in \<open>auto simp: valid_put prop_step_def dest!: props_run_proposal valid_same [where i = i]\<close>)
next
  case (StkAppeal j)
  then have "BunkerStaking_appealSlash m j s = Inr s'" using call by simp
  then show ?thesis by (rule appeal_result; cases "j = i") (use pr StkAppeal in \<open>auto simp: valid_put prop_step_def\<close>)
next
  case (StkPropose p n r)
  then show ?thesis using valid_propose(1) [OF pr, of X m p n r s'] call by (simp add: prop_step_def)
next
  case (StkProposeReason p r)
  then show ?thesis using valid_propose(2) [OF pr, of X m p r s'] call by (simp add: prop_step_def)
qed (use call pr in \<open>auto simp: prop_step_def dest!: props_frame valid_same [where i = i]\<close>)

text \<open>How often proposal \<open>i\<close> is settled with a slash in a history of calls.\<close>

fun executions :: "('b, 't) chain \<Rightarrow> nat \<Rightarrow> (msg \<times> ('b, 't) staking_op) list \<Rightarrow> ('b, 't) BunkerStaking \<Rightarrow> nat" where
  "executions X i [] s = 0"
| "executions X i ((m, op) # ops) s =
     (case staking_call X m op s of
        Inl _ \<Rightarrow> executions X i ops s
      | Inr s' \<Rightarrow> (if settles i op then 1 else 0) + executions X i ops s')"

lemma settles_valid:
  assumes "staking_call X m op s = Inr s'" "settles i op"
  obtains pr where "getValidProposal i s = Inr pr"
proof (cases op)
  case (StkExecute j)
  then show thesis using assms that by (auto elim!: execute_result)
next
  case (StkResolve j u)
  then show thesis using assms that by (auto elim!: resolve_result)
qed (use assms in simp_all)

lemma executions_done:
  "getValidProposal i s = Inr pr \<Longrightarrow> slp_executed pr \<Longrightarrow> executions X i ops s = 0"
proof (induction ops arbitrary: s pr)
  case (Cons mop ops)
  obtain m op where mop: "mop = (m, op)" by (cases mop)
  show ?case
  proof (cases "staking_call X m op s")
    case (Inr s')
    then obtain pr' where "getValidProposal i s' = Inr pr'" "prop_step (settles i op) (due_process X m s pr op) pr pr'"
      using proposal_step [OF Inr Cons.prems(1)] by blast
    then show ?thesis using Cons.IH [of s' pr'] Cons.prems(2) by (auto simp: mop Inr prop_step_def split: if_splits)
  qed (use Cons in \<open>simp add: mop\<close>)
qed simp

lemma executions_le:
  "executions X i ops s \<le> 1"
proof (induction ops arbitrary: s)
  case (Cons mop ops)
  obtain m op where mop: "mop = (m, op)" by (cases mop)
  show ?case
  proof (cases "staking_call X m op s")
    case (Inr s')
    show ?thesis
    proof (cases "settles i op")
      case True
      then obtain pr where pr: "getValidProposal i s = Inr pr" by (rule settles_valid [OF Inr])
      then obtain pr' where "getValidProposal i s' = Inr pr'" "slp_executed pr'"
        using proposal_step [OF Inr pr] True by (auto simp: prop_step_def)
      then have "executions X i ops s' = 0" by (rule executions_done)
      then show ?thesis by (simp add: mop Inr)
    qed (use Cons.IH in \<open>simp add: mop Inr\<close>)
  qed (use Cons in \<open>simp add: mop\<close>)
qed simp

subsection \<open>Vested rewards\<close>

text \<open>Moving the last entry into each freed place removes exactly the entries that are paid in full.\<close>

lemma mset_swap_remove:
  assumes "j < length es"
  shows "mset (butlast (es[j := last es])) = mset es - {#es ! j#}"
proof -
  let ?es = "es[j := last es]"
  have ne: "es \<noteq> []" "?es \<noteq> []" using assms by auto
  have "?es = butlast ?es @ [last es]"
    using append_butlast_last_id [OF ne(2)] last_list_update [OF ne(1), of j "last es"] by (simp split: if_splits)
  then have "mset ?es = mset (butlast ?es @ [last es])" by (rule arg_cong)
  then have "mset ?es = add_mset (last es) (mset (butlast ?es))" by simp
  moreover have "mset ?es = add_mset (last es) (mset es - {#es ! j#})" using assms by (rule mset_update)
  ultimately show ?thesis by simp
qed

lemma compact_entries_mset:
  assumes "\<forall>e \<in> set (take j es). vr_releasedAmount e \<noteq> vr_totalAmount e"
  shows "mset (compact_entries j es) = filter_mset (\<lambda>e. vr_releasedAmount e \<noteq> vr_totalAmount e) (mset es)"
  using assms
proof (induction j es rule: compact_entries.induct)
  case (1 j es)
  let ?keep = "\<lambda>e. vr_releasedAmount e \<noteq> vr_totalAmount e"
  show ?case
  proof (cases "j < length es")
    case j: True
    show ?thesis
    proof (cases "vr_releasedAmount (es ! j) = vr_totalAmount (es ! j)")
      case True
      have "take j (butlast (es[j := last es])) = take j es"
        using j by (simp add: take_butlast)
      then have "mset (compact_entries j es) = filter_mset ?keep (mset (butlast (es[j := last es])))"
        using "1.IH"(1) [OF j True] "1.prems" j True by (simp add: compact_entries.simps [of j es])
      then show ?thesis using True by (simp add: mset_swap_remove [OF j])
    next
      case False
      then show ?thesis
        using "1.IH"(2) [OF j False] "1.prems" j
        by (simp add: compact_entries.simps [of j es] take_Suc_conv_app_nth)
    qed
  next
    case False
    then have "filter_mset ?keep (mset es) = mset es" using "1.prems" by (simp add: filter_mset_eq_conv)
    then show ?thesis using False by (simp add: compact_entries.simps [of j es])
  qed
qed

lemma vested_le_total:
  assumes "vestedAmount m s e = Inr v"
  shows "v \<le> vr_totalAmount e"
proof -
  have "vr_totalAmount e * k div n \<le> vr_totalAmount e" if "k < n" for k n :: nat
    using that by (metis div_le_mono div_mult_self_is_m less_imp_le mult_le_mono2 not_less_zero zero_less_iff_neq_zero)
  then show ?thesis using assms by (auto simp: vestedAmount_def call_simps split: if_splits)
qed

text \<open>One entry before and after a claim: all that has vested is released.\<close>

definition entry_claimed :: "msg \<Rightarrow> ('b, 't) BunkerStaking \<Rightarrow> VestedReward \<Rightarrow> VestedReward \<Rightarrow> bool" where
  "entry_claimed m s e e' \<longleftrightarrow> vestedAmount m s e = Inr (vr_releasedAmount e') \<and>
     vr_releasedAmount e \<le> vr_releasedAmount e' \<and> e' = e\<lparr>vr_releasedAmount := vr_releasedAmount e'\<rparr>"

lemma claim_entries_spec:
  assumes "claim_entries m s es c = Inr (es', c')" "\<forall>e \<in> set es. vr_totalAmount e < 2 ^ 128"
  shows "list_all2 (entry_claimed m s) es es' \<and>
    c' + sum_list (map vr_releasedAmount es) = c + sum_list (map vr_releasedAmount es')"
  using assms
proof (induction es arbitrary: c es' c')
  case (Cons e es)
  obtain v where v: "vestedAmount m s e = Inr v" "vr_releasedAmount e \<le> v"
    using Cons.prems(1) by (auto simp: call_simps)
  have cast: "u_cast 128 (v - vr_releasedAmount e) = v - vr_releasedAmount e"
    using vested_le_total [OF v(1)] Cons.prems(2) by (intro u_cast_id) auto
  show ?case
  proof (cases "vr_releasedAmount e = v")
    case True
    then obtain es1 where "claim_entries m s es c = Inr (es1, c')" "es' = e # es1"
      using Cons.prems(1) v by (auto simp: u_ok rbind_Inr_iff)
    then show ?thesis using Cons.IH [of c es1 c'] Cons.prems(2) v True by (simp add: entry_claimed_def)
  next
    case False
    then obtain es1 where "claim_entries m s es (c + (v - vr_releasedAmount e)) = Inr (es1, c')"
      "es' = e\<lparr>vr_releasedAmount := v\<rparr> # es1"
      using Cons.prems(1) v by (auto simp: u_ok rbind_Inr_iff u_Inr_iff cast)
    then show ?thesis
      using Cons.IH [of "c + (v - vr_releasedAmount e)" es1 c'] Cons.prems(2) v by (auto simp: entry_claimed_def)
  qed
qed auto

lemma claim_entries_blocked:
  assumes "e \<in> set es" "vestedAmount m s e = Inr v" "v < vr_releasedAmount e"
  shows "\<exists>err. claim_entries m s es c = Inl err"
proof (cases "claim_entries m s es c")
  case (Inr r)
  obtain es' c' where "r = (es', c')" by (cases r)
  with Inr have "claim_entries m s es c = Inr (es', c')" by simp
  then have False using assms(1)
  proof (induction es arbitrary: c es' c')
    case (Cons x es)
    then show ?case using assms(2,3) by (auto simp: call_simps split: if_splits)
  qed simp
  then show ?thesis by simp
qed simp

lemma forfeit_entries_released:
  assumes "forfeit_entries m s es f = Inr (es', f')" "e \<in> set es" "vestedAmount m s e = Inr v" "v < vr_totalAmount e"
  shows "e\<lparr>vr_releasedAmount := vr_totalAmount e\<rparr> \<in> set es'"
  using assms(1,2)
proof (induction es arbitrary: f es' f')
  case (Cons x es)
  then show ?case using assms(3,4) by (auto simp: call_simps split: if_splits)
qed simp

subsection \<open>An example history\<close>

text \<open>Providers 5 and 6 stake a million tokens each; the contract is funded with 725,760 tokens for
  rewards of one token per second over a week, all of which vest.  Provider 5 claims at the end of the
  week and is then slashed three times; provider 6, who has done nothing wrong, unstakes.\<close>

definition example_ledger :: "nat \<Rightarrow> nat \<Rightarrow> nat \<Rightarrow> nat \<Rightarrow> address \<Rightarrow> nat" where
  "example_ledger b3 b5 b6 b99 x =
     (if x = 3 then b3 else if x = 5 then b5 else if x = 6 then b6 else if x = 99 then b99 else 0)"

lemma example_ledger_simps:
  "example_ledger b3 b5 b6 b99 5 = b5" "example_ledger b3 b5 b6 b99 6 = b6" "example_ledger b3 b5 b6 b99 99 = b99"
  "moved (example_ledger b3 b5 b6 b99) 5 99 n = example_ledger b3 (b5 - n) b6 (b99 + n)"
  "moved (example_ledger b3 b5 b6 b99) 6 99 n = example_ledger b3 b5 (b6 - n) (b99 + n)"
  "moved (example_ledger b3 b5 b6 b99) 99 5 n = example_ledger b3 (b5 + n) b6 (b99 - n)"
  "moved (example_ledger b3 b5 b6 b99) 99 6 n = example_ledger b3 b5 (b6 + n) (b99 - n)"
  "moved (example_ledger b3 b5 b6 b99) 99 3 n = example_ledger (b3 + n) b5 b6 (b99 - n)"
  "(\<lambda>x. example_ledger b3 b5 b6 b99 x - (if x = 99 then n else 0)) = example_ledger b3 b5 b6 (b99 - n)"
  by (auto simp: example_ledger_def moved_def fun_eq_iff)

definition example_staking :: "(unit, address \<Rightarrow> nat) BunkerStaking" where
  "example_staking = projr (BunkerStaking_constructor 10 3 1 () (example_ledger 0 (10 ^ 24) (10 ^ 24) (725760 * 10 ^ 18)))"

definition example_setup :: "(msg \<times> (unit, address \<Rightarrow> nat) staking_op) list" where
  "example_setup =
     [(\<lparr>m_sender = 5, m_time = 0\<rparr>, StkStake (10 ^ 24)),
      (\<lparr>m_sender = 6, m_time = 0\<rparr>, StkStake (10 ^ 24)),
      (\<lparr>m_sender = 1, m_time = 0\<rparr>, StkSetEnabled True),
      (\<lparr>m_sender = 1, m_time = 0\<rparr>, StkSetVesting 7776000 0),
      (\<lparr>m_sender = 1, m_time = 0\<rparr>, StkNotify (604800 * 10 ^ 18)),
      (\<lparr>m_sender = 5, m_time = 604800\<rparr>, StkClaim),
      (\<lparr>m_sender = 6, m_time = 604800\<rparr>, StkRequest (10 ^ 24))]"

definition example_slashes :: "(msg \<times> (unit, address \<Rightarrow> nat) staking_op) list" where
  "example_slashes =
     [(\<lparr>m_sender = 2, m_time = 604800\<rparr>, StkSlash 5 (10 ^ 18)),
      (\<lparr>m_sender = 2, m_time = 604800\<rparr>, StkSlash 5 (10 ^ 18)),
      (\<lparr>m_sender = 2, m_time = 604800\<rparr>, StkSlash 5 (900000 * 10 ^ 18))]"

lemmas staking_eval = staking_step_def BunkerStaking_stake_def BunkerStaking_setSlashingEnabled_def
  BunkerStaking_setVestingParams_def BunkerStaking_notifyRewardAmount_def BunkerStaking_claimRewards_def
  BunkerStaking_requestUnstake_def BunkerStaking_completeUnstake_def BunkerStaking_slash_def
  stk_whenNotPaused_def stk_onlyOwner_def stk_onlySlasher_def updateReward_def doUpdateReward_def
  rewardPerToken_def lastTimeRewardApplicable_def stk_earned_def checkpoint_rewards_def credit_reward_def
  getTier_def minStake_def default_tiers_def deposit_stake_def stk_transferFrom_def stk_transfer_def stk_burn_def
  registered_def of_call_def u_add_def u_sub_def u_mul_def u_cast_def STK_BPS_DENOMINATOR_def
  plain_chain_def Let_def get_info_def put_info_def zero_info_def get_queue_def put_queue_def get_vested_def
  put_vested_def new_reward_rate_def reward_balance_def max_liability_def stk_held_def
  executeSlash_internal_def slash_stake_def slash_queue_def forfeitUnvestedRewards_def vestedAmount_def
  deactivate_below_minimum_def distribute_slash_def example_ledger_simps

text \<open>The state after the set-up.\<close>

definition example_staked :: "(unit, address \<Rightarrow> nat) BunkerStaking" where
  "example_staked = \<lparr> bs_unbondingPeriod = 1209600, bs_slashBurnBps = 8000, bs_slashTreasuryBps = 2000,
     bs_maxTierMultiplierBps = 12000, bs_appealWindow = 172800, bs_treasury = 3,
     bs_totalStaked = 10 ^ 24, bs_totalUnbonding = 10 ^ 24,
     bs_providers =
       fmupd 6 \<lparr>pi_stakedAmount = 0, pi_totalUnbonding = 10 ^ 24, pi_beneficiary = 6, pi_registeredAt = 0,
                 pi_active = False, pi_nodeId = 0, pi_region = 0, pi_capabilities = 0, pi_frozen = False\<rparr>
      (fmupd 5 \<lparr>pi_stakedAmount = 10 ^ 24, pi_totalUnbonding = 0, pi_beneficiary = 5, pi_registeredAt = 0,
                 pi_active = True, pi_nodeId = 0, pi_region = 0, pi_capabilities = 0, pi_frozen = False\<rparr> fmempty),
     bs_unstakeQueues = fmupd 6 [\<lparr>uq_amount = 10 ^ 24, uq_unlockTime = 1814400, uq_completed = False\<rparr>] fmempty,
     bs_pendingBeneficiaries = fmempty, bs_tierConfigs = default_tiers, bs_rewardsDuration = 604800,
     bs_rewardRate = 10 ^ 18, bs_periodFinish = 604800, bs_lastUpdateTime = 604800,
     bs_rewardPerTokenStored = 302400 * 10 ^ 12,
     bs_userRewardPerTokenPaid =
       fmupd 6 (302400 * 10 ^ 12) (fmupd 5 (302400 * 10 ^ 12) (fmupd 6 0 (fmupd 5 0 fmempty))),
     bs_rewards = fmupd 6 (302400 * 10 ^ 18) (fmupd 5 0 (fmupd 6 0 (fmupd 5 0 fmempty))),
     bs_slashProposalCount = 0, bs_slashProposals = fmempty, bs_nodeIdToProvider = fmempty,
     bs_slashPercentageBps = default_slash_bps, bs_slashingEnabled = True,
     bs_vestingPeriod = 7776000, bs_immediateReleaseBps = 0,
     bs_vestedRewards =
       fmupd 5 [\<lparr>vr_totalAmount = 302400 * 10 ^ 18, vr_releasedAmount = 0, vr_vestingStart = 604800\<rparr>] fmempty,
     bs_totalComputeHoursReported = 0, bs_emissionMultiplier = 10000, bs_maxEmissionRate = 0, bs_base = (),
     bs_ledger = example_ledger 0 0 0 (2725760 * 10 ^ 18) \<rparr>"

lemma example_staked_run: "example_staked = fold (staking_step (plain_chain 99)) example_setup example_staking"
  by (simp add: example_staked_def example_setup_def example_staking_def BunkerStaking_constructor_def staking_eval)

lemma example_staking_constructor:
  "BunkerStaking_constructor 10 3 1 () (example_ledger 0 (10 ^ 24) (10 ^ 24) (725760 * 10 ^ 18)) = Inr example_staking"
  by (simp add: example_staking_def BunkerStaking_constructor_def)

lemma example_setup_ok: "run_ok (staking_step (plain_chain 99)) (staking_op_ok (plain_chain 99)) example_setup example_staking"
  by (simp add: example_setup_def example_staking_def BunkerStaking_constructor_def staking_eval stake_fits_def
      immediate_part_def surplus_def locked_def)

lemmas example_run_facts = plain_chain_ok example_staking_constructor example_setup_ok example_staked_run

subsection \<open>Properties\<close>

text \<open>C3. Through any history of calls to the staking contract, by anybody and in any order, in which
  rewards and forfeitures stay within what the contract holds beyond the locked stakes: the totals are
  the sums over all providers of their stakes and open unstake requests, the token balance covers
  both, and no two providers hold the same node identifier.\<close>

theorem staking_contract_solvent:
  assumes "erc20_ok X" "BunkerStaking_constructor tok tre own b t = Inr s0"
    and "run_ok (staking_step X) (staking_op_ok X) ops s0" "s = fold (staking_step X) ops s0"
  shows "bs_totalStaked s = msum pi_stakedAmount (bs_providers s) \<and>
         bs_totalUnbonding s = msum pi_totalUnbonding (bs_providers s) \<and>
         (\<forall>p. pi_totalUnbonding (get_info p s) = open_sum (get_queue p s)) \<and>
         bs_totalStaked s + bs_totalUnbonding s \<le> x_balanceOf X (bs_ledger s) (x_this X) \<and>
         (\<forall>p q. pi_nodeId (get_info p s) \<noteq> 0 \<and> pi_nodeId (get_info p s) = pi_nodeId (get_info q s) \<longrightarrow> p = q)"
proof -
  have "stk_safe X s"
    using staking_runs.run_inv [OF _ assms(3)] staking_constructor_safe [OF assms(2)] assms(1,4) by auto
  then have ok: "accounts_ok s" "ids_ok s" "locked s \<le> stk_held X s" by (auto simp: stk_safe_def stk_inv_def)
  have "\<forall>p q. pi_nodeId (get_info p s) \<noteq> 0 \<and> pi_nodeId (get_info p s) = pi_nodeId (get_info q s) \<longrightarrow> p = q"
    using ok(2) unfolding ids_ok_def by metis
  then show ?thesis using ok(1,3) by (simp add: accounts_ok_def locked_def stk_held_def)
qed

theorem staking_contract_solvent_witness:
  "bs_totalStaked example_staked + bs_totalUnbonding example_staked \<le> bs_ledger example_staked 99"
  using staking_contract_solvent [OF example_run_facts] by (simp add: plain_chain_def)

text \<open>C7. In every such history an unstake request that is open, unlocked and not frozen is paid: the call
  does not revert (even while the contract is paused), the provider receives the amount of the
  request, and the request cannot be completed again.\<close>

theorem unstake_always_paid:
  assumes "erc20_ok X" "BunkerStaking_constructor tok tre own b t = Inr s0"
    and "run_ok (staking_step X) (staking_op_ok X) ops s0" "s = fold (staking_step X) ops s0"
    and "p = m_sender m" "p \<noteq> 0" "p \<noteq> x_this X" "\<not> pi_frozen (get_info p s)"
    and "j < length (get_queue p s)" "r = get_queue p s ! j" "\<not> uq_completed r" "uq_unlockTime r \<le> m_time m"
  shows "\<exists>s'. BunkerStaking_completeUnstake X m j s = Inr s' \<and>
           x_balanceOf X (bs_ledger s') p = x_balanceOf X (bs_ledger s) p + uq_amount r \<and>
           (\<forall>m'. m_sender m' = p \<longrightarrow>
              BunkerStaking_completeUnstake X m' j s' = Inl (Err (UnstakeAlreadyCompleted j)))"
proof -
  have safe: "stk_safe X s"
    using staking_runs.run_inv [OF _ assms(3)] staking_constructor_safe [OF assms(2)] assms(1,4) by auto
  then have ok: "accounts_ok s" and l: "locked s \<le> stk_held X s" by (auto simp: stk_safe_def stk_inv_def)
  note bd = accounts_bounds [OF ok, of p]
  have "uq_amount r \<le> open_sum (get_queue p s)"
    using assms(9-11) open_sum_update [of j "get_queue p s" "r\<lparr>uq_completed := True\<rparr>"] by (simp add: open_amount_def)
  then have le: "uq_amount r \<le> pi_totalUnbonding (get_info p s)" "uq_amount r \<le> bs_totalUnbonding s"
    "uq_amount r \<le> stk_held X s" using bd l by (auto simp: locked_def)
  have cast: "u_cast 128 (uq_amount r) = uq_amount r" using bd(5) assms(9,10) by simp
  obtain t' where t': "x_transfer X (x_this X) p (uq_amount r) (bs_ledger s) = Some t'"
    using transfer_succeeds [OF assms(1,6)] le(3) unfolding stk_held_def by metis
  define s' where "s' = (put_queue p ((get_queue p s)[j := r\<lparr>uq_completed := True\<rparr>])
    (put_info p ((get_info p s)\<lparr>pi_totalUnbonding := pi_totalUnbonding (get_info p s) - uq_amount r\<rparr>)
      (s\<lparr>bs_totalUnbonding := bs_totalUnbonding s - uq_amount r\<rparr>)))\<lparr>bs_ledger := t'\<rparr>"
  have call: "BunkerStaking_completeUnstake X m j s = Inr s'"
    using assms(5,8-12) le cast t'
    by (simp add: BunkerStaking_completeUnstake_def Let_def u_ok stk_transfer_def of_call_def s'_def put_info_def put_queue_def)
  moreover have "bs_ledger s' = t'" by (simp add: s'_def)
  moreover have "x_balanceOf X t' p = x_balanceOf X (bs_ledger s) p + uq_amount r"
    using transferD(2) [OF assms(1) t', of p] assms(7) by (simp add: moved_def)
  moreover have "BunkerStaking_completeUnstake X m' j s' = Inl (Err (UnstakeAlreadyCompleted j))" if "m_sender m' = p" for m'
    using that assms(8,9) by (simp add: BunkerStaking_completeUnstake_def Let_def s'_def)
  ultimately show ?thesis by auto
qed

theorem unstake_always_paid_witness:
  "\<exists>s'. BunkerStaking_completeUnstake (plain_chain 99) \<lparr>m_sender = 6, m_time = 1814400\<rparr> 0 example_staked = Inr s' \<and>
     bs_ledger s' 6 = 10 ^ 24"
  using unstake_always_paid [OF example_run_facts,
      where p = 6 and m = "\<lparr>m_sender = 6, m_time = 1814400\<rparr>" and j = 0]
  by (auto simp: example_staked_def plain_chain_def example_ledger_simps get_info_def get_queue_def)

text \<open>C9. A slash that does not revert takes exactly its amount from the provider, from the active stake
  first and only the rest from the unstake requests, takes it off the totals, and pays it out,
  together with forfeited rewards, to the burn and the treasury; the forfeited part never exceeds
  the provider's unvested rewards.\<close>

theorem slash_takes_exactly:
  assumes "erc20_ok X" "BunkerStaking_constructor tok tre own b t = Inr s0"
    and "run_ok (staking_step X) (staking_op_ok X) ops s0" "s = fold (staking_step X) ops s0"
    and "executeSlash_internal X m p n burnBps s = Inr s'" "bs_treasury s \<noteq> x_this X"
  shows "pi_stakedAmount (get_info p s') = pi_stakedAmount (get_info p s) - n \<and>
         pi_totalUnbonding (get_info p s') =
           pi_totalUnbonding (get_info p s) - (n - pi_stakedAmount (get_info p s)) \<and>
         n \<le> pi_stakedAmount (get_info p s) + pi_totalUnbonding (get_info p s) \<and>
         bs_totalStaked s' + bs_totalUnbonding s' + n = bs_totalStaked s + bs_totalUnbonding s \<and>
         (\<exists>f \<le> unvested_part m p s.
            x_balanceOf X (bs_ledger s') (x_this X) + (n + f) = x_balanceOf X (bs_ledger s) (x_this X))"
proof -
  have "stk_safe X s"
    using staking_runs.run_inv [OF _ assms(3)] staking_constructor_safe [OF assms(2)] assms(1,4) by auto
  then have "stk_inv s" by (simp add: stk_safe_def)
  then show ?thesis
    by (rule slash_effect [OF _ assms(1,5)]) (use assms(6) in \<open>auto simp: locked_def stk_held_def\<close>)
qed

theorem slash_takes_exactly_witness:
  "\<exists>s'. executeSlash_internal (plain_chain 99) \<lparr>m_sender = 2, m_time = 604800\<rparr> 5 (10 ^ 18) 8000 example_staked = Inr s' \<and>
     pi_stakedAmount (get_info 5 s') = 10 ^ 24 - 10 ^ 18"
proof -
  obtain s' where s': "executeSlash_internal (plain_chain 99) \<lparr>m_sender = 2, m_time = 604800\<rparr> 5 (10 ^ 18) 8000 example_staked = Inr s'"
    by (simp add: example_staked_def staking_eval)
  from slash_takes_exactly [OF example_run_facts s'] s' show ?thesis
    by (simp add: example_staked_def plain_chain_def get_info_def)
qed

text \<open>C10. No history of calls settles a slash proposal with a slash more than once, whatever the order of
  executions, appeals and rulings on appeals.\<close>

theorem proposal_executed_once: "executions X i ops s \<le> 1"
  by (rule executions_le)

text \<open>C27. A call that executes a pending slash proposal follows the procedure: a slasher executes it after
  the end of its appeal window and without an appeal, or the owner upholds an appeal that is not yet
  resolved.  No call changes whom, how much and when a proposal concerns.\<close>

theorem slash_needs_due_process:
  assumes "staking_call X m op s = Inr s'" "getValidProposal i s = Inr pr" "\<not> slp_executed pr"
    and "getValidProposal i s' = Inr pr'"
  shows "slp_provider pr' = slp_provider pr \<and> slp_amount pr' = slp_amount pr \<and>
         slp_proposedAt pr' = slp_proposedAt pr \<and>
         (slp_executed pr' \<longrightarrow>
            op = StkExecute i \<and> x_hasRole X (bs_base s) SLASHER_ROLE (m_sender m) \<and> \<not> slp_appealed pr \<and>
              slp_proposedAt pr + slp_appealWindowSnapshot pr \<le> m_time m \<or>
            op = StkResolve i True \<and> m_sender m = x_owner X (bs_base s) \<and> slp_appealed pr \<and> \<not> slp_resolved pr)"
  using proposal_step [OF assms(1,2)] assms(3,4)
  by (cases op) (auto simp: prop_step_def split: if_splits)

definition example_proposed :: "(unit, address \<Rightarrow> nat) BunkerStaking" where
  "example_proposed = projr (BunkerStaking_proposeSlash (plain_chain 99) \<lparr>m_sender = 2, m_time = 604800\<rparr> 5 (10 ^ 18) ''''
     example_staked)"

theorem slash_needs_due_process_witness:
  "\<exists>s' pr'. staking_call (plain_chain 99) \<lparr>m_sender = 2, m_time = 777600\<rparr> (StkExecute 0) example_proposed = Inr s' \<and>
     getValidProposal 0 s' = Inr pr' \<and> slp_provider pr' = 5"
proof -
  let ?m = "\<lparr>m_sender = 2, m_time = 777600\<rparr>"
  obtain s' where s': "staking_call (plain_chain 99) ?m (StkExecute 0) example_proposed = Inr s'"
    by (simp add: example_proposed_def BunkerStaking_proposeSlash_def new_proposal_def BunkerStaking_executeSlash_def
        getValidProposal_def run_proposal_def put_proposal_def example_staked_def staking_eval)
  obtain pr where pr: "getValidProposal 0 example_proposed = Inr pr" "\<not> slp_executed pr" "slp_provider pr = 5"
    by (simp add: example_proposed_def BunkerStaking_proposeSlash_def new_proposal_def getValidProposal_def
        example_staked_def staking_eval)
  obtain pr' where pr': "getValidProposal 0 s' = Inr pr'" using proposal_step [OF s' pr(1)] by blast
  from slash_needs_due_process [OF s' pr(1,2) pr'] s' pr(3) pr' show ?thesis by auto
qed

text \<open>C28. A claim of vested rewards releases, for every entry, all that has vested so far, pays the provider
  exactly the sum of what is newly released, and then keeps exactly the entries that are not yet
  paid in full.\<close>

theorem vested_claim_exact:
  assumes "erc20_ok X" "p = m_sender m" "p \<noteq> x_this X" "BunkerStaking_claimVestedRewards X m s = Inr s'"
    and "\<forall>e \<in> set (get_vested p s). vr_totalAmount e < 2 ^ 128"
  shows "\<exists>es. list_all2 (entry_claimed m s) (get_vested p s) es \<and>
           mset (get_vested p s') = filter_mset (\<lambda>e. vr_releasedAmount e \<noteq> vr_totalAmount e) (mset es) \<and>
           x_balanceOf X (bs_ledger s') p + sum_list (map vr_releasedAmount (get_vested p s)) =
             x_balanceOf X (bs_ledger s) p + sum_list (map vr_releasedAmount es)"
proof -
  obtain es n where e: "claim_entries m s (get_vested p s) 0 = Inr (es, n)"
    and t: "stk_transfer X p n (put_vested p (compact_entries 0 es) s) = Inr s'"
    using assms(2,4) by (auto simp: BunkerStaking_claimVestedRewards_def Let_def rbind_Inr_iff split: if_splits)
  obtain l where l: "x_transfer X (x_this X) p n (bs_ledger s) = Some l"
    "s' = (put_vested p (compact_entries 0 es) s)\<lparr>bs_ledger := l\<rparr>"
    using t by (auto simp: stk_transfer_def call_simps put_vested_def)
  have "x_balanceOf X (bs_ledger s') p = x_balanceOf X (bs_ledger s) p + n"
    using transferD(2) [OF assms(1) l(1), of p] assms(3) by (simp add: l(2) moved_def)
  moreover have "get_vested p s' = compact_entries 0 es" by (simp add: l(2) get_vested_def put_vested_def)
  ultimately show ?thesis
    using claim_entries_spec [OF e assms(5)] compact_entries_mset [of 0 es] by (intro exI [of _ es]) simp
qed

theorem vested_claim_exact_witness:
  "\<exists>s'. BunkerStaking_claimVestedRewards (plain_chain 99) \<lparr>m_sender = 5, m_time = 8380800\<rparr> example_staked = Inr s' \<and>
     get_vested 5 s' = []"
proof -
  let ?m = "\<lparr>m_sender = 5, m_time = 8380800\<rparr>"
  obtain s' where s': "BunkerStaking_claimVestedRewards (plain_chain 99) ?m example_staked = Inr s'"
    by (simp add: BunkerStaking_claimVestedRewards_def example_staked_def compact_entries.simps staking_eval)
  have "\<forall>e \<in> set (get_vested 5 example_staked). vr_totalAmount e < 2 ^ 128"
    by (simp add: example_staked_def get_vested_def)
  with vested_claim_exact [OF plain_chain_ok _ _ s', of 5]
  obtain es where es: "list_all2 (entry_claimed ?m example_staked) (get_vested 5 example_staked) es"
    "mset (get_vested 5 s') = filter_mset (\<lambda>e. vr_releasedAmount e \<noteq> vr_totalAmount e) (mset es)"
    by (auto simp: plain_chain_def)
  have "get_vested 5 example_staked = [\<lparr>vr_totalAmount = 302400 * 10 ^ 18, vr_releasedAmount = 0, vr_vestingStart = 604800\<rparr>]"
    by (simp add: example_staked_def get_vested_def)
  with es have "mset (get_vested 5 s') = {#}"
    by (auto simp: list_all2_Cons1 entry_claimed_def vestedAmount_def u_sub_def example_staked_def)
  with s' show ?thesis by auto
qed



text \<open>Repeated slashes drain the stakes of others: there is a history in which one provider is slashed three
  times, each slash forfeits the same unvested rewards again, and afterwards the contract cannot pay
  the unlocked unstake request of another provider who was never slashed.\<close>

theorem repeated_forfeiture_drains_stakes:
  "run_ok (staking_step (plain_chain 99)) (staking_op_ok (plain_chain 99)) example_setup example_staking \<and>
   pi_stakedAmount (get_info 6 example_staked) + pi_totalUnbonding (get_info 6 example_staked) = 10 ^ 24 \<and>
   staking_call (plain_chain 99) \<lparr>m_sender = 6, m_time = 1814400\<rparr> (StkComplete 0)
     (fold (staking_step (plain_chain 99)) (example_setup @ example_slashes) example_staking) = Inl TokenRevert"
proof -
  have "staking_call (plain_chain 99) \<lparr>m_sender = 6, m_time = 1814400\<rparr> (StkComplete 0)
     (fold (staking_step (plain_chain 99)) example_slashes example_staked) = Inl TokenRevert"
    by (simp add: example_slashes_def example_staked_def staking_eval)
  moreover have "pi_stakedAmount (get_info 6 example_staked) + pi_totalUnbonding (get_info 6 example_staked) = 10 ^ 24"
    by (simp add: example_staked_def get_info_def)
  ultimately show ?thesis using example_setup_ok by (simp add: example_staked_run)
qed

end
