(* ===== verification/Bunker_Delegation.thy ===== *)
theory Bunker_Delegation
  imports Evm_Base
begin

text \<open>
  The delegation contract (\<^verbatim>\<open>src/contracts/src/BunkerDelegation.sol\<close>): delegators lock tokens with a
  provider and take them back through an unbonding queue; providers configure their terms.  Events,
  which no function reads, are left out.  The answer of the staking contract to
  \<^verbatim>\<open>isActiveProvider\<close> is the argument \<open>act\<close> of the calls that ask for it.
\<close>

record DelegationInfo =
  di_provider :: address
  di_amount :: nat
  di_delegatedAt :: nat
  di_active :: bool

record ProviderDelegationConfig =
  pc_rewardCutBps :: nat
  pc_pendingRewardCutBps :: nat
  pc_rewardCutEffectiveAt :: nat
  pc_feeShareBps :: nat
  pc_totalDelegated :: nat
  pc_acceptingDelegations :: bool

record UnbondingRequest =
  ub_amount :: nat
  ub_unlockTime :: nat
  ub_completed :: bool

datatype delegation_revert =
    DlgZeroAmount | DlgZeroAddress | ProviderNotAccepting address | AlreadyDelegated address
  | NotDelegated address | RewardCutTooHigh nat nat | InsufficientDelegation nat nat
  | DlgUnbondingNotReady nat nat | InvalidUnbondingIndex nat nat | UnbondingAlreadyCompleted nat
  | DlgProviderNotActive address | TooManyUnbondingRequests | NoPendingRewardCut
  | RewardCutTimelockActive | DlgInvalidUnbondingPeriod | InvalidRewardCutCap

record ('b, 't) BunkerDelegation =
  bd_unbondingPeriod :: nat
  bd_maxRewardCutBps :: nat
  bd_stakingContract :: address
  bd_totalDelegated :: nat
  bd_delegations :: "(address, DelegationInfo) gomap"
  bd_providerConfigs :: "(address, ProviderDelegationConfig) gomap"
  bd_unbondingQueues :: "(address, UnbondingRequest list) gomap"
  bd_base :: 'b
  bd_ledger :: 't

type_synonym ('b, 't) delegation_call =
  "('b, 't) BunkerDelegation \<Rightarrow> (delegation_revert, ('b, 't) BunkerDelegation) result"

definition DLG_BPS_DENOMINATOR :: nat where "DLG_BPS_DENOMINATOR = 10000"
definition MAX_UNBONDING_QUEUE :: nat where "MAX_UNBONDING_QUEUE = 20"

subsection \<open>Storage access\<close>

definition zero_delegation :: DelegationInfo where
  "zero_delegation = \<lparr> di_provider = 0, di_amount = 0, di_delegatedAt = 0, di_active = False \<rparr>"

definition zero_config :: ProviderDelegationConfig where
  "zero_config = \<lparr> pc_rewardCutBps = 0, pc_pendingRewardCutBps = 0, pc_rewardCutEffectiveAt = 0,
                   pc_feeShareBps = 0, pc_totalDelegated = 0, pc_acceptingDelegations = False \<rparr>"

definition get_delegation :: "address \<Rightarrow> ('b, 't) BunkerDelegation \<Rightarrow> DelegationInfo" where
  "get_delegation d s = map_get zero_delegation (bd_delegations s) d"

definition get_config :: "address \<Rightarrow> ('b, 't) BunkerDelegation \<Rightarrow> ProviderDelegationConfig" where
  "get_config p s = map_get zero_config (bd_providerConfigs s) p"

definition get_unbonding :: "address \<Rightarrow> ('b, 't) BunkerDelegation \<Rightarrow> UnbondingRequest list" where
  "get_unbonding d s = map_get [] (bd_unbondingQueues s) d"

definition put_config ::
    "address \<Rightarrow> ProviderDelegationConfig \<Rightarrow> ('b, 't) BunkerDelegation \<Rightarrow> ('b, 't) BunkerDelegation" where
  "put_config p c s = s\<lparr>bd_providerConfigs := fmupd p c (bd_providerConfigs s)\<rparr>"

subsection \<open>Constructor and modifiers\<close>

definition BunkerDelegation_constructor ::
    "address \<Rightarrow> address \<Rightarrow> address \<Rightarrow> 'b \<Rightarrow> 't \<Rightarrow> (delegation_revert, ('b, 't) BunkerDelegation) result" where
  "BunkerDelegation_constructor token stakingContract initialOwner base ledger =
     (if token = 0 \<or> initialOwner = 0 then Inl (Err DlgZeroAddress)
      else Inr \<lparr> bd_unbondingPeriod = 7 * 24 * 3600, bd_maxRewardCutBps = 5000,
                 bd_stakingContract = stakingContract, bd_totalDelegated = 0,
                 bd_delegations = fmempty, bd_providerConfigs = fmempty, bd_unbondingQueues = fmempty,
                 bd_base = base, bd_ledger = ledger \<rparr>)"

definition dlg_onlyOwner :: "('b, 't) chain \<Rightarrow> msg \<Rightarrow> ('b, 't) delegation_call \<Rightarrow> ('b, 't) delegation_call" where
  "dlg_onlyOwner X m f s = (if m_sender m = x_owner X (bd_base s) then f s else Inl Unauthorized)"

definition dlg_whenNotPaused :: "('b, 't) chain \<Rightarrow> ('b, 't) delegation_call \<Rightarrow> ('b, 't) delegation_call" where
  "dlg_whenNotPaused X f s = (if x_paused X (bd_base s) then Inl EnforcedPause else f s)"

subsection \<open>Provider configuration\<close>

definition BunkerDelegation_setDelegationConfig :: "msg \<Rightarrow> nat \<Rightarrow> nat \<Rightarrow> ('b, 't) delegation_call" where
  "BunkerDelegation_setDelegationConfig m rewardCutBps feeShareBps s =
     (if rewardCutBps > u_cast 16 (bd_maxRewardCutBps s)
      then Inl (Err (RewardCutTooHigh rewardCutBps (u_cast 16 (bd_maxRewardCutBps s))))
      else
        let config = get_config (m_sender m) s in
        if rewardCutBps > pc_rewardCutBps config then
          rbind (u_add 256 (m_time m) (bd_unbondingPeriod s)) (\<lambda>eff.
          Inr (put_config (m_sender m)
                 (config\<lparr>pc_pendingRewardCutBps := rewardCutBps, pc_rewardCutEffectiveAt := u_cast 48 eff,
                         pc_feeShareBps := feeShareBps\<rparr>) s))
        else Inr (put_config (m_sender m)
                    (config\<lparr>pc_rewardCutBps := rewardCutBps, pc_feeShareBps := feeShareBps\<rparr>) s))"

definition BunkerDelegation_finalizeRewardCut :: "msg \<Rightarrow> ('b, 't) delegation_call" where
  "BunkerDelegation_finalizeRewardCut m s =
     (let config = get_config (m_sender m) s in
      if pc_pendingRewardCutBps config = 0 then Inl (Err NoPendingRewardCut)
      else if m_time m < pc_rewardCutEffectiveAt config then Inl (Err RewardCutTimelockActive)
      else Inr (put_config (m_sender m)
                  (config\<lparr>pc_rewardCutBps := pc_pendingRewardCutBps config, pc_pendingRewardCutBps := 0,
                          pc_rewardCutEffectiveAt := 0\<rparr>) s))"

definition BunkerDelegation_toggleAcceptDelegations ::
    "msg \<Rightarrow> (address \<Rightarrow> address \<Rightarrow> bool) \<Rightarrow> bool \<Rightarrow> ('b, 't) delegation_call" where
  "BunkerDelegation_toggleAcceptDelegations m act accepting s =
     (if accepting \<and> bd_stakingContract s \<noteq> 0 \<and> \<not> act (bd_stakingContract s) (m_sender m)
      then Inl (Err (DlgProviderNotActive (m_sender m)))
      else Inr (put_config (m_sender m) ((get_config (m_sender m) s)\<lparr>pc_acceptingDelegations := accepting\<rparr>) s))"

subsection \<open>Delegating\<close>

definition BunkerDelegation_delegate ::
    "('b, 't) chain \<Rightarrow> msg \<Rightarrow> (address \<Rightarrow> address \<Rightarrow> bool) \<Rightarrow> address \<Rightarrow> nat \<Rightarrow> ('b, 't) delegation_call" where
  "BunkerDelegation_delegate X m act provider amount = dlg_whenNotPaused X (\<lambda>s.
     if amount = 0 then Inl (Err DlgZeroAmount)
     else if provider = 0 then Inl (Err DlgZeroAddress)
     else if bd_stakingContract s \<noteq> 0 \<and> \<not> act (bd_stakingContract s) provider
       then Inl (Err (DlgProviderNotActive provider))
     else
       let config = get_config provider s; d = m_sender m in
       if \<not> pc_acceptingDelegations config then Inl (Err (ProviderNotAccepting provider))
       else if di_active (get_delegation d s) then Inl (Err (AlreadyDelegated d))
       else
         let info = \<lparr> di_provider = provider, di_amount = u_cast 128 amount,
                      di_delegatedAt = u_cast 48 (m_time m), di_active = True \<rparr> in
         rbind (u_add 128 (pc_totalDelegated config) (u_cast 128 amount)) (\<lambda>configTotal.
         rbind (u_add 256 (bd_totalDelegated s) amount) (\<lambda>allTotal.
         rbind (of_call (x_transferFrom X (x_this X) d (x_this X) amount (bd_ledger s)) TokenRevert) (\<lambda>t.
         Inr ((put_config provider (config\<lparr>pc_totalDelegated := configTotal\<rparr>) s)
              \<lparr>bd_delegations := fmupd d info (bd_delegations s), bd_totalDelegated := allTotal,
               bd_ledger := t\<rparr>)))))"

definition BunkerDelegation_requestUndelegate :: "('b, 't) chain \<Rightarrow> msg \<Rightarrow> nat \<Rightarrow> ('b, 't) delegation_call" where
  "BunkerDelegation_requestUndelegate X m amount = dlg_whenNotPaused X (\<lambda>s.
     let d = m_sender m; info = get_delegation d s; queue = get_unbonding d s in
     if amount = 0 then Inl (Err DlgZeroAmount)
     else if length queue \<ge> MAX_UNBONDING_QUEUE then Inl (Err TooManyUnbondingRequests)
     else if \<not> di_active info then Inl (Err (NotDelegated d))
     else if amount > di_amount info then Inl (Err (InsufficientDelegation amount (di_amount info)))
     else
       rbind (u_sub (di_amount info) (u_cast 128 amount)) (\<lambda>rest.
       let config = get_config (di_provider info) s in
       rbind (u_sub (pc_totalDelegated config) (u_cast 128 amount)) (\<lambda>configTotal.
       rbind (u_sub (bd_totalDelegated s) amount) (\<lambda>allTotal.
       rbind (u_add 256 (m_time m) (bd_unbondingPeriod s)) (\<lambda>unlock.
       let req = \<lparr> ub_amount = u_cast 128 amount, ub_unlockTime = u_cast 48 unlock, ub_completed = False \<rparr> in
       Inr ((put_config (di_provider info) (config\<lparr>pc_totalDelegated := configTotal\<rparr>) s)
            \<lparr>bd_delegations := fmupd d (info\<lparr>di_amount := rest, di_active := rest \<noteq> 0\<rparr>) (bd_delegations s),
             bd_totalDelegated := allTotal,
             bd_unbondingQueues := fmupd d (queue @ [req]) (bd_unbondingQueues s)\<rparr>))))))"

definition BunkerDelegation_completeUndelegate :: "('b, 't) chain \<Rightarrow> msg \<Rightarrow> nat \<Rightarrow> ('b, 't) delegation_call" where
  "BunkerDelegation_completeUndelegate X m requestIndex s =
     (let d = m_sender m; queue = get_unbonding d s in
      if requestIndex \<ge> length queue then Inl (Err (InvalidUnbondingIndex requestIndex (length queue)))
      else
        let req = queue ! requestIndex in
        if ub_completed req then Inl (Err (UnbondingAlreadyCompleted requestIndex))
        else if m_time m < ub_unlockTime req
          then Inl (Err (DlgUnbondingNotReady (ub_unlockTime req) (m_time m)))
        else
          rbind (of_call (x_transfer X (x_this X) d (ub_amount req) (bd_ledger s)) TokenRevert) (\<lambda>t.
          Inr (s\<lparr>bd_unbondingQueues :=
                   fmupd d (queue[requestIndex := req\<lparr>ub_completed := True\<rparr>]) (bd_unbondingQueues s),
                 bd_ledger := t\<rparr>)))"

subsection \<open>Administration\<close>

definition BunkerDelegation_setStakingContract :: "('b, 't) chain \<Rightarrow> msg \<Rightarrow> address \<Rightarrow> ('b, 't) delegation_call" where
  "BunkerDelegation_setStakingContract X m a = dlg_onlyOwner X m (\<lambda>s. Inr (s\<lparr>bd_stakingContract := a\<rparr>))"

definition BunkerDelegation_setUnbondingPeriod :: "('b, 't) chain \<Rightarrow> msg \<Rightarrow> nat \<Rightarrow> ('b, 't) delegation_call" where
  "BunkerDelegation_setUnbondingPeriod X m period = dlg_onlyOwner X m (\<lambda>s.
     if period < 60 \<or> period > 30 * 24 * 3600 then Inl (Err DlgInvalidUnbondingPeriod)
     else Inr (s\<lparr>bd_unbondingPeriod := period\<rparr>))"

definition BunkerDelegation_setMaxRewardCutBps :: "('b, 't) chain \<Rightarrow> msg \<Rightarrow> nat \<Rightarrow> ('b, 't) delegation_call" where
  "BunkerDelegation_setMaxRewardCutBps X m newMax = dlg_onlyOwner X m (\<lambda>s.
     if newMax = 0 \<or> newMax > u_cast 16 DLG_BPS_DENOMINATOR then Inl (Err InvalidRewardCutCap)
     else Inr (s\<lparr>bd_maxRewardCutBps := newMax\<rparr>))"

definition BunkerDelegation_pause :: "('b, 't) chain \<Rightarrow> msg \<Rightarrow> ('b, 't) delegation_call" where
  "BunkerDelegation_pause X m = dlg_onlyOwner X m (\<lambda>s.
     rbind (of_call (x_pause X (bd_base s)) BaseRevert) (\<lambda>b. Inr (s\<lparr>bd_base := b\<rparr>)))"

definition BunkerDelegation_unpause :: "('b, 't) chain \<Rightarrow> msg \<Rightarrow> ('b, 't) delegation_call" where
  "BunkerDelegation_unpause X m = dlg_onlyOwner X m (\<lambda>s.
     rbind (of_call (x_unpause X (bd_base s)) BaseRevert) (\<lambda>b. Inr (s\<lparr>bd_base := b\<rparr>)))"

subsection \<open>The contract as a machine\<close>

datatype ('b, 't) delegation_op =
    DlgConfig nat nat | DlgFinalize | DlgToggle "address \<Rightarrow> address \<Rightarrow> bool" bool
  | DlgDelegate "address \<Rightarrow> address \<Rightarrow> bool" address nat | DlgRequest nat | DlgComplete nat
  | DlgSetStaking address | DlgSetPeriod nat | DlgSetMaxCut nat | DlgPause | DlgUnpause
  | DlgEnvBase 'b | DlgEnvLedger 't

fun delegation_call :: "('b, 't) chain \<Rightarrow> msg \<Rightarrow> ('b, 't) delegation_op \<Rightarrow> ('b, 't) delegation_call" where
  "delegation_call X m (DlgConfig c f) s = BunkerDelegation_setDelegationConfig m c f s"
| "delegation_call X m DlgFinalize s = BunkerDelegation_finalizeRewardCut m s"
| "delegation_call X m (DlgToggle act b) s = BunkerDelegation_toggleAcceptDelegations m act b s"
| "delegation_call X m (DlgDelegate act p n) s = BunkerDelegation_delegate X m act p n s"
| "delegation_call X m (DlgRequest n) s = BunkerDelegation_requestUndelegate X m n s"
| "delegation_call X m (DlgComplete i) s = BunkerDelegation_completeUndelegate X m i s"
| "delegation_call X m (DlgSetStaking a) s = BunkerDelegation_setStakingContract X m a s"
| "delegation_call X m (DlgSetPeriod n) s = BunkerDelegation_setUnbondingPeriod X m n s"
| "delegation_call X m (DlgSetMaxCut n) s = BunkerDelegation_setMaxRewardCutBps X m n s"
| "delegation_call X m DlgPause s = BunkerDelegation_pause X m s"
| "delegation_call X m DlgUnpause s = BunkerDelegation_unpause X m s"
| "delegation_call X m (DlgEnvBase b) s = Inr (s\<lparr>bd_base := b\<rparr>)"
| "delegation_call X m (DlgEnvLedger t) s = Inr (s\<lparr>bd_ledger := t\<rparr>)"

definition delegation_step ::
    "('b, 't) chain \<Rightarrow> msg \<times> ('b, 't) delegation_op \<Rightarrow> ('b, 't) BunkerDelegation \<Rightarrow> ('b, 't) BunkerDelegation" where
  "delegation_step X mop s = commit s (delegation_call X (fst mop) (snd mop) s)"

subsection \<open>The books\<close>

definition open_request :: "UnbondingRequest \<Rightarrow> nat" where
  "open_request r = (if ub_completed r then 0 else ub_amount r)"

definition open_requests :: "UnbondingRequest list \<Rightarrow> nat" where
  "open_requests q = sum_list (map open_request q)"

definition delegated_to :: "address \<Rightarrow> DelegationInfo \<Rightarrow> nat" where
  "delegated_to p i = (if di_provider i = p then di_amount i else 0)"

definition dlg_held :: "('b, 't) chain \<Rightarrow> ('b, 't) BunkerDelegation \<Rightarrow> nat" where
  "dlg_held X s = x_balanceOf X (bd_ledger s) (x_this X)"

definition dlg_inv :: "('b, 't) chain \<Rightarrow> ('b, 't) BunkerDelegation \<Rightarrow> bool" where
  "dlg_inv X s \<longleftrightarrow>
     msum di_amount (bd_delegations s) = bd_totalDelegated s \<and>
     (\<forall>p. pc_totalDelegated (get_config p s) = msum (delegated_to p) (bd_delegations s)) \<and>
     (\<forall>d. (\<not> di_active (get_delegation d s) \<longrightarrow> di_amount (get_delegation d s) = 0) \<and>
          di_amount (get_delegation d s) < 2 ^ 128) \<and>
     bd_totalDelegated s + msum open_requests (bd_unbondingQueues s) \<le> dlg_held X s"

lemma zero_delegation_simps [simp]:
  "di_amount zero_delegation = 0" "di_active zero_delegation = False" "delegated_to p zero_delegation = 0"
  by (simp_all add: zero_delegation_def delegated_to_def)

lemma zero_config_simps [simp]: "pc_totalDelegated zero_config = 0"
  by (simp add: zero_config_def)

lemma open_requests_simps [simp]:
  "open_requests [] = 0" "open_requests (q @ q') = open_requests q + open_requests q'"
  by (simp_all add: open_requests_def)

lemma open_requests_complete:
  assumes "i < length q" "\<not> ub_completed (q ! i)"
  shows "open_requests (q[i := (q ! i)\<lparr>ub_completed := True\<rparr>]) + ub_amount (q ! i) = open_requests q"
  using assms
proof (induction q arbitrary: i)
  case (Cons r q)
  then show ?case by (cases i) (auto simp: open_requests_def open_request_def)
qed simp

lemma get_config_put [simp]: "get_config p (put_config p' c s) = (if p = p' then c else get_config p s)"
  by (simp add: get_config_def put_config_def)

text \<open>A configuration changes nothing of the books.\<close>

lemma inv_config:
  assumes "dlg_inv X s" "pc_totalDelegated c = pc_totalDelegated (get_config p s)"
  shows "dlg_inv X (put_config p c s)"
  using assms by (auto simp: dlg_inv_def get_delegation_def dlg_held_def) (auto simp: put_config_def)

lemma inv_provider_calls:
  assumes "dlg_inv X s"
  shows "BunkerDelegation_setDelegationConfig m c f s = Inr s' \<Longrightarrow> dlg_inv X s'"
    and "BunkerDelegation_finalizeRewardCut m s = Inr s' \<Longrightarrow> dlg_inv X s'"
    and "BunkerDelegation_toggleAcceptDelegations m act b s = Inr s' \<Longrightarrow> dlg_inv X s'"
  by (auto simp: BunkerDelegation_setDelegationConfig_def BunkerDelegation_finalizeRewardCut_def
      BunkerDelegation_toggleAcceptDelegations_def Let_def call_simps split: if_splits
      intro!: inv_config [OF assms])

lemma inv_admin_calls:
  assumes "dlg_inv X s"
  shows "BunkerDelegation_setStakingContract X m a s = Inr s' \<Longrightarrow> dlg_inv X s'"
    and "BunkerDelegation_setUnbondingPeriod X m n s = Inr s' \<Longrightarrow> dlg_inv X s'"
    and "BunkerDelegation_setMaxRewardCutBps X m n s = Inr s' \<Longrightarrow> dlg_inv X s'"
    and "BunkerDelegation_pause X m s = Inr s' \<Longrightarrow> dlg_inv X s'"
    and "BunkerDelegation_unpause X m s = Inr s' \<Longrightarrow> dlg_inv X s'"
  using assms
  by (auto simp: BunkerDelegation_setStakingContract_def BunkerDelegation_setUnbondingPeriod_def
      BunkerDelegation_setMaxRewardCutBps_def BunkerDelegation_pause_def BunkerDelegation_unpause_def
      dlg_onlyOwner_def call_simps dlg_inv_def get_config_def get_delegation_def dlg_held_def split: if_splits)

text \<open>The one rule behind delegating and undelegating: one delegator's amount changes.\<close>

lemma inv_delegation:
  assumes inv: "dlg_inv X s" and old: "di_provider i = p" "di_amount (get_delegation d s) = 0 \<or> di_provider (get_delegation d s) = p"
    and s': "bd_delegations s' = fmupd d i (bd_delegations s)"
      "\<And>r. pc_totalDelegated (get_config r s') = (if r = p then c else pc_totalDelegated (get_config r s))"
    and c: "c + di_amount (get_delegation d s) = pc_totalDelegated (get_config p s) + di_amount i"
    and t: "bd_totalDelegated s' + di_amount (get_delegation d s) = bd_totalDelegated s + di_amount i"
    and i: "di_amount i < 2 ^ 128" "\<not> di_active i \<Longrightarrow> di_amount i = 0"
    and cover: "bd_totalDelegated s' + msum open_requests (bd_unbondingQueues s') \<le> dlg_held X s'"
  shows "dlg_inv X s'"
proof -
  let ?old = "map_get zero_delegation (bd_delegations s) d"
  have sum: "msum di_amount (bd_delegations s') = bd_totalDelegated s'"
    using msum_put [of di_amount zero_delegation d i "bd_delegations s"] inv t
    by (simp add: s' dlg_inv_def get_delegation_def)
  have "pc_totalDelegated (get_config r s') = msum (delegated_to r) (bd_delegations s')" for r
  proof -
    have "msum (delegated_to r) (bd_delegations s') + delegated_to r ?old
        = msum (delegated_to r) (bd_delegations s) + delegated_to r i"
      using msum_put [of "delegated_to r" zero_delegation d i "bd_delegations s"] by (simp add: s')
    moreover have "delegated_to r ?old = (if r = p then di_amount ?old else 0)"
      "delegated_to r i = (if r = p then di_amount i else 0)"
      using old by (auto simp: delegated_to_def get_delegation_def)
    moreover have "pc_totalDelegated (get_config r s) = msum (delegated_to r) (bd_delegations s)"
      using inv by (simp add: dlg_inv_def)
    ultimately show ?thesis using c by (auto simp: s' get_delegation_def)
  qed
  moreover have "get_delegation x s' = (if x = d then i else get_delegation x s)" for x
    by (simp add: s' get_delegation_def)
  ultimately show ?thesis using inv sum i cover by (simp add: dlg_inv_def)
qed

lemma inv_delegate:
  assumes X: "erc20_ok X" and inv: "dlg_inv X s" and call: "BunkerDelegation_delegate X m act p n s = Inr s'"
    and ok: "n < 2 ^ 128" "m_sender m \<noteq> x_this X"
  shows "dlg_inv X s'"
proof -
  let ?d = "m_sender m" and ?i = "\<lparr> di_provider = p, di_amount = n, di_delegatedAt = u_cast 48 (m_time m), di_active = True \<rparr>"
  obtain t where t: "x_transferFrom X (x_this X) ?d (x_this X) n (bd_ledger s) = Some t"
    and s': "s' = (put_config p ((get_config p s)\<lparr>pc_totalDelegated := pc_totalDelegated (get_config p s) + n\<rparr>) s)
        \<lparr>bd_delegations := fmupd ?d ?i (bd_delegations s), bd_totalDelegated := bd_totalDelegated s + n, bd_ledger := t\<rparr>"
    and free: "\<not> di_active (get_delegation ?d s)"
    using call ok(1)
    by (auto simp: BunkerDelegation_delegate_def dlg_whenNotPaused_def call_simps Let_def split: if_splits)
  have zero: "di_amount (get_delegation ?d s) = 0" using inv free by (simp add: dlg_inv_def)
  have "dlg_held X s' = dlg_held X s + n"
    using transferFromD(2) [OF X t, of "x_this X"] ok(2) by (simp add: s' dlg_held_def moved_def)
  then have cover: "bd_totalDelegated s' + msum open_requests (bd_unbondingQueues s') \<le> dlg_held X s'"
    using inv by (simp add: s' dlg_inv_def put_config_def)
  show ?thesis
    by (rule inv_delegation [OF inv _ disjI1 [OF zero] _ _ _ _ _ _ cover, of ?i p "pc_totalDelegated (get_config p s) + n"])
       (use ok(1) zero in \<open>simp_all add: s' get_config_def put_config_def\<close>)
qed

lemma request_undelegate_result:
  assumes "BunkerDelegation_requestUndelegate X m n s = Inr s'"
  obtains i r where "i = get_delegation (m_sender m) s" "n \<le> di_amount i" "0 < n"
    "u_cast 128 n \<le> pc_totalDelegated (get_config (di_provider i) s)" "n \<le> bd_totalDelegated s"
    "length (get_unbonding (m_sender m) s) < MAX_UNBONDING_QUEUE"
    "ub_amount r = u_cast 128 n" "\<not> ub_completed r" "ub_unlockTime r = u_cast 48 (m_time m + bd_unbondingPeriod s)"
    "s' = (put_config (di_provider i)
             ((get_config (di_provider i) s)\<lparr>pc_totalDelegated := pc_totalDelegated (get_config (di_provider i) s) - u_cast 128 n\<rparr>) s)
        \<lparr>bd_delegations := fmupd (m_sender m) (i\<lparr>di_amount := di_amount i - u_cast 128 n,
            di_active := u_cast 128 n < di_amount i\<rparr>) (bd_delegations s),
         bd_totalDelegated := bd_totalDelegated s - n,
         bd_unbondingQueues := fmupd (m_sender m) (get_unbonding (m_sender m) s @ [r]) (bd_unbondingQueues s)\<rparr>"
proof -
  show thesis
    by (rule that [of "get_delegation (m_sender m) s" "\<lparr> ub_amount = u_cast 128 n,
          ub_unlockTime = u_cast 48 (m_time m + bd_unbondingPeriod s), ub_completed = False \<rparr>"])
       (use assms in \<open>auto simp: BunkerDelegation_requestUndelegate_def dlg_whenNotPaused_def call_simps Let_def
          split: if_splits\<close>)
qed

lemma inv_request_undelegate:
  assumes inv: "dlg_inv X s" and call: "BunkerDelegation_requestUndelegate X m n s = Inr s'"
  shows "dlg_inv X s'"
  using call
proof (rule request_undelegate_result)
  let ?d = "m_sender m"
  fix i r
  assume i: "i = get_delegation ?d s" and n: "n \<le> di_amount i" "n \<le> bd_totalDelegated s"
    "u_cast 128 n \<le> pc_totalDelegated (get_config (di_provider i) s)"
    and r: "ub_amount r = u_cast 128 n" "\<not> ub_completed r"
    and s': "s' = (put_config (di_provider i)
             ((get_config (di_provider i) s)\<lparr>pc_totalDelegated := pc_totalDelegated (get_config (di_provider i) s) - u_cast 128 n\<rparr>) s)
        \<lparr>bd_delegations := fmupd ?d (i\<lparr>di_amount := di_amount i - u_cast 128 n,
            di_active := u_cast 128 n < di_amount i\<rparr>) (bd_delegations s),
         bd_totalDelegated := bd_totalDelegated s - n,
         bd_unbondingQueues := fmupd ?d (get_unbonding ?d s @ [r]) (bd_unbondingQueues s)\<rparr>"
  have lt: "di_amount i < 2 ^ 128" using inv by (simp add: dlg_inv_def i)
  have c: "u_cast 128 n = n" using n(1) lt by (intro u_cast_id) (rule le_less_trans)
  let ?i = "i\<lparr>di_amount := di_amount i - n, di_active := n < di_amount i\<rparr>"
  have "msum open_requests (bd_unbondingQueues s') = msum open_requests (bd_unbondingQueues s) + n"
    using msum_put [of open_requests "[]" ?d "get_unbonding ?d s @ [r]" "bd_unbondingQueues s"] r c
    by (simp add: s' get_unbonding_def) (simp add: open_requests_def open_request_def)
  then have cover: "bd_totalDelegated s' + msum open_requests (bd_unbondingQueues s') \<le> dlg_held X s'"
    using inv n(2) by (simp add: s' dlg_inv_def dlg_held_def put_config_def)
  have prov: "di_provider (get_delegation ?d s) = di_provider i" by (simp add: i)
  show ?thesis
    by (rule inv_delegation [OF inv _ disjI2 [OF prov] _ _ _ _ _ _ cover, of ?i
          "pc_totalDelegated (get_config (di_provider i) s) - n"])
       (use n lt c in \<open>auto simp: s' get_config_def put_config_def i [symmetric]\<close>)
qed

lemma inv_complete_undelegate:
  assumes X: "erc20_ok X" and inv: "dlg_inv X s" and call: "BunkerDelegation_completeUndelegate X m j s = Inr s'"
  shows "dlg_inv X s'"
proof -
  let ?d = "m_sender m" and ?q = "get_unbonding (m_sender m) s"
  obtain t where t: "x_transfer X (x_this X) ?d (ub_amount (?q ! j)) (bd_ledger s) = Some t"
    and s': "s' = s\<lparr>bd_unbondingQueues := fmupd ?d (?q[j := (?q ! j)\<lparr>ub_completed := True\<rparr>]) (bd_unbondingQueues s), bd_ledger := t\<rparr>"
    and j: "j < length ?q" "\<not> ub_completed (?q ! j)"
    using call by (auto simp: BunkerDelegation_completeUndelegate_def call_simps Let_def split: if_splits)
  have "msum open_requests (bd_unbondingQueues s') + ub_amount (?q ! j) = msum open_requests (bd_unbondingQueues s)"
    using msum_put [of open_requests "[]" ?d "?q[j := (?q ! j)\<lparr>ub_completed := True\<rparr>]" "bd_unbondingQueues s"]
      open_requests_complete [OF j] by (simp add: s' get_unbonding_def)
  moreover have "dlg_held X s \<le> dlg_held X s' + ub_amount (?q ! j)"
    using transferD(1) [OF X t] transferD(2) [OF X t, of "x_this X"] by (simp add: s' dlg_held_def moved_def)
  ultimately show ?thesis using inv by (simp add: dlg_inv_def s' get_config_def get_delegation_def)
qed

text \<open>What the environment is asked for: a delegation fits into 128 bits, the contract does not delegate
  to itself, and other accounts do not take tokens out of it.\<close>

fun delegation_op_ok :: "('b, 't) chain \<Rightarrow> msg \<times> ('b, 't) delegation_op \<Rightarrow> ('b, 't) BunkerDelegation \<Rightarrow> bool" where
  "delegation_op_ok X (m, DlgDelegate act p n) s = (n < 2 ^ 128 \<and> m_sender m \<noteq> x_this X)"
| "delegation_op_ok X (m, DlgEnvLedger t) s = (dlg_held X s \<le> x_balanceOf X t (x_this X))"
| "delegation_op_ok X (m, _) s = True"

lemma delegation_call_inv:
  assumes X: "erc20_ok X" and inv: "dlg_inv X s" and ok: "delegation_op_ok X (m, op) s"
    and call: "delegation_call X m op s = Inr s'"
  shows "dlg_inv X s'"
proof (cases op)
  case (DlgDelegate act p n)
  then show ?thesis using inv_delegate [OF X inv, of m act p n s'] ok call by simp
next
  case (DlgRequest n)
  then show ?thesis using inv_request_undelegate [OF inv, of m n s'] call by simp
next
  case (DlgComplete i)
  then show ?thesis using inv_complete_undelegate [OF X inv, of m i s'] call by simp
next
  case (DlgEnvLedger t)
  then show ?thesis using inv ok call by (auto simp: dlg_inv_def get_config_def get_delegation_def dlg_held_def)
next
  case (DlgEnvBase b)
  then show ?thesis using inv call by (auto simp: dlg_inv_def get_config_def get_delegation_def dlg_held_def)
qed (use call in \<open>auto dest: inv_provider_calls [OF inv] inv_admin_calls [OF inv]\<close>)

interpretation delegation_runs:
  guarded_machine "delegation_step X" "delegation_op_ok X" "\<lambda>s. erc20_ok X \<and> dlg_inv X s" for X
proof
  fix s mop
  assume a: "erc20_ok X \<and> dlg_inv X s" "delegation_op_ok X mop s"
  have "dlg_inv X (delegation_step X mop s)"
    unfolding delegation_step_def
    by (rule commit_inv [where P = "dlg_inv X"]) (use a delegation_call_inv [of X s "fst mop" "snd mop"] in auto)
  then show "erc20_ok X \<and> dlg_inv X (delegation_step X mop s)" using a by simp
qed

lemma delegation_constructor_inv: "BunkerDelegation_constructor tok stk own b t = Inr s \<Longrightarrow> dlg_inv X s"
  by (auto simp: BunkerDelegation_constructor_def dlg_inv_def get_config_def get_delegation_def split: if_splits)

subsection \<open>A full queue\<close>

text \<open>An active delegation behind a queue of twenty requests, open or completed.\<close>

definition stuck :: "address \<Rightarrow> DelegationInfo \<Rightarrow> ('b, 't) BunkerDelegation \<Rightarrow> bool" where
  "stuck d i s \<longleftrightarrow> MAX_UNBONDING_QUEUE \<le> length (get_unbonding d s) \<and> get_delegation d s = i \<and> di_active i"

lemma stuck_config [simp]: "stuck d i (put_config p c s) = stuck d i s"
  by (simp add: stuck_def put_config_def get_unbonding_def get_delegation_def)

lemma stuck_call:
  assumes "stuck d i s" "delegation_call X m op s = Inr s'"
  shows "stuck d i s'"
proof (cases op)
  case (DlgDelegate act p n)
  then show ?thesis
    using assms
    by (auto simp: BunkerDelegation_delegate_def dlg_whenNotPaused_def call_simps Let_def stuck_def get_unbonding_def
        get_delegation_def put_config_def split: if_splits)
next
  case (DlgRequest n)
  then have "BunkerDelegation_requestUndelegate X m n s = Inr s'" using assms by simp
  then show ?thesis
    by (rule request_undelegate_result) (use assms(1) in \<open>auto simp: stuck_def put_config_def get_unbonding_def get_delegation_def\<close>)
next
  case (DlgComplete j)
  then show ?thesis
    using assms
    by (auto simp: BunkerDelegation_completeUndelegate_def call_simps Let_def stuck_def get_unbonding_def
        get_delegation_def split: if_splits)
qed (use assms in \<open>auto simp: BunkerDelegation_setDelegationConfig_def BunkerDelegation_finalizeRewardCut_def
      BunkerDelegation_toggleAcceptDelegations_def Let_def call_simps split: if_splits\<close>,
     auto simp: BunkerDelegation_setStakingContract_def BunkerDelegation_setUnbondingPeriod_def
      BunkerDelegation_setMaxRewardCutBps_def BunkerDelegation_pause_def BunkerDelegation_unpause_def
      dlg_onlyOwner_def call_simps stuck_def get_unbonding_def get_delegation_def split: if_splits)

interpretation stuck_runs: guarded_machine "delegation_step X" "\<lambda>_ _. True" "stuck d i" for X d i
proof
  fix s :: "('a, 'b) BunkerDelegation" and mop
  assume "stuck d i s"
  then show "stuck d i (delegation_step X mop s)"
    unfolding delegation_step_def
    by (rule commit_inv [where P = "stuck d i"]) (use \<open>stuck d i s\<close> stuck_call in blast)
qed

subsection \<open>An example history\<close>

definition example_delegation :: "(unit, address \<Rightarrow> nat) BunkerDelegation" where
  "example_delegation = projr (BunkerDelegation_constructor 10 8 1 () (\<lambda>x. if x = 5 then 100 else 0))"

definition delegation_history :: "(msg \<times> (unit, address \<Rightarrow> nat) delegation_op) list" where
  "delegation_history =
     [(\<lparr>m_sender = 7, m_time = 0\<rparr>, DlgToggle (\<lambda>_ p. p = 7) True),
      (\<lparr>m_sender = 5, m_time = 0\<rparr>, DlgDelegate (\<lambda>_ p. p = 7) 7 100)] @
     replicate 20 (\<lparr>m_sender = 5, m_time = 0\<rparr>, DlgRequest 2)"

definition example_full :: "(unit, address \<Rightarrow> nat) BunkerDelegation" where
  "example_full = fold (delegation_step (plain_chain 99)) delegation_history example_delegation"

lemma example_delegation_constructor:
  "BunkerDelegation_constructor 10 8 1 () (\<lambda>x. if x = 5 then 100 else 0) = Inr example_delegation"
  by (simp add: example_delegation_def BunkerDelegation_constructor_def)

lemma replicate_numeral: "replicate (numeral k) x = x # replicate (pred_numeral k) x"
  by (simp add: numeral_eq_Suc)

lemma example_full_ok:
  "run_ok (delegation_step (plain_chain 99)) (delegation_op_ok (plain_chain 99)) delegation_history example_delegation"
  by (simp add: delegation_history_def plain_chain_def replicate_numeral)

lemma example_full_facts:
  "get_delegation 5 example_full = \<lparr> di_provider = 7, di_amount = 60, di_delegatedAt = 0, di_active = True \<rparr>"
  "length (get_unbonding 5 example_full) = 20"
  by (simp_all add: example_full_def delegation_history_def example_delegation_def BunkerDelegation_constructor_def
      delegation_step_def BunkerDelegation_toggleAcceptDelegations_def BunkerDelegation_delegate_def
      BunkerDelegation_requestUndelegate_def dlg_whenNotPaused_def plain_chain_def get_config_def get_delegation_def
      get_unbonding_def put_config_def zero_config_def zero_delegation_def of_call_def u_add_def u_sub_def u_cast_def
      MAX_UNBONDING_QUEUE_def Let_def replicate_numeral)

subsection \<open>Properties\<close>

text \<open>C5. Through any history of calls to the delegation contract, by anybody and in any order, the total is the
  sum of all delegations, every provider's total is the sum of the delegations to it, and the token
  balance covers all delegations and all open unbonding requests.\<close>

theorem delegation_contract_solvent:
  assumes "erc20_ok X" "BunkerDelegation_constructor tok stk own b t = Inr s0"
    and "run_ok (delegation_step X) (delegation_op_ok X) ops s0" "s = fold (delegation_step X) ops s0"
  shows "bd_totalDelegated s = msum di_amount (bd_delegations s) \<and>
         (\<forall>p. pc_totalDelegated (get_config p s) = msum (delegated_to p) (bd_delegations s)) \<and>
         bd_totalDelegated s + msum open_requests (bd_unbondingQueues s) \<le> x_balanceOf X (bd_ledger s) (x_this X)"
proof -
  have "dlg_inv X s"
    using delegation_runs.run_inv [OF _ assms(3)] delegation_constructor_inv [OF assms(2)] assms(1,4) by auto
  then show ?thesis by (simp add: dlg_inv_def dlg_held_def)
qed

theorem delegation_contract_solvent_witness:
  "bd_totalDelegated example_full + msum open_requests (bd_unbondingQueues example_full) \<le> bd_ledger example_full 99"
  using delegation_contract_solvent [OF plain_chain_ok example_delegation_constructor example_full_ok example_full_def]
  by (simp add: plain_chain_def)

text \<open>C38. A delegator who has made twenty unbonding requests, all of them long completed perhaps, never gets the
  rest of the delegation back: whatever calls follow, the delegation keeps its amount and every
  further request reverts.\<close>

theorem delegation_stuck_after_twenty_requests:
  assumes "MAX_UNBONDING_QUEUE \<le> length (get_unbonding d s)" "di_active (get_delegation d s)"
    and "s' = fold (delegation_step X) ops s" "m_sender m = d" "0 < n"
  shows "get_delegation d s' = get_delegation d s \<and>
         BunkerDelegation_requestUndelegate X m n s' \<in> {Inl EnforcedPause, Inl (Err TooManyUnbondingRequests)}"
proof -
  have "stuck d (get_delegation d s) s'"
    using stuck_runs.run_inv [of d "get_delegation d s" s X ops] assms(1-3) by (simp add: stuck_def)
  then show ?thesis
    using assms(4,5) by (simp add: stuck_def BunkerDelegation_requestUndelegate_def dlg_whenNotPaused_def Let_def)
qed

theorem delegation_stuck_after_twenty_requests_witness:
  "di_amount (get_delegation 5 (fold (delegation_step (plain_chain 99)) [] example_full)) = 60 \<and>
   BunkerDelegation_requestUndelegate (plain_chain 99) \<lparr>m_sender = 5, m_time = 10 ^ 9\<rparr> 1 example_full
     \<in> {Inl EnforcedPause, Inl (Err TooManyUnbondingRequests)}"
  using delegation_stuck_after_twenty_requests [of 5 example_full example_full "plain_chain 99" "[]"
      "\<lparr>m_sender = 5, m_time = 10 ^ 9\<rparr>" 1]
  by (simp add: example_full_facts MAX_UNBONDING_QUEUE_def)

end
