(* ===== verification/Bunker_Reputation.thy ===== *)
theory Bunker_Reputation
  imports Evm_Base
begin

text \<open>
  The reputation contract (\<^verbatim>\<open>src/contracts/src/BunkerReputation.sol\<close>): reporters register providers and
  report job results, which move a score between 0 and 1000; scores decay weekly.  Signed 16-bit
  deltas are integers, checked by the caller's types; events are left out.
\<close>

datatype ReputationTier = Restricted | Probation | Standard | Trusted | Elite

record ReputationData =
  rd_score :: nat
  rd_jobsCompleted :: nat
  rd_jobsFailed :: nat
  rd_slashCount :: nat
  rd_lastUpdated :: nat
  rd_registeredAt :: nat

datatype reputation_revert =
    ProviderNotRegistered address | ProviderAlreadyRegistered address | ScoreOverflow
  | DeltaOutOfBounds int | PositiveDeltaRequired | NegativeDeltaRequired | ThresholdsNotAscending
  | ThresholdExceedsMax | FloorTooHigh | ScoreExceedsMax | InvalidDelta

record score_deltas =
  jobCompletedDelta :: int
  jobEarlyDelta :: int
  perfectUptimeDelta :: int
  jobTimeoutDelta :: int
  healthFailDelta :: int
  replicaMismatchDelta :: int
  slashEventDelta :: int
  securityViolationDelta :: int

record 'b BunkerReputation =
  br_minScoreForJobs :: nat
  br_decayRate :: nat
  br_decayFloor :: nat
  br_maxCustomDelta :: int
  br_minCustomDelta :: int
  br_tierElite :: nat
  br_tierTrusted :: nat
  br_tierStandard :: nat
  br_tierProbation :: nat
  br_reputations :: "(address, ReputationData) gomap"
  br_deltas :: score_deltas
  br_base :: 'b

type_synonym 'b reputation_call = "'b BunkerReputation \<Rightarrow> (reputation_revert, 'b BunkerReputation) result"

definition REPORTER_ROLE :: string where "REPORTER_ROLE = ''REPORTER_ROLE''"
definition MAX_SCORE :: nat where "MAX_SCORE = 1000"
definition INITIAL_SCORE :: nat where "INITIAL_SCORE = 500"
definition WEEK :: nat where "WEEK = 7 * 24 * 3600"

definition BunkerReputation_constructor :: "'b \<Rightarrow> 'b BunkerReputation" where
  "BunkerReputation_constructor base =
     \<lparr> br_minScoreForJobs = 250, br_decayRate = 1, br_decayFloor = 100, br_maxCustomDelta = 200,
       br_minCustomDelta = -200, br_tierElite = 900, br_tierTrusted = 750, br_tierStandard = 500,
       br_tierProbation = 250, br_reputations = fmempty,
       br_deltas = \<lparr> jobCompletedDelta = 5, jobEarlyDelta = 10, perfectUptimeDelta = 20, jobTimeoutDelta = -10,
                     healthFailDelta = -25, replicaMismatchDelta = -50, slashEventDelta = -100,
                     securityViolationDelta = -200 \<rparr>,
       br_base = base \<rparr>"

definition get_rep :: "address \<Rightarrow> 'b BunkerReputation \<Rightarrow> ReputationData" where
  "get_rep p s = map_get \<lparr> rd_score = 0, rd_jobsCompleted = 0, rd_jobsFailed = 0, rd_slashCount = 0,
                           rd_lastUpdated = 0, rd_registeredAt = 0 \<rparr> (br_reputations s) p"

definition put_rep :: "address \<Rightarrow> ReputationData \<Rightarrow> 'b BunkerReputation \<Rightarrow> 'b BunkerReputation" where
  "put_rep p r s = s\<lparr>br_reputations := fmupd p r (br_reputations s)\<rparr>"

definition onlyReporter :: "('b, 't) chain \<Rightarrow> msg \<Rightarrow> 'b reputation_call \<Rightarrow> 'b reputation_call" where
  "onlyReporter X m f s =
     (if x_hasRole X (br_base s) REPORTER_ROLE (m_sender m) then f s else Inl Unauthorized)"

definition rep_onlyOwner :: "('b, 't) chain \<Rightarrow> msg \<Rightarrow> 'b reputation_call \<Rightarrow> 'b reputation_call" where
  "rep_onlyOwner X m f s = (if m_sender m = x_owner X (br_base s) then f s else Inl Unauthorized)"

subsection \<open>Scores\<close>

definition ensureRegistered :: "address \<Rightarrow> 'b BunkerReputation \<Rightarrow> (reputation_revert, unit) result" where
  "ensureRegistered p s = require (rd_registeredAt (get_rep p s) \<noteq> 0) (Err (ProviderNotRegistered p))"

definition applyDelta :: "nat \<Rightarrow> int \<Rightarrow> nat" where
  "applyDelta currentScore delta =
     (let newScore = int currentScore + delta in
      if newScore < 0 then 0
      else if newScore > int MAX_SCORE then u_cast 32 MAX_SCORE
      else u_cast 32 (nat newScore))"

definition getDecayedScore :: "msg \<Rightarrow> address \<Rightarrow> 'b BunkerReputation \<Rightarrow> (reputation_revert, nat) result" where
  "getDecayedScore m p s =
     (let rep = get_rep p s in
      if rd_registeredAt rep = 0 then Inr 0
      else if rd_score rep \<le> u_cast 32 (br_decayFloor s) then Inr (rd_score rep)
      else
        rbind (u_sub (m_time m) (rd_lastUpdated rep)) (\<lambda>elapsed.
        let weeksPassed = elapsed div WEEK in
        if weeksPassed = 0 then Inr (rd_score rep)
        else
          rbind (u_mul 256 weeksPassed (br_decayRate s)) (\<lambda>decayAmount.
          rbind (u_add 256 (br_decayFloor s) decayAmount) (\<lambda>bound.
          if rd_score rep \<le> bound then Inr (u_cast 32 (br_decayFloor s))
          else rbind (u_sub (rd_score rep) decayAmount) (\<lambda>d. Inr (u_cast 32 d))))))"

definition applyDecayInternal :: "msg \<Rightarrow> address \<Rightarrow> 'b reputation_call" where
  "applyDecayInternal m p s =
     (let rep = get_rep p s in
      rbind (u_sub (m_time m) (rd_lastUpdated rep)) (\<lambda>elapsed.
      let weeksPassed = elapsed div WEEK in
      if weeksPassed = 0 then Inr s
      else
        rbind (u_mul 256 weeksPassed WEEK) (\<lambda>span.
        rbind (u_add 256 (rd_lastUpdated rep) span) (\<lambda>updated.
        let rep = rep\<lparr>rd_lastUpdated := u_cast 48 updated\<rparr> in
        if rd_score rep \<le> u_cast 32 (br_decayFloor s) then Inr (put_rep p rep s)
        else
          rbind (u_mul 256 weeksPassed (br_decayRate s)) (\<lambda>decay.
          rbind (u_sub (rd_score rep) decay) (\<lambda>d.
          Inr (put_rep p (rep\<lparr>rd_score := u_cast 32 (if d < br_decayFloor s then br_decayFloor s else d)\<rparr>) s)))))))"

definition scoreTier :: "nat \<Rightarrow> 'b BunkerReputation \<Rightarrow> ReputationTier" where
  "scoreTier score s =
     (if score \<ge> br_tierElite s then Elite
      else if score \<ge> br_tierTrusted s then Trusted
      else if score \<ge> br_tierStandard s then Standard
      else if score \<ge> br_tierProbation s then Probation
      else Restricted)"

subsection \<open>Reports\<close>

definition BunkerReputation_registerProvider :: "('b, 't) chain \<Rightarrow> msg \<Rightarrow> address \<Rightarrow> 'b reputation_call" where
  "BunkerReputation_registerProvider X m p = onlyReporter X m (\<lambda>s.
     if rd_registeredAt (get_rep p s) \<noteq> 0 then Inl (Err (ProviderAlreadyRegistered p))
     else Inr (put_rep p \<lparr> rd_score = u_cast 32 INITIAL_SCORE, rd_jobsCompleted = 0, rd_jobsFailed = 0,
                           rd_slashCount = 0, rd_lastUpdated = u_cast 48 (m_time m),
                           rd_registeredAt = u_cast 48 (m_time m) \<rparr> s))"

text \<open>The last assignments of every report: new score and time stamp.\<close>

definition scored :: "msg \<Rightarrow> int \<Rightarrow> ReputationData \<Rightarrow> ReputationData" where
  "scored m delta rep =
     rep\<lparr>rd_score := applyDelta (rd_score rep) delta, rd_lastUpdated := u_cast 48 (m_time m)\<rparr>"

definition BunkerReputation_recordJobCompleted :: "('b, 't) chain \<Rightarrow> msg \<Rightarrow> address \<Rightarrow> 'b reputation_call" where
  "BunkerReputation_recordJobCompleted X m p = onlyReporter X m (\<lambda>s.
     rbind (ensureRegistered p s) (\<lambda>_.
     rbind (applyDecayInternal m p s) (\<lambda>s.
     rbind (u_add 32 (rd_jobsCompleted (get_rep p s)) 1) (\<lambda>n.
     Inr (put_rep p (scored m (jobCompletedDelta (br_deltas s)) ((get_rep p s)\<lparr>rd_jobsCompleted := n\<rparr>)) s)))))"

definition BunkerReputation_recordJobFailed :: "('b, 't) chain \<Rightarrow> msg \<Rightarrow> address \<Rightarrow> 'b reputation_call" where
  "BunkerReputation_recordJobFailed X m p = onlyReporter X m (\<lambda>s.
     rbind (ensureRegistered p s) (\<lambda>_.
     rbind (applyDecayInternal m p s) (\<lambda>s.
     rbind (u_add 32 (rd_jobsFailed (get_rep p s)) 1) (\<lambda>n.
     Inr (put_rep p (scored m (jobTimeoutDelta (br_deltas s)) ((get_rep p s)\<lparr>rd_jobsFailed := n\<rparr>)) s)))))"

definition BunkerReputation_recordSlashEvent :: "('b, 't) chain \<Rightarrow> msg \<Rightarrow> address \<Rightarrow> 'b reputation_call" where
  "BunkerReputation_recordSlashEvent X m p = onlyReporter X m (\<lambda>s.
     rbind (ensureRegistered p s) (\<lambda>_.
     rbind (applyDecayInternal m p s) (\<lambda>s.
     rbind (u_add 32 (rd_slashCount (get_rep p s)) 1) (\<lambda>n.
     Inr (put_rep p (scored m (slashEventDelta (br_deltas s)) ((get_rep p s)\<lparr>rd_slashCount := n\<rparr>)) s)))))"

definition BunkerReputation_recordEvent :: "('b, 't) chain \<Rightarrow> msg \<Rightarrow> address \<Rightarrow> int \<Rightarrow> 'b reputation_call" where
  "BunkerReputation_recordEvent X m p delta = onlyReporter X m (\<lambda>s.
     if delta > br_maxCustomDelta s \<or> delta < br_minCustomDelta s then Inl (Err (DeltaOutOfBounds delta))
     else
       rbind (ensureRegistered p s) (\<lambda>_.
       rbind (applyDecayInternal m p s) (\<lambda>s.
       Inr (put_rep p (scored m delta (get_rep p s)) s))))"

definition BunkerReputation_applyDecay :: "msg \<Rightarrow> address \<Rightarrow> 'b reputation_call" where
  "BunkerReputation_applyDecay m p s = rbind (ensureRegistered p s) (\<lambda>_. applyDecayInternal m p s)"

subsection \<open>Views\<close>

definition BunkerReputation_getScore :: "msg \<Rightarrow> address \<Rightarrow> 'b BunkerReputation \<Rightarrow> (reputation_revert, nat) result" where
  "BunkerReputation_getScore m p s = rbind (ensureRegistered p s) (\<lambda>_. getDecayedScore m p s)"

definition BunkerReputation_getTier ::
    "msg \<Rightarrow> address \<Rightarrow> 'b BunkerReputation \<Rightarrow> (reputation_revert, ReputationTier) result" where
  "BunkerReputation_getTier m p s =
     rbind (ensureRegistered p s) (\<lambda>_. rbind (getDecayedScore m p s) (\<lambda>score. Inr (scoreTier score s)))"

definition BunkerReputation_isEligibleForJobs ::
    "msg \<Rightarrow> address \<Rightarrow> 'b BunkerReputation \<Rightarrow> (reputation_revert, bool) result" where
  "BunkerReputation_isEligibleForJobs m p s =
     (if rd_registeredAt (get_rep p s) = 0 then Inr False
      else rbind (getDecayedScore m p s) (\<lambda>score. Inr (score \<ge> u_cast 32 (br_minScoreForJobs s))))"

subsection \<open>Administration\<close>

definition BunkerReputation_setDeltaParameters :: "('b, 't) chain \<Rightarrow> msg \<Rightarrow> score_deltas \<Rightarrow> 'b reputation_call" where
  "BunkerReputation_setDeltaParameters X m d = rep_onlyOwner X m (\<lambda>s.
     if jobCompletedDelta d < 0 \<or> jobEarlyDelta d < 0 \<or> perfectUptimeDelta d < 0
       then Inl (Err PositiveDeltaRequired)
     else if jobTimeoutDelta d > 0 \<or> healthFailDelta d > 0 \<or> replicaMismatchDelta d > 0 \<or>
             slashEventDelta d > 0 \<or> securityViolationDelta d > 0
       then Inl (Err NegativeDeltaRequired)
     else Inr (s\<lparr>br_deltas := d\<rparr>))"

definition BunkerReputation_setTierThresholds ::
    "('b, 't) chain \<Rightarrow> msg \<Rightarrow> nat \<Rightarrow> nat \<Rightarrow> nat \<Rightarrow> nat \<Rightarrow> 'b reputation_call" where
  "BunkerReputation_setTierThresholds X m probation standard trusted elite = rep_onlyOwner X m (\<lambda>s.
     if probation \<ge> standard \<or> standard \<ge> trusted \<or> trusted \<ge> elite then Inl (Err ThresholdsNotAscending)
     else if elite > MAX_SCORE then Inl (Err ThresholdExceedsMax)
     else Inr (s\<lparr>br_tierElite := elite, br_tierTrusted := trusted, br_tierStandard := standard,
                 br_tierProbation := probation\<rparr>))"

definition BunkerReputation_setDecayParams :: "('b, 't) chain \<Rightarrow> msg \<Rightarrow> nat \<Rightarrow> nat \<Rightarrow> 'b reputation_call" where
  "BunkerReputation_setDecayParams X m rate flr = rep_onlyOwner X m (\<lambda>s.
     if flr > MAX_SCORE div 2 then Inl (Err FloorTooHigh)
     else Inr (s\<lparr>br_decayRate := rate, br_decayFloor := flr\<rparr>))"

definition BunkerReputation_setMinScoreForJobs :: "('b, 't) chain \<Rightarrow> msg \<Rightarrow> nat \<Rightarrow> 'b reputation_call" where
  "BunkerReputation_setMinScoreForJobs X m minScore = rep_onlyOwner X m (\<lambda>s.
     if minScore > MAX_SCORE then Inl (Err ScoreExceedsMax)
     else Inr (s\<lparr>br_minScoreForJobs := minScore\<rparr>))"

definition BunkerReputation_setMaxCustomDelta :: "('b, 't) chain \<Rightarrow> msg \<Rightarrow> int \<Rightarrow> 'b reputation_call" where
  "BunkerReputation_setMaxCustomDelta X m maxDelta = rep_onlyOwner X m (\<lambda>s.
     if maxDelta \<le> 0 \<or> maxDelta > int MAX_SCORE div 2 then Inl (Err InvalidDelta)
     else Inr (s\<lparr>br_maxCustomDelta := maxDelta, br_minCustomDelta := - maxDelta\<rparr>))"

subsection \<open>The contract as a machine\<close>

datatype 'b reputation_op =
    RepRegister address | RepCompleted address | RepFailed address | RepSlash address | RepEvent address int
  | RepDecay address | RepSetDeltas score_deltas | RepSetTiers nat nat nat nat | RepSetDecay nat nat
  | RepSetMin nat | RepSetMaxDelta int | RepEnvBase 'b

fun reputation_call :: "('b, 't) chain \<Rightarrow> msg \<Rightarrow> 'b reputation_op \<Rightarrow> 'b reputation_call" where
  "reputation_call X m (RepRegister p) s = BunkerReputation_registerProvider X m p s"
| "reputation_call X m (RepCompleted p) s = BunkerReputation_recordJobCompleted X m p s"
| "reputation_call X m (RepFailed p) s = BunkerReputation_recordJobFailed X m p s"
| "reputation_call X m (RepSlash p) s = BunkerReputation_recordSlashEvent X m p s"
| "reputation_call X m (RepEvent p d) s = BunkerReputation_recordEvent X m p d s"
| "reputation_call X m (RepDecay p) s = BunkerReputation_applyDecay m p s"
| "reputation_call X m (RepSetDeltas d) s = BunkerReputation_setDeltaParameters X m d s"
| "reputation_call X m (RepSetTiers a b c d) s = BunkerReputation_setTierThresholds X m a b c d s"
| "reputation_call X m (RepSetDecay r f) s = BunkerReputation_setDecayParams X m r f s"
| "reputation_call X m (RepSetMin n) s = BunkerReputation_setMinScoreForJobs X m n s"
| "reputation_call X m (RepSetMaxDelta d) s = BunkerReputation_setMaxCustomDelta X m d s"
| "reputation_call X m (RepEnvBase b) s = Inr (s\<lparr>br_base := b\<rparr>)"

definition reputation_step :: "('b, 't) chain \<Rightarrow> msg \<times> 'b reputation_op \<Rightarrow> 'b BunkerReputation \<Rightarrow> 'b BunkerReputation" where
  "reputation_step X mop s = commit s (reputation_call X (fst mop) (snd mop) s)"

subsection \<open>Types and ranges of the storage\<close>

definition rep_typed :: "ReputationData \<Rightarrow> bool" where
  "rep_typed r \<longleftrightarrow> rd_score r \<le> MAX_SCORE \<and> rd_jobsCompleted r < 2 ^ 32 \<and> rd_jobsFailed r < 2 ^ 32 \<and>
     rd_slashCount r < 2 ^ 32 \<and> rd_lastUpdated r < 2 ^ 48 \<and> rd_registeredAt r < 2 ^ 48"

definition reputation_typed :: "'b BunkerReputation \<Rightarrow> bool" where
  "reputation_typed s \<longleftrightarrow> br_decayFloor s \<le> 500 \<and> br_minScoreForJobs s \<le> MAX_SCORE \<and>
     br_tierProbation s < br_tierStandard s \<and> br_tierStandard s < br_tierTrusted s \<and>
     br_tierTrusted s < br_tierElite s \<and> br_tierElite s \<le> MAX_SCORE \<and>
     br_minCustomDelta s = - br_maxCustomDelta s \<and> (\<forall>p. rep_typed (get_rep p s))"

lemma get_rep_put [simp]: "get_rep p (put_rep p' r s) = (if p = p' then r else get_rep p s)"
  by (simp add: get_rep_def put_rep_def)

lemma put_rep_simps [simp]:
  "br_decayFloor (put_rep p r s) = br_decayFloor s" "br_minScoreForJobs (put_rep p r s) = br_minScoreForJobs s"
  "br_tierProbation (put_rep p r s) = br_tierProbation s" "br_tierStandard (put_rep p r s) = br_tierStandard s"
  "br_tierTrusted (put_rep p r s) = br_tierTrusted s" "br_tierElite (put_rep p r s) = br_tierElite s"
  "br_maxCustomDelta (put_rep p r s) = br_maxCustomDelta s" "br_minCustomDelta (put_rep p r s) = br_minCustomDelta s"
  by (simp_all add: put_rep_def)

lemma reputation_typed_put: "reputation_typed s \<Longrightarrow> rep_typed r \<Longrightarrow> reputation_typed (put_rep p r s)"
  by (simp add: reputation_typed_def)

lemma reputation_typed_get: "reputation_typed s \<Longrightarrow> rep_typed (get_rep p s)"
  by (simp add: reputation_typed_def)

lemma applyDelta_le: "applyDelta n d \<le> MAX_SCORE"
  by (auto simp: applyDelta_def Let_def MAX_SCORE_def u_cast_def intro: le_trans [OF mod_less_eq_dividend])

lemma typed_scored: "rep_typed r \<Longrightarrow> rep_typed (scored m d r)"
  using u_cast_less [of 48 "m_time m"] by (simp add: rep_typed_def scored_def applyDelta_le)

lemma decay_result:
  assumes "applyDecayInternal m p s = Inr s'"
  obtains "s' = s"
  | n where "s' = put_rep p ((get_rep p s)\<lparr>rd_lastUpdated := u_cast 48 n\<rparr>) s"
  | n d where "d \<le> rd_score (get_rep p s)" "s' = put_rep p ((get_rep p s)\<lparr>rd_lastUpdated := u_cast 48 n,
      rd_score := u_cast 32 (if d < br_decayFloor s then br_decayFloor s else d)\<rparr>) s"
proof -
  let ?w = "(m_time m - rd_lastUpdated (get_rep p s)) div WEEK"
  let ?n = "rd_lastUpdated (get_rep p s) + ?w * WEEK" and ?d = "rd_score (get_rep p s) - ?w * br_decayRate s"
  consider "?w = 0" | "?w \<noteq> 0" "rd_score (get_rep p s) \<le> u_cast 32 (br_decayFloor s)"
    | "?w \<noteq> 0" "\<not> rd_score (get_rep p s) \<le> u_cast 32 (br_decayFloor s)" by blast
  then show thesis
  proof cases
    case 1
    then have "s' = s" using assms by (auto simp: applyDecayInternal_def Let_def rbind_Inr_iff u_Inr_iff)
    then show thesis by (rule that(1))
  next
    case 2
    then show thesis using assms that(2) [of ?n]
      by (simp add: applyDecayInternal_def Let_def rbind_Inr_iff u_Inr_iff)
  next
    case 3
    then show thesis using assms that(3) [of ?d ?n]
      by (simp add: applyDecayInternal_def Let_def rbind_Inr_iff u_Inr_iff)
  qed
qed

lemma typed_decay:
  assumes "reputation_typed s" "applyDecayInternal m p s = Inr s'"
  shows "reputation_typed s'"
proof -
  have t: "rep_typed (get_rep p s)" "br_decayFloor s \<le> 500" using assms(1) by (simp_all add: reputation_typed_def)
  have time: "rep_typed ((get_rep p s)\<lparr>rd_lastUpdated := u_cast 48 n\<rparr>)" for n
    using t(1) u_cast_less [of 48 n] by (simp add: rep_typed_def)
  have score: "rep_typed ((get_rep p s)\<lparr>rd_lastUpdated := u_cast 48 n, rd_score := u_cast 32 (if d < br_decayFloor s then br_decayFloor s else d)\<rparr>)"
    if "d \<le> rd_score (get_rep p s)" for n d
    using t time [of n] that u_cast_le [of 32 "if d < br_decayFloor s then br_decayFloor s else d"]
    by (auto simp: rep_typed_def MAX_SCORE_def split: if_splits)
  from assms(2) show ?thesis
    by (rule decay_result) (use assms(1) time score reputation_typed_put [OF assms(1)] in auto)
qed

lemma typed_reports:
  assumes "reputation_typed s"
  shows "BunkerReputation_registerProvider X m p s = Inr s' \<Longrightarrow> reputation_typed s'"
    and "BunkerReputation_recordJobCompleted X m p s = Inr s' \<Longrightarrow> reputation_typed s'"
    and "BunkerReputation_recordJobFailed X m p s = Inr s' \<Longrightarrow> reputation_typed s'"
    and "BunkerReputation_recordSlashEvent X m p s = Inr s' \<Longrightarrow> reputation_typed s'"
    and "BunkerReputation_recordEvent X m p d s = Inr s' \<Longrightarrow> reputation_typed s'"
proof -
  have new: "rep_typed \<lparr> rd_score = u_cast 32 INITIAL_SCORE, rd_jobsCompleted = 0, rd_jobsFailed = 0, rd_slashCount = 0,
      rd_lastUpdated = u_cast 48 (m_time m), rd_registeredAt = u_cast 48 (m_time m) \<rparr>"
    using u_cast_less [of 48 "m_time m"] by (simp add: rep_typed_def INITIAL_SCORE_def MAX_SCORE_def u_cast_def)
  show "reputation_typed s'" if "BunkerReputation_registerProvider X m p s = Inr s'"
    using that reputation_typed_put [OF assms new]
    by (auto simp: BunkerReputation_registerProvider_def onlyReporter_def split: if_splits)
  have counted: "reputation_typed (put_rep p (scored m k r) s1)"
    if "applyDecayInternal m p s = Inr s1" "rep_typed (get_rep p s1) \<Longrightarrow> rep_typed r" for s1 r k
    using reputation_typed_put [OF typed_decay [OF assms that(1)]] typed_scored that(2)
      reputation_typed_get [OF typed_decay [OF assms that(1)]] by blast
  show "reputation_typed s'" if "BunkerReputation_recordJobCompleted X m p s = Inr s'"
    using that by (auto simp: BunkerReputation_recordJobCompleted_def onlyReporter_def rbind_Inr_iff u_Inr_iff
        split: if_splits intro!: counted) (simp add: rep_typed_def)
  show "reputation_typed s'" if "BunkerReputation_recordJobFailed X m p s = Inr s'"
    using that by (auto simp: BunkerReputation_recordJobFailed_def onlyReporter_def rbind_Inr_iff u_Inr_iff
        split: if_splits intro!: counted) (simp add: rep_typed_def)
  show "reputation_typed s'" if "BunkerReputation_recordSlashEvent X m p s = Inr s'"
    using that by (auto simp: BunkerReputation_recordSlashEvent_def onlyReporter_def rbind_Inr_iff u_Inr_iff
        split: if_splits intro!: counted) (simp add: rep_typed_def)
  show "reputation_typed s'" if "BunkerReputation_recordEvent X m p d s = Inr s'"
    using that by (auto simp: BunkerReputation_recordEvent_def onlyReporter_def rbind_Inr_iff split: if_splits intro!: counted)
qed

lemma typed_admin:
  assumes "reputation_typed s"
  shows "BunkerReputation_setDeltaParameters X m d s = Inr s' \<Longrightarrow> reputation_typed s'"
    and "BunkerReputation_setTierThresholds X m a b c e s = Inr s' \<Longrightarrow> reputation_typed s'"
    and "BunkerReputation_setDecayParams X m r f s = Inr s' \<Longrightarrow> reputation_typed s'"
    and "BunkerReputation_setMinScoreForJobs X m n s = Inr s' \<Longrightarrow> reputation_typed s'"
    and "BunkerReputation_setMaxCustomDelta X m k s = Inr s' \<Longrightarrow> reputation_typed s'"
  using assms
  by (auto simp: BunkerReputation_setDeltaParameters_def BunkerReputation_setTierThresholds_def
      BunkerReputation_setDecayParams_def BunkerReputation_setMinScoreForJobs_def
      BunkerReputation_setMaxCustomDelta_def rep_onlyOwner_def reputation_typed_def get_rep_def MAX_SCORE_def
      split: if_splits)

lemma reputation_call_typed:
  assumes "reputation_typed s" "reputation_call X m op s = Inr s'"
  shows "reputation_typed s'"
proof (cases op)
  case (RepDecay p)
  then show ?thesis using assms typed_decay
    by (auto simp: BunkerReputation_applyDecay_def rbind_Inr_iff)
next
  case (RepEnvBase b)
  then show ?thesis using assms by (auto simp: reputation_typed_def get_rep_def)
qed (use assms in \<open>auto dest: typed_reports [OF assms(1)] typed_admin [OF assms(1)]\<close>)

interpretation reputation_runs: guarded_machine "reputation_step X" "\<lambda>_ _. True" reputation_typed for X
proof
  fix s :: "'a BunkerReputation" and mop
  assume "reputation_typed s"
  then show "reputation_typed (reputation_step X mop s)"
    unfolding reputation_step_def
    by (rule commit_inv [where P = reputation_typed]) (use \<open>reputation_typed s\<close> reputation_call_typed in blast)
qed

lemma constructor_typed: "reputation_typed (BunkerReputation_constructor b)"
  by (simp add: BunkerReputation_constructor_def reputation_typed_def rep_typed_def get_rep_def MAX_SCORE_def)

subsection \<open>Decay\<close>

text \<open>Where the decay does more than advance the clock, it subtracts in checked arithmetic.\<close>

lemma decay_panics:
  assumes "u_cast 32 (br_decayFloor s) < rd_score (get_rep p s)"
    and "rd_score (get_rep p s) < (m_time m - rd_lastUpdated (get_rep p s)) div WEEK * br_decayRate s"
  shows "applyDecayInternal m p s = Inl Panic"
  using assms by (auto simp: applyDecayInternal_def Let_def u_sub_def u_mul_def u_add_def)

lemma decayed_score:
  assumes typed: "reputation_typed s" and reg: "rd_registeredAt (get_rep p s) \<noteq> 0"
    and call: "applyDecayInternal m p s = Inr s'" and view: "getDecayedScore m p s = Inr v"
  shows "rd_score (get_rep p s') = v"
proof -
  let ?w = "(m_time m - rd_lastUpdated (get_rep p s)) div WEEK" and ?sc = "rd_score (get_rep p s)"
  have fl: "u_cast 32 (br_decayFloor s) = br_decayFloor s" "br_decayFloor s \<le> 500"
    using typed by (auto simp: reputation_typed_def u_cast_def)
  consider "?w = 0" | "?w \<noteq> 0" "?sc \<le> br_decayFloor s" | "?w \<noteq> 0" "\<not> ?sc \<le> br_decayFloor s" by blast
  then show ?thesis
  proof cases
    case 1
    then show ?thesis using call view reg fl
      by (auto simp: applyDecayInternal_def getDecayedScore_def Let_def rbind_Inr_iff u_Inr_iff split: if_splits)
  next
    case 2
    then show ?thesis using call view reg fl
      by (auto simp: applyDecayInternal_def getDecayedScore_def Let_def rbind_Inr_iff u_Inr_iff)
  next
    case 3
    let ?x = "?w * br_decayRate s"
    have new: "rd_score (get_rep p s') = u_cast 32 (if ?sc - ?x < br_decayFloor s then br_decayFloor s else ?sc - ?x)"
      and le: "?x \<le> ?sc"
      using call fl 3 by (auto simp: applyDecayInternal_def Let_def rbind_Inr_iff u_Inr_iff)
    have v: "v = u_cast 32 (if ?sc \<le> br_decayFloor s + ?x then br_decayFloor s else ?sc - ?x)"
      using view reg fl 3 by (auto simp: getDecayedScore_def Let_def rbind_Inr_iff u_Inr_iff split: if_splits)
    have "(if ?sc - ?x < br_decayFloor s then br_decayFloor s else ?sc - ?x) =
        (if ?sc \<le> br_decayFloor s + ?x then br_decayFloor s else ?sc - ?x)"
      using le by (cases "?sc - ?x < br_decayFloor s"; cases "?sc \<le> br_decayFloor s + ?x"; simp)
    then show ?thesis unfolding new v by (rule arg_cong)
  qed
qed

subsection \<open>Properties\<close>

definition example_reputation :: "unit BunkerReputation" where
  "example_reputation = fold (reputation_step (plain_chain 99))
     [(\<lparr>m_sender = 1, m_time = 1\<rparr>, RepSetDecay 10 100), (\<lparr>m_sender = 2, m_time = 1\<rparr>, RepRegister 5)]
     (BunkerReputation_constructor ())"

lemma example_reputation_facts:
  "get_rep 5 example_reputation = \<lparr> rd_score = 500, rd_jobsCompleted = 0, rd_jobsFailed = 0, rd_slashCount = 0,
     rd_lastUpdated = 1, rd_registeredAt = 1 \<rparr>"
  "br_decayFloor example_reputation = 100" "br_decayRate example_reputation = 10"
  by (simp_all add: example_reputation_def reputation_step_def BunkerReputation_setDecayParams_def
      BunkerReputation_registerProvider_def rep_onlyOwner_def onlyReporter_def BunkerReputation_constructor_def
      plain_chain_def get_rep_def put_rep_def u_cast_def INITIAL_SCORE_def MAX_SCORE_def)

text \<open>C30. The storage of the reputation contract is well-typed after every history of calls by anybody: scores
  stay between 0 and 1000, counters and time stamps fit into their 32 and 48 bits, the tier
  thresholds ascend strictly up to at most 1000, and the range of custom deltas is symmetric.\<close>

theorem reputation_storage_typed:
  "reputation_typed (fold (reputation_step X) ops (BunkerReputation_constructor b))"
  by (rule reputation_runs.run_inv [OF constructor_typed]) simp

text \<open>C31. The two implementations of decay agree: where the decay of a registered provider is stored, the new
  score is the one that the view functions have reported just before.\<close>

theorem decay_matches_view:
  assumes "s = fold (reputation_step X) ops (BunkerReputation_constructor b)"
    and "BunkerReputation_applyDecay m p s = Inr s'" "BunkerReputation_getScore m p s = Inr v"
  shows "rd_score (get_rep p s') = v"
proof -
  have "reputation_typed s" unfolding assms(1) by (rule reputation_runs.run_inv [OF constructor_typed]) simp
  then show ?thesis
    using assms(2,3) decayed_score [of s p m s' v]
    by (auto simp: BunkerReputation_applyDecay_def BunkerReputation_getScore_def ensureRegistered_def call_simps)
qed

theorem decay_matches_view_witness:
  "\<exists>s'. BunkerReputation_applyDecay \<lparr>m_sender = 3, m_time = 604801\<rparr> 5 example_reputation = Inr s' \<and>
     rd_score (get_rep 5 s') = 490"
proof -
  let ?m = "\<lparr>m_sender = 3, m_time = 604801\<rparr>"
  obtain s' where s': "BunkerReputation_applyDecay ?m 5 example_reputation = Inr s'"
    by (simp add: BunkerReputation_applyDecay_def applyDecayInternal_def ensureRegistered_def example_reputation_facts
        Let_def u_sub_def u_mul_def u_add_def u_cast_def WEEK_def)
  have v: "BunkerReputation_getScore ?m 5 example_reputation = Inr 490"
    by (simp add: BunkerReputation_getScore_def getDecayedScore_def ensureRegistered_def example_reputation_facts
        Let_def u_sub_def u_mul_def u_add_def u_cast_def WEEK_def)
  from decay_matches_view [OF example_reputation_def s' v] s' show ?thesis by blast
qed

text \<open>A provider whose decay since the last update exceeds its score can no longer be reported at all: every
  report, a slash included, and the decay itself revert on the underflow of the subtraction, while
  the view functions still answer.\<close>

theorem decay_underflow_blocks_reports:
  assumes "rd_registeredAt (get_rep p s) \<noteq> 0" "u_cast 32 (br_decayFloor s) < rd_score (get_rep p s)"
    and "rd_score (get_rep p s) < (m_time m - rd_lastUpdated (get_rep p s)) div WEEK * br_decayRate s"
    and "x_hasRole X (br_base s) REPORTER_ROLE (m_sender m)"
  shows "BunkerReputation_recordJobCompleted X m p s = Inl Panic \<and>
         BunkerReputation_recordJobFailed X m p s = Inl Panic \<and>
         BunkerReputation_recordSlashEvent X m p s = Inl Panic \<and>
         BunkerReputation_applyDecay m p s = Inl Panic"
  using decay_panics [OF assms(2,3)] assms(1,4)
  by (simp add: BunkerReputation_recordJobCompleted_def BunkerReputation_recordJobFailed_def
      BunkerReputation_recordSlashEvent_def BunkerReputation_applyDecay_def onlyReporter_def ensureRegistered_def)

theorem decay_underflow_blocks_reports_witness:
  "BunkerReputation_recordSlashEvent (plain_chain 99) \<lparr>m_sender = 2, m_time = 31449601\<rparr> 5 example_reputation = Inl Panic"
  using decay_underflow_blocks_reports [of 5 example_reputation "\<lparr>m_sender = 2, m_time = 31449601\<rparr>" "plain_chain 99"]
  by (simp add: example_reputation_facts u_cast_def WEEK_def) (simp add: plain_chain_def)

end
