(* ===== verification/Bunker_Verification.thy ===== *)
theory Bunker_Verification
  imports Evm_Base
begin

text \<open>
  The attestation contract (\<^verbatim>\<open>src/contracts/src/BunkerVerification.sol\<close>): providers attest their capacity
  once per interval, verifiers count missed intervals and suspend, the owner reinstates after a
  cool-down.  Events are left out.
\<close>

record AttestationRecord =
  ar_lastAttestationHash :: node_id
  ar_lastAttestationTime :: nat
  ar_totalAttestations :: nat
  ar_missedAttestations :: nat
  ar_consecutiveMissed :: nat
  ar_suspended :: bool

datatype verification_revert =
    AttestationTooEarly nat nat | ProviderSuspendedError address | InvalidAttestation
  | ProviderNotAttesting address | InvalidInterval nat | InvalidMaxMissed nat
  | ReinstatementCooldownActive | InvalidCooldown

record 'b BunkerVerification =
  bv_attestationInterval :: nat
  bv_maxMissedAttestations :: nat
  bv_reinstatementCooldown :: nat
  bv_attestations :: "(address, AttestationRecord) gomap"
  bv_suspendedAt :: "(address, nat) gomap"
  bv_base :: 'b

type_synonym 'b verification_call = "'b BunkerVerification \<Rightarrow> (verification_revert, 'b BunkerVerification) result"

definition VERIFIER_ROLE :: string where "VERIFIER_ROLE = ''VERIFIER_ROLE''"

definition BunkerVerification_constructor :: "'b \<Rightarrow> 'b BunkerVerification" where
  "BunkerVerification_constructor base =
     \<lparr> bv_attestationInterval = 24 * 3600, bv_maxMissedAttestations = 3, bv_reinstatementCooldown = 7 * 24 * 3600,
       bv_attestations = fmempty, bv_suspendedAt = fmempty, bv_base = base \<rparr>"

definition get_att :: "address \<Rightarrow> 'b BunkerVerification \<Rightarrow> AttestationRecord" where
  "get_att p s = map_get \<lparr> ar_lastAttestationHash = 0, ar_lastAttestationTime = 0, ar_totalAttestations = 0,
     ar_missedAttestations = 0, ar_consecutiveMissed = 0, ar_suspended = False \<rparr> (bv_attestations s) p"

definition put_att :: "address \<Rightarrow> AttestationRecord \<Rightarrow> 'b BunkerVerification \<Rightarrow> 'b BunkerVerification" where
  "put_att p r s = s\<lparr>bv_attestations := fmupd p r (bv_attestations s)\<rparr>"

definition onlyVerifier :: "('b, 't) chain \<Rightarrow> msg \<Rightarrow> 'b verification_call \<Rightarrow> 'b verification_call" where
  "onlyVerifier X m f s =
     (if x_hasRole X (bv_base s) VERIFIER_ROLE (m_sender m) then f s else Inl Unauthorized)"

definition ver_onlyOwner :: "('b, 't) chain \<Rightarrow> msg \<Rightarrow> 'b verification_call \<Rightarrow> 'b verification_call" where
  "ver_onlyOwner X m f s = (if m_sender m = x_owner X (bv_base s) then f s else Inl Unauthorized)"

subsection \<open>Attesting\<close>

definition BunkerVerification_submitAttestation :: "msg \<Rightarrow> node_id \<Rightarrow> 'b verification_call" where
  "BunkerVerification_submitAttestation m attestationHash s =
     (let p = m_sender m; rec = get_att p s in
      if attestationHash = 0 then Inl (Err InvalidAttestation)
      else if ar_suspended rec then Inl (Err (ProviderSuspendedError p))
      else if ar_lastAttestationTime rec = 0 then
        Inr (put_att p \<lparr> ar_lastAttestationHash = attestationHash, ar_lastAttestationTime = u_cast 48 (m_time m),
               ar_totalAttestations = 1, ar_missedAttestations = 0, ar_consecutiveMissed = 0,
               ar_suspended = False \<rparr> s)
      else
        rbind (u_add 256 (ar_lastAttestationTime rec) (bv_attestationInterval s)) (\<lambda>nextAllowed.
        if m_time m < nextAllowed then Inl (Err (AttestationTooEarly nextAllowed (m_time m)))
        else
          rbind (u_add 32 (ar_totalAttestations rec) 1) (\<lambda>n.
          Inr (put_att p (rec\<lparr>ar_lastAttestationHash := attestationHash,
                 ar_lastAttestationTime := u_cast 48 (m_time m), ar_totalAttestations := n,
                 ar_consecutiveMissed := 0\<rparr>) s))))"

subsection \<open>Checking and challenging\<close>

definition suspend_provider :: "msg \<Rightarrow> address \<Rightarrow> 'b BunkerVerification \<Rightarrow> 'b BunkerVerification" where
  "suspend_provider m p s =
     (put_att p ((get_att p s)\<lparr>ar_suspended := True\<rparr>) s)\<lparr>bv_suspendedAt := fmupd p (m_time m) (bv_suspendedAt s)\<rparr>"

definition BunkerVerification_checkMissedAttestations ::
    "('b, 't) chain \<Rightarrow> msg \<Rightarrow> address \<Rightarrow> 'b verification_call" where
  "BunkerVerification_checkMissedAttestations X m p = onlyVerifier X m (\<lambda>s.
     let rec = get_att p s; interval = bv_attestationInterval s in
     if ar_lastAttestationTime rec = 0 then Inl (Err (ProviderNotAttesting p))
     else if ar_suspended rec then Inl (Err (ProviderSuspendedError p))
     else
       rbind (u_add 256 (ar_lastAttestationTime rec) interval) (\<lambda>deadline.
       if m_time m \<le> deadline then Inr s
       else
         rbind (u_sub (m_time m) (ar_lastAttestationTime rec)) (\<lambda>elapsed.
         rbind (u_div elapsed interval) (\<lambda>intervalsMissed.
         if intervalsMissed = 0 then Inr s
         else
           rbind (u_add 32 (ar_missedAttestations rec) (u_cast 32 intervalsMissed)) (\<lambda>missed.
           rbind (u_add 32 (ar_consecutiveMissed rec) (u_cast 32 intervalsMissed)) (\<lambda>consecutive.
           rbind (u_mul 256 intervalsMissed interval) (\<lambda>span.
           rbind (u_add 256 (ar_lastAttestationTime rec) span) (\<lambda>advanced.
           let s = put_att p (rec\<lparr>ar_missedAttestations := missed, ar_consecutiveMissed := consecutive,
                                  ar_lastAttestationTime := u_cast 48 advanced\<rparr>) s in
           Inr (if consecutive \<ge> u_cast 32 (bv_maxMissedAttestations s) then suspend_provider m p s else s)))))))))"

definition BunkerVerification_challengeAttestation ::
    "('b, 't) chain \<Rightarrow> msg \<Rightarrow> address \<Rightarrow> string \<Rightarrow> 'b verification_call" where
  "BunkerVerification_challengeAttestation X m p fraudProof = onlyVerifier X m (\<lambda>s.
     if ar_lastAttestationTime (get_att p s) = 0 then Inl (Err (ProviderNotAttesting p))
     else if fraudProof = [] then Inl (Err InvalidAttestation)
     else Inr (suspend_provider m p s))"

subsection \<open>Administration and views\<close>

definition BunkerVerification_reinstateProvider :: "('b, 't) chain \<Rightarrow> msg \<Rightarrow> address \<Rightarrow> 'b verification_call" where
  "BunkerVerification_reinstateProvider X m p = ver_onlyOwner X m (\<lambda>s.
     if ar_lastAttestationTime (get_att p s) = 0 then Inl (Err (ProviderNotAttesting p))
     else
       rbind (u_add 256 (map_get 0 (bv_suspendedAt s) p) (bv_reinstatementCooldown s)) (\<lambda>ready.
       if m_time m < ready then Inl (Err ReinstatementCooldownActive)
       else Inr (put_att p ((get_att p s)\<lparr>ar_suspended := False, ar_consecutiveMissed := 0,
                              ar_lastAttestationTime := u_cast 48 (m_time m)\<rparr>) s)))"

definition BunkerVerification_setAttestationInterval :: "('b, 't) chain \<Rightarrow> msg \<Rightarrow> nat \<Rightarrow> 'b verification_call" where
  "BunkerVerification_setAttestationInterval X m interval = ver_onlyOwner X m (\<lambda>s.
     if interval = 0 then Inl (Err (InvalidInterval interval)) else Inr (s\<lparr>bv_attestationInterval := interval\<rparr>))"

definition BunkerVerification_setMaxMissedAttestations :: "('b, 't) chain \<Rightarrow> msg \<Rightarrow> nat \<Rightarrow> 'b verification_call" where
  "BunkerVerification_setMaxMissedAttestations X m maxMissed = ver_onlyOwner X m (\<lambda>s.
     if maxMissed = 0 then Inl (Err (InvalidMaxMissed maxMissed)) else Inr (s\<lparr>bv_maxMissedAttestations := maxMissed\<rparr>))"

definition BunkerVerification_setReinstatementCooldown :: "('b, 't) chain \<Rightarrow> msg \<Rightarrow> nat \<Rightarrow> 'b verification_call" where
  "BunkerVerification_setReinstatementCooldown X m cooldown = ver_onlyOwner X m (\<lambda>s.
     if cooldown < 60 \<or> cooldown > 30 * 24 * 3600 then Inl (Err InvalidCooldown)
     else Inr (s\<lparr>bv_reinstatementCooldown := cooldown\<rparr>))"

definition BunkerVerification_isAttestationCurrent ::
    "msg \<Rightarrow> address \<Rightarrow> 'b BunkerVerification \<Rightarrow> (verification_revert, bool) result" where
  "BunkerVerification_isAttestationCurrent m p s =
     (let rec = get_att p s in
      if ar_lastAttestationTime rec = 0 then Inr False
      else if ar_suspended rec then Inr False
      else rbind (u_sub (m_time m) (ar_lastAttestationTime rec)) (\<lambda>age. Inr (age \<le> bv_attestationInterval s)))"

subsection \<open>The contract as a machine\<close>

datatype 'b verification_op =
    VerSubmit node_id | VerCheck address | VerChallenge address string | VerReinstate address
  | VerSetInterval nat | VerSetMaxMissed nat | VerSetCooldown nat | VerEnvBase 'b

fun verification_call :: "('b, 't) chain \<Rightarrow> msg \<Rightarrow> 'b verification_op \<Rightarrow> 'b verification_call" where
  "verification_call X m (VerSubmit h) s = BunkerVerification_submitAttestation m h s"
| "verification_call X m (VerCheck p) s = BunkerVerification_checkMissedAttestations X m p s"
| "verification_call X m (VerChallenge p f) s = BunkerVerification_challengeAttestation X m p f s"
| "verification_call X m (VerReinstate p) s = BunkerVerification_reinstateProvider X m p s"
| "verification_call X m (VerSetInterval n) s = BunkerVerification_setAttestationInterval X m n s"
| "verification_call X m (VerSetMaxMissed n) s = BunkerVerification_setMaxMissedAttestations X m n s"
| "verification_call X m (VerSetCooldown n) s = BunkerVerification_setReinstatementCooldown X m n s"
| "verification_call X m (VerEnvBase b) s = Inr (s\<lparr>bv_base := b\<rparr>)"

definition verification_step ::
    "('b, 't) chain \<Rightarrow> msg \<times> 'b verification_op \<Rightarrow> 'b BunkerVerification \<Rightarrow> 'b BunkerVerification" where
  "verification_step X mop s = commit s (verification_call X (fst mop) (snd mop) s)"

subsection \<open>Suspension\<close>

lemma get_att_put [simp]: "get_att p (put_att p' r s) = (if p = p' then r else get_att p s)"
  by (simp add: get_att_def put_att_def)

lemma get_att_other [simp]:
  "get_att p (s\<lparr>bv_attestationInterval := n\<rparr>) = get_att p s" "get_att p (s\<lparr>bv_maxMissedAttestations := n\<rparr>) = get_att p s"
  "get_att p (s\<lparr>bv_reinstatementCooldown := n\<rparr>) = get_att p s" "get_att p (s\<lparr>bv_base := b\<rparr>) = get_att p s"
  "get_att p (s\<lparr>bv_suspendedAt := sa\<rparr>) = get_att p s"
  by (simp_all add: get_att_def)

lemma put_att_keeps [simp]:
  "bv_maxMissedAttestations (put_att p r s) = bv_maxMissedAttestations s"
  "bv_attestationInterval (put_att p r s) = bv_attestationInterval s"
  by (simp_all add: put_att_def)

lemma get_att_suspend: "get_att p (suspend_provider m p' s) = (get_att p s)\<lparr>ar_suspended := ar_suspended (get_att p s) \<or> p = p'\<rparr>"
  by (simp add: suspend_provider_def)

lemma reinstate_result:
  assumes "BunkerVerification_reinstateProvider X m p s = Inr s'"
  shows "m_sender m = x_owner X (bv_base s)" "map_get 0 (bv_suspendedAt s) p + bv_reinstatementCooldown s \<le> m_time m"
    "s' = put_att p ((get_att p s)\<lparr>ar_suspended := False, ar_consecutiveMissed := 0,
            ar_lastAttestationTime := u_cast 48 (m_time m)\<rparr>) s"
  using assms
  by (auto simp: BunkerVerification_reinstateProvider_def ver_onlyOwner_def rbind_Inr_iff u_Inr_iff split: if_splits)

lemma check_result:
  assumes "BunkerVerification_checkMissedAttestations X m p s = Inr s'"
    and "ar_lastAttestationTime (get_att p s) + bv_attestationInterval s < m_time m"
    and "k = (m_time m - ar_lastAttestationTime (get_att p s)) div bv_attestationInterval s"
  obtains r where "k \<noteq> 0" "bv_attestationInterval s \<noteq> 0" "\<not> ar_suspended (get_att p s)" "ar_lastAttestationTime (get_att p s) \<noteq> 0"
    "r = (get_att p s)\<lparr>ar_missedAttestations := ar_missedAttestations (get_att p s) + u_cast 32 k,
            ar_consecutiveMissed := ar_consecutiveMissed (get_att p s) + u_cast 32 k,
            ar_lastAttestationTime := u_cast 48 (ar_lastAttestationTime (get_att p s) + k * bv_attestationInterval s)\<rparr>"
    "s' = (if ar_consecutiveMissed r \<ge> u_cast 32 (bv_maxMissedAttestations s)
           then suspend_provider m p (put_att p r s) else put_att p r s)"
proof -
  have I: "bv_attestationInterval s \<noteq> 0"
    using assms(1,2)
    by (auto simp: BunkerVerification_checkMissedAttestations_def onlyVerifier_def Let_def rbind_Inr_iff u_Inr_iff
        split: if_splits)
  have "bv_attestationInterval s \<le> m_time m - ar_lastAttestationTime (get_att p s)" using assms(2) by simp
  then have k: "k \<noteq> 0" using I assms(3) by (simp add: div_eq_0_iff)
  show thesis
    using assms k I
    by (intro that [OF k I _ _ refl])
       (simp_all add: BunkerVerification_checkMissedAttestations_def onlyVerifier_def Let_def rbind_Inr_iff u_Inr_iff
          split: if_splits)
qed

lemma check_early:
  assumes "BunkerVerification_checkMissedAttestations X m p s = Inr s'"
    and "m_time m \<le> ar_lastAttestationTime (get_att p s) + bv_attestationInterval s"
  shows "s' = s"
  using assms
  by (auto simp: BunkerVerification_checkMissedAttestations_def onlyVerifier_def Let_def rbind_Inr_iff u_Inr_iff
      split: if_splits)

text \<open>No call other than the reinstatement of a provider lifts its suspension.\<close>

lemma suspension_kept:
  assumes "verification_call X m op s = Inr s'" "ar_suspended (get_att p s)" "op \<noteq> VerReinstate p"
  shows "ar_suspended (get_att p s')"
proof (cases op)
  case (VerSubmit h)
  then show ?thesis using assms
    by (auto simp: BunkerVerification_submitAttestation_def Let_def rbind_Inr_iff split: if_splits)
next
  case (VerCheck p')
  then have c: "BunkerVerification_checkMissedAttestations X m p' s = Inr s'" using assms by simp
  show ?thesis
  proof (cases "ar_lastAttestationTime (get_att p' s) + bv_attestationInterval s < m_time m")
    case True
    then show ?thesis
      by (rule check_result [OF c _ refl]) (use assms(2) in \<open>auto simp: get_att_suspend split: if_splits\<close>)
  next
    case False
    then show ?thesis using check_early [OF c] assms(2) by simp
  qed
next
  case (VerReinstate p')
  then show ?thesis using assms reinstate_result(3) [of X m p' s s'] by auto
qed (use assms in \<open>auto simp: BunkerVerification_challengeAttestation_def BunkerVerification_setAttestationInterval_def
      BunkerVerification_setMaxMissedAttestations_def BunkerVerification_setReinstatementCooldown_def onlyVerifier_def
      ver_onlyOwner_def get_att_suspend split: if_splits\<close>)

subsection \<open>Properties\<close>

text \<open>A suspension ends in one way only: the owner reinstates the provider after the cool-down since the last
  suspension; and while it lasts the provider cannot attest and is not current.\<close>

theorem suspension_lifted_by_owner_only:
  assumes "verification_call X m op s = Inr s'" "ar_suspended (get_att p s)"
  shows "(\<not> ar_suspended (get_att p s') \<longrightarrow>
            op = VerReinstate p \<and> m_sender m = x_owner X (bv_base s) \<and>
            map_get 0 (bv_suspendedAt s) p + bv_reinstatementCooldown s \<le> m_time m) \<and>
         (\<forall>h. m_sender m = p \<and> h \<noteq> 0 \<longrightarrow>
            BunkerVerification_submitAttestation m h s = Inl (Err (ProviderSuspendedError p))) \<and>
         BunkerVerification_isAttestationCurrent m p s = Inr False"
  using suspension_kept [OF assms] reinstate_result(1,2) [of X m p s s'] assms
  by (cases "op = VerReinstate p")
     (auto simp: BunkerVerification_submitAttestation_def BunkerVerification_isAttestationCurrent_def Let_def)

definition example_suspended :: "unit BunkerVerification" where
  "example_suspended = fold (verification_step (plain_chain 99))
     [(\<lparr>m_sender = 5, m_time = 1\<rparr>, VerSubmit 7), (\<lparr>m_sender = 2, m_time = 2\<rparr>, VerChallenge 5 ''proof'')]
     (BunkerVerification_constructor ())"

lemma example_suspended_facts:
  "get_att 5 example_suspended = \<lparr> ar_lastAttestationHash = 7, ar_lastAttestationTime = 1, ar_totalAttestations = 1,
     ar_missedAttestations = 0, ar_consecutiveMissed = 0, ar_suspended = True \<rparr>"
  "bv_suspendedAt example_suspended = fmupd 5 2 fmempty" "bv_reinstatementCooldown example_suspended = 604800"
  by (simp_all add: example_suspended_def verification_step_def BunkerVerification_submitAttestation_def
      BunkerVerification_challengeAttestation_def suspend_provider_def onlyVerifier_def plain_chain_def u_cast_def Let_def
      BunkerVerification_constructor_def get_att_def put_att_def)

theorem suspension_lifted_by_owner_only_witness:
  "BunkerVerification_isAttestationCurrent \<lparr>m_sender = 1, m_time = 604802\<rparr> 5 example_suspended = Inr False \<and>
   (\<exists>s'. verification_call (plain_chain 99) \<lparr>m_sender = 1, m_time = 604802\<rparr> (VerReinstate 5) example_suspended = Inr s')"
proof -
  let ?m = "\<lparr>m_sender = 1, m_time = 604802\<rparr>"
  obtain s' where s': "verification_call (plain_chain 99) ?m (VerReinstate 5) example_suspended = Inr s'"
    by (simp add: BunkerVerification_reinstateProvider_def ver_onlyOwner_def example_suspended_facts u_add_def
        plain_chain_def)
  show ?thesis
    using suspension_lifted_by_owner_only [OF s', of 5] s' by (simp add: example_suspended_facts)
qed

text \<open>Counting a missed attestation makes the provider look current: a provider that is late and not suspended
  is not current before the check of the verifier, and is current right after it, without having
  attested.\<close>

theorem missed_check_renews_attestation:
  assumes "BunkerVerification_checkMissedAttestations X m p s = Inr s'" "\<not> ar_suspended (get_att p s')"
    and "ar_lastAttestationTime (get_att p s) + bv_attestationInterval s < m_time m" "m_time m < 2 ^ 48"
  shows "BunkerVerification_isAttestationCurrent m p s = Inr False \<and>
         BunkerVerification_isAttestationCurrent m p s' = Inr True \<and>
         ar_totalAttestations (get_att p s') = ar_totalAttestations (get_att p s)"
proof -
  let ?t = "ar_lastAttestationTime (get_att p s)" and ?I = "bv_attestationInterval s"
  let ?k = "(m_time m - ?t) div ?I"
  have le: "?t + ?k * ?I \<le> m_time m" "m_time m - (?t + ?k * ?I) \<le> ?I \<or> ?I = 0"
    using assms(3) div_mult_mod_eq [of "m_time m - ?t" ?I] mod_less_divisor [of ?I "m_time m - ?t"] by linarith+
  have cast: "u_cast 48 (?t + ?k * ?I) = ?t + ?k * ?I" using le(1) assms(4) by simp
  show ?thesis
  proof (rule check_result [OF assms(1,3) refl])
    fix r
    assume I: "?I \<noteq> 0" and ns: "\<not> ar_suspended (get_att p s)" "?t \<noteq> 0"
      and r: "r = (get_att p s)\<lparr>ar_missedAttestations := ar_missedAttestations (get_att p s) + u_cast 32 ?k,
            ar_consecutiveMissed := ar_consecutiveMissed (get_att p s) + u_cast 32 ?k,
            ar_lastAttestationTime := u_cast 48 (?t + ?k * ?I)\<rparr>"
      and s': "s' = (if ar_consecutiveMissed r \<ge> u_cast 32 (bv_maxMissedAttestations s)
           then suspend_provider m p (put_att p r s) else put_att p r s)"
    have s'': "s' = put_att p r s" using s' assms(2) by (simp add: get_att_suspend split: if_splits)
    have t: "ar_lastAttestationTime r = ?t + ?k * ?I" "\<not> ar_suspended r" "ar_totalAttestations r = ar_totalAttestations (get_att p s)"
      using ns by (simp_all add: r cast)
    have i: "bv_attestationInterval s' = ?I" by (simp add: s'')
    have "BunkerVerification_isAttestationCurrent m p s = Inr False"
      using assms(3) ns by (simp add: BunkerVerification_isAttestationCurrent_def u_sub_def Let_def)
    moreover have "BunkerVerification_isAttestationCurrent m p s' = Inr True"
      unfolding BunkerVerification_isAttestationCurrent_def Let_def i
      using t ns(2) le I by (simp add: s'' u_sub_def)
    ultimately show ?thesis using t(3) by (simp add: s'')
  qed
qed

definition example_attested :: "unit BunkerVerification" where
  "example_attested = fold (verification_step (plain_chain 99)) [(\<lparr>m_sender = 5, m_time = 1\<rparr>, VerSubmit 7)]
     (BunkerVerification_constructor ())"

theorem missed_check_renews_attestation_witness:
  "\<exists>s'. BunkerVerification_checkMissedAttestations (plain_chain 99) \<lparr>m_sender = 2, m_time = 100000\<rparr> 5 example_attested = Inr s' \<and>
     BunkerVerification_isAttestationCurrent \<lparr>m_sender = 2, m_time = 100000\<rparr> 5 example_attested = Inr False \<and>
     BunkerVerification_isAttestationCurrent \<lparr>m_sender = 2, m_time = 100000\<rparr> 5 s' = Inr True"
proof -
  let ?m = "\<lparr>m_sender = 2, m_time = 100000\<rparr>"
  have a: "get_att 5 example_attested = \<lparr> ar_lastAttestationHash = 7, ar_lastAttestationTime = 1, ar_totalAttestations = 1,
     ar_missedAttestations = 0, ar_consecutiveMissed = 0, ar_suspended = False \<rparr>"
    "bv_attestationInterval example_attested = 86400" "bv_maxMissedAttestations example_attested = 3"
    by (simp_all add: example_attested_def verification_step_def BunkerVerification_submitAttestation_def u_cast_def Let_def
        BunkerVerification_constructor_def get_att_def put_att_def)
  obtain s' where s': "BunkerVerification_checkMissedAttestations (plain_chain 99) ?m 5 example_attested = Inr s'"
    "\<not> ar_suspended (get_att 5 s')"
    by (simp add: BunkerVerification_checkMissedAttestations_def onlyVerifier_def a u_add_def u_sub_def u_mul_def u_div_def
        u_cast_def Let_def plain_chain_def)
  from missed_check_renews_attestation [OF s'] s' show ?thesis by (simp add: a)
qed

end
