(* ===== verification/Bunker_Pricing.thy ===== *)
theory Bunker_Pricing
  imports Complex_Main Evm_Base
begin

text \<open>
  The pricing contract (\<^verbatim>\<open>src/contracts/src/BunkerPricing.sol\<close>): resource prices, multipliers, custom prices of
  providers within bounds, and the conversion of dollar prices with an oracle.  The answer of the
  Chainlink feed is the argument \<open>orc\<close> of the functions that read it, per feed address.  Events are
  left out.
\<close>

record ResourcePrices =
  cpuPerCoreHour :: nat
  memoryPerGBHour :: nat
  storagePerGBMonth :: nat
  networkPerGB :: nat
  gpuBasicPerHour :: nat
  gpuPremiumPerHour :: nat

record Multipliers =
  mul_redundancy :: nat
  mul_tor :: nat
  mul_premiumSLA :: nat
  mul_spot :: nat

record ResourceRequest =
  rq_cpuCores :: nat
  rq_memoryGB :: nat
  rq_storageGB :: nat
  rq_networkGB :: nat
  rq_durationHours :: nat
  rq_useGPUBasic :: bool
  rq_useGPUPremium :: bool
  rq_useTor :: bool
  rq_usePremiumSLA :: bool
  rq_useSpot :: bool

record ProviderPricing =
  pp_cpuPerCoreHour :: nat
  pp_memoryPerGBHour :: nat
  pp_storagePerGBMonth :: nat
  pp_networkPerGB :: nat
  pp_isSet :: bool

record oracle_answer =
  oa_roundId :: nat
  oa_answer :: int
  oa_updatedAt :: nat
  oa_answeredInRound :: nat
  oa_decimals :: nat

datatype pricing_revert =
    ZeroPrice | ZeroMultiplier | InvalidMultiplier nat | StalePriceData nat nat | NegativePrice
  | OracleNotSet | PriceBelowMinimum nat nat | PriceAboveMaximum nat nat | InvalidPriceBounds nat nat
  | InvalidStalePriceThreshold nat | PrcMultiplierTooHigh | PrcInvalidMultiplierCap
  | InvalidThresholdBounds | ThresholdTooLong

record 'b BunkerPricing =
  bp_minStaleThreshold :: nat
  bp_maxStaleThreshold :: nat
  bp_maxMultiplierBps :: nat
  bp_prices :: ResourcePrices
  bp_multipliers :: Multipliers
  bp_priceOracle :: address
  bp_stalePriceThreshold :: nat
  bp_useOracleForPricing :: bool
  bp_providerPrices :: "(address, ProviderPricing) gomap"
  bp_minPriceMultiplierBps :: nat
  bp_maxPriceMultiplierBps :: nat
  bp_base :: 'b

type_synonym 'b pricing_call = "'b BunkerPricing \<Rightarrow> (pricing_revert, 'b BunkerPricing) result"

definition PRC_BPS_DENOMINATOR :: nat where "PRC_BPS_DENOMINATOR = 10000"

definition BunkerPricing_constructor :: "'b \<Rightarrow> 'b BunkerPricing" where
  "BunkerPricing_constructor base =
     \<lparr> bp_minStaleThreshold = 300, bp_maxStaleThreshold = 24 * 3600, bp_maxMultiplierBps = 100000,
       bp_prices = \<lparr> cpuPerCoreHour = 500000000000000000, memoryPerGBHour = 100000000000000000,
                     storagePerGBMonth = 50000000000000000, networkPerGB = 20000000000000000,
                     gpuBasicPerHour = 5000000000000000000, gpuPremiumPerHour = 15000000000000000000 \<rparr>,
       bp_multipliers = \<lparr> mul_redundancy = 30000, mul_tor = 12000, mul_premiumSLA = 15000, mul_spot = 5000 \<rparr>,
       bp_priceOracle = 0, bp_stalePriceThreshold = 3600, bp_useOracleForPricing = False,
       bp_providerPrices = fmempty, bp_minPriceMultiplierBps = 5000, bp_maxPriceMultiplierBps = 30000,
       bp_base = base \<rparr>"

definition prc_onlyOwner :: "('b, 't) chain \<Rightarrow> msg \<Rightarrow> 'b pricing_call \<Rightarrow> 'b pricing_call" where
  "prc_onlyOwner X m f s = (if m_sender m = x_owner X (bp_base s) then f s else Inl Unauthorized)"

definition get_pp :: "address \<Rightarrow> 'b BunkerPricing \<Rightarrow> ProviderPricing" where
  "get_pp p s = map_get \<lparr> pp_cpuPerCoreHour = 0, pp_memoryPerGBHour = 0, pp_storagePerGBMonth = 0,
     pp_networkPerGB = 0, pp_isSet = False \<rparr> (bp_providerPrices s) p"

subsection \<open>Costs\<close>

definition ceilDiv :: "nat \<Rightarrow> nat \<Rightarrow> (pricing_revert, nat) result" where
  "ceilDiv a b =
     (if a = 0 then Inr 0
      else rbind (u_sub a 1) (\<lambda>a. rbind (u_div a b) (\<lambda>q. u_add 256 q 1)))"

definition mul3_ceil :: "nat \<Rightarrow> nat \<Rightarrow> nat \<Rightarrow> nat \<Rightarrow> (pricing_revert, nat) result" where
  "mul3_ceil a b c d = rbind (u_mul 256 a b) (\<lambda>ab. rbind (u_mul 256 ab c) (\<lambda>abc. ceilDiv abc d))"

definition scaled_by :: "bool \<Rightarrow> nat \<Rightarrow> nat \<Rightarrow> (pricing_revert, nat) result" where
  "scaled_by enabled bps cost =
     (if enabled then rbind (u_mul 256 cost bps) (\<lambda>product. ceilDiv product PRC_BPS_DENOMINATOR) else Inr cost)"

definition calculateBaseCost :: "ResourceRequest \<Rightarrow> ResourcePrices \<Rightarrow> 'b BunkerPricing \<Rightarrow> (pricing_revert, nat) result" where
  "calculateBaseCost req p s =
     rbind (mul3_ceil (rq_cpuCores req) (cpuPerCoreHour p) (rq_durationHours req) 1000) (\<lambda>cpuCost.
     rbind (mul3_ceil (rq_memoryGB req) (memoryPerGBHour p) (rq_durationHours req) 1000) (\<lambda>memoryCost.
     rbind (if rq_storageGB req > 0 \<and> rq_durationHours req > 0
            then mul3_ceil (rq_storageGB req) (storagePerGBMonth p) (rq_durationHours req) 730
            else Inr 0) (\<lambda>storageCost.
     rbind (u_mul 256 (rq_networkGB req) (networkPerGB p)) (\<lambda>networkCost.
     rbind (if rq_useGPUBasic req then u_mul 256 (gpuBasicPerHour p) (rq_durationHours req)
            else if rq_useGPUPremium req then u_mul 256 (gpuPremiumPerHour p) (rq_durationHours req)
            else Inr 0) (\<lambda>gpuCost.
     rbind (u_add 256 cpuCost memoryCost) (\<lambda>t.
     rbind (u_add 256 t storageCost) (\<lambda>t.
     rbind (u_add 256 t networkCost) (\<lambda>t.
     rbind (u_add 256 t gpuCost) (\<lambda>t.
     rbind (scaled_by True (mul_redundancy (bp_multipliers s)) t) (\<lambda>t.
     rbind (scaled_by (rq_useTor req) (mul_tor (bp_multipliers s)) t) (\<lambda>t.
     rbind (scaled_by (rq_usePremiumSLA req) (mul_premiumSLA (bp_multipliers s)) t) (\<lambda>t.
     scaled_by (rq_useSpot req) (mul_spot (bp_multipliers s)) t))))))))))))"

definition BunkerPricing_getTokenPrice ::
    "(address \<Rightarrow> oracle_answer) \<Rightarrow> msg \<Rightarrow> 'b BunkerPricing \<Rightarrow> (pricing_revert, nat \<times> nat) result" where
  "BunkerPricing_getTokenPrice orc m s =
     (if bp_priceOracle s = 0 then Inl (Err OracleNotSet)
      else
        let a = orc (bp_priceOracle s) in
        if oa_answer a \<le> 0 then Inl (Err NegativePrice)
        else if oa_answeredInRound a < oa_roundId a
          then Inl (Err (StalePriceData (oa_updatedAt a) (bp_stalePriceThreshold s)))
        else
          rbind (u_sub (m_time m) (oa_updatedAt a)) (\<lambda>age.
          if age > bp_stalePriceThreshold s
            then Inl (Err (StalePriceData (oa_updatedAt a) (bp_stalePriceThreshold s)))
          else Inr (nat (oa_answer a), oa_decimals a)))"

definition convertUsdToBunker ::
    "(address \<Rightarrow> oracle_answer) \<Rightarrow> msg \<Rightarrow> nat \<Rightarrow> 'b BunkerPricing \<Rightarrow> (pricing_revert, nat) result" where
  "convertUsdToBunker orc m usdCost s =
     rbind (BunkerPricing_getTokenPrice orc m s) (\<lambda>(tokenPrice, oracleDecimals).
     rbind (require (10 ^ oracleDecimals < (2 ^ 256 :: nat)) Panic) (\<lambda>_.
     rbind (u_mul 256 usdCost (10 ^ oracleDecimals)) (\<lambda>product. ceilDiv product tokenPrice)))"

definition BunkerPricing_calculateCost ::
    "(address \<Rightarrow> oracle_answer) \<Rightarrow> msg \<Rightarrow> ResourceRequest \<Rightarrow> 'b BunkerPricing \<Rightarrow> (pricing_revert, nat) result" where
  "BunkerPricing_calculateCost orc m req s =
     rbind (calculateBaseCost req (bp_prices s) s) (\<lambda>cost.
     if bp_useOracleForPricing s then convertUsdToBunker orc m cost s else Inr cost)"

definition BunkerPricing_calculateCostUSD :: "ResourceRequest \<Rightarrow> 'b BunkerPricing \<Rightarrow> (pricing_revert, nat) result" where
  "BunkerPricing_calculateCostUSD req s = calculateBaseCost req (bp_prices s) s"

definition bps_of :: "nat \<Rightarrow> nat \<Rightarrow> (pricing_revert, nat) result" where
  "bps_of price bps = rbind (u_mul 256 price bps) (\<lambda>product. Inr (product div PRC_BPS_DENOMINATOR))"

definition clampToProviderBounds :: "nat \<Rightarrow> nat \<Rightarrow> 'b BunkerPricing \<Rightarrow> (pricing_revert, nat) result" where
  "clampToProviderBounds providerPrice defaultPrice s =
     rbind (bps_of defaultPrice (bp_minPriceMultiplierBps s)) (\<lambda>minPrice.
     rbind (bps_of defaultPrice (bp_maxPriceMultiplierBps s)) (\<lambda>maxPrice.
     Inr (if providerPrice < minPrice then minPrice
          else if providerPrice > maxPrice then maxPrice else providerPrice)))"

definition provider_prices :: "address \<Rightarrow> 'b BunkerPricing \<Rightarrow> (pricing_revert, ResourcePrices) result" where
  "provider_prices provider s =
     (let pp = get_pp provider s; prices = bp_prices s in
      if \<not> pp_isSet pp then Inr prices
      else
        rbind (clampToProviderBounds (pp_cpuPerCoreHour pp) (cpuPerCoreHour prices) s) (\<lambda>cpu.
        rbind (clampToProviderBounds (pp_memoryPerGBHour pp) (memoryPerGBHour prices) s) (\<lambda>memory.
        rbind (clampToProviderBounds (pp_storagePerGBMonth pp) (storagePerGBMonth prices) s) (\<lambda>storage.
        rbind (clampToProviderBounds (pp_networkPerGB pp) (networkPerGB prices) s) (\<lambda>network.
        Inr \<lparr> cpuPerCoreHour = cpu, memoryPerGBHour = memory, storagePerGBMonth = storage, networkPerGB = network,
              gpuBasicPerHour = gpuBasicPerHour prices, gpuPremiumPerHour = gpuPremiumPerHour prices \<rparr>)))))"

definition BunkerPricing_calculateProviderCost ::
    "(address \<Rightarrow> oracle_answer) \<Rightarrow> msg \<Rightarrow> address \<Rightarrow> ResourceRequest \<Rightarrow> 'b BunkerPricing \<Rightarrow> (pricing_revert, nat) result" where
  "BunkerPricing_calculateProviderCost orc m provider req s =
     rbind (provider_prices provider s) (\<lambda>prices.
     rbind (calculateBaseCost req prices s) (\<lambda>cost.
     if bp_useOracleForPricing s then convertUsdToBunker orc m cost s else Inr cost))"

subsection \<open>Prices of providers\<close>

definition validateProviderPrice :: "nat \<Rightarrow> nat \<Rightarrow> 'b BunkerPricing \<Rightarrow> (pricing_revert, unit) result" where
  "validateProviderPrice providerPrice defaultPrice s =
     (if providerPrice = 0 then Inl (Err ZeroPrice)
      else
        rbind (bps_of defaultPrice (bp_minPriceMultiplierBps s)) (\<lambda>minAllowed.
        rbind (bps_of defaultPrice (bp_maxPriceMultiplierBps s)) (\<lambda>maxAllowed.
        if providerPrice < minAllowed then Inl (Err (PriceBelowMinimum providerPrice minAllowed))
        else if providerPrice > maxAllowed then Inl (Err (PriceAboveMaximum providerPrice maxAllowed))
        else Inr ())))"

definition BunkerPricing_setProviderPrices :: "msg \<Rightarrow> ProviderPricing \<Rightarrow> 'b pricing_call" where
  "BunkerPricing_setProviderPrices m pp s =
     rbind (validateProviderPrice (pp_cpuPerCoreHour pp) (cpuPerCoreHour (bp_prices s)) s) (\<lambda>_.
     rbind (validateProviderPrice (pp_memoryPerGBHour pp) (memoryPerGBHour (bp_prices s)) s) (\<lambda>_.
     rbind (validateProviderPrice (pp_storagePerGBMonth pp) (storagePerGBMonth (bp_prices s)) s) (\<lambda>_.
     rbind (validateProviderPrice (pp_networkPerGB pp) (networkPerGB (bp_prices s)) s) (\<lambda>_.
     Inr (s\<lparr>bp_providerPrices := fmupd (m_sender m) (pp\<lparr>pp_isSet := True\<rparr>) (bp_providerPrices s)\<rparr>)))))"

definition BunkerPricing_clearProviderPrices :: "msg \<Rightarrow> 'b pricing_call" where
  "BunkerPricing_clearProviderPrices m s =
     Inr (s\<lparr>bp_providerPrices := fmdrop (m_sender m) (bp_providerPrices s)\<rparr>)"

subsection \<open>Administration\<close>

definition BunkerPricing_setPrices :: "('b, 't) chain \<Rightarrow> msg \<Rightarrow> ResourcePrices \<Rightarrow> 'b pricing_call" where
  "BunkerPricing_setPrices X m p = prc_onlyOwner X m (\<lambda>s.
     if cpuPerCoreHour p = 0 \<or> memoryPerGBHour p = 0 \<or> storagePerGBMonth p = 0 \<or> networkPerGB p = 0 \<or>
        gpuBasicPerHour p = 0 \<or> gpuPremiumPerHour p = 0
     then Inl (Err ZeroPrice) else Inr (s\<lparr>bp_prices := p\<rparr>))"

definition BunkerPricing_setCPUPrice :: "('b, 't) chain \<Rightarrow> msg \<Rightarrow> nat \<Rightarrow> 'b pricing_call" where
  "BunkerPricing_setCPUPrice X m price = prc_onlyOwner X m (\<lambda>s.
     if price = 0 then Inl (Err ZeroPrice) else Inr (s\<lparr>bp_prices := (bp_prices s)\<lparr>cpuPerCoreHour := price\<rparr>\<rparr>))"

definition BunkerPricing_setMemoryPrice :: "('b, 't) chain \<Rightarrow> msg \<Rightarrow> nat \<Rightarrow> 'b pricing_call" where
  "BunkerPricing_setMemoryPrice X m price = prc_onlyOwner X m (\<lambda>s.
     if price = 0 then Inl (Err ZeroPrice) else Inr (s\<lparr>bp_prices := (bp_prices s)\<lparr>memoryPerGBHour := price\<rparr>\<rparr>))"

definition BunkerPricing_setStoragePrice :: "('b, 't) chain \<Rightarrow> msg \<Rightarrow> nat \<Rightarrow> 'b pricing_call" where
  "BunkerPricing_setStoragePrice X m price = prc_onlyOwner X m (\<lambda>s.
     if price = 0 then Inl (Err ZeroPrice) else Inr (s\<lparr>bp_prices := (bp_prices s)\<lparr>storagePerGBMonth := price\<rparr>\<rparr>))"

definition BunkerPricing_setNetworkPrice :: "('b, 't) chain \<Rightarrow> msg \<Rightarrow> nat \<Rightarrow> 'b pricing_call" where
  "BunkerPricing_setNetworkPrice X m price = prc_onlyOwner X m (\<lambda>s.
     if price = 0 then Inl (Err ZeroPrice) else Inr (s\<lparr>bp_prices := (bp_prices s)\<lparr>networkPerGB := price\<rparr>\<rparr>))"

definition BunkerPricing_setGPUPrices :: "('b, 't) chain \<Rightarrow> msg \<Rightarrow> nat \<Rightarrow> nat \<Rightarrow> 'b pricing_call" where
  "BunkerPricing_setGPUPrices X m basic premium = prc_onlyOwner X m (\<lambda>s.
     if basic = 0 \<or> premium = 0 then Inl (Err ZeroPrice)
     else Inr (s\<lparr>bp_prices := (bp_prices s)\<lparr>gpuBasicPerHour := basic, gpuPremiumPerHour := premium\<rparr>\<rparr>))"

definition BunkerPricing_setMultipliers :: "('b, 't) chain \<Rightarrow> msg \<Rightarrow> Multipliers \<Rightarrow> 'b pricing_call" where
  "BunkerPricing_setMultipliers X m mu = prc_onlyOwner X m (\<lambda>s.
     if mul_redundancy mu = 0 \<or> mul_tor mu = 0 \<or> mul_premiumSLA mu = 0 \<or> mul_spot mu = 0
       then Inl (Err ZeroMultiplier)
     else if mul_redundancy mu > bp_maxMultiplierBps s \<or> mul_tor mu > bp_maxMultiplierBps s \<or>
             mul_premiumSLA mu > bp_maxMultiplierBps s \<or> mul_spot mu > bp_maxMultiplierBps s
       then Inl (Err PrcMultiplierTooHigh)
     else Inr (s\<lparr>bp_multipliers := mu\<rparr>))"

definition BunkerPricing_setPriceOracle :: "('b, 't) chain \<Rightarrow> msg \<Rightarrow> address \<Rightarrow> 'b pricing_call" where
  "BunkerPricing_setPriceOracle X m a = prc_onlyOwner X m (\<lambda>s.
     Inr (s\<lparr>bp_priceOracle := a,
            bp_useOracleForPricing := bp_useOracleForPricing s \<and> a \<noteq> 0\<rparr>))"

definition BunkerPricing_enableOraclePricing :: "('b, 't) chain \<Rightarrow> msg \<Rightarrow> bool \<Rightarrow> 'b pricing_call" where
  "BunkerPricing_enableOraclePricing X m enabled = prc_onlyOwner X m (\<lambda>s.
     if enabled \<and> bp_priceOracle s = 0 then Inl (Err OracleNotSet)
     else Inr (s\<lparr>bp_useOracleForPricing := enabled\<rparr>))"

definition BunkerPricing_setStalePriceThreshold :: "('b, 't) chain \<Rightarrow> msg \<Rightarrow> nat \<Rightarrow> 'b pricing_call" where
  "BunkerPricing_setStalePriceThreshold X m n = prc_onlyOwner X m (\<lambda>s.
     if n < bp_minStaleThreshold s \<or> n > bp_maxStaleThreshold s then Inl (Err (InvalidStalePriceThreshold n))
     else Inr (s\<lparr>bp_stalePriceThreshold := n\<rparr>))"

definition BunkerPricing_setProviderPriceBounds :: "('b, 't) chain \<Rightarrow> msg \<Rightarrow> nat \<Rightarrow> nat \<Rightarrow> 'b pricing_call" where
  "BunkerPricing_setProviderPriceBounds X m minBps maxBps = prc_onlyOwner X m (\<lambda>s.
     if minBps = 0 \<or> maxBps = 0 \<or> minBps \<ge> maxBps then Inl (Err (InvalidPriceBounds minBps maxBps))
     else Inr (s\<lparr>bp_minPriceMultiplierBps := minBps, bp_maxPriceMultiplierBps := maxBps\<rparr>))"

definition BunkerPricing_setMaxMultiplierBps :: "('b, 't) chain \<Rightarrow> msg \<Rightarrow> nat \<Rightarrow> 'b pricing_call" where
  "BunkerPricing_setMaxMultiplierBps X m n = prc_onlyOwner X m (\<lambda>s.
     if n < PRC_BPS_DENOMINATOR \<or> n > 500000 then Inl (Err PrcInvalidMultiplierCap)
     else Inr (s\<lparr>bp_maxMultiplierBps := n\<rparr>))"

definition BunkerPricing_setStaleThresholdBounds :: "('b, 't) chain \<Rightarrow> msg \<Rightarrow> nat \<Rightarrow> nat \<Rightarrow> 'b pricing_call" where
  "BunkerPricing_setStaleThresholdBounds X m newMin newMax = prc_onlyOwner X m (\<lambda>s.
     if newMin = 0 \<or> newMin \<ge> newMax then Inl (Err InvalidThresholdBounds)
     else if newMax > 7 * 24 * 3600 then Inl (Err ThresholdTooLong)
     else
       let t = (if bp_stalePriceThreshold s < newMin then newMin else bp_stalePriceThreshold s);
           t = (if t > newMax then newMax else t)
       in Inr (s\<lparr>bp_minStaleThreshold := newMin, bp_maxStaleThreshold := newMax, bp_stalePriceThreshold := t\<rparr>))"

subsection \<open>The contract as a machine\<close>

datatype 'b pricing_op =
    PrcProvider ProviderPricing | PrcClear | PrcPrices ResourcePrices | PrcCPU nat | PrcMemory nat
  | PrcStorage nat | PrcNetwork nat | PrcGPU nat nat | PrcMultipliers Multipliers | PrcOracle address
  | PrcEnable bool | PrcStale nat | PrcBounds nat nat | PrcMaxMultiplier nat | PrcStaleBounds nat nat
  | PrcEnvBase 'b

fun pricing_call :: "('b, 't) chain \<Rightarrow> msg \<Rightarrow> 'b pricing_op \<Rightarrow> 'b pricing_call" where
  "pricing_call X m (PrcProvider pp) s = BunkerPricing_setProviderPrices m pp s"
| "pricing_call X m PrcClear s = BunkerPricing_clearProviderPrices m s"
| "pricing_call X m (PrcPrices p) s = BunkerPricing_setPrices X m p s"
| "pricing_call X m (PrcCPU n) s = BunkerPricing_setCPUPrice X m n s"
| "pricing_call X m (PrcMemory n) s = BunkerPricing_setMemoryPrice X m n s"
| "pricing_call X m (PrcStorage n) s = BunkerPricing_setStoragePrice X m n s"
| "pricing_call X m (PrcNetwork n) s = BunkerPricing_setNetworkPrice X m n s"
| "pricing_call X m (PrcGPU a b) s = BunkerPricing_setGPUPrices X m a b s"
| "pricing_call X m (PrcMultipliers mu) s = BunkerPricing_setMultipliers X m mu s"
| "pricing_call X m (PrcOracle a) s = BunkerPricing_setPriceOracle X m a s"
| "pricing_call X m (PrcEnable b) s = BunkerPricing_enableOraclePricing X m b s"
| "pricing_call X m (PrcStale n) s = BunkerPricing_setStalePriceThreshold X m n s"
| "pricing_call X m (PrcBounds a b) s = BunkerPricing_setProviderPriceBounds X m a b s"
| "pricing_call X m (PrcMaxMultiplier n) s = BunkerPricing_setMaxMultiplierBps X m n s"
| "pricing_call X m (PrcStaleBounds a b) s = BunkerPricing_setStaleThresholdBounds X m a b s"
| "pricing_call X m (PrcEnvBase b) s = Inr (s\<lparr>bp_base := b\<rparr>)"

definition pricing_step :: "('b, 't) chain \<Rightarrow> msg \<times> 'b pricing_op \<Rightarrow> 'b BunkerPricing \<Rightarrow> 'b BunkerPricing" where
  "pricing_step X mop s = commit s (pricing_call X (fst mop) (snd mop) s)"

subsection \<open>The configuration invariant\<close>

definition pricing_inv :: "'b BunkerPricing \<Rightarrow> bool" where
  "pricing_inv s \<longleftrightarrow>
     bp_minPriceMultiplierBps s < bp_maxPriceMultiplierBps s \<and>
     bp_minStaleThreshold s \<le> bp_stalePriceThreshold s \<and> bp_stalePriceThreshold s \<le> bp_maxStaleThreshold s \<and>
     bp_maxStaleThreshold s \<le> 7 * 24 * 3600 \<and> (bp_useOracleForPricing s \<longrightarrow> bp_priceOracle s \<noteq> 0) \<and>
     0 < mul_redundancy (bp_multipliers s) \<and> 0 < cpuPerCoreHour (bp_prices s)"

lemma pricing_call_inv:
  assumes "pricing_inv s" "pricing_call X m op s = Inr s'"
  shows "pricing_inv s'"
  using assms
  by (cases op)
     (auto simp: pricing_inv_def prc_onlyOwner_def BunkerPricing_setProviderPrices_def BunkerPricing_clearProviderPrices_def
        BunkerPricing_setPrices_def BunkerPricing_setCPUPrice_def BunkerPricing_setMemoryPrice_def
        BunkerPricing_setStoragePrice_def BunkerPricing_setNetworkPrice_def BunkerPricing_setGPUPrices_def
        BunkerPricing_setMultipliers_def BunkerPricing_setPriceOracle_def BunkerPricing_enableOraclePricing_def
        BunkerPricing_setStalePriceThreshold_def BunkerPricing_setProviderPriceBounds_def
        BunkerPricing_setMaxMultiplierBps_def BunkerPricing_setStaleThresholdBounds_def Let_def rbind_Inr_iff
        split: if_splits)

interpretation pricing_runs: guarded_machine "pricing_step X" "\<lambda>_ _. True" pricing_inv for X
proof
  fix s :: "'a BunkerPricing" and mop
  assume "pricing_inv s"
  then show "pricing_inv (pricing_step X mop s)"
    unfolding pricing_step_def
    by (rule commit_inv [where P = pricing_inv]) (use \<open>pricing_inv s\<close> pricing_call_inv in blast)
qed

lemma pricing_constructor_inv: "pricing_inv (BunkerPricing_constructor b)"
  by (simp add: BunkerPricing_constructor_def pricing_inv_def)

subsection \<open>Costs never round down\<close>

lemma ceilDiv_bounds:
  assumes "ceilDiv a b = Inr q" "0 < b"
  shows "real a / real b \<le> real q" "real q < real a / real b + 1"
proof -
  have "real a / real b \<le> real q \<and> real q < real a / real b + 1"
  proof (cases "a = 0")
    case True
    with assms show ?thesis by (simp add: ceilDiv_def)
  next
    case False
    with assms have q: "q = (a - 1) div b + 1"
      by (auto simp: ceilDiv_def rbind_Inr_iff u_Inr_iff)
    define d where "d = (a - 1) div b"
    have "b * d + (a - 1) mod b = a - 1" "(a - 1) mod b < b"
      using \<open>0 < b\<close> by (simp_all add: d_def)
    then have "b * d \<le> a - 1" "a - 1 < b * d + b" by linarith+
    with False have "b * d < a" "a \<le> b * (d + 1)" by auto
    then have "real b * real d < real a" "real a \<le> real b * (real d + 1)"
      using of_nat_less_iff [of "b * d" a, where 'a = real] of_nat_le_iff [of a "b * (d + 1)", where 'a = real]
      by (simp_all add: algebra_simps)
    moreover have "real q = real d + 1" using q by (simp add: d_def)
    ultimately show ?thesis using \<open>0 < b\<close> by (simp add: field_simps)
  qed
  then show "real a / real b \<le> real q" "real q < real a / real b + 1" by auto
qed

text \<open>The price of a request before any rounding, and the most the rounding adds to it.\<close>

definition exact_base :: "ResourceRequest \<Rightarrow> ResourcePrices \<Rightarrow> real" where
  "exact_base req p =
     real (rq_cpuCores req) / 1000 * real (cpuPerCoreHour p) * real (rq_durationHours req) +
     real (rq_memoryGB req) / 1000 * real (memoryPerGBHour p) * real (rq_durationHours req) +
     real (rq_storageGB req) * real (storagePerGBMonth p) * (real (rq_durationHours req) / 730) +
     real (rq_networkGB req) * real (networkPerGB p) +
     (if rq_useGPUBasic req then real (gpuBasicPerHour p) * real (rq_durationHours req)
      else if rq_useGPUPremium req then real (gpuPremiumPerHour p) * real (rq_durationHours req) else 0)"

definition factor :: "bool \<Rightarrow> nat \<Rightarrow> real" where
  "factor enabled bps = (if enabled then real bps / 10000 else 1)"

definition exact_cost :: "ResourceRequest \<Rightarrow> ResourcePrices \<Rightarrow> Multipliers \<Rightarrow> real" where
  "exact_cost req p mu =
     exact_base req p * factor True (mul_redundancy mu) * factor (rq_useTor req) (mul_tor mu) *
     factor (rq_usePremiumSLA req) (mul_premiumSLA mu) * factor (rq_useSpot req) (mul_spot mu)"

definition rounding_slack :: "ResourceRequest \<Rightarrow> Multipliers \<Rightarrow> real" where
  "rounding_slack req mu =
     (((3 * factor True (mul_redundancy mu) + 1) * factor (rq_useTor req) (mul_tor mu) + 1) *
      factor (rq_usePremiumSLA req) (mul_premiumSLA mu) + 1) * factor (rq_useSpot req) (mul_spot mu) + 1"

lemma factor_nonneg [simp]: "0 \<le> factor e b" by (simp add: factor_def)

lemma scaled_by_bounds:
  assumes "scaled_by e b c = Inr d" "x \<le> real c" "real c \<le> x + y"
  shows "x * factor e b \<le> real d" "real d \<le> (x + y) * factor e b + 1"
proof -
  have "x * factor e b \<le> real d \<and> real d \<le> (x + y) * factor e b + 1"
  proof (cases e)
    case True
    then have "ceilDiv (c * b) 10000 = Inr d"
      using assms(1) by (auto simp: scaled_by_def rbind_Inr_iff u_Inr_iff PRC_BPS_DENOMINATOR_def)
    note q = ceilDiv_bounds [OF this]
    have "x * real b \<le> real c * real b" "real c * real b \<le> (x + y) * real b"
      using assms(2,3) by (auto intro: mult_right_mono)
    with q True show ?thesis by (simp add: factor_def field_simps)
  next
    case False
    with assms show ?thesis by (simp add: scaled_by_def factor_def)
  qed
  then show "x * factor e b \<le> real d" "real d \<le> (x + y) * factor e b + 1" by auto
qed

lemma mul3_ceil_bounds:
  assumes "mul3_ceil a b c d = Inr q" "0 < d"
  shows "real a * real b * real c / real d \<le> real q" "real q \<le> real a * real b * real c / real d + 1"
proof -
  have "ceilDiv (a * b * c) d = Inr q"
    using assms(1) by (auto simp: mul3_ceil_def rbind_Inr_iff u_Inr_iff)
  from ceilDiv_bounds [OF this assms(2)]
  show "real a * real b * real c / real d \<le> real q" "real q \<le> real a * real b * real c / real d + 1"
    by simp_all
qed

lemma calculateBaseCostE:
  assumes "calculateBaseCost req p s = Inr cost"
  obtains t t1 t2 t3 where
    "exact_base req p \<le> real t" "real t \<le> exact_base req p + 3"
    "scaled_by True (mul_redundancy (bp_multipliers s)) t = Inr t1"
    "scaled_by (rq_useTor req) (mul_tor (bp_multipliers s)) t1 = Inr t2"
    "scaled_by (rq_usePremiumSLA req) (mul_premiumSLA (bp_multipliers s)) t2 = Inr t3"
    "scaled_by (rq_useSpot req) (mul_spot (bp_multipliers s)) t3 = Inr cost"
proof -
  from assms obtain c m st g t1 t2 t3 where
      c: "mul3_ceil (rq_cpuCores req) (cpuPerCoreHour p) (rq_durationHours req) 1000 = Inr c"
    and m: "mul3_ceil (rq_memoryGB req) (memoryPerGBHour p) (rq_durationHours req) 1000 = Inr m"
    and st: "(if rq_storageGB req > 0 \<and> rq_durationHours req > 0
            then mul3_ceil (rq_storageGB req) (storagePerGBMonth p) (rq_durationHours req) 730
            else Inr 0) = Inr st"
    and g: "(if rq_useGPUBasic req then u_mul 256 (gpuBasicPerHour p) (rq_durationHours req)
            else if rq_useGPUPremium req then u_mul 256 (gpuPremiumPerHour p) (rq_durationHours req)
            else (Inr 0 :: (pricing_revert, nat) result)) = Inr g"
    and t: "scaled_by True (mul_redundancy (bp_multipliers s)) (c + m + st + rq_networkGB req * networkPerGB p + g) = Inr t1"
      "scaled_by (rq_useTor req) (mul_tor (bp_multipliers s)) t1 = Inr t2"
      "scaled_by (rq_usePremiumSLA req) (mul_premiumSLA (bp_multipliers s)) t2 = Inr t3"
      "scaled_by (rq_useSpot req) (mul_spot (bp_multipliers s)) t3 = Inr cost"
    unfolding calculateBaseCost_def rbind_Inr_iff u_Inr_iff by auto
  let ?st = "real (rq_storageGB req) * real (storagePerGBMonth p) * real (rq_durationHours req) / 730"
  have st': "?st \<le> real st" "real st \<le> ?st + 1"
    using st mul3_ceil_bounds [of "rq_storageGB req" "storagePerGBMonth p" "rq_durationHours req" 730 st]
    by (auto split: if_splits)
  have g': "real g = (if rq_useGPUBasic req then real (gpuBasicPerHour p) * real (rq_durationHours req)
      else if rq_useGPUPremium req then real (gpuPremiumPerHour p) * real (rq_durationHours req) else 0)"
    using g by (auto simp: u_Inr_iff split: if_splits)
  have "exact_base req p \<le> real (c + m + st + rq_networkGB req * networkPerGB p + g)"
       "real (c + m + st + rq_networkGB req * networkPerGB p + g) \<le> exact_base req p + 3"
    using mul3_ceil_bounds [OF c] mul3_ceil_bounds [OF m] st'
    unfolding of_nat_add of_nat_mult g' exact_base_def by simp_all
  from that [OF this t] show thesis .
qed

text \<open>C18. A quoted cost is never below the exact price of the request (resources times prices times
  the multipliers that apply), and exceeds it by at most the rounding of the ceiling divisions.\<close>

theorem cost_never_undercharges:
  assumes "calculateBaseCost req p s = Inr cost"
  shows "exact_cost req p (bp_multipliers s) \<le> real cost \<and>
         real cost \<le> exact_cost req p (bp_multipliers s) + rounding_slack req (bp_multipliers s)"
proof -
  from assms obtain t t1 t2 t3 where
    t: "exact_base req p \<le> real t" "real t \<le> exact_base req p + 3"
    and r: "scaled_by True (mul_redundancy (bp_multipliers s)) t = Inr t1"
    and o: "scaled_by (rq_useTor req) (mul_tor (bp_multipliers s)) t1 = Inr t2"
    and l: "scaled_by (rq_usePremiumSLA req) (mul_premiumSLA (bp_multipliers s)) t2 = Inr t3"
    and w: "scaled_by (rq_useSpot req) (mul_spot (bp_multipliers s)) t3 = Inr cost"
    by (rule calculateBaseCostE)
  note step = distrib_right add.assoc
  note 1 = scaled_by_bounds [OF r t, unfolded step]
  note 2 = scaled_by_bounds [OF o 1, unfolded step]
  note 3 = scaled_by_bounds [OF l 2, unfolded step]
  note 4 = scaled_by_bounds [OF w 3, unfolded step]
  from 4 show ?thesis
    by (simp add: exact_cost_def rounding_slack_def distrib_right)
qed

definition small_request :: ResourceRequest where
  "small_request =
     \<lparr> rq_cpuCores = 1, rq_memoryGB = 0, rq_storageGB = 1, rq_networkGB = 0, rq_durationHours = 1,
       rq_useGPUBasic = False, rq_useGPUPremium = False, rq_useTor = True, rq_usePremiumSLA = False, rq_useSpot = True \<rparr>"

lemmas cost_eval = calculateBaseCost_def mul3_ceil_def scaled_by_def ceilDiv_def u_mul_def u_add_def u_sub_def u_div_def
  PRC_BPS_DENOMINATOR_def

lemma small_request_cost:
  "calculateBaseCost small_request (bp_prices (BunkerPricing_constructor ())) (BunkerPricing_constructor ())
     = Inr 1023287671232878"
  by (simp add: cost_eval small_request_def BunkerPricing_constructor_def)

theorem cost_never_undercharges_witness:
  "exact_cost small_request (bp_prices (BunkerPricing_constructor ())) (bp_multipliers (BunkerPricing_constructor ()))
     \<le> real (1023287671232878 :: nat)"
  using cost_never_undercharges [OF small_request_cost] by blast

subsection \<open>Prices of providers stay within the bounds\<close>

definition bounded_price :: "'b BunkerPricing \<Rightarrow> nat \<Rightarrow> nat \<Rightarrow> bool" where
  "bounded_price s standard price \<longleftrightarrow>
     standard * bp_minPriceMultiplierBps s div 10000 \<le> price \<and>
     price \<le> standard * bp_maxPriceMultiplierBps s div 10000"

lemma clamp_bounded:
  assumes "clampToProviderBounds price standard s = Inr q" "pricing_inv s"
  shows "bounded_price s standard q"
proof -
  have "standard * bp_minPriceMultiplierBps s div 10000 \<le> standard * bp_maxPriceMultiplierBps s div 10000"
    using assms(2) by (intro div_le_mono mult_le_mono) (auto simp: pricing_inv_def)
  then show ?thesis
    using assms(1)
    by (auto simp: clampToProviderBounds_def bps_of_def rbind_Inr_iff u_Inr_iff bounded_price_def PRC_BPS_DENOMINATOR_def)
qed

text \<open>Whatever the owner and the providers called before, the rates that a provider with custom prices
  charges are within the current bounds around the standard prices, and GPUs are charged at the standard price.\<close>

theorem provider_rates_within_bounds:
  assumes "s = fold (pricing_step X) ops (BunkerPricing_constructor base)"
    and "pp_isSet (get_pp provider s)" "provider_prices provider s = Inr p"
  shows "bounded_price s (cpuPerCoreHour (bp_prices s)) (cpuPerCoreHour p) \<and>
         bounded_price s (memoryPerGBHour (bp_prices s)) (memoryPerGBHour p) \<and>
         bounded_price s (storagePerGBMonth (bp_prices s)) (storagePerGBMonth p) \<and>
         bounded_price s (networkPerGB (bp_prices s)) (networkPerGB p) \<and>
         gpuBasicPerHour p = gpuBasicPerHour (bp_prices s) \<and>
         gpuPremiumPerHour p = gpuPremiumPerHour (bp_prices s)"
proof -
  have inv: "pricing_inv s"
    unfolding assms(1) by (rule pricing_runs.run_inv [OF pricing_constructor_inv run_ok_True])
  show ?thesis
    using assms(2,3) clamp_bounded [OF _ inv]
    by (auto simp: provider_prices_def Let_def rbind_Inr_iff)
qed

definition cheap_provider :: "(msg \<times> unit pricing_op) list" where
  "cheap_provider =
     [(\<lparr> m_sender = 5, m_time = 100 \<rparr>, PrcProvider
         \<lparr> pp_cpuPerCoreHour = 300000000000000000, pp_memoryPerGBHour = 100000000000000000,
           pp_storagePerGBMonth = 50000000000000000, pp_networkPerGB = 20000000000000000, pp_isSet = False \<rparr>),
      (\<lparr> m_sender = 1, m_time = 200 \<rparr>, PrcCPU 1000000000000000000)]"

lemmas provider_eval = pricing_step_def commit_def prc_onlyOwner_def BunkerPricing_setProviderPrices_def
  BunkerPricing_setCPUPrice_def validateProviderPrice_def bps_of_def u_mul_def PRC_BPS_DENOMINATOR_def
  get_pp_def provider_prices_def clampToProviderBounds_def Let_def

theorem provider_rates_within_bounds_witness:
  "\<exists>s p. s = fold (pricing_step (plain_chain 99)) cheap_provider (BunkerPricing_constructor ()) \<and>
         provider_prices 5 s = Inr p \<and> cpuPerCoreHour p = 500000000000000000 \<and>
         bounded_price s (cpuPerCoreHour (bp_prices s)) (cpuPerCoreHour p)"
proof -
  define s where "s = fold (pricing_step (plain_chain 99)) cheap_provider (BunkerPricing_constructor ())"
  define p where "p = (bp_prices s)\<lparr>cpuPerCoreHour := 500000000000000000\<rparr>"
  have "pp_isSet (get_pp 5 s)" "provider_prices 5 s = Inr p"
    by (simp_all add: s_def p_def cheap_provider_def provider_eval BunkerPricing_constructor_def plain_chain_def)
  with provider_rates_within_bounds [OF s_def this] s_def show ?thesis
    by (intro exI [of _ s] exI [of _ p]) (simp add: p_def)
qed

lemma set_prices_are_charged:
  assumes "BunkerPricing_setProviderPrices m pp s = Inr s'"
  shows "provider_prices (m_sender m) s' =
    Inr \<lparr> cpuPerCoreHour = pp_cpuPerCoreHour pp, memoryPerGBHour = pp_memoryPerGBHour pp,
          storagePerGBMonth = pp_storagePerGBMonth pp, networkPerGB = pp_networkPerGB pp,
          gpuBasicPerHour = gpuBasicPerHour (bp_prices s), gpuPremiumPerHour = gpuPremiumPerHour (bp_prices s) \<rparr>"
proof -
  have clamp: "clampToProviderBounds price standard s' = Inr price"
    if "validateProviderPrice price standard s = Inr ()" for price standard
  proof -
    have "bp_minPriceMultiplierBps s' = bp_minPriceMultiplierBps s" "bp_maxPriceMultiplierBps s' = bp_maxPriceMultiplierBps s"
      using assms by (auto simp: BunkerPricing_setProviderPrices_def rbind_Inr_iff)
    with that show ?thesis
      by (auto simp: validateProviderPrice_def clampToProviderBounds_def rbind_Inr_iff split: if_splits)
  qed
  show ?thesis
    using assms clamp
    by (auto simp: BunkerPricing_setProviderPrices_def provider_prices_def get_pp_def Let_def rbind_Inr_iff)
qed

end
