(* ===== verification/Bunker_Registry.thy ===== *)
theory Bunker_Registry
  imports Evm_Base
begin

text \<open>
  The subdomain registry (\<^verbatim>\<open>src/contracts/src/BunkerRegistry.sol\<close>): names are registered for a fee, expire,
  are reserved, transferred, released and reclaimed.  The environment \<open>E\<close> holds what the contract
  calls outside the repository's own state: \<^verbatim>\<open>keccak256\<close>, which makes the storage key of a name, and the answer of the
  staking contract to \<^verbatim>\<open>getTier\<close>.  Constants stand as numbers.  Events are left out.
\<close>

type_synonym hash = "256 word"

datatype tier_answer = TierIs nat | TierReverts | TierNoContract

record registry_env =
  e_keccak :: "string \<Rightarrow> hash"
  e_getTier :: "address \<Rightarrow> address \<Rightarrow> tier_answer"

record SubdomainRecord =
  sr_owner :: address
  sr_deploymentID :: hash
  sr_registeredAt :: nat
  sr_expiresAt :: nat
  sr_reservedUntil :: nat
  sr_referrer :: address

record Metadata =
  md_description :: string
  md_avatarURL :: string

datatype registry_revert =
    NameAlreadyRegistered string | NameNotRegistered string | NotNameOwner string address | InvalidName string
  | RegInvalidAddress | InvalidDeploymentID | TooManyNames address nat | FeeBelowMinimum nat nat
  | CannotTransferToSelf | NameExpired string | NameReserved string | ReservationExpired string
  | NotReservationOwner string address | InvalidReferrer address | MetadataDescriptionTooLong nat nat
  | MetadataAvatarURLTooLong nat nat | ArrayLengthMismatch | ArrayTooLarge nat nat | NameNotSquatted string
  | InvalidPeriod | ShortNamesDisabled

record ('b, 't) BunkerRegistry =
  rg_treasury :: address
  rg_registrationFee :: nat
  rg_stakingContract :: address
  rg_expirationPeriod :: nat
  rg_gracePeriod :: nat
  rg_reservationPeriod :: nat
  rg_changeFee :: nat
  rg_referralDiscountBps :: nat
  rg_referralRewardBps :: nat
  rg_squattingGracePeriod :: nat
  rg_shortNamesEnabled :: bool
  rg_reservedNames :: "(hash, bool) gomap"
  rg_subdomains :: "(hash, SubdomainRecord) gomap"
  rg_nameOf :: "(hash, string) gomap"
  rg_ownedNames :: "(address, hash list) gomap"
  rg_metadata :: "(hash, Metadata) gomap"
  rg_primaryName :: "(hash, hash) gomap"
  rg_base :: 'b
  rg_ledger :: 't

type_synonym ('b, 't) registry_call =
  "('b, 't) BunkerRegistry \<Rightarrow> (registry_revert, ('b, 't) BunkerRegistry) result"

subsection \<open>Storage access and modifiers\<close>

definition zero_subdomain :: SubdomainRecord where
  "zero_subdomain = \<lparr> sr_owner = 0, sr_deploymentID = 0, sr_registeredAt = 0, sr_expiresAt = 0,
                      sr_reservedUntil = 0, sr_referrer = 0 \<rparr>"

definition get_sub :: "hash \<Rightarrow> ('b, 't) BunkerRegistry \<Rightarrow> SubdomainRecord" where
  "get_sub h s = map_get zero_subdomain (rg_subdomains s) h"

definition put_sub :: "hash \<Rightarrow> SubdomainRecord \<Rightarrow> ('b, 't) BunkerRegistry \<Rightarrow> ('b, 't) BunkerRegistry" where
  "put_sub h r s = s\<lparr>rg_subdomains := fmupd h r (rg_subdomains s)\<rparr>"

definition get_owned :: "address \<Rightarrow> ('b, 't) BunkerRegistry \<Rightarrow> hash list" where
  "get_owned a s = map_get [] (rg_ownedNames s) a"

definition put_owned :: "address \<Rightarrow> hash list \<Rightarrow> ('b, 't) BunkerRegistry \<Rightarrow> ('b, 't) BunkerRegistry" where
  "put_owned a hs s = s\<lparr>rg_ownedNames := fmupd a hs (rg_ownedNames s)\<rparr>"

definition reg_onlyOwner :: "('b, 't) chain \<Rightarrow> msg \<Rightarrow> ('b, 't) registry_call \<Rightarrow> ('b, 't) registry_call" where
  "reg_onlyOwner X m f s = (if m_sender m = x_owner X (rg_base s) then f s else Inl Unauthorized)"

definition reg_whenNotPaused :: "('b, 't) chain \<Rightarrow> ('b, 't) registry_call \<Rightarrow> ('b, 't) registry_call" where
  "reg_whenNotPaused X f s = (if x_paused X (rg_base s) then Inl EnforcedPause else f s)"

definition BunkerRegistry_constructor ::
    "address \<Rightarrow> address \<Rightarrow> nat \<Rightarrow> address \<Rightarrow> 'b \<Rightarrow> 't \<Rightarrow> (registry_revert, ('b, 't) BunkerRegistry) result" where
  "BunkerRegistry_constructor token treasury registrationFee stakingContract base ledger =
     (if token = 0 \<or> treasury = 0 then Inl (Err RegInvalidAddress)
      else if registrationFee > 0 \<and> registrationFee < 1000 * 10 ^ 18
        then Inl (Err (FeeBelowMinimum registrationFee (1000 * 10 ^ 18)))
      else Inr \<lparr> rg_treasury = treasury, rg_registrationFee = registrationFee, rg_stakingContract = stakingContract,
                 rg_expirationPeriod = 365 * 86400, rg_gracePeriod = 30 * 86400, rg_reservationPeriod = 48 * 3600,
                 rg_changeFee = 10000 * 10 ^ 18, rg_referralDiscountBps = 1000, rg_referralRewardBps = 500,
                 rg_squattingGracePeriod = 7 * 86400, rg_shortNamesEnabled = False,
                 rg_reservedNames = fmempty, rg_subdomains = fmempty, rg_nameOf = fmempty, rg_ownedNames = fmempty,
                 rg_metadata = fmempty, rg_primaryName = fmempty, rg_base = base, rg_ledger = ledger \<rparr>)"

subsection \<open>Names\<close>

definition isAlphanumeric :: "char \<Rightarrow> bool" where
  "isAlphanumeric c \<longleftrightarrow> (0x30 \<le> (of_char c :: nat) \<and> (of_char c :: nat) \<le> 0x39) \<or>
                         (0x61 \<le> (of_char c :: nat) \<and> (of_char c :: nat) \<le> 0x7A)"

fun middle_ok :: "bool \<Rightarrow> string \<Rightarrow> bool" where
  "middle_ok prevHyphen [] \<longleftrightarrow> True"
| "middle_ok prevHyphen (c # cs) \<longleftrightarrow>
     (let isHyphen = (of_char c = (0x2D :: nat)) in
      (isAlphanumeric c \<or> isHyphen) \<and> \<not> (isHyphen \<and> prevHyphen) \<and> middle_ok isHyphen cs)"

definition validateName :: "string \<Rightarrow> (registry_revert, unit) result" where
  "validateName name =
     (if length name < 1 \<or> length name > 32 then Inl (Err (InvalidName name))
      else if \<not> isAlphanumeric (hd name) \<or> \<not> isAlphanumeric (last name) then Inl (Err (InvalidName name))
      else if middle_ok False (butlast (tl name)) then Inr ()
      else Inl (Err (InvalidName name)))"

definition reg_isExpired :: "msg \<Rightarrow> hash \<Rightarrow> ('b, 't) BunkerRegistry \<Rightarrow> bool" where
  "reg_isExpired m h s \<longleftrightarrow> (let exp = sr_expiresAt (get_sub h s) in exp > 0 \<and> m_time m > exp)"

definition reg_isInGracePeriod :: "msg \<Rightarrow> hash \<Rightarrow> ('b, 't) BunkerRegistry \<Rightarrow> bool" where
  "reg_isInGracePeriod m h s \<longleftrightarrow>
     (let exp = sr_expiresAt (get_sub h s) in exp > 0 \<and> m_time m > exp \<and> m_time m \<le> exp + rg_gracePeriod s)"

definition isFullyExpired :: "msg \<Rightarrow> hash \<Rightarrow> ('b, 't) BunkerRegistry \<Rightarrow> bool" where
  "isFullyExpired m h s \<longleftrightarrow>
     (let exp = sr_expiresAt (get_sub h s) in exp > 0 \<and> m_time m > exp + rg_gracePeriod s)"

definition swap_pop :: "hash \<Rightarrow> hash list \<Rightarrow> hash list" where
  "swap_pop h names =
     (let i = length (takeWhile (\<lambda>x. x \<noteq> h) names) in
      if i < length names then butlast (names[i := last names]) else names)"

definition removeOwnedName :: "address \<Rightarrow> hash \<Rightarrow> ('b, 't) BunkerRegistry \<Rightarrow> ('b, 't) BunkerRegistry" where
  "removeOwnedName a h s = put_owned a (swap_pop h (get_owned a s)) s"

definition pushOwnedName :: "address \<Rightarrow> hash \<Rightarrow> ('b, 't) BunkerRegistry \<Rightarrow> ('b, 't) BunkerRegistry" where
  "pushOwnedName a h s = put_owned a (get_owned a s @ [h]) s"

definition clear_primary :: "hash \<Rightarrow> hash \<Rightarrow> ('b, 't) BunkerRegistry \<Rightarrow> ('b, 't) BunkerRegistry" where
  "clear_primary deploymentID h s =
     (if deploymentID \<noteq> 0 \<and> map_get 0 (rg_primaryName s) deploymentID = h
      then s\<lparr>rg_primaryName := fmdrop deploymentID (rg_primaryName s)\<rparr> else s)"

subsection \<open>Fees\<close>

definition reg_calculatePrice :: "string \<Rightarrow> ('b, 't) BunkerRegistry \<Rightarrow> (registry_revert, nat) result" where
  "reg_calculatePrice name s =
     (let price = rg_registrationFee s in
      if length name = 1 then u_mul 256 price 100
      else if length name = 2 then u_mul 256 price 50
      else if length name = 3 then u_mul 256 price 10
      else if length name = 4 then u_mul 256 price 5
      else Inr price)"

definition tierDiscountBps :: "nat list" where "tierDiscountBps = [0, 0, 500, 1000, 1500, 2000]"

definition applyStakingDiscount ::
    "registry_env \<Rightarrow> nat \<Rightarrow> address \<Rightarrow> ('b, 't) BunkerRegistry \<Rightarrow> (registry_revert, nat) result" where
  "applyStakingDiscount E price user s =
     (if rg_stakingContract s = 0 then Inr price
      else case e_getTier E (rg_stakingContract s) user of
             TierReverts \<Rightarrow> Inr price
           | TierNoContract \<Rightarrow> Inl BaseRevert
           | TierIs tier \<Rightarrow>
               let discount = tierDiscountBps ! (if tier > 5 then 5 else tier) in
               if discount > 0
               then rbind (u_mul 256 price discount) (\<lambda>product. u_sub price (product div 10000))
               else Inr price)"

definition applyReferralDiscount :: "nat \<Rightarrow> ('b, 't) BunkerRegistry \<Rightarrow> (registry_revert, nat \<times> nat) result" where
  "applyReferralDiscount price s =
     rbind (u_mul 256 price (rg_referralDiscountBps s)) (\<lambda>product.
     rbind (u_sub price (product div 10000)) (\<lambda>discounted.
     rbind (u_mul 256 price (rg_referralRewardBps s)) (\<lambda>product.
     Inr (discounted, product div 10000))))"

definition token_transfer ::
    "('b, 't) chain \<Rightarrow> address \<Rightarrow> nat \<Rightarrow> 't \<Rightarrow> (registry_revert, 't) result" where
  "token_transfer X to amount t =
     (if amount > 0 then of_call (x_transfer X (x_this X) to amount t) TokenRevert else Inr t)"

definition collectFee ::
    "('b, 't) chain \<Rightarrow> address \<Rightarrow> nat \<Rightarrow> address \<Rightarrow> nat \<Rightarrow> ('b, 't) registry_call" where
  "collectFee X payer amount referrer referrerReward s =
     (if amount = 0 then Inr s
      else
        rbind (of_call (x_transferFrom X (x_this X) payer (x_this X) amount (rg_ledger s)) TokenRevert) (\<lambda>t.
        rbind (u_mul 256 amount 8000) (\<lambda>product.
        let burnAmount = product div 10000 in
        rbind (u_sub amount burnAmount) (\<lambda>rest.
        rbind (u_sub rest referrerReward) (\<lambda>treasuryAmount.
        rbind (if burnAmount > 0 then of_call (x_burn X (x_this X) burnAmount t) TokenRevert else Inr t) (\<lambda>t.
        rbind (token_transfer X (rg_treasury s) treasuryAmount t) (\<lambda>t.
        rbind (token_transfer X referrer referrerReward t) (\<lambda>t.
        Inr (s\<lparr>rg_ledger := t\<rparr>)))))))))"

definition charge ::
    "registry_env \<Rightarrow> ('b, 't) chain \<Rightarrow> msg \<Rightarrow> string \<Rightarrow> ('b, 't) registry_call" where
  "charge E X m name s =
     rbind (reg_calculatePrice name s) (\<lambda>price.
     rbind (applyStakingDiscount E price (m_sender m) s) (\<lambda>price.
     collectFee X (m_sender m) price 0 0 s))"

subsection \<open>Registration\<close>

definition claimable :: "msg \<Rightarrow> hash \<Rightarrow> string \<Rightarrow> ('b, 't) registry_call" where
  "claimable m h name s =
     (let record = get_sub h s in
      if sr_owner record = 0 then Inr s
      else if isFullyExpired m h s then
        let s = clear_primary (sr_deploymentID record) h (removeOwnedName (sr_owner record) h s)
        in Inr (s\<lparr>rg_metadata := fmdrop h (rg_metadata s)\<rparr>)
      else if sr_reservedUntil record > 0 \<and> m_time m > sr_reservedUntil record then
        let s = removeOwnedName (sr_owner record) h s
        in Inr (s\<lparr>rg_metadata := fmdrop h (rg_metadata s)\<rparr>)
      else Inl (Err (NameAlreadyRegistered name)))"

definition register_fee ::
    "registry_env \<Rightarrow> ('b, 't) chain \<Rightarrow> msg \<Rightarrow> string \<Rightarrow> address \<Rightarrow> ('b, 't) registry_call" where
  "register_fee E X m name referrer s =
     rbind (reg_calculatePrice name s) (\<lambda>price.
     rbind (applyStakingDiscount E price (m_sender m) s) (\<lambda>price.
     if referrer \<noteq> 0 then
       rbind (applyReferralDiscount price s) (\<lambda>(discounted, referrerReward).
       collectFee X (m_sender m) discounted referrer referrerReward s)
     else collectFee X (m_sender m) price 0 0 s))"

definition registerInternal ::
    "registry_env \<Rightarrow> ('b, 't) chain \<Rightarrow> msg \<Rightarrow> string \<Rightarrow> hash \<Rightarrow> address \<Rightarrow> ('b, 't) registry_call" where
  "registerInternal E X m name deploymentID referrer s =
     (let h = e_keccak E name; sender = m_sender m in
      rbind (validateName name) (\<lambda>_.
      if length name \<le> 3 \<and> \<not> rg_shortNamesEnabled s then Inl (Err ShortNamesDisabled)
      else if map_get False (rg_reservedNames s) h then Inl (Err (NameReserved name))
      else if deploymentID = 0 then Inl (Err InvalidDeploymentID)
      else if length (get_owned sender s) \<ge> 100 then Inl (Err (TooManyNames sender 100))
      else
        rbind (claimable m h name s) (\<lambda>s.
        rbind (register_fee E X m name referrer s) (\<lambda>s.
        rbind (u_add 256 (m_time m) (rg_expirationPeriod s)) (\<lambda>expires.
        let s = put_sub h \<lparr> sr_owner = sender, sr_deploymentID = deploymentID, sr_registeredAt = u_cast 48 (m_time m),
                            sr_expiresAt = u_cast 48 expires, sr_reservedUntil = 0, sr_referrer = referrer \<rparr> s
        in Inr (pushOwnedName sender h (s\<lparr>rg_nameOf := fmupd h name (rg_nameOf s)\<rparr>)))))))"

definition BunkerRegistry_register ::
    "registry_env \<Rightarrow> ('b, 't) chain \<Rightarrow> msg \<Rightarrow> string \<Rightarrow> hash \<Rightarrow> ('b, 't) registry_call" where
  "BunkerRegistry_register E X m name deploymentID =
     reg_whenNotPaused X (registerInternal E X m name deploymentID 0)"

definition BunkerRegistry_registerWithReferral ::
    "registry_env \<Rightarrow> ('b, 't) chain \<Rightarrow> msg \<Rightarrow> string \<Rightarrow> hash \<Rightarrow> address \<Rightarrow> ('b, 't) registry_call" where
  "BunkerRegistry_registerWithReferral E X m name deploymentID referrer = reg_whenNotPaused X (\<lambda>s.
     if referrer = 0 then Inl (Err (InvalidReferrer referrer))
     else if referrer = m_sender m then Inl (Err (InvalidReferrer referrer))
     else registerInternal E X m name deploymentID referrer s)"

fun register_all ::
    "registry_env \<Rightarrow> ('b, 't) chain \<Rightarrow> msg \<Rightarrow> (string \<times> hash) list \<Rightarrow> ('b, 't) registry_call" where
  "register_all E X m [] s = Inr s"
| "register_all E X m ((name, deploymentID) # rest) s =
     rbind (registerInternal E X m name deploymentID 0 s) (register_all E X m rest)"

definition BunkerRegistry_bulkRegister ::
    "registry_env \<Rightarrow> ('b, 't) chain \<Rightarrow> msg \<Rightarrow> string list \<Rightarrow> hash list \<Rightarrow> ('b, 't) registry_call" where
  "BunkerRegistry_bulkRegister E X m names deploymentIDs = reg_whenNotPaused X (\<lambda>s.
     if length names \<noteq> length deploymentIDs then Inl (Err ArrayLengthMismatch)
     else if length names > 20 then Inl (Err (ArrayTooLarge (length names) 20))
     else register_all E X m (zip names deploymentIDs) s)"

subsection \<open>Renewal\<close>

text \<open>The body of \<^verbatim>\<open>renew\<close> and of the loop of \<^verbatim>\<open>bulkRenew\<close>, which also takes the present for a missing expiry.\<close>

definition renew_name ::
    "bool \<Rightarrow> registry_env \<Rightarrow> ('b, 't) chain \<Rightarrow> msg \<Rightarrow> string \<Rightarrow> ('b, 't) registry_call" where
  "renew_name bulk E X m name s =
     (let h = e_keccak E name in
      if sr_owner (get_sub h s) = 0 then Inl (Err (NameNotRegistered name))
      else if sr_owner (get_sub h s) \<noteq> m_sender m then Inl (Err (NotNameOwner name (m_sender m)))
      else if isFullyExpired m h s then Inl (Err (NameExpired name))
      else
        rbind (charge E X m name s) (\<lambda>s.
        let record = get_sub h s;
            baseTime = (if (bulk \<and> sr_expiresAt record = 0) \<or> m_time m > sr_expiresAt record
                        then u_cast 48 (m_time m) else sr_expiresAt record)
        in rbind (u_add 48 baseTime (u_cast 48 (rg_expirationPeriod s))) (\<lambda>expires.
           Inr (put_sub h (record\<lparr>sr_expiresAt := expires\<rparr>) s))))"

definition BunkerRegistry_renew ::
    "registry_env \<Rightarrow> ('b, 't) chain \<Rightarrow> msg \<Rightarrow> string \<Rightarrow> ('b, 't) registry_call" where
  "BunkerRegistry_renew E X m name = reg_whenNotPaused X (renew_name False E X m name)"

fun renew_all :: "registry_env \<Rightarrow> ('b, 't) chain \<Rightarrow> msg \<Rightarrow> string list \<Rightarrow> ('b, 't) registry_call" where
  "renew_all E X m [] s = Inr s"
| "renew_all E X m (name # names) s = rbind (renew_name True E X m name s) (renew_all E X m names)"

definition BunkerRegistry_bulkRenew ::
    "registry_env \<Rightarrow> ('b, 't) chain \<Rightarrow> msg \<Rightarrow> string list \<Rightarrow> ('b, 't) registry_call" where
  "BunkerRegistry_bulkRenew E X m names = reg_whenNotPaused X (\<lambda>s.
     if length names > 20 then Inl (Err (ArrayTooLarge (length names) 20)) else renew_all E X m names s)"

subsection \<open>Reservations\<close>

definition BunkerRegistry_reserve ::
    "registry_env \<Rightarrow> ('b, 't) chain \<Rightarrow> msg \<Rightarrow> string \<Rightarrow> ('b, 't) registry_call" where
  "BunkerRegistry_reserve E X m name = reg_whenNotPaused X (\<lambda>s.
     let h = e_keccak E name; sender = m_sender m in
     rbind (validateName name) (\<lambda>_.
     if length name \<le> 3 \<and> \<not> rg_shortNamesEnabled s then Inl (Err ShortNamesDisabled)
     else if map_get False (rg_reservedNames s) h then Inl (Err (NameReserved name))
     else if length (get_owned sender s) \<ge> 100 then Inl (Err (TooManyNames sender 100))
     else
       let record = get_sub h s in
       rbind (if sr_owner record = 0 then Inr s
              else if \<not> isFullyExpired m h s \<and> (sr_reservedUntil record = 0 \<or> m_time m \<le> sr_reservedUntil record)
                then Inl (Err (NameAlreadyRegistered name))
              else Inr (removeOwnedName (sr_owner record) h s)) (\<lambda>s.
       rbind (charge E X m name s) (\<lambda>s.
       rbind (u_add 256 (m_time m) (rg_reservationPeriod s)) (\<lambda>resUntil.
       rbind (u_add 256 (m_time m) (rg_expirationPeriod s)) (\<lambda>expires.
       let s = put_sub h \<lparr> sr_owner = sender, sr_deploymentID = 0, sr_registeredAt = u_cast 48 (m_time m),
                           sr_expiresAt = u_cast 48 expires, sr_reservedUntil = u_cast 48 resUntil,
                           sr_referrer = 0 \<rparr> s
       in Inr (pushOwnedName sender h (s\<lparr>rg_nameOf := fmupd h name (rg_nameOf s)\<rparr>))))))))"

definition BunkerRegistry_claimReservation ::
    "registry_env \<Rightarrow> ('b, 't) chain \<Rightarrow> msg \<Rightarrow> string \<Rightarrow> hash \<Rightarrow> ('b, 't) registry_call" where
  "BunkerRegistry_claimReservation E X m name deploymentID = reg_whenNotPaused X (\<lambda>s.
     let h = e_keccak E name; record = get_sub h s in
     if deploymentID = 0 then Inl (Err InvalidDeploymentID)
     else if sr_owner record = 0 then Inl (Err (NameNotRegistered name))
     else if sr_owner record \<noteq> m_sender m then Inl (Err (NotReservationOwner name (m_sender m)))
     else if sr_reservedUntil record = 0 then Inl (Err (NameNotRegistered name))
     else if m_time m > sr_reservedUntil record then Inl (Err (ReservationExpired name))
     else Inr (put_sub h (record\<lparr>sr_deploymentID := deploymentID, sr_reservedUntil := 0\<rparr>) s))"

definition BunkerRegistry_cancelReservation ::
    "registry_env \<Rightarrow> ('b, 't) chain \<Rightarrow> msg \<Rightarrow> string \<Rightarrow> ('b, 't) registry_call" where
  "BunkerRegistry_cancelReservation E X m name = reg_whenNotPaused X (\<lambda>s.
     let h = e_keccak E name; record = get_sub h s in
     if sr_owner record = 0 then Inl (Err (NameNotRegistered name))
     else if sr_owner record \<noteq> m_sender m then Inl (Err (NotReservationOwner name (m_sender m)))
     else if sr_reservedUntil record = 0 then Inl (Err (NameNotRegistered name))
     else Inr (removeOwnedName (sr_owner record) h
                 (s\<lparr>rg_subdomains := fmdrop h (rg_subdomains s), rg_nameOf := fmdrop h (rg_nameOf s)\<rparr>)))"

subsection \<open>Owning a name\<close>

definition delete_name :: "address \<Rightarrow> hash \<Rightarrow> ('b, 't) BunkerRegistry \<Rightarrow> ('b, 't) BunkerRegistry" where
  "delete_name a h s =
     removeOwnedName a h
       (s\<lparr>rg_subdomains := fmdrop h (rg_subdomains s), rg_nameOf := fmdrop h (rg_nameOf s),
          rg_metadata := fmdrop h (rg_metadata s)\<rparr>)"

definition BunkerRegistry_release ::
    "registry_env \<Rightarrow> ('b, 't) chain \<Rightarrow> msg \<Rightarrow> string \<Rightarrow> ('b, 't) registry_call" where
  "BunkerRegistry_release E X m name = reg_whenNotPaused X (\<lambda>s.
     let h = e_keccak E name; record = get_sub h s in
     if sr_owner record = 0 then Inl (Err (NameNotRegistered name))
     else if sr_owner record \<noteq> m_sender m then Inl (Err (NotNameOwner name (m_sender m)))
     else Inr (delete_name (sr_owner record) h (clear_primary (sr_deploymentID record) h s)))"

definition BunkerRegistry_transfer ::
    "registry_env \<Rightarrow> ('b, 't) chain \<Rightarrow> msg \<Rightarrow> string \<Rightarrow> address \<Rightarrow> ('b, 't) registry_call" where
  "BunkerRegistry_transfer E X m name newOwner = reg_whenNotPaused X (\<lambda>s.
     let h = e_keccak E name; record = get_sub h s in
     if newOwner = 0 then Inl (Err RegInvalidAddress)
     else if newOwner = m_sender m then Inl (Err CannotTransferToSelf)
     else if length (get_owned newOwner s) \<ge> 100 then Inl (Err (TooManyNames newOwner 100))
     else if sr_owner record = 0 then Inl (Err (NameNotRegistered name))
     else if sr_owner record \<noteq> m_sender m then Inl (Err (NotNameOwner name (m_sender m)))
     else if reg_isExpired m h s then Inl (Err (NameExpired name))
     else Inr (pushOwnedName newOwner h (removeOwnedName (sr_owner record) h
                 (put_sub h (record\<lparr>sr_owner := newOwner\<rparr>) s))))"

definition owned_live ::
    "registry_env \<Rightarrow> msg \<Rightarrow> string \<Rightarrow> ('b, 't) BunkerRegistry \<Rightarrow> (registry_revert, unit) result" where
  "owned_live E m name s =
     (let h = e_keccak E name; record = get_sub h s in
      if sr_owner record = 0 then Inl (Err (NameNotRegistered name))
      else if sr_owner record \<noteq> m_sender m then Inl (Err (NotNameOwner name (m_sender m)))
      else if reg_isExpired m h s then Inl (Err (NameExpired name))
      else Inr ())"

definition BunkerRegistry_updateDeployment ::
    "registry_env \<Rightarrow> ('b, 't) chain \<Rightarrow> msg \<Rightarrow> string \<Rightarrow> hash \<Rightarrow> ('b, 't) registry_call" where
  "BunkerRegistry_updateDeployment E X m name newDeploymentID = reg_whenNotPaused X (\<lambda>s.
     let h = e_keccak E name in
     if newDeploymentID = 0 then Inl (Err InvalidDeploymentID)
     else
       rbind (owned_live E m name s) (\<lambda>_.
       rbind (if rg_changeFee s > 0 then collectFee X (m_sender m) (rg_changeFee s) 0 0 s else Inr s) (\<lambda>s.
       let record = get_sub h s in
       Inr (put_sub h (record\<lparr>sr_deploymentID := newDeploymentID\<rparr>) (clear_primary (sr_deploymentID record) h s)))))"

definition BunkerRegistry_setMetadata ::
    "registry_env \<Rightarrow> ('b, 't) chain \<Rightarrow> msg \<Rightarrow> string \<Rightarrow> string \<Rightarrow> string \<Rightarrow> ('b, 't) registry_call" where
  "BunkerRegistry_setMetadata E X m name description avatarURL = reg_whenNotPaused X (\<lambda>s.
     if length description > 160 then Inl (Err (MetadataDescriptionTooLong (length description) 160))
     else if length avatarURL > 256 then Inl (Err (MetadataAvatarURLTooLong (length avatarURL) 256))
     else
       rbind (owned_live E m name s) (\<lambda>_.
       rbind (if rg_changeFee s > 0 then collectFee X (m_sender m) (rg_changeFee s) 0 0 s else Inr s) (\<lambda>s.
       Inr (s\<lparr>rg_metadata := fmupd (e_keccak E name) \<lparr> md_description = description, md_avatarURL = avatarURL \<rparr>
                               (rg_metadata s)\<rparr>))))"

definition squatted :: "msg \<Rightarrow> hash \<Rightarrow> ('b, 't) BunkerRegistry \<Rightarrow> bool" where
  "squatted m h s \<longleftrightarrow>
     (let record = get_sub h s in
      (sr_reservedUntil record > 0 \<and> m_time m > sr_reservedUntil record) \<or>
      (sr_deploymentID record = 0 \<and> sr_reservedUntil record = 0 \<and>
       m_time m > sr_registeredAt record + rg_squattingGracePeriod s))"

definition BunkerRegistry_reclaimSquatted ::
    "registry_env \<Rightarrow> ('b, 't) chain \<Rightarrow> msg \<Rightarrow> string \<Rightarrow> ('b, 't) registry_call" where
  "BunkerRegistry_reclaimSquatted E X m name = reg_whenNotPaused X (\<lambda>s.
     let h = e_keccak E name; record = get_sub h s in
     if sr_owner record = 0 then Inl (Err (NameNotSquatted name))
     else if \<not> squatted m h s then Inl (Err (NameNotSquatted name))
     else Inr (delete_name (sr_owner record) h s))"

definition BunkerRegistry_setPrimaryName ::
    "registry_env \<Rightarrow> ('b, 't) chain \<Rightarrow> msg \<Rightarrow> string \<Rightarrow> ('b, 't) registry_call" where
  "BunkerRegistry_setPrimaryName E X m name = reg_whenNotPaused X (\<lambda>s.
     let h = e_keccak E name; record = get_sub h s in
     rbind (owned_live E m name s) (\<lambda>_.
     if sr_deploymentID record = 0 then Inl (Err InvalidDeploymentID)
     else Inr (s\<lparr>rg_primaryName := fmupd (sr_deploymentID record) h (rg_primaryName s)\<rparr>)))"

subsection \<open>Views\<close>

definition BunkerRegistry_resolve ::
    "registry_env \<Rightarrow> string \<Rightarrow> ('b, 't) BunkerRegistry \<Rightarrow> address \<times> hash \<times> nat" where
  "BunkerRegistry_resolve E name s =
     (let record = get_sub (e_keccak E name) s in (sr_owner record, sr_deploymentID record, sr_registeredAt record))"

definition BunkerRegistry_isAvailable :: "registry_env \<Rightarrow> msg \<Rightarrow> string \<Rightarrow> ('b, 't) BunkerRegistry \<Rightarrow> bool" where
  "BunkerRegistry_isAvailable E m name s \<longleftrightarrow>
     (let h = e_keccak E name; record = get_sub h s in
      sr_owner record = 0 \<or> isFullyExpired m h s \<or>
      (sr_reservedUntil record > 0 \<and> m_time m > sr_reservedUntil record))"

definition BunkerRegistry_reverseResolve :: "hash \<Rightarrow> ('b, 't) BunkerRegistry \<Rightarrow> string" where
  "BunkerRegistry_reverseResolve deploymentID s =
     (let h = map_get 0 (rg_primaryName s) deploymentID in
      if h = 0 then '''' else map_get '''' (rg_nameOf s) h)"

definition BunkerRegistry_nameCount :: "address \<Rightarrow> ('b, 't) BunkerRegistry \<Rightarrow> nat" where
  "BunkerRegistry_nameCount a s = length (get_owned a s)"

definition BunkerRegistry_calculatePrice ::
    "registry_env \<Rightarrow> string \<Rightarrow> address \<Rightarrow> ('b, 't) BunkerRegistry \<Rightarrow> (registry_revert, nat) result" where
  "BunkerRegistry_calculatePrice E name user s =
     rbind (reg_calculatePrice name s) (\<lambda>price. applyStakingDiscount E price user s)"

subsection \<open>Administration\<close>

definition BunkerRegistry_setRegistrationFee :: "('b, 't) chain \<Rightarrow> msg \<Rightarrow> nat \<Rightarrow> ('b, 't) registry_call" where
  "BunkerRegistry_setRegistrationFee X m newFee = reg_onlyOwner X m (\<lambda>s.
     if newFee > 0 \<and> newFee < 1000 * 10 ^ 18 then Inl (Err (FeeBelowMinimum newFee (1000 * 10 ^ 18)))
     else Inr (s\<lparr>rg_registrationFee := newFee\<rparr>))"

definition BunkerRegistry_setTreasury :: "('b, 't) chain \<Rightarrow> msg \<Rightarrow> address \<Rightarrow> ('b, 't) registry_call" where
  "BunkerRegistry_setTreasury X m newTreasury = reg_onlyOwner X m (\<lambda>s.
     if newTreasury = 0 then Inl (Err RegInvalidAddress) else Inr (s\<lparr>rg_treasury := newTreasury\<rparr>))"

definition BunkerRegistry_setChangeFee :: "('b, 't) chain \<Rightarrow> msg \<Rightarrow> nat \<Rightarrow> ('b, 't) registry_call" where
  "BunkerRegistry_setChangeFee X m fee = reg_onlyOwner X m (\<lambda>s.
     if fee > 0 \<and> fee < 1000 * 10 ^ 18 then Inl (Err (FeeBelowMinimum fee (1000 * 10 ^ 18)))
     else Inr (s\<lparr>rg_changeFee := fee\<rparr>))"

definition BunkerRegistry_setExpirationPeriod :: "('b, 't) chain \<Rightarrow> msg \<Rightarrow> nat \<Rightarrow> ('b, 't) registry_call" where
  "BunkerRegistry_setExpirationPeriod X m period = reg_onlyOwner X m (\<lambda>s.
     if period < 30 * 86400 \<or> period > 3650 * 86400 then Inl (Err InvalidPeriod)
     else Inr (s\<lparr>rg_expirationPeriod := period\<rparr>))"

definition BunkerRegistry_setGracePeriod :: "('b, 't) chain \<Rightarrow> msg \<Rightarrow> nat \<Rightarrow> ('b, 't) registry_call" where
  "BunkerRegistry_setGracePeriod X m period = reg_onlyOwner X m (\<lambda>s.
     if period < 7 * 86400 \<or> period > 90 * 86400 then Inl (Err InvalidPeriod)
     else Inr (s\<lparr>rg_gracePeriod := period\<rparr>))"

definition BunkerRegistry_setReservationPeriod :: "('b, 't) chain \<Rightarrow> msg \<Rightarrow> nat \<Rightarrow> ('b, 't) registry_call" where
  "BunkerRegistry_setReservationPeriod X m period = reg_onlyOwner X m (\<lambda>s.
     if period < 3600 \<or> period > 7 * 86400 then Inl (Err InvalidPeriod)
     else Inr (s\<lparr>rg_reservationPeriod := period\<rparr>))"

definition BunkerRegistry_setSquattingGracePeriod :: "('b, 't) chain \<Rightarrow> msg \<Rightarrow> nat \<Rightarrow> ('b, 't) registry_call" where
  "BunkerRegistry_setSquattingGracePeriod X m period = reg_onlyOwner X m (\<lambda>s.
     if period < 86400 \<or> period > 30 * 86400 then Inl (Err InvalidPeriod)
     else Inr (s\<lparr>rg_squattingGracePeriod := period\<rparr>))"

definition BunkerRegistry_setReferralDiscountBps :: "('b, 't) chain \<Rightarrow> msg \<Rightarrow> nat \<Rightarrow> ('b, 't) registry_call" where
  "BunkerRegistry_setReferralDiscountBps X m bps = reg_onlyOwner X m (\<lambda>s.
     if bps > 2000 then Inl (Err InvalidPeriod) else Inr (s\<lparr>rg_referralDiscountBps := bps\<rparr>))"

definition BunkerRegistry_setReferralRewardBps :: "('b, 't) chain \<Rightarrow> msg \<Rightarrow> nat \<Rightarrow> ('b, 't) registry_call" where
  "BunkerRegistry_setReferralRewardBps X m bps = reg_onlyOwner X m (\<lambda>s.
     if bps > 1000 then Inl (Err InvalidPeriod) else Inr (s\<lparr>rg_referralRewardBps := bps\<rparr>))"

definition BunkerRegistry_setStakingContract :: "('b, 't) chain \<Rightarrow> msg \<Rightarrow> address \<Rightarrow> ('b, 't) registry_call" where
  "BunkerRegistry_setStakingContract X m addr = reg_onlyOwner X m (\<lambda>s.
     Inr (s\<lparr>rg_stakingContract := addr\<rparr>))"

definition BunkerRegistry_setShortNamesEnabled :: "('b, 't) chain \<Rightarrow> msg \<Rightarrow> bool \<Rightarrow> ('b, 't) registry_call" where
  "BunkerRegistry_setShortNamesEnabled X m enabled = reg_onlyOwner X m (\<lambda>s.
     Inr (s\<lparr>rg_shortNamesEnabled := enabled\<rparr>))"

definition BunkerRegistry_setReservedName ::
    "registry_env \<Rightarrow> ('b, 't) chain \<Rightarrow> msg \<Rightarrow> string \<Rightarrow> bool \<Rightarrow> ('b, 't) registry_call" where
  "BunkerRegistry_setReservedName E X m name reserved = reg_onlyOwner X m (\<lambda>s.
     Inr (s\<lparr>rg_reservedNames := fmupd (e_keccak E name) reserved (rg_reservedNames s)\<rparr>))"

definition BunkerRegistry_batchReserveNames ::
    "registry_env \<Rightarrow> ('b, 't) chain \<Rightarrow> msg \<Rightarrow> string list \<Rightarrow> ('b, 't) registry_call" where
  "BunkerRegistry_batchReserveNames E X m names = reg_onlyOwner X m (\<lambda>s.
     Inr (s\<lparr>rg_reservedNames := fold (\<lambda>name. fmupd (e_keccak E name) True) names (rg_reservedNames s)\<rparr>))"

definition BunkerRegistry_pause :: "('b, 't) chain \<Rightarrow> msg \<Rightarrow> ('b, 't) registry_call" where
  "BunkerRegistry_pause X m = reg_onlyOwner X m (\<lambda>s.
     rbind (of_call (x_pause X (rg_base s)) BaseRevert) (\<lambda>b. Inr (s\<lparr>rg_base := b\<rparr>)))"

definition BunkerRegistry_unpause :: "('b, 't) chain \<Rightarrow> msg \<Rightarrow> ('b, 't) registry_call" where
  "BunkerRegistry_unpause X m = reg_onlyOwner X m (\<lambda>s.
     rbind (of_call (x_unpause X (rg_base s)) BaseRevert) (\<lambda>b. Inr (s\<lparr>rg_base := b\<rparr>)))"

subsection \<open>The contract as a machine\<close>

text \<open>Every transaction carries the environment it runs in: a staking contract may answer differently each time.
  The last two operations are what happens elsewhere: ownership changes, and tokens that others move.\<close>

datatype ('b, 't) registry_op =
    RegRegister string hash
  | RegReferral string hash address
  | RegBulk "string list" "hash list"
  | RegRenew string
  | RegBulkRenew "string list"
  | RegReserve string
  | RegClaim string hash
  | RegCancel string
  | RegRelease string
  | RegTransfer string address
  | RegUpdate string hash
  | RegMetadata string string string
  | RegReclaim string
  | RegPrimary string
  | RegSetFee nat
  | RegSetTreasury address
  | RegSetChangeFee nat
  | RegSetExpiration nat
  | RegSetGrace nat
  | RegSetReservation nat
  | RegSetSquatting nat
  | RegSetDiscount nat
  | RegSetReward nat
  | RegSetStaking address
  | RegSetShort bool
  | RegSetReserved string bool
  | RegBatchReserve "string list"
  | RegPause
  | RegUnpause
  | RegEnvBase 'b
  | RegEnvLedger 't

fun registry_call ::
    "registry_env \<Rightarrow> ('b, 't) chain \<Rightarrow> msg \<Rightarrow> ('b, 't) registry_op \<Rightarrow> ('b, 't) registry_call" where
  "registry_call E X m (RegRegister a b) s = BunkerRegistry_register E X m a b s"
| "registry_call E X m (RegReferral a b c) s = BunkerRegistry_registerWithReferral E X m a b c s"
| "registry_call E X m (RegBulk a b) s = BunkerRegistry_bulkRegister E X m a b s"
| "registry_call E X m (RegRenew a) s = BunkerRegistry_renew E X m a s"
| "registry_call E X m (RegBulkRenew a) s = BunkerRegistry_bulkRenew E X m a s"
| "registry_call E X m (RegReserve a) s = BunkerRegistry_reserve E X m a s"
| "registry_call E X m (RegClaim a b) s = BunkerRegistry_claimReservation E X m a b s"
| "registry_call E X m (RegCancel a) s = BunkerRegistry_cancelReservation E X m a s"
| "registry_call E X m (RegRelease a) s = BunkerRegistry_release E X m a s"
| "registry_call E X m (RegTransfer a b) s = BunkerRegistry_transfer E X m a b s"
| "registry_call E X m (RegUpdate a b) s = BunkerRegistry_updateDeployment E X m a b s"
| "registry_call E X m (RegMetadata a b c) s = BunkerRegistry_setMetadata E X m a b c s"
| "registry_call E X m (RegReclaim a) s = BunkerRegistry_reclaimSquatted E X m a s"
| "registry_call E X m (RegPrimary a) s = BunkerRegistry_setPrimaryName E X m a s"
| "registry_call E X m (RegSetFee a) s = BunkerRegistry_setRegistrationFee X m a s"
| "registry_call E X m (RegSetTreasury a) s = BunkerRegistry_setTreasury X m a s"
| "registry_call E X m (RegSetChangeFee a) s = BunkerRegistry_setChangeFee X m a s"
| "registry_call E X m (RegSetExpiration a) s = BunkerRegistry_setExpirationPeriod X m a s"
| "registry_call E X m (RegSetGrace a) s = BunkerRegistry_setGracePeriod X m a s"
| "registry_call E X m (RegSetReservation a) s = BunkerRegistry_setReservationPeriod X m a s"
| "registry_call E X m (RegSetSquatting a) s = BunkerRegistry_setSquattingGracePeriod X m a s"
| "registry_call E X m (RegSetDiscount a) s = BunkerRegistry_setReferralDiscountBps X m a s"
| "registry_call E X m (RegSetReward a) s = BunkerRegistry_setReferralRewardBps X m a s"
| "registry_call E X m (RegSetStaking a) s = BunkerRegistry_setStakingContract X m a s"
| "registry_call E X m (RegSetShort a) s = BunkerRegistry_setShortNamesEnabled X m a s"
| "registry_call E X m (RegSetReserved a b) s = BunkerRegistry_setReservedName E X m a b s"
| "registry_call E X m (RegBatchReserve a) s = BunkerRegistry_batchReserveNames E X m a s"
| "registry_call E X m RegPause s = BunkerRegistry_pause X m s"
| "registry_call E X m RegUnpause s = BunkerRegistry_unpause X m s"
| "registry_call E X m (RegEnvBase a) s = Inr (s\<lparr>rg_base := a\<rparr>)"
| "registry_call E X m (RegEnvLedger a) s = Inr (s\<lparr>rg_ledger := a\<rparr>)"

definition registry_step ::
    "('b, 't) chain \<Rightarrow> registry_env \<times> msg \<times> ('b, 't) registry_op \<Rightarrow> ('b, 't) BunkerRegistry \<Rightarrow> ('b, 't) BunkerRegistry" where
  "registry_step X tx s = (case tx of (E, m, op) \<Rightarrow> commit s (registry_call E X m op s))"

end
