(* ===== verification/Bunker_Registry_Names.thy ===== *)
theory Bunker_Registry_Names
  imports Bunker_Registry "HOL-Library.Multiset" "HOL-Library.Sublist"
begin

text \<open>
  What the subdomain registry promises: its lists of owned names are exact, a record changes only by its
  owner or once it has lapsed, and a fee is split without remainder.
\<close>

subsection \<open>Storage\<close>

text \<open>The settings that the administration changes and the calls of users do not.\<close>

definition settings :: "('b, 't) BunkerRegistry \<Rightarrow> nat \<times> nat \<times> nat \<times> nat" where
  "settings s = (rg_gracePeriod s, rg_squattingGracePeriod s, rg_referralDiscountBps s, rg_referralRewardBps s)"

lemma get_sub_simps [simp]:
  "get_sub h (put_sub k r s) = (if h = k then r else get_sub h s)"
  "get_sub h (put_owned a hs s) = get_sub h s"
  "get_owned a (put_owned b hs s) = (if a = b then hs else get_owned a s)"
  "get_owned a (put_sub k r s) = get_owned a s"
  by (simp_all add: get_sub_def put_sub_def get_owned_def put_owned_def)

lemma get_sub_drop:
  "get_sub h (s\<lparr>rg_subdomains := fmdrop k (rg_subdomains s)\<rparr>) = (if h = k then zero_subdomain else get_sub h s)"
  by (simp add: get_sub_def)

lemma field_updates [simp]:
  "get_sub h (s\<lparr>rg_nameOf := n\<rparr>) = get_sub h s" "get_owned a (s\<lparr>rg_nameOf := n\<rparr>) = get_owned a s"
  "get_sub h (s\<lparr>rg_metadata := d\<rparr>) = get_sub h s" "get_owned a (s\<lparr>rg_metadata := d\<rparr>) = get_owned a s"
  "get_sub h (s\<lparr>rg_ledger := t\<rparr>) = get_sub h s" "get_owned a (s\<lparr>rg_ledger := t\<rparr>) = get_owned a s"
  "get_sub h (s\<lparr>rg_primaryName := p\<rparr>) = get_sub h s" "get_owned a (s\<lparr>rg_primaryName := p\<rparr>) = get_owned a s"
  "get_owned a (s\<lparr>rg_subdomains := u\<rparr>) = get_owned a s"
  by (simp_all add: get_sub_def get_owned_def)

lemma settings_updates [simp]:
  "settings (s\<lparr>rg_nameOf := n\<rparr>) = settings s" "settings (s\<lparr>rg_metadata := d\<rparr>) = settings s"
  "settings (s\<lparr>rg_ledger := t\<rparr>) = settings s" "settings (s\<lparr>rg_primaryName := p\<rparr>) = settings s"
  "settings (s\<lparr>rg_subdomains := u\<rparr>) = settings s" "settings (put_sub k r s) = settings s"
  "settings (put_owned a hs s) = settings s"
  by (simp_all add: settings_def put_sub_def put_owned_def)

lemma clear_primary_simps [simp]:
  "get_sub h (clear_primary d k s) = get_sub h s" "get_owned a (clear_primary d k s) = get_owned a s"
  "settings (clear_primary d k s) = settings s"
  by (simp_all add: clear_primary_def)

lemma owned_simps [simp]:
  "get_sub h (removeOwnedName a k s) = get_sub h s" "get_sub h (pushOwnedName a k s) = get_sub h s"
  "get_owned b (removeOwnedName a k s) = (if b = a then swap_pop k (get_owned b s) else get_owned b s)"
  "get_owned b (pushOwnedName a k s) = get_owned b s @ (if b = a then [k] else [])"
  by (auto simp: removeOwnedName_def pushOwnedName_def)

lemma owned_settings [simp]:
  "settings (removeOwnedName a k s) = settings s" "settings (pushOwnedName a k s) = settings s"
  by (simp_all add: removeOwnedName_def pushOwnedName_def)

lemma zero_subdomain_simps [simp]: "sr_owner zero_subdomain = 0"
  by (simp add: zero_subdomain_def)

subsection \<open>Removing by swapping with the last\<close>

lemma mset_swap_pop: "mset (swap_pop h xs) = mset xs - {#h#}"
proof (cases "h \<in> set xs")
  case True
  define i where "i = length (takeWhile (\<lambda>x. x \<noteq> h) xs)"
  have i: "i < length xs" using True unfolding i_def by (induction xs) auto
  have at: "xs ! i = h" using nth_length_takeWhile [of "\<lambda>x. x \<noteq> h" xs] i by (simp add: i_def)
  let ?ys = "xs[i := last xs]"
  have ne: "?ys \<noteq> []" "last ?ys = last xs"
    using i by (cases "xs = []"; auto simp: last_list_update)+
  have "mset (butlast ?ys @ [last ?ys]) = mset ?ys" by (rule arg_cong [OF append_butlast_last_id [OF ne(1)]])
  then have "add_mset (last xs) (mset (butlast ?ys)) = mset ?ys" by (simp add: ne(2))
  also have "mset ?ys = add_mset (last xs) (mset xs - {#h#})" using i at by (simp add: mset_update)
  finally show ?thesis using i by (simp add: swap_pop_def i_def [symmetric])
next
  case False
  then have "length (takeWhile (\<lambda>x. x \<noteq> h) xs) = length xs" by (induction xs) auto
  with False show ?thesis by (simp add: swap_pop_def diff_single_trivial)
qed

lemma swap_pop_distinct:
  assumes "distinct xs"
  shows "distinct (swap_pop h xs)" "set (swap_pop h xs) = set xs - {h}" "length (swap_pop h xs) \<le> length xs"
proof -
  have m: "mset (swap_pop h xs) = mset (remove1 h xs)" by (simp add: mset_swap_pop)
  show "distinct (swap_pop h xs)" using assms mset_eq_imp_distinct_iff [OF m] by simp
  show "set (swap_pop h xs) = set xs - {h}" using assms mset_eq_setD [OF m] by simp
  show "length (swap_pop h xs) \<le> length xs" using mset_eq_length [OF m] by (simp add: length_remove1)
qed

subsection \<open>The books\<close>

definition books :: "('b, 't) BunkerRegistry \<Rightarrow> bool" where
  "books s \<longleftrightarrow>
     (\<forall>a h. h \<in> set (get_owned a s) \<longleftrightarrow> a \<noteq> 0 \<and> sr_owner (get_sub h s) = a) \<and>
     (\<forall>a. distinct (get_owned a s) \<and> length (get_owned a s) \<le> 100)"

lemma books_same:
  assumes "books s" "\<And>h. sr_owner (get_sub h s') = sr_owner (get_sub h s)" "\<And>a. get_owned a s' = get_owned a s"
  shows "books s'"
  using assms by (simp add: books_def)

text \<open>The one change the contract makes: a name leaves the list of its owner, and enters that of the next, if any.\<close>

lemma books_move:
  assumes "books s"
    and sub: "\<And>k. sr_owner (get_sub k s') = (if k = h then n else sr_owner (get_sub k s))"
    and owned: "\<And>a. get_owned a s' =
          (if sr_owner (get_sub h s) \<noteq> 0 \<and> a = sr_owner (get_sub h s) then swap_pop h (get_owned a s)
           else get_owned a s) @ (if n \<noteq> 0 \<and> a = n then [h] else [])"
    and room: "n \<noteq> 0 \<Longrightarrow> length (get_owned n s) < 100"
  shows "books s'"
proof -
  let ?o = "sr_owner (get_sub h s)"
  have dist: "distinct (get_owned a s)" "length (get_owned a s) \<le> 100" for a using assms(1) by (auto simp: books_def)
  have mem: "h \<in> set (get_owned a s) \<longleftrightarrow> a \<noteq> 0 \<and> ?o = a" for a using assms(1) by (simp add: books_def)
  define rest where "rest a = (if ?o \<noteq> 0 \<and> a = ?o then swap_pop h (get_owned a s) else get_owned a s)" for a
  have rest: "set (rest a) = set (get_owned a s) - {h}" "distinct (rest a)" "length (rest a) \<le> length (get_owned a s)" for a
    using swap_pop_distinct [OF dist(1), of h a] dist(1) mem [of a] by (auto simp: rest_def)
  have owned': "get_owned a s' = rest a @ (if n \<noteq> 0 \<and> a = n then [h] else [])" for a
    by (simp add: owned rest_def)
  have "k \<in> set (get_owned a s') \<longleftrightarrow> a \<noteq> 0 \<and> sr_owner (get_sub k s') = a" for a k
    using assms(1) rest(1) [of a] by (auto simp: owned' sub books_def)
  moreover have "distinct (get_owned a s')" for a using rest(1,2) [of a] by (simp add: owned')
  moreover have "length (get_owned a s') \<le> 100" for a
    using rest(3) [of a] dist(2) [of a] room by (auto simp: owned')
  ultimately show ?thesis by (simp add: books_def)
qed

subsection \<open>Steps\<close>

definition lapsed :: "msg \<Rightarrow> hash \<Rightarrow> ('b, 't) BunkerRegistry \<Rightarrow> bool" where
  "lapsed m h s \<longleftrightarrow> isFullyExpired m h s \<or> squatted m h s"

definition may_change :: "msg \<Rightarrow> hash \<Rightarrow> ('b, 't) BunkerRegistry \<Rightarrow> bool" where
  "may_change m h s \<longleftrightarrow> sr_owner (get_sub h s) = 0 \<or> sr_owner (get_sub h s) = m_sender m \<or> lapsed m h s"

definition name_step :: "msg \<Rightarrow> ('b, 't) BunkerRegistry \<Rightarrow> ('b, 't) BunkerRegistry \<Rightarrow> bool" where
  "name_step m s s' \<longleftrightarrow>
     (m_sender m \<noteq> 0 \<longrightarrow> books s \<longrightarrow> books s') \<and> (\<forall>h. get_sub h s' = get_sub h s \<or> may_change m h s) \<and>
     settings s' = settings s"

lemma may_change_cong:
  "get_sub h s' = get_sub h s \<Longrightarrow> settings s' = settings s \<Longrightarrow> may_change m h s' = may_change m h s"
  by (simp add: settings_def may_change_def lapsed_def isFullyExpired_def squatted_def)

lemma name_step_refl [simp]: "name_step m s s"
  by (simp add: name_step_def)

lemma name_step_trans: "name_step m s s1 \<Longrightarrow> name_step m s1 s2 \<Longrightarrow> name_step m s s2"
  unfolding name_step_def using may_change_cong by metis

lemma name_step_move:
  assumes "may_change m h s" "\<And>k. k \<noteq> h \<Longrightarrow> get_sub k s' = get_sub k s"
    and "\<And>a. m_sender m \<noteq> 0 \<Longrightarrow> get_owned a s' =
          (if sr_owner (get_sub h s) \<noteq> 0 \<and> a = sr_owner (get_sub h s) then swap_pop h (get_owned a s)
           else get_owned a s) @ (if sr_owner (get_sub h s') \<noteq> 0 \<and> a = sr_owner (get_sub h s') then [h] else [])"
    and "sr_owner (get_sub h s') \<noteq> 0 \<Longrightarrow> length (get_owned (sr_owner (get_sub h s')) s) < 100"
    and "settings s' = settings s"
  shows "name_step m s s'"
proof -
  have "books s'" if "m_sender m \<noteq> 0" "books s"
    using that assms(2) by (intro books_move [OF \<open>books s\<close> _ assms(3,4)]) auto
  moreover have "get_sub k s' = get_sub k s \<or> may_change m k s" for k using assms(1,2) by (cases "k = h") auto
  ultimately show ?thesis using assms(5) by (simp add: name_step_def)
qed

lemma name_step_same:
  assumes "\<And>h. get_sub h s' = get_sub h s \<or> (may_change m h s \<and> sr_owner (get_sub h s') = sr_owner (get_sub h s))"
    and "\<And>a. get_owned a s' = get_owned a s"
    and "settings s' = settings s"
  shows "name_step m s s'"
proof -
  have "sr_owner (get_sub h s') = sr_owner (get_sub h s)" for h using assms(1) [of h] by auto
  then have "books s'" if "books s" using that assms(2) by (intro books_same [of s s'])
  then show ?thesis using assms by (auto simp: name_step_def)
qed

lemma collectFee_frame: "collectFee X p n r w s = Inr s' \<Longrightarrow> \<exists>t. s' = s\<lparr>rg_ledger := t\<rparr>"
  by (cases s) (auto simp: collectFee_def Let_def call_simps split: if_splits)

lemma charge_frame: "charge E X m name s = Inr s' \<Longrightarrow> \<exists>t. s' = s\<lparr>rg_ledger := t\<rparr>"
  by (auto simp: charge_def call_simps dest: collectFee_frame)

lemma claimableD:
  assumes "claimable m h name s = Inr s'"
  shows "may_change m h s" "get_sub k s' = get_sub k s"
    and "get_owned a s' = (if sr_owner (get_sub h s) \<noteq> 0 \<and> a = sr_owner (get_sub h s) then swap_pop h (get_owned a s)
           else get_owned a s)"
    and "settings s' = settings s"
  using assms
  by (auto simp: claimable_def may_change_def lapsed_def squatted_def Let_def split: if_splits)

lemma registerInternal_step:
  assumes "registerInternal E X m name d r s = Inr s'"
  shows "name_step m s s'"
proof -
  let ?h = "e_keccak E name"
  from assms obtain s1 s2 e where room: "length (get_owned (m_sender m) s) < 100" and s1: "claimable m ?h name s = Inr s1"
    and s2: "register_fee E X m name r s1 = Inr s2"
    and s': "s' = pushOwnedName (m_sender m) ?h
        ((put_sub ?h \<lparr> sr_owner = m_sender m, sr_deploymentID = d, sr_registeredAt = u_cast 48 (m_time m),
                       sr_expiresAt = e, sr_reservedUntil = 0, sr_referrer = r \<rparr> s2)
         \<lparr>rg_nameOf := fmupd ?h name (rg_nameOf (put_sub ?h \<lparr> sr_owner = m_sender m, sr_deploymentID = d,
            sr_registeredAt = u_cast 48 (m_time m), sr_expiresAt = e, sr_reservedUntil = 0, sr_referrer = r \<rparr> s2))\<rparr>)"
    unfolding registerInternal_def Let_def rbind_Inr_iff by (auto simp: rbind_Inr_iff split: if_splits)
  from s2 obtain t where "s2 = s1\<lparr>rg_ledger := t\<rparr>"
    by (auto simp: register_fee_def call_simps dest!: collectFee_frame split: if_splits)
  with s' claimableD [OF s1] room show ?thesis
    by (intro name_step_move [of m ?h]) auto
qed

lemma register_all_step: "register_all E X m xs s = Inr s' \<Longrightarrow> name_step m s s'"
proof (induction E X m xs s rule: register_all.induct)
  case (2 E X m name d rest s)
  then show ?case by (auto simp: rbind_Inr_iff intro: name_step_trans registerInternal_step)
qed simp

lemma renew_name_step:
  assumes "renew_name b E X m name s = Inr s'"
  shows "name_step m s s'"
proof -
  let ?h = "e_keccak E name"
  from assms obtain s1 e where own: "sr_owner (get_sub ?h s) = m_sender m" and s1: "charge E X m name s = Inr s1"
    and s': "s' = put_sub ?h ((get_sub ?h s1)\<lparr>sr_expiresAt := e\<rparr>) s1"
    by (auto simp: renew_name_def Let_def rbind_Inr_iff split: if_splits)
  from charge_frame [OF s1] obtain t where "s1 = s\<lparr>rg_ledger := t\<rparr>" by blast
  with s' own show ?thesis by (intro name_step_same) (auto simp: may_change_def)
qed

lemma renew_all_step: "renew_all E X m xs s = Inr s' \<Longrightarrow> name_step m s s'"
proof (induction E X m xs s rule: renew_all.induct)
  case (2 E X m name rest s)
  then show ?case by (auto simp: rbind_Inr_iff intro: name_step_trans renew_name_step)
qed simp

lemma reserve_step:
  assumes "BunkerRegistry_reserve E X m name s = Inr s'"
  shows "name_step m s s'"
proof -
  let ?h = "e_keccak E name"
  from assms obtain s1 s2 r where room: "length (get_owned (m_sender m) s) < 100"
    and s1: "(if sr_owner (get_sub ?h s) = 0 then Inr s
              else if \<not> isFullyExpired m ?h s \<and> (sr_reservedUntil (get_sub ?h s) = 0 \<or> m_time m \<le> sr_reservedUntil (get_sub ?h s))
                then Inl (Err (NameAlreadyRegistered name))
              else Inr (removeOwnedName (sr_owner (get_sub ?h s)) ?h s)) = Inr s1"
    and s2: "charge E X m name s1 = Inr s2" and r: "sr_owner r = m_sender m"
    and s': "s' = pushOwnedName (m_sender m) ?h ((put_sub ?h r s2)\<lparr>rg_nameOf := fmupd ?h name (rg_nameOf (put_sub ?h r s2))\<rparr>)"
    unfolding BunkerRegistry_reserve_def reg_whenNotPaused_def Let_def rbind_Inr_iff
    by (auto simp only: rbind_Inr_iff not_le split: if_split_asm) (auto intro!: that)
  from charge_frame [OF s2] obtain t where t: "s2 = s1\<lparr>rg_ledger := t\<rparr>" by blast
  have "may_change m ?h s" and "\<And>k. get_sub k s1 = get_sub k s"
    and "\<And>a. get_owned a s1 = (if sr_owner (get_sub ?h s) \<noteq> 0 \<and> a = sr_owner (get_sub ?h s)
           then swap_pop ?h (get_owned a s) else get_owned a s)"
    and "settings s1 = settings s"
    using s1 by (auto simp: may_change_def lapsed_def squatted_def Let_def split: if_splits)
  with t s' r room show ?thesis by (intro name_step_move [of m ?h]) auto
qed

text \<open>Deleting a name and every call that only its owner may make.\<close>

lemma delete_name_step:
  assumes "may_change m h s" "sr_owner (get_sub h s) = a" "a \<noteq> 0"
  shows "name_step m s (delete_name a h s)"
    and "name_step m s (removeOwnedName a h (s\<lparr>rg_subdomains := fmdrop h (rg_subdomains s), rg_nameOf := n\<rparr>))"
  using assms by (auto intro!: name_step_move [of m h] simp: delete_name_def get_sub_drop)

lemma owned_liveD: "owned_live E m name s = Inr u \<Longrightarrow> sr_owner (get_sub (e_keccak E name) s) = m_sender m"
  by (auto simp: owned_live_def Let_def split: if_splits)

lemma change_fee_frame:
  "(if rg_changeFee s > 0 then collectFee X p (rg_changeFee s) 0 0 s else Inr s) = Inr s' \<Longrightarrow> \<exists>t. s' = s\<lparr>rg_ledger := t\<rparr>"
  by (cases s) (auto dest: collectFee_frame split: if_splits)

lemma updateDeployment_step:
  assumes "BunkerRegistry_updateDeployment E X m name d s = Inr s'"
  shows "name_step m s s'"
proof -
  let ?h = "e_keccak E name"
  from assms obtain s1 where own: "sr_owner (get_sub ?h s) = m_sender m"
    and s1: "(if rg_changeFee s > 0 then collectFee X (m_sender m) (rg_changeFee s) 0 0 s else Inr s) = Inr s1"
    and s': "s' = put_sub ?h ((get_sub ?h s1)\<lparr>sr_deploymentID := d\<rparr>) (clear_primary (sr_deploymentID (get_sub ?h s1)) ?h s1)"
    unfolding BunkerRegistry_updateDeployment_def reg_whenNotPaused_def Let_def
    by (auto simp only: rbind_Inr_iff split: if_split_asm dest!: owned_liveD) (auto intro!: that)
  from change_fee_frame [OF s1] obtain t where "s1 = s\<lparr>rg_ledger := t\<rparr>" by blast
  with s' own show ?thesis by (intro name_step_same) (auto simp: may_change_def)
qed

lemma setMetadata_step:
  assumes "BunkerRegistry_setMetadata E X m name d a s = Inr s'"
  shows "name_step m s s'"
proof -
  from assms obtain s1 x where
      s1: "(if rg_changeFee s > 0 then collectFee X (m_sender m) (rg_changeFee s) 0 0 s else Inr s) = Inr s1"
    and s': "s' = s1\<lparr>rg_metadata := x\<rparr>"
    unfolding BunkerRegistry_setMetadata_def reg_whenNotPaused_def Let_def
    by (auto simp only: rbind_Inr_iff split: if_split_asm) (auto intro!: that)
  from change_fee_frame [OF s1] obtain t where "s1 = s\<lparr>rg_ledger := t\<rparr>" by blast
  with s' show ?thesis by (intro name_step_same) auto
qed

lemma owner_call_step:
  "BunkerRegistry_claimReservation E X m name d s = Inr s' \<Longrightarrow> name_step m s s'"
  "BunkerRegistry_cancelReservation E X m name s = Inr s' \<Longrightarrow> name_step m s s'"
  "BunkerRegistry_setPrimaryName E X m name s = Inr s' \<Longrightarrow> name_step m s s'"
  "BunkerRegistry_reclaimSquatted E X m name s = Inr s' \<Longrightarrow> name_step m s s'"
  subgoal by (auto simp: BunkerRegistry_claimReservation_def reg_whenNotPaused_def Let_def may_change_def
        intro!: name_step_same split: if_splits)
  subgoal by (auto simp: BunkerRegistry_cancelReservation_def reg_whenNotPaused_def Let_def may_change_def
        intro!: delete_name_step(2) split: if_splits)
  subgoal by (auto simp: BunkerRegistry_setPrimaryName_def reg_whenNotPaused_def Let_def call_simps
        intro!: name_step_same split: if_splits)
  subgoal by (auto simp: BunkerRegistry_reclaimSquatted_def reg_whenNotPaused_def Let_def may_change_def lapsed_def
        intro!: delete_name_step(1) split: if_splits)
  done

lemma release_step:
  assumes "BunkerRegistry_release E X m name s = Inr s'"
  shows "name_step m s s'"
proof -
  let ?h = "e_keccak E name"
  define s1 where "s1 = clear_primary (sr_deploymentID (get_sub ?h s)) ?h s"
  have "name_step m s s1" by (intro name_step_same) (simp_all add: s1_def)
  moreover have "sr_owner (get_sub ?h s1) = m_sender m" "m_sender m \<noteq> 0" "s' = delete_name (sr_owner (get_sub ?h s1)) ?h s1"
    using assms by (auto simp: BunkerRegistry_release_def reg_whenNotPaused_def Let_def s1_def split: if_splits)
  ultimately show ?thesis using delete_name_step(1) [of m ?h s1] name_step_trans by (auto simp: may_change_def)
qed

lemma transfer_step:
  assumes "BunkerRegistry_transfer E X m name a s = Inr s'"
  shows "name_step m s s'"
  using assms
  by (auto simp: BunkerRegistry_transfer_def reg_whenNotPaused_def Let_def may_change_def
      intro!: name_step_move [of m "e_keccak E name"] split: if_splits)

subsection \<open>Every transaction\<close>

definition registry_inv :: "('b, 't) BunkerRegistry \<Rightarrow> bool" where
  "registry_inv s \<longleftrightarrow> books s \<and> rg_referralDiscountBps s \<le> 2000 \<and> rg_referralRewardBps s \<le> 1000"

lemmas admin_defs = reg_onlyOwner_def BunkerRegistry_setRegistrationFee_def BunkerRegistry_setTreasury_def
  BunkerRegistry_setChangeFee_def BunkerRegistry_setExpirationPeriod_def BunkerRegistry_setGracePeriod_def
  BunkerRegistry_setReservationPeriod_def BunkerRegistry_setSquattingGracePeriod_def
  BunkerRegistry_setReferralDiscountBps_def BunkerRegistry_setReferralRewardBps_def
  BunkerRegistry_setStakingContract_def BunkerRegistry_setShortNamesEnabled_def BunkerRegistry_setReservedName_def
  BunkerRegistry_batchReserveNames_def BunkerRegistry_pause_def BunkerRegistry_unpause_def

definition name_change :: "msg \<Rightarrow> ('b, 't) BunkerRegistry \<Rightarrow> ('b, 't) BunkerRegistry \<Rightarrow> bool" where
  "name_change m s s' \<longleftrightarrow>
     (m_sender m \<noteq> 0 \<longrightarrow> registry_inv s \<longrightarrow> registry_inv s') \<and> (\<forall>h. get_sub h s' = get_sub h s \<or> may_change m h s)"

lemma name_step_change: "name_step m s s' \<Longrightarrow> name_change m s s'"
  by (simp add: name_step_def name_change_def registry_inv_def settings_def)

lemma name_change_admin:
  assumes "rg_subdomains s' = rg_subdomains s" "rg_ownedNames s' = rg_ownedNames s"
    and "rg_referralDiscountBps s' \<le> max 2000 (rg_referralDiscountBps s)"
    and "rg_referralRewardBps s' \<le> max 1000 (rg_referralRewardBps s)"
  shows "name_change m s s'"
  using assms by (auto simp: name_change_def registry_inv_def books_def get_sub_def get_owned_def)

lemma user_call_step:
  "BunkerRegistry_register E X m n d s = Inr s' \<Longrightarrow> name_step m s s'"
  "BunkerRegistry_registerWithReferral E X m n d r s = Inr s' \<Longrightarrow> name_step m s s'"
  "BunkerRegistry_bulkRegister E X m ns ds s = Inr s' \<Longrightarrow> name_step m s s'"
  "BunkerRegistry_renew E X m n s = Inr s' \<Longrightarrow> name_step m s s'"
  "BunkerRegistry_bulkRenew E X m ns s = Inr s' \<Longrightarrow> name_step m s s'"
  by (auto simp: BunkerRegistry_register_def BunkerRegistry_registerWithReferral_def BunkerRegistry_bulkRegister_def
      BunkerRegistry_renew_def BunkerRegistry_bulkRenew_def reg_whenNotPaused_def
      dest: registerInternal_step register_all_step renew_name_step renew_all_step split: if_splits)

lemmas call_step = user_call_step owner_call_step reserve_step release_step transfer_step updateDeployment_step
  setMetadata_step

lemma registry_call_change:
  assumes "registry_call E X m op s = Inr s'"
  shows "name_change m s s'"
proof (cases "name_step m s s'")
  case True
  then show ?thesis by (rule name_step_change)
next
  case False
  with assms show ?thesis
    by (cases op) (auto simp: admin_defs call_simps dest: call_step intro!: name_change_admin split: if_splits)
qed

lemma registry_step_change: "name_change m s (registry_step X (E, m, op) s)"
  using registry_call_change [of E X m op s]
  by (cases "registry_call E X m op s") (auto simp: registry_step_def name_change_def)

interpretation registry_runs: guarded_machine "registry_step X" "\<lambda>tx _. m_sender (fst (snd tx)) \<noteq> 0" registry_inv for X
proof
  fix s :: "('a, 'b) BunkerRegistry" and tx :: "registry_env \<times> msg \<times> ('a, 'b) registry_op"
  assume "registry_inv s" "m_sender (fst (snd tx)) \<noteq> 0"
  then show "registry_inv (registry_step X tx s)"
    using registry_step_change [of "fst (snd tx)" s X "fst tx" "snd (snd tx)"] by (simp add: name_change_def)
qed

lemma constructor_inv:
  "BunkerRegistry_constructor token treasury fee stk base ledger = Inr s \<Longrightarrow> registry_inv s"
  by (auto simp: BunkerRegistry_constructor_def registry_inv_def books_def get_owned_def get_sub_def zero_subdomain_def
      split: if_splits)

text \<open>C4. The registry's books are exact.  After any sequence of transactions the list of an address holds exactly the
  names whose record it owns, each once, so the name count is their number, and it never exceeds 100.\<close>

theorem registry_books_exact:
  assumes "BunkerRegistry_constructor token treasury fee stk base ledger = Inr s0"
    and "list_all (\<lambda>tx. m_sender (fst (snd tx)) \<noteq> 0) txs" "s = fold (registry_step X) txs s0" "a \<noteq> 0"
  shows "set (get_owned a s) = {h. sr_owner (get_sub h s) = a} \<and>
         BunkerRegistry_nameCount a s = card {h. sr_owner (get_sub h s) = a} \<and> BunkerRegistry_nameCount a s \<le> 100"
proof -
  have "registry_inv s"
    unfolding assms(3) using assms(1,2) by (intro registry_runs.run_inv constructor_inv) auto
  then have "set (get_owned a s) = {h. sr_owner (get_sub h s) = a}" "distinct (get_owned a s)" "length (get_owned a s) \<le> 100"
    using assms(4) by (auto simp: registry_inv_def books_def)
  then show ?thesis by (auto simp: BunkerRegistry_nameCount_def dest: distinct_card)
qed

text \<open>C8. Nobody touches a name of somebody else: a transaction changes the record of a registered name only if its
  owner sends it, or the name has run out its grace period, or its reservation has expired, or it
  has stayed without a deployment beyond the squatting period.\<close>

theorem record_changes_only_by_owner:
  assumes "get_sub h (registry_step X (E, m, op) s) \<noteq> get_sub h s" "sr_owner (get_sub h s) \<noteq> 0"
    and "sr_owner (get_sub h s) \<noteq> m_sender m"
  shows "isFullyExpired m h s \<or> squatted m h s"
  using registry_step_change [of m s X E op] assms by (auto simp: name_change_def may_change_def lapsed_def)

text \<open>The split of a referred registration never underflows: after any sequence of transactions, burn share and
  reward together stay within the discounted price.\<close>

theorem referral_split_covered:
  assumes "BunkerRegistry_constructor token treasury fee stk base ledger = Inr s0"
    and "list_all (\<lambda>tx. m_sender (fst (snd tx)) \<noteq> 0) txs" "s = fold (registry_step X) txs s0"
    and "applyReferralDiscount price s = Inr (discounted, reward)"
  shows "discounted * 8000 div 10000 + reward \<le> discounted"
proof -
  have "registry_inv s"
    unfolding assms(3) using assms(1,2) by (intro registry_runs.run_inv constructor_inv) auto
  then have "price * rg_referralDiscountBps s \<le> price * 2000" "price * rg_referralRewardBps s \<le> price * 1000"
    by (auto simp: registry_inv_def)
  moreover have "discounted = price - price * rg_referralDiscountBps s div 10000"
    "reward = price * rg_referralRewardBps s div 10000"
    using assms(4) by (auto simp: applyReferralDiscount_def call_simps)
  ultimately show ?thesis by linarith
qed

text \<open>Pointing a reserved name at a deployment with an update, which costs the change fee, does not claim it: when
  the reservation runs out anyone can still take the name away, with its deployment.\<close>

theorem updated_reservation_is_lost:
  assumes "BunkerRegistry_updateDeployment E X m name d s = Inr s1"
    and "0 < sr_reservedUntil (get_sub (e_keccak E name) s)" "sr_reservedUntil (get_sub (e_keccak E name) s) < m_time m'"
    and "\<not> x_paused X (rg_base s1)"
  shows "sr_deploymentID (get_sub (e_keccak E name) s1) = d \<and>
         (\<exists>s2. BunkerRegistry_reclaimSquatted E X m' name s1 = Inr s2 \<and> sr_owner (get_sub (e_keccak E name) s2) = 0)"
proof -
  let ?h = "e_keccak E name"
  from assms(1) obtain s0 where own: "sr_owner (get_sub ?h s) = m_sender m" "sr_owner (get_sub ?h s) \<noteq> 0"
    and s0: "(if rg_changeFee s > 0 then collectFee X (m_sender m) (rg_changeFee s) 0 0 s else Inr s) = Inr s0"
    and s1: "s1 = put_sub ?h ((get_sub ?h s0)\<lparr>sr_deploymentID := d\<rparr>) (clear_primary (sr_deploymentID (get_sub ?h s0)) ?h s0)"
    unfolding BunkerRegistry_updateDeployment_def reg_whenNotPaused_def Let_def
    by (auto simp only: rbind_Inr_iff owned_live_def Let_def split: if_split_asm) (auto intro!: that)
  from change_fee_frame [OF s0] obtain t where "s0 = s\<lparr>rg_ledger := t\<rparr>" by blast
  with s1 have rec: "get_sub ?h s1 = (get_sub ?h s)\<lparr>sr_deploymentID := d\<rparr>" by simp
  then have "squatted m' ?h s1" using assms(2,3) by (simp add: squatted_def Let_def)
  then show ?thesis
    using rec own assms(4)
    by (simp add: BunkerRegistry_reclaimSquatted_def reg_whenNotPaused_def delete_name_def get_sub_drop Let_def)
qed

subsection \<open>Names and fees\<close>

text \<open>The loop accepts exactly what its comment describes: lower-case letters, digits and hyphens, no
  hyphen at either end and no two in a row.\<close>

definition name_char :: "char \<Rightarrow> bool" where
  "name_char c \<longleftrightarrow> isAlphanumeric c \<or> of_char c = (0x2D :: nat)"

lemma middle_ok_iff:
  "middle_ok b cs \<longleftrightarrow> list_all name_char cs \<and> (b \<longrightarrow> cs = [] \<or> of_char (hd cs) \<noteq> (0x2D :: nat)) \<and>
     successively (\<lambda>c d. \<not> (of_char c = (0x2D :: nat) \<and> of_char d = (0x2D :: nat))) cs"
proof (induction cs arbitrary: b)
  case (Cons c cs)
  then show ?case by (cases cs) (auto simp: name_char_def Let_def)
qed simp

text \<open>A fee leaves nothing in the contract.\<close>

lemma fee_passes_through:
  assumes "erc20_ok X" "collectFee X payer amount referrer reward s = Inr s'" "payer \<noteq> x_this X"
    and "rg_treasury s \<noteq> x_this X" "referrer \<noteq> x_this X"
  shows "x_balanceOf X (rg_ledger s') (x_this X) = x_balanceOf X (rg_ledger s) (x_this X)"
proof (cases "amount = 0")
  case True
  with assms(2) show ?thesis by (simp add: collectFee_def)
next
  case False
  let ?burn = "amount * 8000 div 10000" and ?b = "\<lambda>t. x_balanceOf X t (x_this X)"
  from assms(2) False obtain t1 t2 t3 where
      t1: "x_transferFrom X (x_this X) payer (x_this X) amount (rg_ledger s) = Some t1"
    and le: "?burn \<le> amount" "reward \<le> amount - ?burn"
    and t2: "(if ?burn > 0 then of_call (x_burn X (x_this X) ?burn t1) TokenRevert else Inr t1) = (Inr t2 :: (registry_revert, 'b) result)"
    and t3: "token_transfer X (rg_treasury s) (amount - ?burn - reward) t2 = Inr t3"
    and t4: "token_transfer X referrer reward t3 = Inr (rg_ledger s')"
    by (auto simp: collectFee_def Let_def call_simps)
  have "?b t1 = ?b (rg_ledger s) + amount"
    using transferFromD(2) [OF assms(1) t1] assms(3) by (simp add: moved_def)
  moreover have "?b t2 = ?b t1 - ?burn"
    using t2 burnD(2) [OF assms(1)] by (auto simp: call_simps split: if_splits)
  moreover have "?b t3 = ?b t2 - (amount - ?burn - reward)"
    using t3 transferD(2) [OF assms(1)] assms(4) by (auto simp: token_transfer_def call_simps moved_def split: if_splits)
  moreover have "?b (rg_ledger s') = ?b t3 - reward"
    using t4 transferD(2) [OF assms(1)] assms(5) by (auto simp: token_transfer_def call_simps moved_def split: if_splits)
  ultimately show ?thesis using le by linarith
qed

subsection \<open>Examples\<close>

definition example_env :: registry_env where
  "example_env = \<lparr> e_keccak = (\<lambda>name. word_of_nat (length name)), e_getTier = (\<lambda>_ _. TierReverts) \<rparr>"

definition example_registry :: "(unit, address \<Rightarrow> nat) BunkerRegistry" where
  "example_registry =
     \<lparr> rg_treasury = 50, rg_registrationFee = 0, rg_stakingContract = 0, rg_expirationPeriod = 365 * 86400,
       rg_gracePeriod = 30 * 86400, rg_reservationPeriod = 48 * 3600, rg_changeFee = 10000 * 10 ^ 18,
       rg_referralDiscountBps = 1000, rg_referralRewardBps = 500, rg_squattingGracePeriod = 7 * 86400,
       rg_shortNamesEnabled = False, rg_reservedNames = fmempty, rg_subdomains = fmempty, rg_nameOf = fmempty,
       rg_ownedNames = fmempty, rg_metadata = fmempty, rg_primaryName = fmempty, rg_base = (),
       rg_ledger = (\<lambda>_. 10 ^ 30) \<rparr>"

lemma example_constructed: "BunkerRegistry_constructor 1 50 0 0 () (\<lambda>_. 10 ^ 30) = Inr example_registry"
  by (simp add: BunkerRegistry_constructor_def example_registry_def)

lemma example_name: "validateName ''atlas'' = Inr ()"
  by (simp add: validateName_def isAlphanumeric_def)

lemmas registry_eval = registry_step_def commit_def reg_whenNotPaused_def registerInternal_def claimable_def register_fee_def
  charge_def reg_calculatePrice_def applyStakingDiscount_def collectFee_def pushOwnedName_def put_owned_def get_owned_def
  put_sub_def get_sub_def zero_subdomain_def removeOwnedName_def swap_pop_def isFullyExpired_def clear_primary_def
  u_add_def u_cast_def Let_def

definition example_registered :: "(unit, address \<Rightarrow> nat) BunkerRegistry" where
  "example_registered = example_registry
     \<lparr>rg_subdomains := fmupd 5 \<lparr> sr_owner = 7, sr_deploymentID = 9, sr_registeredAt = 1000, sr_expiresAt = 31537000,
                                 sr_reservedUntil = 0, sr_referrer = 0 \<rparr> fmempty,
      rg_nameOf := fmupd 5 ''atlas'' fmempty, rg_ownedNames := fmupd 7 [5] fmempty\<rparr>"

definition example_txs :: "(registry_env \<times> msg \<times> (unit, address \<Rightarrow> nat) registry_op) list" where
  "example_txs = [(example_env, \<lparr> m_sender = 7, m_time = 1000 \<rparr>, RegRegister ''atlas'' 9)]"

lemma example_run: "fold (registry_step (plain_chain 99)) example_txs example_registry = example_registered"
  by (simp add: example_txs_def example_registered_def BunkerRegistry_register_def example_name registry_eval
      example_env_def example_registry_def plain_chain_def)

theorem registry_books_exact_witness:
  "BunkerRegistry_nameCount 7 example_registered = card {h. sr_owner (get_sub h example_registered) = 7} \<and>
   BunkerRegistry_nameCount 7 example_registered \<le> 100"
  using registry_books_exact [OF example_constructed, of example_txs example_registered "plain_chain 99" 7] example_run
  by (simp add: example_txs_def)

theorem record_changes_only_by_owner_witness:
  "isFullyExpired \<lparr> m_sender = 8, m_time = 40000000 \<rparr> 5 example_registered \<or>
   squatted \<lparr> m_sender = 8, m_time = 40000000 \<rparr> 5 example_registered"
proof (rule record_changes_only_by_owner)
  show "get_sub 5 (registry_step (plain_chain 99)
      (example_env, \<lparr> m_sender = 8, m_time = 40000000 \<rparr>, RegRegister ''atlas'' 11) example_registered) \<noteq> get_sub 5 example_registered"
    by (simp add: example_registered_def BunkerRegistry_register_def example_name registry_eval
        example_env_def example_registry_def plain_chain_def)
qed (simp_all add: example_registered_def get_sub_def)

theorem referral_split_covered_witness:
  "(900 :: nat) * 8000 div 10000 + 50 \<le> 900 \<and> applyReferralDiscount 1000 example_registered = Inr (900, 50)"
proof -
  have d: "applyReferralDiscount 1000 example_registered = Inr (900, 50)"
    by (simp add: applyReferralDiscount_def example_registered_def example_registry_def u_mul_def u_sub_def)
  from referral_split_covered [OF example_constructed, of example_txs example_registered "plain_chain 99" 1000 900 50]
  show ?thesis using example_run d by (simp add: example_txs_def)
qed

definition example_reserved :: "(unit, address \<Rightarrow> nat) BunkerRegistry" where
  "example_reserved = example_registered
     \<lparr>rg_changeFee := 0, rg_subdomains := fmupd 5 \<lparr> sr_owner = 7, sr_deploymentID = 0, sr_registeredAt = 1000,
        sr_expiresAt = 31537000, sr_reservedUntil = 173800, sr_referrer = 0 \<rparr> fmempty\<rparr>"

theorem updated_reservation_is_lost_witness:
  "\<exists>s1 s2. BunkerRegistry_updateDeployment example_env (plain_chain 99) \<lparr> m_sender = 7, m_time = 2000 \<rparr> ''atlas'' 9 example_reserved
      = Inr s1 \<and> BunkerRegistry_reclaimSquatted example_env (plain_chain 99) \<lparr> m_sender = 8, m_time = 200000 \<rparr> ''atlas'' s1 = Inr s2"
proof -
  let ?m = "\<lparr> m_sender = 7, m_time = 2000 \<rparr> :: msg"
  obtain s1 where s1: "BunkerRegistry_updateDeployment example_env (plain_chain 99) ?m ''atlas'' 9 example_reserved = Inr s1"
    by (simp add: BunkerRegistry_updateDeployment_def owned_live_def reg_isExpired_def registry_eval
        example_reserved_def example_registered_def example_registry_def example_env_def plain_chain_def)
  moreover have "\<not> x_paused (plain_chain 99) (rg_base s1)" by (simp add: plain_chain_def)
  ultimately show ?thesis
    using updated_reservation_is_lost [OF s1, of "\<lparr> m_sender = 8, m_time = 200000 \<rparr>"]
    by (auto simp: example_reserved_def example_env_def get_sub_def)
qed

end
