(* ===== verification/Gossip.thy ===== *)
theory Gossip
  imports Router
begin

text \<open>
  The gossip protocol that spreads node state between peers
  (\<^verbatim>\<open>src/internal/p2p/gossip.go\<close>) and the authorization callback the daemon installs on it
  (\<^verbatim>\<open>NewGossipStateValidator\<close> of \<^verbatim>\<open>src/internal/daemon/gossip_adapter.go\<close>).
  An untyped Go value is a \<open>gvalue\<close>: the shapes \<^verbatim>\<open>encoding/json\<close> decodes to, and the
  \<^verbatim>\<open>*ServiceEntry\<close> a local caller stores.  A Go map inside such a value is the list of its
  pairs in the order in which the loop visits them.  The JSON codec and the connection to a
  peer are fields of a \<open>gossip_env\<close>; the orders of the loops over the protocol's own maps are
  arguments.
\<close>

subsection \<open>Values\<close>

record ServiceEntry =
  se_DeploymentID :: string
  se_ProviderNodeID :: string
  se_ProviderAddr :: string
  se_ContainerPort :: int
  se_HostPort :: int
  se_LastSeen :: time
  se_RuntimeType :: string

datatype gvalue =
    GNil | GBool bool | GNum real | GStr string
  | GArr "gvalue list" | GObj "(string \<times> gvalue) list"
  | GEntry ServiceEntry

definition hex_digit :: "nat \<Rightarrow> char" where
  "hex_digit n = ''0123456789abcdef'' ! n"

definition hex_encode :: "byte list \<Rightarrow> string" where
  "hex_encode bs = concat (map (\<lambda>b. [hex_digit (unat b div 16), hex_digit (unat b mod 16)]) bs)"

definition node_bytes :: "node_id \<Rightarrow> byte list" where
  "node_bytes n = map (\<lambda>i. ucast (drop_bit (8 * (31 - i)) n)) [0..<32]"

definition NodeID_String :: "node_id \<Rightarrow> string" where
  "NodeID_String n = hex_encode (node_bytes n)"

subsection \<open>The protocol's state\<close>

definition maxStateEntries :: nat where "maxStateEntries = 10000"
definition maxPeers :: nat where "maxPeers = 1000"
definition maxStateValueSize :: nat where "maxStateValueSize = 64 * 1024"

type_synonym StateValidator = "node_id \<Rightarrow> string \<Rightarrow> gvalue \<Rightarrow> bool"

record stateEntry =
  st_Value :: gvalue
  st_LastUpdated :: time

record GossipPeer =
  gpe_Node :: Node
  gpe_LastGossip :: time
  gpe_LastSeen :: time
  gpe_StateHash :: "byte list"

record GossipMessage =
  gm_Type :: string
  gm_Key :: string
  gm_Value :: gvalue
  gm_Timestamp :: time
  gm_From :: node_id

record GossipProtocol =
  gp_stakeVerifier :: "StakeVerifier option"
  gp_stateValidator :: "StateValidator option"
  gp_state :: "(string, stateEntry) gomap"
  gp_peers :: "(node_id, GossipPeer) gomap"
  gp_gossipInterval :: duration

record gossip_env =
  ge_marshal :: "gvalue \<Rightarrow> byte list option"
  ge_marshalMsg :: "GossipMessage \<Rightarrow> byte list option"
  ge_unmarshalMsg :: "byte list \<Rightarrow> GossipMessage option"
  ge_send :: "node_id \<Rightarrow> byte list \<Rightarrow> bool"

datatype gossip_error = UnstakedSender | BadGossipPayload

definition NewGossipProtocol :: GossipProtocol where
  "NewGossipProtocol =
     \<lparr>gp_stakeVerifier = None, gp_stateValidator = None, gp_state = fmempty,
      gp_peers = fmempty, gp_gossipInterval = 10 * Second\<rparr>"

definition GossipProtocol_SetStateValidator :: "StateValidator option \<Rightarrow> GossipProtocol \<Rightarrow> GossipProtocol" where
  "GossipProtocol_SetStateValidator v gp = gp\<lparr>gp_stateValidator := v\<rparr>"

definition GossipProtocol_SetStakeVerifier :: "StakeVerifier option \<Rightarrow> GossipProtocol \<Rightarrow> GossipProtocol" where
  "GossipProtocol_SetStakeVerifier sv gp = gp\<lparr>gp_stakeVerifier := sv\<rparr>"

text \<open>Consulting the optional stake verifier, whose cache the call may fill.\<close>

definition gossip_staked :: "time \<Rightarrow> node_id \<Rightarrow> GossipProtocol \<Rightarrow> bool \<times> GossipProtocol" where
  "gossip_staked now n gp =
     (case gp_stakeVerifier gp of
        None \<Rightarrow> (True, gp)
      | Some sv \<Rightarrow>
          let (ok, sv') = StakeVerifier_IsStaked now n sv
          in (ok, gp\<lparr>gp_stakeVerifier := Some sv'\<rparr>))"

subsection \<open>Sending\<close>

definition state_update :: "time \<Rightarrow> (string \<times> gvalue) list \<Rightarrow> GossipMessage" where
  "state_update now kvs =
     \<lparr>gm_Type = ''state_update'', gm_Key = '''', gm_Value = GObj kvs,
      gm_Timestamp = now, gm_From = 0\<rparr>"

definition state_copy :: "string list \<Rightarrow> (string, stateEntry) gomap \<Rightarrow> (string \<times> gvalue) list" where
  "state_copy sks st =
     List.map_filter (\<lambda>k. map_option (\<lambda>entry. (k, st_Value entry)) (fmlookup st k)) sks"

definition GossipProtocol_sendGossip ::
  "gossip_env \<Rightarrow> time \<Rightarrow> string list \<Rightarrow> node_id \<Rightarrow> GossipPeer \<Rightarrow> GossipProtocol
   \<Rightarrow> (node_id \<times> byte list) list \<times> GossipProtocol" where
  "GossipProtocol_sendGossip env now sks nodeID peer gp =
     (case ge_marshalMsg env (state_update now (state_copy sks (gp_state gp))) of
        None \<Rightarrow> ([], gp)
      | Some msgData \<Rightarrow>
          if ge_send env (n_ID (gpe_Node peer)) msgData
          then ([(n_ID (gpe_Node peer), msgData)],
                gp\<lparr>gp_peers := fmupd nodeID (peer\<lparr>gpe_LastGossip := now\<rparr>) (gp_peers gp)\<rparr>)
          else ([], gp))"

fun GossipProtocol_gossip ::
  "gossip_env \<Rightarrow> time \<Rightarrow> node_id list \<Rightarrow> string list \<Rightarrow> GossipProtocol
   \<Rightarrow> (node_id \<times> byte list) list \<times> GossipProtocol" where
  "GossipProtocol_gossip env now [] sks gp = ([], gp)"
| "GossipProtocol_gossip env now (p # pks) sks gp =
     (case fmlookup (gp_peers gp) p of
        None \<Rightarrow> GossipProtocol_gossip env now pks sks gp
      | Some peer \<Rightarrow>
          let (staked, gp1) = gossip_staked now (n_ID (gpe_Node peer)) gp;
              (out, gp2) = (if staked then GossipProtocol_sendGossip env now sks p peer gp1
                            else ([], gp1));
              (rest, gp3) = GossipProtocol_gossip env now pks sks gp2
          in (out @ rest, gp3))"

subsection \<open>Eviction, local updates and expiry\<close>

definition oldest_step ::
  "('a \<Rightarrow> time) \<Rightarrow> ('k, 'a) gomap \<Rightarrow> 'k \<Rightarrow> ('k \<times> time) option \<Rightarrow> ('k \<times> time) option" where
  "oldest_step tm m k best =
     (case fmlookup m k of
        None \<Rightarrow> best
      | Some e \<Rightarrow>
          (case best of
             None \<Rightarrow> Some (k, tm e)
           | Some (_, oldestTime) \<Rightarrow> if tm e < oldestTime then Some (k, tm e) else best))"

definition drop_oldest :: "('a \<Rightarrow> time) \<Rightarrow> 'k list \<Rightarrow> ('k, 'a) gomap \<Rightarrow> ('k, 'a) gomap" where
  "drop_oldest tm ks m =
     (case fold (oldest_step tm m) ks None of
        None \<Rightarrow> m | Some (oldestKey, _) \<Rightarrow> fmdrop oldestKey m)"

definition GossipProtocol_evictOldestStateLocked :: "string list \<Rightarrow> GossipProtocol \<Rightarrow> GossipProtocol" where
  "GossipProtocol_evictOldestStateLocked ks gp =
     gp\<lparr>gp_state := drop_oldest st_LastUpdated ks (gp_state gp)\<rparr>"

definition store_local :: "time \<Rightarrow> string list \<Rightarrow> string \<Rightarrow> gvalue \<Rightarrow> GossipProtocol \<Rightarrow> GossipProtocol" where
  "store_local now eks key value gp =
     (let gp = (if fmlookup (gp_state gp) key = None \<and> maxStateEntries \<le> mlen (gp_state gp)
                then GossipProtocol_evictOldestStateLocked eks gp else gp)
      in gp\<lparr>gp_state := fmupd key \<lparr>st_Value = value, st_LastUpdated = now\<rparr> (gp_state gp)\<rparr>)"

definition GossipProtocol_UpdateState ::
  "gossip_env \<Rightarrow> time \<Rightarrow> string list \<Rightarrow> node_id list \<Rightarrow> string list \<Rightarrow> string \<Rightarrow> gvalue \<Rightarrow> GossipProtocol
   \<Rightarrow> (node_id \<times> byte list) list \<times> GossipProtocol" where
  "GossipProtocol_UpdateState env now eks pks sks key value gp =
     GossipProtocol_gossip env now pks sks (store_local now eks key value gp)"

definition GossipProtocol_CleanStaleState :: "time \<Rightarrow> duration \<Rightarrow> GossipProtocol \<Rightarrow> GossipProtocol" where
  "GossipProtocol_CleanStaleState now maxAge gp =
     (let cutoff = now - maxAge
      in gp\<lparr>gp_state :=
              fmfilter (\<lambda>k. \<not> (case fmlookup (gp_state gp) k of
                                 None \<Rightarrow> False | Some entry \<Rightarrow> st_LastUpdated entry < cutoff))
                (gp_state gp)\<rparr>)"

definition GossipProtocol_RemoveLocalState ::
  "gossip_env \<Rightarrow> time \<Rightarrow> node_id list \<Rightarrow> GossipProtocol
   \<Rightarrow> (node_id \<times> byte list) list \<times> GossipProtocol" where
  "GossipProtocol_RemoveLocalState env now pks gp =
     GossipProtocol_gossip env now pks [] (gp\<lparr>gp_state := fmempty\<rparr>)"

definition GossipProtocol_GetState :: "string \<Rightarrow> GossipProtocol \<Rightarrow> gvalue option" where
  "GossipProtocol_GetState key gp = map_option st_Value (fmlookup (gp_state gp) key)"

definition GossipProtocol_GetStateByPrefix :: "string \<Rightarrow> GossipProtocol \<Rightarrow> (string, gvalue) gomap" where
  "GossipProtocol_GetStateByPrefix pre gp =
     fmmap st_Value
       (fmfilter (\<lambda>k. length pre \<le> length k \<and> take (length pre) k = pre) (gp_state gp))"

subsection \<open>Receiving\<close>

definition merge_entry ::
  "gossip_env \<Rightarrow> time \<Rightarrow> StateValidator option \<Rightarrow> node_id \<Rightarrow> string \<times> gvalue
   \<Rightarrow> (string, stateEntry) gomap \<Rightarrow> (string, stateEntry) gomap" where
  "merge_entry env now validator senderID kv st =
     (let (k, v) = kv
      in case ge_marshal env v of
           None \<Rightarrow> st
         | Some valBytes \<Rightarrow>
             if maxStateValueSize < length valBytes then st
             else if (case validator of None \<Rightarrow> False | Some f \<Rightarrow> \<not> f senderID k v) then st
             else if fmlookup st k \<noteq> None \<or> mlen st < maxStateEntries
             then fmupd k \<lparr>st_Value = v, st_LastUpdated = now\<rparr> st
             else st)"

definition GossipProtocol_HandleGossipMessage ::
  "gossip_env \<Rightarrow> time \<Rightarrow> byte list \<Rightarrow> Node option \<Rightarrow> GossipProtocol
   \<Rightarrow> gossip_error option \<times> GossipProtocol" where
  "GossipProtocol_HandleGossipMessage env now payload sender gp =
     (let (ok, gp) = (case sender of
                        None \<Rightarrow> (True, gp) | Some node \<Rightarrow> gossip_staked now (n_ID node) gp)
      in if \<not> ok then (Some UnstakedSender, gp)
         else case ge_unmarshalMsg env payload of
                None \<Rightarrow> (Some BadGossipPayload, gp)
              | Some gossipMsg \<Rightarrow>
                  if gm_Type gossipMsg \<noteq> ''state_update'' then (None, gp)
                  else (case gm_Value gossipMsg of
                          GObj stateMap \<Rightarrow>
                            let senderID = (case sender of None \<Rightarrow> 0 | Some node \<Rightarrow> n_ID node)
                            in (None, gp\<lparr>gp_state :=
                                  fold (merge_entry env now (gp_stateValidator gp) senderID)
                                    stateMap (gp_state gp)\<rparr>)
                        | _ \<Rightarrow> (None, gp)))"

subsection \<open>The peers of the protocol\<close>

definition GossipProtocol_evictLeastRecentPeerLocked :: "node_id list \<Rightarrow> GossipProtocol \<Rightarrow> GossipProtocol" where
  "GossipProtocol_evictLeastRecentPeerLocked ks gp =
     gp\<lparr>gp_peers := drop_oldest gpe_LastSeen ks (gp_peers gp)\<rparr>"

definition GossipProtocol_AddPeer :: "time \<Rightarrow> node_id list \<Rightarrow> Node \<Rightarrow> GossipProtocol \<Rightarrow> GossipProtocol" where
  "GossipProtocol_AddPeer now eks node gp =
     (case fmlookup (gp_peers gp) (n_ID node) of
        Some peer \<Rightarrow>
          gp\<lparr>gp_peers := fmupd (n_ID node) (peer\<lparr>gpe_Node := node, gpe_LastSeen := now\<rparr>) (gp_peers gp)\<rparr>
      | None \<Rightarrow>
          let gp = (if maxPeers \<le> mlen (gp_peers gp)
                    then GossipProtocol_evictLeastRecentPeerLocked eks gp else gp)
          in gp\<lparr>gp_peers := fmupd (n_ID node)
                  \<lparr>gpe_Node = node, gpe_LastGossip = now, gpe_LastSeen = now, gpe_StateHash = []\<rparr>
                  (gp_peers gp)\<rparr>)"

definition GossipProtocol_RemovePeer :: "node_id \<Rightarrow> GossipProtocol \<Rightarrow> GossipProtocol" where
  "GossipProtocol_RemovePeer nodeID gp = gp\<lparr>gp_peers := fmdrop nodeID (gp_peers gp)\<rparr>"

subsection \<open>The daemon's validator\<close>

definition validateExposeEntry :: "node_id \<Rightarrow> gvalue \<Rightarrow> bool" where
  "validateExposeEntry senderID value =
     (case value of
        GNil \<Rightarrow> True
      | GEntry v \<Rightarrow> se_ProviderNodeID v \<noteq> '''' \<and> se_ProviderNodeID v = NodeID_String senderID
      | GObj v \<Rightarrow>
          (case map_of v ''provider_node_id'' of
             Some (GStr nid) \<Rightarrow> nid \<noteq> '''' \<and> nid = NodeID_String senderID
           | _ \<Rightarrow> False)
      | _ \<Rightarrow> False)"

definition NewGossipStateValidator :: "node_id \<Rightarrow> StateValidator" where
  "NewGossipStateValidator localNodeID = (\<lambda>senderID key value.
     if senderID = 0 then True
     else if has_prefix key ''expose:'' then validateExposeEntry senderID value
     else if has_prefix key ''subdomain:'' then False
     else True)"

subsection \<open>The protocol as a machine\<close>

text \<open>
  The operations other goroutines call, and the two tickers of \<^verbatim>\<open>Start\<close>.  The guard says that
  the orders of the loops visit each key of the map once.
\<close>

datatype gossip_op =
    GTick time "node_id list" "string list"
  | GCleanTick time
  | GUpdate time "string list" "node_id list" "string list" string gvalue
  | GRemoveLocal time "node_id list"
  | GReceive time "byte list" "Node option"
  | GAddPeer time "node_id list" Node
  | GRemovePeer node_id
  | GSetValidator "StateValidator option"
  | GSetVerifier "StakeVerifier option"

definition gossip_step :: "gossip_env \<Rightarrow> gossip_op \<Rightarrow> GossipProtocol \<Rightarrow> GossipProtocol" where
  "gossip_step env op gp =
     (case op of
        GTick now pks sks \<Rightarrow> snd (GossipProtocol_gossip env now pks sks gp)
      | GCleanTick now \<Rightarrow> GossipProtocol_CleanStaleState now (30 * Minute) gp
      | GUpdate now eks pks sks key v \<Rightarrow> snd (GossipProtocol_UpdateState env now eks pks sks key v gp)
      | GRemoveLocal now pks \<Rightarrow> snd (GossipProtocol_RemoveLocalState env now pks gp)
      | GReceive now payload sender \<Rightarrow> snd (GossipProtocol_HandleGossipMessage env now payload sender gp)
      | GAddPeer now eks node \<Rightarrow> GossipProtocol_AddPeer now eks node gp
      | GRemovePeer n \<Rightarrow> GossipProtocol_RemovePeer n gp
      | GSetValidator v \<Rightarrow> GossipProtocol_SetStateValidator v gp
      | GSetVerifier sv \<Rightarrow> GossipProtocol_SetStakeVerifier sv gp)"

fun gossip_op_ok :: "gossip_op \<Rightarrow> GossipProtocol \<Rightarrow> bool" where
  "gossip_op_ok (GUpdate now eks pks sks key v) gp \<longleftrightarrow> enumerates eks (gp_state gp)"
| "gossip_op_ok (GAddPeer now eks node) gp \<longleftrightarrow> enumerates eks (gp_peers gp)"
| "gossip_op_ok _ gp \<longleftrightarrow> True"

definition gossip_inv :: "GossipProtocol \<Rightarrow> bool" where
  "gossip_inv gp \<longleftrightarrow> mlen (gp_state gp) \<le> maxStateEntries \<and> mlen (gp_peers gp) \<le> maxPeers"

subsection \<open>Eviction removes one oldest key\<close>

lemma oldest_fold:
  "case fold (oldest_step tm m) ks None of
     None \<Rightarrow> (\<forall>k \<in> set ks. fmlookup m k = None)
   | Some (k, t) \<Rightarrow> (\<exists>e. fmlookup m k = Some e \<and> tm e = t) \<and>
       (\<forall>j \<in> set ks. \<forall>e. fmlookup m j = Some e \<longrightarrow> t \<le> tm e)"
proof (induction ks rule: rev_induct)
  case Nil
  show ?case by simp
next
  case (snoc k ks)
  show ?case
  proof (cases "fold (oldest_step tm m) ks None")
    case None
    then show ?thesis using snoc.IH by (auto simp: oldest_step_def [of tm m k] split: option.split)
  next
    case (Some kt)
    then show ?thesis using snoc.IH
      by (cases kt) (auto simp: oldest_step_def [of tm m k] split: option.split intro: order_trans [OF less_imp_le])
  qed
qed

lemma drop_oldest_cases:
  assumes "enumerates ks m" "m \<noteq> fmempty"
  obtains k e where "fmlookup m k = Some e" "drop_oldest tm ks m = fmdrop k m"
    "\<And>j e'. fmlookup m j = Some e' \<Longrightarrow> tm e \<le> tm e'"
proof (cases "fold (oldest_step tm m) ks None")
  case None
  then have "fmlookup m j = None" for j
    using oldest_fold [where tm = tm and m = m and ks = ks] enumerates_in [OF assms(1), of j] by auto
  then have "m = fmempty" by (intro fmap_ext) simp
  with assms(2) show ?thesis by simp
next
  case (Some kt)
  then obtain k t where kt: "fold (oldest_step tm m) ks None = Some (k, t)" by (cases kt) auto
  with oldest_fold [where tm = tm and m = m and ks = ks] obtain e where e: "fmlookup m k = Some e" "tm e = t"
    and least: "\<forall>j \<in> set ks. \<forall>e. fmlookup m j = Some e \<longrightarrow> t \<le> tm e"
    by auto
  show ?thesis
  proof (rule that)
    show "fmlookup m k = Some e" by (rule e)
    show "drop_oldest tm ks m = fmdrop k m" using kt by (simp add: drop_oldest_def)
    show "tm e \<le> tm e'" if "fmlookup m j = Some e'" for j e'
      using least that e(2) enumerates_in [OF assms(1), of j] by simp
  qed
qed

lemma mlen_drop_oldest:
  assumes "enumerates ks m" "0 < mlen m"
  shows "Suc (mlen (drop_oldest tm ks m)) = mlen m"
proof -
  have "m \<noteq> fmempty" using assms(2) by auto
  with assms(1) obtain k e where "fmlookup m k = Some e" "drop_oldest tm ks m = fmdrop k m"
    by (rule drop_oldest_cases [where tm = tm])
  then show ?thesis using assms(2) by (simp add: mlen_drop del: fmdom_drop)
qed

text \<open>Making room keeps a map within its capacity when a key is then added.\<close>

lemma mlen_upd_room:
  assumes "enumerates ks m" "mlen m \<le> cap" "0 < cap" "fmlookup m k = None"
  shows "mlen (fmupd k v (if cap \<le> mlen m then drop_oldest tm ks m else m)) \<le> cap"
proof (cases "cap \<le> mlen m")
  case True
  then have "Suc (mlen (drop_oldest tm ks m)) = mlen m"
    using assms by (intro mlen_drop_oldest) auto
  then show ?thesis using assms(2) True by (subst mlen_upd) simp
next
  case False
  then show ?thesis by (subst mlen_upd) simp
qed

subsection \<open>The bounds of the state and of the peer set\<close>

lemma gossip_staked_frame [simp]:
  "gp_state (snd (gossip_staked now n gp)) = gp_state gp"
  "gp_peers (snd (gossip_staked now n gp)) = gp_peers gp"
  "gp_stateValidator (snd (gossip_staked now n gp)) = gp_stateValidator gp"
  by (simp_all add: gossip_staked_def split: option.split prod.split)

lemma sendGossip_frame:
  "gp_state (snd (GossipProtocol_sendGossip env now sks p peer gp)) = gp_state gp"
  "gp_stateValidator (snd (GossipProtocol_sendGossip env now sks p peer gp)) = gp_stateValidator gp"
  "fmlookup (gp_peers gp) p \<noteq> None \<Longrightarrow>
     fmdom (gp_peers (snd (GossipProtocol_sendGossip env now sks p peer gp))) = fmdom (gp_peers gp)"
  by (auto simp: GossipProtocol_sendGossip_def fmlookup_dom_iff split: option.split)

lemma gossip_frame:
  "gp_state (snd (GossipProtocol_gossip env now pks sks gp)) = gp_state gp \<and>
   gp_stateValidator (snd (GossipProtocol_gossip env now pks sks gp)) = gp_stateValidator gp \<and>
   fmdom (gp_peers (snd (GossipProtocol_gossip env now pks sks gp))) = fmdom (gp_peers gp)"
proof (induction pks arbitrary: gp)
  case Nil
  show ?case by simp
next
  case (Cons p pks)
  show ?case
  proof (cases "fmlookup (gp_peers gp) p")
    case None
    then show ?thesis using Cons.IH [of gp] by simp
  next
    case (Some peer)
    obtain staked gp1 where 1: "gossip_staked now (n_ID (gpe_Node peer)) gp = (staked, gp1)"
      by fastforce
    obtain out gp2 where
      2: "(if staked then GossipProtocol_sendGossip env now sks p peer gp1 else ([], gp1)) = (out, gp2)"
      by fastforce
    have f1: "gp_state gp1 = gp_state gp" "gp_peers gp1 = gp_peers gp"
      "gp_stateValidator gp1 = gp_stateValidator gp"
      using gossip_staked_frame [of now "n_ID (gpe_Node peer)" gp] by (simp_all add: 1)
    have f2: "gp_state gp2 = gp_state gp1" "gp_stateValidator gp2 = gp_stateValidator gp1"
      "fmdom (gp_peers gp2) = fmdom (gp_peers gp1)"
      using 2 Some f1(2) sendGossip_frame [where env = env and now = now and sks = sks and p = p
          and peer = peer and gp = gp1]
      by (cases staked; simp)+
    obtain rest gp3 where 3: "GossipProtocol_gossip env now pks sks gp2 = (rest, gp3)"
      by fastforce
    show ?thesis using Some 1 2 Cons.IH [of gp2] f1 f2 by (simp add: 3)
  qed
qed

lemmas gossip_frame_simps [simp] =
  gossip_frame [THEN conjunct1]
  gossip_frame [THEN conjunct2, THEN conjunct1]
  gossip_frame [THEN conjunct2, THEN conjunct2]

lemma merge_entry_bound:
  "mlen st \<le> maxStateEntries \<Longrightarrow> mlen (merge_entry env now vd s kv st) \<le> maxStateEntries"
  by (cases kv) (simp add: merge_entry_def mlen_upd del: fmdom_fmupd split: option.split)

lemma fold_merge_bound:
  "mlen st \<le> maxStateEntries \<Longrightarrow> mlen (fold (merge_entry env now vd s) kvs st) \<le> maxStateEntries"
  by (induction kvs arbitrary: st) (auto simp: merge_entry_bound)

lemma store_local_bound:
  assumes "enumerates eks (gp_state gp)" "mlen (gp_state gp) \<le> maxStateEntries"
  shows "mlen (gp_state (store_local now eks key v gp)) \<le> maxStateEntries"
proof (cases "fmlookup (gp_state gp) key")
  case None
  have pos: "0 < maxStateEntries" by (simp add: maxStateEntries_def)
  show ?thesis
    using mlen_upd_room [OF assms pos None, of "\<lparr>st_Value = v, st_LastUpdated = now\<rparr>" st_LastUpdated]
    by (simp add: store_local_def None GossipProtocol_evictOldestStateLocked_def Let_def
        split: if_splits del: fmdom_fmupd)
next
  case (Some e)
  then show ?thesis using assms(2) by (simp add: store_local_def mlen_upd del: fmdom_fmupd)
qed

lemma AddPeer_bound:
  assumes "enumerates eks (gp_peers gp)" "mlen (gp_peers gp) \<le> maxPeers"
  shows "mlen (gp_peers (GossipProtocol_AddPeer now eks node gp)) \<le> maxPeers"
proof (cases "fmlookup (gp_peers gp) (n_ID node)")
  case None
  have pos: "0 < maxPeers" by (simp add: maxPeers_def)
  show ?thesis
    using mlen_upd_room [OF assms pos None, of "\<lparr>gpe_Node = node, gpe_LastGossip = now,
        gpe_LastSeen = now, gpe_StateHash = []\<rparr>" gpe_LastSeen]
    by (simp add: GossipProtocol_AddPeer_def None GossipProtocol_evictLeastRecentPeerLocked_def Let_def
        split: if_splits del: fmdom_fmupd)
next
  case (Some e)
  then show ?thesis
    using assms(2) by (simp add: GossipProtocol_AddPeer_def mlen_upd del: fmdom_fmupd)
qed

lemma HandleGossip_cases:
  assumes "GossipProtocol_HandleGossipMessage env now payload sender gp = (err, gp')"
  obtains "gp_state gp' = gp_state gp" "gp_peers gp' = gp_peers gp"
      "gp_stateValidator gp' = gp_stateValidator gp"
  | m kvs where "err = None" "ge_unmarshalMsg env payload = Some m" "gm_Type m = ''state_update''"
      "gm_Value m = GObj kvs" "gp_peers gp' = gp_peers gp"
      "gp_stateValidator gp' = gp_stateValidator gp"
      "gp_state gp' = fold (merge_entry env now (gp_stateValidator gp)
         (case sender of None \<Rightarrow> 0 | Some node \<Rightarrow> n_ID node)) kvs (gp_state gp)"
      "\<And>node. sender = Some node \<Longrightarrow> fst (gossip_staked now (n_ID node) gp)"
proof -
  obtain ok gp1 where
    1: "(case sender of None \<Rightarrow> (True, gp) | Some node \<Rightarrow> gossip_staked now (n_ID node) gp) = (ok, gp1)"
    by fastforce
  have f: "gp_state gp1 = gp_state gp" "gp_peers gp1 = gp_peers gp"
    "gp_stateValidator gp1 = gp_stateValidator gp"
    using 1 gossip_staked_frame [of now "n_ID (the sender)" gp] by (cases sender; simp)+
  have ok: "fst (gossip_staked now (n_ID node) gp) = ok" if "sender = Some node" for node
    using 1 that by simp
  show ?thesis
    using assms f ok that
    by (fastforce simp: GossipProtocol_HandleGossipMessage_def 1 split: if_splits option.splits gvalue.splits)
qed

lemma HandleGossip_bound:
  assumes "gossip_inv gp"
  shows "gossip_inv (snd (GossipProtocol_HandleGossipMessage env now payload sender gp))"
proof -
  obtain err gp' where h: "GossipProtocol_HandleGossipMessage env now payload sender gp = (err, gp')"
    by fastforce
  show ?thesis
    using h assms by (cases rule: HandleGossip_cases [OF h]) (simp_all add: gossip_inv_def fold_merge_bound)
qed

lemma CleanStale_bound: "gossip_inv gp \<Longrightarrow> gossip_inv (GossipProtocol_CleanStaleState now age gp)"
  by (auto simp: gossip_inv_def GossipProtocol_CleanStaleState_def Let_def
      intro: order_trans [OF fcard_mono])

lemma store_local_frame [simp]:
  "gp_peers (store_local now eks key v gp) = gp_peers gp"
  "gp_stateValidator (store_local now eks key v gp) = gp_stateValidator gp"
  by (simp_all add: store_local_def GossipProtocol_evictOldestStateLocked_def Let_def)

lemma AddPeer_frame [simp]:
  "gp_state (GossipProtocol_AddPeer now eks node gp) = gp_state gp"
  "gp_stateValidator (GossipProtocol_AddPeer now eks node gp) = gp_stateValidator gp"
  by (simp_all add: GossipProtocol_AddPeer_def GossipProtocol_evictLeastRecentPeerLocked_def Let_def
      split: option.split)

lemma gossip_step_inv:
  assumes "gossip_inv gp" "gossip_op_ok op gp"
  shows "gossip_inv (gossip_step env op gp)"
proof (cases op)
  case (GUpdate now eks pks sks key v)
  then show ?thesis
    using assms store_local_bound [of eks gp now key v]
    by (simp add: gossip_step_def gossip_inv_def GossipProtocol_UpdateState_def)
next
  case (GAddPeer now eks node)
  then show ?thesis
    using assms AddPeer_bound [of eks gp now node] by (simp add: gossip_step_def gossip_inv_def)
next
  case (GRemovePeer n)
  then show ?thesis
    using assms mlen_drop_le [of n "gp_peers gp"]
    by (auto simp: gossip_step_def gossip_inv_def GossipProtocol_RemovePeer_def simp del: fmdom_drop)
qed (use assms in \<open>simp_all add: gossip_step_def CleanStale_bound HandleGossip_bound\<close>,
     simp_all add: gossip_inv_def GossipProtocol_RemoveLocalState_def
       GossipProtocol_SetStateValidator_def GossipProtocol_SetStakeVerifier_def)

interpretation gossip_node: guarded_machine "gossip_step env" gossip_op_ok gossip_inv for env
  by unfold_locales (rule gossip_step_inv)

text \<open>
  C24. In every run of the protocol's operations, local and remote, the state map holds at most
  10000 entries and the peer map at most 1000 peers.
\<close>

theorem gossip_memory_bounded:
  assumes "run_ok (gossip_step env) gossip_op_ok ops NewGossipProtocol"
  shows "mlen (gp_state (fold (gossip_step env) ops NewGossipProtocol)) \<le> 10000 \<and>
    mlen (gp_peers (fold (gossip_step env) ops NewGossipProtocol)) \<le> 1000"
proof -
  have "gossip_inv NewGossipProtocol" by (simp add: gossip_inv_def NewGossipProtocol_def)
  then have "gossip_inv (fold (gossip_step env) ops NewGossipProtocol)"
    by (rule gossip_node.run_inv) (rule assms)
  then show ?thesis by (simp add: gossip_inv_def maxStateEntries_def maxPeers_def)
qed

subsection \<open>What a remote peer can change\<close>

definition merge_accepts :: "gossip_env \<Rightarrow> StateValidator option \<Rightarrow> node_id \<Rightarrow> string \<Rightarrow> gvalue \<Rightarrow> bool" where
  "merge_accepts env vd s k v \<longleftrightarrow>
     (\<exists>bs. ge_marshal env v = Some bs \<and> length bs \<le> maxStateValueSize) \<and>
     (\<forall>f. vd = Some f \<longrightarrow> f s k v)"

lemma merge_entry_lookup:
  "fmlookup (merge_entry env now vd s (j, v) st) k =
     (if j = k \<and> merge_accepts env vd s k v \<and> (fmlookup st k \<noteq> None \<or> mlen st < maxStateEntries)
      then Some \<lparr>st_Value = v, st_LastUpdated = now\<rparr> else fmlookup st k)"
  by (auto simp: merge_entry_def merge_accepts_def split: option.splits)

lemma fold_merge_lookup:
  "fmlookup (fold (merge_entry env now vd s) kvs st) k = fmlookup st k \<or>
   (\<exists>v. (k, v) \<in> set kvs \<and> merge_accepts env vd s k v \<and>
      fmlookup (fold (merge_entry env now vd s) kvs st) k = Some \<lparr>st_Value = v, st_LastUpdated = now\<rparr>)"
proof (induction kvs arbitrary: st)
  case Nil
  show ?case by simp
next
  case (Cons kv kvs)
  obtain j v where kv: "kv = (j, v)" by fastforce
  from Cons.IH [of "merge_entry env now vd s kv st"] show ?case
    by (auto simp: kv merge_entry_lookup split: if_splits)
qed


subsection \<open>Leaving the network\<close>

lemma gossip_sends:
  "(dst, d) \<in> set (fst (GossipProtocol_gossip env now pks sks gp)) \<Longrightarrow>
   ge_marshalMsg env (state_update now (state_copy sks (gp_state gp))) = Some d"
proof (induction pks arbitrary: gp)
  case Nil
  then show ?case by simp
next
  case (Cons p pks)
  show ?case
  proof (cases "fmlookup (gp_peers gp) p")
    case None
    with Cons show ?thesis by simp
  next
    case (Some peer)
    obtain staked gp1 where 1: "gossip_staked now (n_ID (gpe_Node peer)) gp = (staked, gp1)"
      by fastforce
    obtain out gp2 where
      2: "(if staked then GossipProtocol_sendGossip env now sks p peer gp1 else ([], gp1)) = (out, gp2)"
      by fastforce
    obtain rest gp3 where 3: "GossipProtocol_gossip env now pks sks gp2 = (rest, gp3)"
      by fastforce
    have s1: "gp_state gp1 = gp_state gp"
      using gossip_staked_frame(1) [of now "n_ID (gpe_Node peer)" gp] by (simp add: 1)
    have s2: "gp_state gp2 = gp_state gp1"
      using 2 sendGossip_frame(1) [of env now sks p peer gp1] by (cases staked) simp_all
    have "(dst, d) \<in> set out \<or> (dst, d) \<in> set rest"
      using Cons.prems by (simp add: Some 1 2 3)
    then show ?thesis
      using 2 Cons.IH [of gp2] s1 s2
      by (auto simp: 3 GossipProtocol_sendGossip_def split: if_splits option.splits)
  qed
qed

text \<open>
  The broadcast by which a node that shuts down clears its state changes nothing at the
  peers: merging an empty map removes no entry.  The codec's round trip is the hypothesis.
\<close>

theorem shutdown_broadcast_ignored:
  assumes "\<And>m d. ge_marshalMsg env m = Some d \<Longrightarrow> ge_unmarshalMsg env d = Some m"
    and "(dst, d) \<in> set (fst (GossipProtocol_RemoveLocalState env now pks gp))"
  shows "gp_state (snd (GossipProtocol_HandleGossipMessage env now' d sender peer)) = gp_state peer"
proof -
  have d: "ge_unmarshalMsg env d = Some (state_update now [])"
    using assms(1) [OF gossip_sends [OF assms(2) [unfolded GossipProtocol_RemoveLocalState_def]]]
    by (simp add: state_copy_def map_filter_simps)
  obtain err peer' where h: "GossipProtocol_HandleGossipMessage env now' d sender peer = (err, peer')"
    by fastforce
  show ?thesis
    using h by (cases rule: HandleGossip_cases) (auto simp: h d state_update_def)
qed

subsection \<open>The printed node ids are distinct\<close>

lemma hex_digit_inject:
  assumes "i < 16" "j < 16" "hex_digit i = hex_digit j"
  shows "i = j"
proof -
  have "distinct ''0123456789abcdef''" by simp
  then show ?thesis using assms by (simp add: hex_digit_def nth_eq_iff_index_eq)
qed

lemma hex_encode_inject: "length as = length bs \<Longrightarrow> hex_encode as = hex_encode bs \<Longrightarrow> as = bs"
proof (induction as bs rule: list_induct2)
  case Nil
  show ?case ..
next
  case (Cons a as b bs)
  have lt: "unat c div 16 < 16" for c :: byte
  proof -
    have "unat c < 2 ^ LENGTH(8)" by (rule unsigned_less)
    then show ?thesis by simp
  qed
  have "unat a div 16 = unat b div 16" "unat a mod 16 = unat b mod 16"
    using Cons.prems by (auto simp: hex_encode_def intro: hex_digit_inject lt)
  then have "unat a = unat b" by (metis div_mult_mod_eq)
  moreover have "as = bs" using Cons.prems by (intro Cons.IH) (simp add: hex_encode_def)
  ultimately show ?case by (simp add: word_unat_eq_iff)
qed

lemma node_bytes_inject:
  assumes "node_bytes m = node_bytes n"
  shows "m = n"
proof (rule bit_word_eqI)
  fix b :: nat
  assume b: "b < LENGTH(256)"
  define i where "i = 31 - b div 8"
  have i: "i < 32" "8 * (31 - i) + b mod 8 = b" using b by (simp_all add: i_def)
  have "node_bytes m ! i = node_bytes n ! i" using assms by simp
  then have "(ucast (drop_bit (8 * (31 - i)) m) :: byte) = ucast (drop_bit (8 * (31 - i)) n)"
    using i(1) by (simp add: node_bytes_def)
  then have "bit (ucast (drop_bit (8 * (31 - i)) m) :: byte) (b mod 8) =
      bit (ucast (drop_bit (8 * (31 - i)) n) :: byte) (b mod 8)" by simp
  then show "bit m b = bit n b"
    using i(2) b by (simp add: bit_ucast_iff bit_drop_bit_eq)
qed

lemma NodeID_String_inject: "NodeID_String m = NodeID_String n \<longleftrightarrow> m = n"
  using hex_encode_inject [of "node_bytes m" "node_bytes n"] node_bytes_inject [of m n]
  by (auto simp: NodeID_String_def) (simp add: node_bytes_def)

text \<open>So one service entry is accepted from one sender at most.\<close>

lemma expose_entry_one_sender:
  "v \<noteq> GNil \<Longrightarrow> validateExposeEntry m v \<Longrightarrow> validateExposeEntry n v \<Longrightarrow> m = n"
  by (auto simp: validateExposeEntry_def NodeID_String_inject split: gvalue.splits option.splits)

subsection \<open>Concrete runs\<close>

definition example_entry :: "(string \<times> gvalue) list" where
  "example_entry = [(''expose:d1:80'', GObj [(''provider_node_id'', GStr (NodeID_String 3))])]"

definition example_genv :: gossip_env where
  "example_genv =
     \<lparr>ge_marshal = (\<lambda>v. Some []),
      ge_marshalMsg = (\<lambda>m. if m = state_update 5 [] then Some [0] else None),
      ge_unmarshalMsg = (\<lambda>d. if d = [0] then Some (state_update 5 [])
                             else if d = [1] then Some (state_update 5 example_entry) else None),
      ge_send = (\<lambda>n d. True)\<rparr>"

definition example_gossip :: GossipProtocol where
  "example_gossip =
     GossipProtocol_SetStakeVerifier (Some example_verifier)
       (GossipProtocol_SetStateValidator (Some (NewGossipStateValidator 1))
         (GossipProtocol_AddPeer 2 [] example_node NewGossipProtocol))"

lemma example_gossip_staked: "fst (gossip_staked now 3 example_gossip)"
  using example_verifier_facts(4) [of now]
  by (auto simp: gossip_staked_def example_gossip_def GossipProtocol_SetStakeVerifier_def
      split: prod.split)

lemma example_gossip_fields:
  "gp_state example_gossip = fmempty"
  "gp_stateValidator example_gossip = Some (NewGossipStateValidator 1)"
  "\<exists>peer. fmlookup (gp_peers example_gossip) 3 = Some peer \<and> n_ID (gpe_Node peer) = 3"
  by (simp_all add: example_gossip_def GossipProtocol_SetStakeVerifier_def
      GossipProtocol_SetStateValidator_def GossipProtocol_AddPeer_def NewGossipProtocol_def
      maxPeers_def example_node_def)

theorem gossip_memory_bounded_witness:
  "mlen (gp_state (fold (gossip_step example_genv)
     [GUpdate 5 [] [] [] ''k'' GNil, GUpdate 6 [''k''] [] [] ''j'' GNil] NewGossipProtocol)) \<le> 10000"
proof -
  have "run_ok (gossip_step example_genv) gossip_op_ok
    [GUpdate 5 [] [] [] ''k'' GNil, GUpdate 6 [''k''] [] [] ''j'' GNil] NewGossipProtocol"
    by (simp add: enumerates_def NewGossipProtocol_def gossip_step_def
        GossipProtocol_UpdateState_def store_local_def maxStateEntries_def)
  from gossip_memory_bounded [OF this] show ?thesis by simp
qed

lemma example_received:
  "fmlookup (gp_state (snd (GossipProtocol_HandleGossipMessage example_genv 7 [1]
     (Some example_node) example_gossip))) ''expose:d1:80'' \<noteq> None"
proof -
  obtain gp1 where s: "gossip_staked 7 3 example_gossip = (True, gp1)"
    using example_gossip_staked [of 7] by (metis eq_fst_iff)
  have "gp_state gp1 = fmempty" "gp_stateValidator gp1 = Some (NewGossipStateValidator 1)"
    using gossip_staked_frame(1,3) [of 7 3 example_gossip] by (simp_all add: s example_gossip_fields)
  moreover have "NodeID_String 3 \<noteq> ''''" by (simp add: NodeID_String_def hex_encode_def node_bytes_def upt_rec)
  ultimately show ?thesis
    by (simp add: GossipProtocol_HandleGossipMessage_def s example_node_def example_genv_def
        state_update_def example_entry_def merge_entry_lookup merge_accepts_def maxStateEntries_def
        NewGossipStateValidator_def has_prefix_def validateExposeEntry_def)
qed


theorem shutdown_broadcast_ignored_witness:
  "gp_state (snd (GossipProtocol_HandleGossipMessage example_genv 9 [0] None
     (store_local 4 [] ''k'' GNil NewGossipProtocol))) \<noteq> fmempty"
proof -
  have codec: "ge_unmarshalMsg example_genv d = Some m" if "ge_marshalMsg example_genv m = Some d" for m d
    using that by (auto simp: example_genv_def split: if_splits)
  obtain peer where peer: "fmlookup (gp_peers example_gossip) 3 = Some peer" "n_ID (gpe_Node peer) = 3"
    using example_gossip_fields(3) by blast
  have same: "example_gossip\<lparr>gp_state := fmempty\<rparr> = example_gossip"
    by (rule GossipProtocol.equality) (simp_all add: example_gossip_fields(1))
  obtain gp1 where s: "gossip_staked 5 3 example_gossip = (True, gp1)"
    using example_gossip_staked [of 5] by (metis eq_fst_iff)
  have "gp_state gp1 = fmempty"
    using gossip_staked_frame(1) [of 5 3 example_gossip] by (simp add: s example_gossip_fields(1))
  then have sent: "(3, [0]) \<in> set (fst (GossipProtocol_RemoveLocalState example_genv 5 [3] example_gossip))"
    by (simp add: GossipProtocol_RemoveLocalState_def same peer s GossipProtocol_sendGossip_def
        example_genv_def state_copy_def map_filter_simps)
  show ?thesis
    using shutdown_broadcast_ignored [OF codec sent, of 9 None "store_local 4 [] ''k'' GNil NewGossipProtocol"]
    by (simp add: store_local_def NewGossipProtocol_def maxStateEntries_def)
qed

end
