(* ===== verification/Service_Resolver.thy ===== *)
theory Service_Resolver
  imports Gossip
begin

text \<open>
  From gossip to routing: the adapter that reads service entries and subdomain names out of
  the gossip state (\<^verbatim>\<open>src/internal/daemon/gossip_adapter.go\<close>), the ingress resolver
  (\<^verbatim>\<open>src/internal/ingress/resolver.go\<close>), the deployment ids stored on chain
  (\<^verbatim>\<open>src/internal/daemon/api_handlers.go\<close>) and the removal of expired names
  (\<^verbatim>\<open>src/internal/daemon/subdomain_cleanup.go\<close>).  The resolver's two interfaces are a function
  and a record of functions over a state \<open>'a\<close>; the adapter provides them over the pair of its
  own state and the gossip protocol.  Decoding a JSON object into a service entry, decoding
  hexadecimal text and the registry contract are parameters.
\<close>

subsection \<open>Deployment ids on chain\<close>

datatype dep_id_error = InvalidHex | DeploymentIDTooLong

definition deploymentIDToBytes32 :: "(string \<Rightarrow> byte list option) \<Rightarrow> string \<Rightarrow> dep_id_error + byte list" where
  "deploymentIDToBytes32 decode i =
     (let hexStr = (if 4 < length i \<and> take 4 i = ''dep-'' then drop 4 i else i)
      in case decode (''0x'' @ hexStr) of
           None \<Rightarrow> Inl InvalidHex
         | Some decoded \<Rightarrow>
             if 32 < length decoded then Inl DeploymentIDTooLong
             else Inr (replicate (32 - length decoded) 0 @ decoded))"

fun strip_zeros :: "byte list \<Rightarrow> byte list" where
  "strip_zeros (b # c # bs) = (if b = 0 then strip_zeros (c # bs) else b # c # bs)"
| "strip_zeros bs = bs"

definition bytes32ToDeploymentID :: "byte list \<Rightarrow> string" where
  "bytes32ToDeploymentID b = hex_encode (strip_zeros b)"

subsection \<open>The adapter\<close>

record cachedSubdomainResult =
  cs_DeploymentID :: string
  cs_Found :: bool
  cs_FetchedAt :: time

text \<open>The registry is a function from a name to the 32 bytes recorded for it.\<close>

record GossipServiceAdapter =
  ga_paymentService :: "(string \<Rightarrow> byte list option) option"
  ga_subdomainCache :: "(string, cachedSubdomainResult) gomap"
  ga_cacheTTL :: duration
  ga_negativeTTL :: duration

definition NewGossipServiceAdapter :: GossipServiceAdapter where
  "NewGossipServiceAdapter =
     \<lparr>ga_paymentService = None, ga_subdomainCache = fmempty,
      ga_cacheTTL = 5 * Minute, ga_negativeTTL = 2 * Minute\<rparr>"

definition GossipServiceAdapter_SetPaymentService ::
  "(string \<Rightarrow> byte list option) option \<Rightarrow> GossipServiceAdapter \<Rightarrow> GossipServiceAdapter" where
  "GossipServiceAdapter_SetPaymentService ps a = a\<lparr>ga_paymentService := ps\<rparr>"

definition toServiceEntry :: "(gvalue \<Rightarrow> ServiceEntry option) \<Rightarrow> gvalue \<Rightarrow> ServiceEntry option" where
  "toServiceEntry recode val =
     (case val of
        GEntry entry \<Rightarrow> Some entry
      | _ \<Rightarrow>
          (case recode val of
             None \<Rightarrow> None
           | Some entry \<Rightarrow>
               if se_DeploymentID entry = '''' \<or> se_ProviderAddr entry = '''' then None
               else Some entry))"

definition GossipServiceAdapter_GetExposedServices ::
  "(gvalue \<Rightarrow> ServiceEntry option) \<Rightarrow> GossipProtocol \<Rightarrow> (string, ServiceEntry) gomap" where
  "GossipServiceAdapter_GetExposedServices recode gp =
     (let raw = GossipProtocol_GetStateByPrefix ''expose:'' gp;
          conv = (\<lambda>val. if val = GNil then None else toServiceEntry recode val)
      in fmmap (\<lambda>val. the (conv val))
           (fmfilter (\<lambda>key. case fmlookup raw key of None \<Rightarrow> False | Some val \<Rightarrow> conv val \<noteq> None) raw))"

definition GossipServiceAdapter_ResolveVanityName :: "string \<Rightarrow> GossipProtocol \<Rightarrow> string option" where
  "GossipServiceAdapter_ResolveVanityName name gp =
     (case GossipProtocol_GetState (''subdomain:'' @ name) gp of
        Some (GStr depID) \<Rightarrow> Some depID
      | _ \<Rightarrow> None)"

definition cache_result ::
  "string \<Rightarrow> string \<Rightarrow> bool \<Rightarrow> time \<Rightarrow> GossipServiceAdapter \<Rightarrow> GossipServiceAdapter" where
  "cache_result name depID found now a =
     a\<lparr>ga_subdomainCache :=
         fmupd name \<lparr>cs_DeploymentID = depID, cs_Found = found, cs_FetchedAt = now\<rparr>
           (ga_subdomainCache a)\<rparr>"

definition fetch_on_chain :: "time \<Rightarrow> string \<Rightarrow> GossipServiceAdapter \<Rightarrow> string option \<times> GossipServiceAdapter" where
  "fetch_on_chain now name a =
     (case ga_paymentService a of
        None \<Rightarrow> (None, a)
      | Some registry \<Rightarrow>
          (case registry name of
             None \<Rightarrow> (None, cache_result name '''' False now a)
           | Some b \<Rightarrow>
               let depID = bytes32ToDeploymentID b
               in if depID = '''' \<or> depID = hex_encode (replicate 32 0)
                  then (None, cache_result name '''' False now a)
                  else (Some depID, cache_result name depID True now a)))"

definition GossipServiceAdapter_ResolveOnChain ::
  "time \<Rightarrow> string \<Rightarrow> GossipServiceAdapter \<Rightarrow> string option \<times> GossipServiceAdapter" where
  "GossipServiceAdapter_ResolveOnChain now name a =
     (case fmlookup (ga_subdomainCache a) name of
        Some cached \<Rightarrow>
          let ttl = (if cs_Found cached then ga_cacheTTL a else ga_negativeTTL a)
          in if t_sub now (cs_FetchedAt cached) < ttl
             then (if cs_Found cached then Some (cs_DeploymentID cached) else None, a)
             else fetch_on_chain now name a
      | None \<Rightarrow> fetch_on_chain now name a)"

definition GossipServiceAdapter_InvalidateSubdomainCache ::
  "string \<Rightarrow> GossipServiceAdapter \<Rightarrow> GossipServiceAdapter" where
  "GossipServiceAdapter_InvalidateSubdomainCache name a =
     a\<lparr>ga_subdomainCache := fmdrop name (ga_subdomainCache a)\<rparr>"

subsection \<open>The resolver\<close>

record 'a SubdomainResolver =
  sr_ResolveVanityName :: "string \<Rightarrow> 'a \<Rightarrow> string option"
  sr_ResolveOnChain :: "time \<Rightarrow> string \<Rightarrow> 'a \<Rightarrow> string option \<times> 'a"

record 'a Resolver =
  rs_services :: "(string, ServiceEntry) gomap"
  rs_gossip :: "('a \<Rightarrow> (string, ServiceEntry) gomap) option"
  rs_subdomainResolver :: "'a SubdomainResolver option"

text \<open>The order in which the loop with a given number visits a map.\<close>

type_synonym orders = "nat \<Rightarrow> (string, ServiceEntry) gomap \<Rightarrow> string list"

definition NewResolver ::
  "('a \<Rightarrow> (string, ServiceEntry) gomap) option \<Rightarrow> 'a SubdomainResolver option \<Rightarrow> 'a Resolver" where
  "NewResolver g s = \<lparr>rs_services = fmempty, rs_gossip = g, rs_subdomainResolver = s\<rparr>"

definition fresh :: "time \<Rightarrow> ServiceEntry \<Rightarrow> bool" where
  "fresh now entry \<longleftrightarrow> t_sub now (se_LastSeen entry) < 5 * Minute"

definition fresh_at :: "time \<Rightarrow> string \<Rightarrow> (string, ServiceEntry) gomap \<Rightarrow> ServiceEntry option" where
  "fresh_at now d m =
     (case fmlookup m d of
        Some entry \<Rightarrow> if fresh now entry then Some entry else None
      | None \<Rightarrow> None)"

text \<open>The first entry in the order of a loop whose key satisfies a condition.\<close>

fun first_fresh ::
  "time \<Rightarrow> (string \<Rightarrow> bool) \<Rightarrow> string list \<Rightarrow> (string, ServiceEntry) gomap \<Rightarrow> ServiceEntry option" where
  "first_fresh now P [] m = None"
| "first_fresh now P (d # ds) m =
     (case (if P d then fresh_at now d m else None) of
        Some entry \<Rightarrow> Some entry
      | None \<Rightarrow> first_fresh now P ds m)"

definition minPrefixLen :: nat where "minPrefixLen = 8"

definition Resolver_resolveByPrefix :: "time \<Rightarrow> string list \<Rightarrow> string \<Rightarrow> 'a Resolver \<Rightarrow> ServiceEntry option" where
  "Resolver_resolveByPrefix now ks pre r =
     (if length pre < minPrefixLen then None
      else first_fresh now (\<lambda>depID. has_prefix (trim_prefix depID ''dep-'') pre) ks (rs_services r))"

definition Resolver_resolveVanity :: "time \<Rightarrow> string \<Rightarrow> 'a \<Rightarrow> 'a Resolver \<Rightarrow> ServiceEntry option" where
  "Resolver_resolveVanity now name w r =
     (case rs_subdomainResolver r of
        None \<Rightarrow> None
      | Some sr \<Rightarrow>
          (case sr_ResolveVanityName sr name w of
             None \<Rightarrow> None
           | Some depID \<Rightarrow> if depID = '''' then None else fresh_at now depID (rs_services r)))"

definition Resolver_findServiceByDeploymentID ::
  "time \<Rightarrow> string list \<Rightarrow> string \<Rightarrow> 'a Resolver \<Rightarrow> ServiceEntry option" where
  "Resolver_findServiceByDeploymentID now ks depID r =
     (case fresh_at now depID (rs_services r) of
        Some entry \<Rightarrow> Some entry
      | None \<Rightarrow> first_fresh now (\<lambda>key. trim_prefix key ''dep-'' = depID) ks (rs_services r))"

definition Resolver_resolveOnChain ::
  "time \<Rightarrow> string list \<Rightarrow> string \<Rightarrow> 'a \<Rightarrow> 'a Resolver \<Rightarrow> ServiceEntry option \<times> 'a" where
  "Resolver_resolveOnChain now ks name w r =
     (case rs_subdomainResolver r of
        None \<Rightarrow> (None, w)
      | Some sr \<Rightarrow>
          (case sr_ResolveOnChain sr now name w of
             (None, w') \<Rightarrow> (None, w')
           | (Some depID, w') \<Rightarrow>
               (if depID = '''' then None else Resolver_findServiceByDeploymentID now ks depID r, w')))"

definition cache_entry ::
  "(string, ServiceEntry) gomap \<Rightarrow> string \<Rightarrow> (string, ServiceEntry) gomap \<Rightarrow> (string, ServiceEntry) gomap" where
  "cache_entry entries key services =
     (case fmlookup entries key of
        None \<Rightarrow> services
      | Some entry \<Rightarrow> fmupd (se_DeploymentID entry) entry services)"

definition Resolver_refreshFromGossip :: "orders \<Rightarrow> 'a \<Rightarrow> 'a Resolver \<Rightarrow> 'a Resolver" where
  "Resolver_refreshFromGossip ord w r =
     (case rs_gossip r of
        None \<Rightarrow> r
      | Some GetExposedServices \<Rightarrow>
          let entries = GetExposedServices w
          in r\<lparr>rs_services :=
                 fold (cache_entry entries) (ord 0 entries) (rs_services r)\<rparr>)"

definition Resolver_resolveOnce ::
  "orders \<Rightarrow> time \<Rightarrow> string \<Rightarrow> 'a \<Rightarrow> 'a Resolver \<Rightarrow> ServiceEntry option \<times> 'a \<times> 'a Resolver" where
  "Resolver_resolveOnce ord now subdomain w r =
     (case fresh_at now subdomain (rs_services r) of
        Some entry \<Rightarrow> (Some entry, w, r)
      | None \<Rightarrow>
     (case Resolver_resolveByPrefix now (ord 1 (rs_services r)) subdomain r of
        Some entry \<Rightarrow> (Some entry, w, r)
      | None \<Rightarrow>
     (case Resolver_resolveVanity now subdomain w r of
        Some entry \<Rightarrow> (Some entry, w, r)
      | None \<Rightarrow>
          let r' = Resolver_refreshFromGossip ord w r;
              retried = (if rs_gossip r = None then None
                         else case Resolver_resolveByPrefix now (ord 2 (rs_services r')) subdomain r' of
                                Some entry \<Rightarrow> Some entry
                              | None \<Rightarrow> Resolver_resolveVanity now subdomain w r')
          in case retried of
               Some entry \<Rightarrow> (Some entry, w, r')
             | None \<Rightarrow>
                 let (entry, w') = Resolver_resolveOnChain now (ord 3 (rs_services r')) subdomain w r'
                 in (entry, w', r'))))"

text \<open>The text after the first dot, if there is one and something follows it.\<close>

definition parent_domain :: "string \<Rightarrow> string option" where
  "parent_domain s =
     (case dropWhile (\<lambda>c. c \<noteq> CHR ''.'') s of
        c # d # ds \<Rightarrow> Some (d # ds) | _ \<Rightarrow> None)"

definition Resolver_Resolve ::
  "orders \<Rightarrow> time \<Rightarrow> string \<Rightarrow> 'a \<Rightarrow> 'a Resolver \<Rightarrow> ServiceEntry option \<times> 'a \<times> 'a Resolver" where
  "Resolver_Resolve ord now subdomain w r =
     (case Resolver_resolveOnce ord now subdomain w r of
        (Some entry, w', r') \<Rightarrow> (Some entry, w', r')
      | (None, w', r') \<Rightarrow>
          (case parent_domain subdomain of
             None \<Rightarrow> (None, w', r')
           | Some parent \<Rightarrow> Resolver_resolveOnce (\<lambda>i. ord (i + 4)) now parent w' r'))"

definition Resolver_Register :: "time \<Rightarrow> ServiceEntry \<Rightarrow> 'a Resolver \<Rightarrow> 'a Resolver" where
  "Resolver_Register now entry r =
     r\<lparr>rs_services := fmupd (se_DeploymentID entry) (entry\<lparr>se_LastSeen := now\<rparr>) (rs_services r)\<rparr>"

definition Resolver_Unregister :: "string \<Rightarrow> 'a Resolver \<Rightarrow> 'a Resolver" where
  "Resolver_Unregister deploymentID r = r\<lparr>rs_services := fmdrop deploymentID (rs_services r)\<rparr>"

definition Resolver_Count :: "'a Resolver \<Rightarrow> nat" where
  "Resolver_Count r = mlen (rs_services r)"

subsection \<open>The daemon's wiring\<close>

text \<open>The state behind the two interfaces: the adapter and the gossip protocol it reads.\<close>

type_synonym world = "GossipServiceAdapter \<times> GossipProtocol"

definition adapter_subdomains :: "world SubdomainResolver" where
  "adapter_subdomains =
     \<lparr>sr_ResolveVanityName = (\<lambda>name (a, gp). GossipServiceAdapter_ResolveVanityName name gp),
      sr_ResolveOnChain = (\<lambda>now name (a, gp).
        let (res, a') = GossipServiceAdapter_ResolveOnChain now name a in (res, (a', gp)))\<rparr>"

definition daemon_resolver :: "(gvalue \<Rightarrow> ServiceEntry option) \<Rightarrow> world Resolver" where
  "daemon_resolver recode =
     NewResolver (Some (\<lambda>(a, gp). GossipServiceAdapter_GetExposedServices recode gp))
       (Some adapter_subdomains)"

subsection \<open>Removal of expired names\<close>

text \<open>
  Each visit of the loop publishes with its own clock reading and orders \<open>(now, eks, pks, sks)\<close>.
  The contract's answer is \<open>None\<close> when the query fails.
\<close>

type_synonym visit = "string \<times> time \<times> string list \<times> node_id list \<times> string list"

definition cleanExpiredSubdomains ::
  "gossip_env \<Rightarrow> (string \<Rightarrow> bool option) \<Rightarrow> visit list \<Rightarrow> GossipProtocol \<Rightarrow> GossipProtocol" where
  "cleanExpiredSubdomains env isExpired visits gp =
     fold (\<lambda>(key, now, eks, pks, sks) gp.
             let name = trim_prefix key ''subdomain:''
             in if name = '''' then gp
                else if isExpired name = Some True
                then snd (GossipProtocol_UpdateState env now eks pks sks key GNil gp)
                else gp) visits gp"

subsection \<open>Deployment ids survive the contract unless they start with a zero byte\<close>

lemma length_hex_encode: "length (hex_encode bs) = 2 * length bs"
  by (induction bs) (simp_all add: hex_encode_def)

lemma hex_encode_eq_iff: "hex_encode as = hex_encode bs \<longleftrightarrow> as = bs"
  using length_hex_encode [of as] length_hex_encode [of bs] hex_encode_inject [of as bs] by auto

lemma strip_zeros_replicate: "bs \<noteq> [] \<Longrightarrow> strip_zeros (replicate n 0 @ bs) = strip_zeros bs"
proof (induction n)
  case (Suc n)
  then show ?case by (cases "replicate n 0 @ bs") auto
qed simp

lemma strip_zeros_id_iff: "strip_zeros bs = bs \<longleftrightarrow> length bs \<le> 1 \<or> hd bs \<noteq> 0"
proof (cases bs rule: strip_zeros.cases)
  case (1 b c cs)
  have "length (strip_zeros ds) \<le> length ds" for ds
    by (induction ds rule: strip_zeros.induct) auto
  from this [of "c # cs"] have "strip_zeros (c # cs) \<noteq> b # c # cs" by auto
  then show ?thesis using 1 by auto
qed auto

text \<open>
  C26. The id read back from the contract is the deployment's id exactly when its first byte is
  not zero, or it has a single byte.  The hypothesis states that the decoder of hexadecimal
  text inverts the encoder on these bytes.
\<close>

theorem deployment_id_round_trip_iff:
  assumes "decode (''0x'' @ hex_encode bs) = Some bs" "bs \<noteq> []" "length bs \<le> 32"
  shows "\<exists>b. deploymentIDToBytes32 decode (''dep-'' @ hex_encode bs) = Inr b \<and> length b = 32 \<and>
    (bytes32ToDeploymentID b = hex_encode bs \<longleftrightarrow> length bs = 1 \<or> hd bs \<noteq> 0)"
proof -
  have "0 < length (hex_encode bs)" using assms(2) by (simp add: length_hex_encode)
  then have "deploymentIDToBytes32 decode (''dep-'' @ hex_encode bs) =
      Inr (replicate (32 - length bs) 0 @ bs)"
    using assms by (simp add: deploymentIDToBytes32_def)
  moreover have "bytes32ToDeploymentID (replicate (32 - length bs) 0 @ bs) = hex_encode (strip_zeros bs)"
    by (simp add: bytes32ToDeploymentID_def strip_zeros_replicate assms(2))
  moreover have "length bs \<le> 1 \<longleftrightarrow> length bs = 1" using assms(2) by (cases bs) auto
  ultimately show ?thesis
    using assms(3) by (simp add: hex_encode_eq_iff strip_zeros_id_iff)
qed

theorem deployment_id_round_trip_iff_witness:
  "\<exists>b. deploymentIDToBytes32 (\<lambda>s. if s = ''0x'' @ hex_encode [0, 171] then Some [0, 171] else None)
      (''dep-'' @ hex_encode [0, 171]) = Inr b \<and> bytes32ToDeploymentID b \<noteq> hex_encode [0, 171]"
  using deployment_id_round_trip_iff
    [of "\<lambda>s. if s = ''0x'' @ hex_encode [0, 171] then Some [0, 171] else None" "[0, 171]"]
  by auto

text \<open>A record without a deployment is read as the id \<^verbatim>\<open>00\<close>, not as a missing one.\<close>

lemma unset_deployment_found:
  assumes "fmlookup (ga_subdomainCache a) name = None" "ga_paymentService a = Some registry"
    and "registry name = Some (replicate 32 0)"
  shows "fst (GossipServiceAdapter_ResolveOnChain now name a) = Some ''00''"
proof -
  have s: "strip_zeros (replicate 32 0) = [0]"
    using strip_zeros_replicate [of "[0]" 31] by (simp add: replicate_append_same flip: replicate_Suc)
  have "length (hex_encode [0]) \<noteq> length (hex_encode (replicate 32 0))"
    by (simp add: length_hex_encode)
  then have "hex_encode [0] \<noteq> hex_encode (replicate 32 0)" by auto
  moreover have "hex_encode [0] = ''00''" by (simp add: hex_encode_def hex_digit_def)
  ultimately show ?thesis
    using assms by (simp add: GossipServiceAdapter_ResolveOnChain_def fetch_on_chain_def
        bytes32ToDeploymentID_def s Let_def)
qed

subsection \<open>Where a name is routed\<close>

lemma fresh_atD: "fresh_at now d m = Some e \<Longrightarrow> fmlookup m d = Some e \<and> fresh now e"
  by (simp add: fresh_at_def split: option.splits if_splits)

lemma first_fresh_Some:
  "first_fresh now P ks m = Some e \<Longrightarrow> \<exists>d. P d \<and> fmlookup m d = Some e \<and> fresh now e"
  by (induction now P ks m rule: first_fresh.induct)
     (auto dest: fresh_atD split: option.splits if_splits)

definition services_keyed :: "'a Resolver \<Rightarrow> bool" where
  "services_keyed r \<longleftrightarrow> (\<forall>d e. fmlookup (rs_services r) d = Some e \<longrightarrow> se_DeploymentID e = d)"

text \<open>A name stands for a deployment.\<close>

definition names_deployment :: "time \<Rightarrow> 'a \<Rightarrow> 'a Resolver \<Rightarrow> string \<Rightarrow> string \<Rightarrow> bool" where
  "names_deployment now w r n d \<longleftrightarrow>
     d = n \<or> (8 \<le> length n \<and> has_prefix (trim_prefix d ''dep-'') n) \<or>
     (\<exists>sr. rs_subdomainResolver r = Some sr \<and>
        (sr_ResolveVanityName sr n w = Some d \<or>
         (\<exists>x. fst (sr_ResolveOnChain sr now n w) = Some x \<and> (d = x \<or> trim_prefix d ''dep-'' = x))))"

lemma refresh_fields [simp]:
  "rs_gossip (Resolver_refreshFromGossip ord w r) = rs_gossip r"
  "rs_subdomainResolver (Resolver_refreshFromGossip ord w r) = rs_subdomainResolver r"
  by (simp_all add: Resolver_refreshFromGossip_def Let_def split: option.split)

lemma fold_cache_keyed:
  "\<forall>d e. fmlookup m d = Some e \<longrightarrow> se_DeploymentID e = d \<Longrightarrow>
   fmlookup (fold (cache_entry entries) ks m) d = Some e \<Longrightarrow> se_DeploymentID e = d"
proof (induction ks arbitrary: m)
  case (Cons k ks)
  have "\<forall>d e. fmlookup (cache_entry entries k m) d = Some e \<longrightarrow> se_DeploymentID e = d"
    using Cons.prems(1) by (simp add: cache_entry_def split: option.split)
  from Cons.IH [OF this] Cons.prems(2) show ?case by simp
qed simp

lemma refresh_keyed:
  assumes "services_keyed r"
  shows "services_keyed (Resolver_refreshFromGossip ord w r)"
proof (cases "rs_gossip r")
  case (Some f)
  have "\<forall>d e. fmlookup (rs_services r) d = Some e \<longrightarrow> se_DeploymentID e = d"
    using assms by (simp add: services_keyed_def)
  from fold_cache_keyed [OF this] show ?thesis
    by (auto simp: services_keyed_def Resolver_refreshFromGossip_def Some Let_def)
qed (simp add: assms Resolver_refreshFromGossip_def)

lemma Register_keyed: "services_keyed r \<Longrightarrow> services_keyed (Resolver_Register now e r)"
  by (simp add: services_keyed_def Resolver_Register_def)

lemma Unregister_keyed: "services_keyed r \<Longrightarrow> services_keyed (Resolver_Unregister d r)"
  by (simp add: services_keyed_def Resolver_Unregister_def)

definition routed :: "time \<Rightarrow> 'a \<Rightarrow> 'a Resolver \<Rightarrow> string \<Rightarrow> ServiceEntry \<Rightarrow> bool" where
  "routed now w r n e \<longleftrightarrow> fresh now e \<and> names_deployment now w r n (se_DeploymentID e)"

lemma exact_sound:
  "services_keyed r \<Longrightarrow> fresh_at now n (rs_services r) = Some e \<Longrightarrow> routed now w r n e"
  by (auto simp: services_keyed_def routed_def names_deployment_def dest: fresh_atD)

lemma prefix_sound:
  assumes "services_keyed r" "Resolver_resolveByPrefix now ks n r = Some e"
  shows "routed now w r n e"
proof -
  from assms(2) obtain d where "has_prefix (trim_prefix d ''dep-'') n" "8 \<le> length n"
    "fmlookup (rs_services r) d = Some e" "fresh now e"
    by (auto simp: Resolver_resolveByPrefix_def minPrefixLen_def dest: first_fresh_Some split: if_splits)
  then show ?thesis using assms(1) by (auto simp: services_keyed_def routed_def names_deployment_def)
qed

lemma vanity_sound:
  assumes "services_keyed r" "Resolver_resolveVanity now n w r = Some e"
  shows "routed now w r n e"
proof -
  from assms(2) obtain sr d where "rs_subdomainResolver r = Some sr"
    "sr_ResolveVanityName sr n w = Some d" "fmlookup (rs_services r) d = Some e" "fresh now e"
    by (auto simp: Resolver_resolveVanity_def dest: fresh_atD split: option.splits if_splits)
  then show ?thesis using assms(1) by (auto simp: services_keyed_def routed_def names_deployment_def)
qed

lemma on_chain_sound:
  assumes "services_keyed r" "fst (Resolver_resolveOnChain now ks n w r) = Some e"
  shows "routed now w r n e"
proof -
  from assms(2) obtain sr x where sr: "rs_subdomainResolver r = Some sr"
    "fst (sr_ResolveOnChain sr now n w) = Some x"
    "Resolver_findServiceByDeploymentID now ks x r = Some e"
    by (auto simp: Resolver_resolveOnChain_def split: option.splits if_splits prod.splits)
  from sr(3) obtain d where "fmlookup (rs_services r) d = Some e" "fresh now e"
    "d = x \<or> trim_prefix d ''dep-'' = x"
    by (auto simp: Resolver_findServiceByDeploymentID_def dest: fresh_atD first_fresh_Some split: option.splits)
  then show ?thesis using assms(1) sr(1,2) by (auto simp: services_keyed_def routed_def names_deployment_def)
qed

lemma routed_refresh [simp]:
  "routed now w (Resolver_refreshFromGossip ord w' r) n e \<longleftrightarrow> routed now w r n e"
  by (simp add: routed_def names_deployment_def)

lemma resolveOnce_cases:
  assumes "Resolver_resolveOnce ord now n w r = (res, w', r')"
  obtains e where "res = Some e" "r' = r" "w' = w"
      "fresh_at now n (rs_services r) = Some e \<or>
       Resolver_resolveByPrefix now (ord 1 (rs_services r)) n r = Some e \<or>
       Resolver_resolveVanity now n w r = Some e"
  | e where "res = Some e" "r' = Resolver_refreshFromGossip ord w r" "w' = w"
      "Resolver_resolveByPrefix now (ord 2 (rs_services r')) n r' = Some e \<or>
       Resolver_resolveVanity now n w r' = Some e"
  | "r' = Resolver_refreshFromGossip ord w r"
      "Resolver_resolveOnChain now (ord 3 (rs_services r')) n w r' = (res, w')"
proof (cases "fresh_at now n (rs_services r)")
  case (Some e)
  with assms show ?thesis by (intro that(1) [of e]) (simp_all add: Resolver_resolveOnce_def)
next
  case n1: None
  show ?thesis
  proof (cases "Resolver_resolveByPrefix now (ord 1 (rs_services r)) n r")
    case (Some e)
    with n1 assms show ?thesis by (intro that(1) [of e]) (simp_all add: Resolver_resolveOnce_def)
  next
    case n2: None
    show ?thesis
    proof (cases "Resolver_resolveVanity now n w r")
      case (Some e)
      with n1 n2 assms show ?thesis by (intro that(1) [of e]) (simp_all add: Resolver_resolveOnce_def)
    next
      case n3: None
      define r1 where "r1 = Resolver_refreshFromGossip ord w r"
      let ?retry = "if rs_gossip r = None then None
        else case Resolver_resolveByPrefix now (ord 2 (rs_services r1)) n r1 of
               Some entry \<Rightarrow> Some entry | None \<Rightarrow> Resolver_resolveVanity now n w r1"
      have eq: "(res, w', r') = (case ?retry of Some entry \<Rightarrow> (Some entry, w, r1)
          | None \<Rightarrow> let (entry, w') = Resolver_resolveOnChain now (ord 3 (rs_services r1)) n w r1
                   in (entry, w', r1))"
        unfolding assms [symmetric] Resolver_resolveOnce_def n1 n2 n3 option.case Let_def r1_def
        by (rule refl)
      show ?thesis
      proof (cases ?retry)
        case None
        with eq show ?thesis by (intro that(3)) (auto simp: r1_def split: prod.splits)
      next
        case (Some e)
        with eq show ?thesis
          by (intro that(2) [of e]) (auto simp: r1_def split: if_splits option.splits)
      qed
    qed
  qed
qed

lemma resolveOnce_sound:
  assumes "services_keyed r" "Resolver_resolveOnce ord now n w r = (res, w', r')"
  shows "services_keyed r' \<and> rs_subdomainResolver r' = rs_subdomainResolver r \<and>
    (\<forall>e. res = Some e \<longrightarrow> routed now w r n e)"
  using assms(2)
proof (cases rule: resolveOnce_cases)
  case (1 e)
  then show ?thesis
    using assms(1) by (auto intro: exact_sound prefix_sound vanity_sound)
next
  case (2 e)
  note k = refresh_keyed [OF assms(1), of ord w]
  have "routed now w r' n e" using 2(4) k by (auto simp only: 2(2) intro: prefix_sound vanity_sound)
  then show ?thesis using 2 k by simp
next
  case 3
  note k = refresh_keyed [OF assms(1), of ord w]
  have "routed now w r' n e" if "res = Some e" for e
    using 3 k that on_chain_sound [of r' now "ord 3 (rs_services r')" n w e] by simp
  then show ?thesis using 3 k by simp
qed

text \<open>
  C15. A request is routed only to a provider heard of in the last five minutes, and only to a
  deployment the requested name, or the name without its leftmost label, stands for: its
  exact id, a prefix of at least eight characters of the bare id, the name's gossip mapping,
  or its registration on chain.
\<close>

theorem resolve_routes_named_deployment:
  assumes "services_keyed r" "Resolver_Resolve ord now n w r = (Some e, w', r')"
  shows "services_keyed r' \<and> now - se_LastSeen e < 5 * Minute \<and>
    (names_deployment now w r n (se_DeploymentID e) \<or>
     (\<exists>p. parent_domain n = Some p \<and>
        names_deployment now (fst (snd (Resolver_resolveOnce ord now n w r))) r p (se_DeploymentID e)))"
proof -
  obtain res w1 r1 where 1: "Resolver_resolveOnce ord now n w r = (res, w1, r1)"
    by (metis prod_cases3)
  note s1 = resolveOnce_sound [OF assms(1) 1]
  have "services_keyed r' \<and> (routed now w r n e \<or>
     (\<exists>p. parent_domain n = Some p \<and> routed now w1 r p e))"
  proof (cases res)
    case None
    with assms(2) 1 obtain p where p: "parent_domain n = Some p"
      "Resolver_resolveOnce (\<lambda>i. ord (i + 4)) now p w1 r1 = (Some e, w', r')"
      by (auto simp: Resolver_Resolve_def split: option.splits)
    have "services_keyed r1" using s1 by simp
    from resolveOnce_sound [OF this p(2)] s1 p(1) show ?thesis
      by (auto simp: routed_def names_deployment_def)
  next
    case (Some e')
    with assms(2) 1 s1 show ?thesis by (auto simp: Resolver_Resolve_def)
  qed
  then show ?thesis by (auto simp: 1 routed_def fresh_def)
qed

subsection \<open>The interface between the resolver and its source of names\<close>

text \<open>
  What the resolver needs of a source of names: an on-chain lookup keeps a relation between
  the states before and after it.  Then every resolution keeps it.
\<close>

locale subdomain_source =
  fixes sr :: "'a SubdomainResolver"
    and keeps :: "'a \<Rightarrow> 'a \<Rightarrow> bool"
  assumes keeps_refl: "keeps w w"
    and keeps_trans: "keeps u v \<Longrightarrow> keeps v w \<Longrightarrow> keeps u w"
    and on_chain_keeps: "keeps w (snd (sr_ResolveOnChain sr now n w))"
begin

lemma resolveOnce_keeps:
  assumes "rs_subdomainResolver r = Some sr" "Resolver_resolveOnce ord now n w r = (res, w', r')"
  shows "keeps w w' \<and> rs_subdomainResolver r' = Some sr"
  using assms(2)
proof (cases rule: resolveOnce_cases)
  case 3
  then have "w' = snd (sr_ResolveOnChain sr now n w)"
    using assms(1) by (auto simp: Resolver_resolveOnChain_def split: prod.splits option.splits)
  then show ?thesis using 3(1) assms(1) on_chain_keeps by simp
qed (use assms(1) in \<open>simp_all add: keeps_refl\<close>)

lemma Resolve_keeps:
  assumes "rs_subdomainResolver r = Some sr" "Resolver_Resolve ord now n w r = (res, w', r')"
  shows "keeps w w'"
proof -
  obtain res1 w1 r1 where 1: "Resolver_resolveOnce ord now n w r = (res1, w1, r1)"
    by (metis prod_cases3)
  note k1 = resolveOnce_keeps [OF assms(1) 1]
  show ?thesis
  proof (cases "(res1, parent_domain n)")
    case (Pair x y)
    with assms(2) 1 k1 show ?thesis
      by (auto simp: Resolver_Resolve_def split: option.splits
          dest: resolveOnce_keeps intro: keeps_trans)
  qed
qed

end

lemma fetch_on_chain_fields:
  "ga_paymentService (snd (fetch_on_chain now n a)) = ga_paymentService a"
  "ga_cacheTTL (snd (fetch_on_chain now n a)) = ga_cacheTTL a"
  "ga_negativeTTL (snd (fetch_on_chain now n a)) = ga_negativeTTL a"
  by (simp_all add: fetch_on_chain_def cache_result_def Let_def split: option.split)

text \<open>Resolving names leaves the gossip state and the adapter's settings alone.\<close>

definition same_world :: "world \<Rightarrow> world \<Rightarrow> bool" where
  "same_world w w' \<longleftrightarrow> snd w' = snd w \<and> ga_paymentService (fst w') = ga_paymentService (fst w) \<and>
     ga_cacheTTL (fst w') = ga_cacheTTL (fst w) \<and> ga_negativeTTL (fst w') = ga_negativeTTL (fst w)"

interpretation adapter_source: subdomain_source adapter_subdomains same_world
proof
  fix w :: world and now n
  have "ga_paymentService (snd (GossipServiceAdapter_ResolveOnChain now n a)) = ga_paymentService a \<and>
      ga_cacheTTL (snd (GossipServiceAdapter_ResolveOnChain now n a)) = ga_cacheTTL a \<and>
      ga_negativeTTL (snd (GossipServiceAdapter_ResolveOnChain now n a)) = ga_negativeTTL a" for a
    by (simp add: fetch_on_chain_fields GossipServiceAdapter_ResolveOnChain_def Let_def split: option.split)
  then show "same_world w (snd (sr_ResolveOnChain adapter_subdomains now n w))"
    by (cases w) (simp add: adapter_subdomains_def same_world_def case_prod_unfold Let_def)
qed (simp_all add: same_world_def)

subsection \<open>A peer can take over the route of a deployment\<close>

lemma by_prefix_lookup:
  "fmlookup (GossipProtocol_GetStateByPrefix pre gp) k =
     (if has_prefix k pre then GossipProtocol_GetState k gp else None)"
proof -
  have "length pre \<le> length k \<and> take (length pre) k = pre \<longleftrightarrow> has_prefix k pre"
    using nat_le_linear [of "length k" "length pre"] by (auto simp: has_prefix_def)
  then show ?thesis
    by (simp add: GossipProtocol_GetStateByPrefix_def GossipProtocol_GetState_def)
qed

lemma exposed_lookup:
  "fmlookup (GossipServiceAdapter_GetExposedServices recode gp) k =
     (if has_prefix k ''expose:'' then
        (case GossipProtocol_GetState k gp of
           None \<Rightarrow> None
         | Some v \<Rightarrow> if v = GNil then None else toServiceEntry recode v)
      else None)"
  by (cases "fmlookup (GossipProtocol_GetStateByPrefix ''expose:'' gp) k")
     (simp_all add: GossipServiceAdapter_GetExposedServices_def Let_def by_prefix_lookup
        split: if_splits option.splits)

lemma fold_cache_other:
  "(\<And>k e'. k \<in> set ks \<Longrightarrow> fmlookup entries k = Some e' \<Longrightarrow> se_DeploymentID e' \<noteq> d) \<Longrightarrow>
   fmlookup (fold (cache_entry entries) ks m) d = fmlookup m d"
proof (induction ks arbitrary: m)
  case (Cons k ks)
  have "fmlookup (cache_entry entries k m) d = fmlookup m d"
    using Cons.prems [of k] by (auto simp: cache_entry_def split: option.split)
  moreover have "fmlookup (fold (cache_entry entries) ks (cache_entry entries k m)) d =
      fmlookup (cache_entry entries k m) d"
    using Cons.prems by (intro Cons.IH) auto
  ultimately show ?case by simp
qed simp

lemma refresh_takes_entry:
  assumes "\<And>i m. enumerates (ord i m) m" "rs_gossip r = Some f" "fmlookup (f w) k = Some e"
    and "\<And>k' e'. fmlookup (f w) k' = Some e' \<Longrightarrow> se_DeploymentID e' = se_DeploymentID e \<Longrightarrow> k' = k"
  shows "fmlookup (rs_services (Resolver_refreshFromGossip ord w r)) (se_DeploymentID e) = Some e"
proof -
  have "k \<in> set (ord 0 (f w))" using enumerates_in [OF assms(1)] assms(3) by simp
  then obtain as bs where ks: "ord 0 (f w) = as @ k # bs" "k \<notin> set bs"
    using split_list_last by metis
  have "fmlookup (fold (cache_entry (f w)) bs m) (se_DeploymentID e) = fmlookup m (se_DeploymentID e)" for m
    using ks(2) assms(4) by (intro fold_cache_other) metis
  then show ?thesis
    by (simp add: Resolver_refreshFromGossip_def assms(2,3) Let_def ks(1) cache_entry_def)
qed

lemma daemon_refresh_takes_entry:
  assumes "\<forall>i m. enumerates (ord i m) m" "rs_gossip r = rs_gossip (daemon_resolver recode)"
    and "fmlookup (GossipServiceAdapter_GetExposedServices recode gp) key = Some e"
    and unique: "\<forall>k' e'. fmlookup (GossipServiceAdapter_GetExposedServices recode gp) k' = Some e' \<longrightarrow>
          se_DeploymentID e' = se_DeploymentID e \<longrightarrow> k' = key"
  shows "fmlookup (rs_services (Resolver_refreshFromGossip ord (a, gp) r)) (se_DeploymentID e) = Some e"
proof (rule refresh_takes_entry)
  show "enumerates (ord i m) m" for i m using assms(1) by blast
  show "rs_gossip r = Some (\<lambda>(a, gp). GossipServiceAdapter_GetExposedServices recode gp)"
    using assms(2) by (simp add: daemon_resolver_def NewResolver_def)
  show "fmlookup (case (a, gp) of (a, gp) \<Rightarrow> GossipServiceAdapter_GetExposedServices recode gp) key = Some e"
    using assms(3) by simp
  show "k' = key"
    if "fmlookup (case (a, gp) of (a, gp) \<Rightarrow> GossipServiceAdapter_GetExposedServices recode gp) k' = Some e'"
      "se_DeploymentID e' = se_DeploymentID e" for k' e'
    using that unique unfolding prod.case by blast
qed

text \<open>
  C33. The validator compares the value's provider with the sender, not with the provider that
  owns the key.  So one message of a staked peer replaces the service entry another provider
  published, and the next refresh routes the deployment to the peer's address.
\<close>

theorem expose_entry_taken_over:
  assumes "gp_stateValidator gp = Some (NewGossipStateValidator localNodeID)"
    and "n_ID node \<noteq> 0" "fst (gossip_staked now (n_ID node) gp)"
    and "fmlookup (gp_state gp) key = Some owners_entry" "has_prefix key ''expose:''"
    and "ge_unmarshalMsg env payload = Some (state_update t [(key, GObj obj)])"
    and "map_of obj ''provider_node_id'' = Some (GStr (NodeID_String (n_ID node)))"
    and "ge_marshal env (GObj obj) = Some bs" "length bs \<le> 65536"
    and "recode (GObj obj) = Some e" "se_DeploymentID e \<noteq> ''''" "se_ProviderAddr e \<noteq> ''''"
    and "GossipProtocol_HandleGossipMessage env now payload (Some node) gp = (err, gp')"
  shows "err = None \<and> fmlookup (GossipServiceAdapter_GetExposedServices recode gp') key = Some e \<and>
    (\<forall>ord a r. (\<forall>i m. enumerates (ord i m) m) \<longrightarrow>
       rs_gossip r = rs_gossip (daemon_resolver recode) \<longrightarrow>
       (\<forall>k' e'. fmlookup (GossipServiceAdapter_GetExposedServices recode gp') k' = Some e' \<longrightarrow>
          se_DeploymentID e' = se_DeploymentID e \<longrightarrow> k' = key) \<longrightarrow>
       fmlookup (rs_services (Resolver_refreshFromGossip ord (a, gp') r)) (se_DeploymentID e) = Some e)"
proof -
  obtain gp1 where s: "gossip_staked now (n_ID node) gp = (True, gp1)"
    using assms(3) by (metis eq_fst_iff)
  have g1: "gp_state gp1 = gp_state gp" "gp_stateValidator gp1 = gp_stateValidator gp"
    using gossip_staked_frame [of now "n_ID node" gp] by (simp_all add: s)
  have "NodeID_String (n_ID node) \<noteq> ''''"
    by (auto simp: NodeID_String_def node_bytes_def dest!: arg_cong [where f = length] simp: length_hex_encode)
  then have acc: "merge_accepts env (gp_stateValidator gp) (n_ID node) key (GObj obj)"
    using assms by (auto simp: merge_accepts_def NewGossipStateValidator_def validateExposeEntry_def
        maxStateValueSize_def)
  have h: "err = None"
    "gp_state gp' = merge_entry env now (gp_stateValidator gp) (n_ID node) (key, GObj obj) (gp_state gp)"
    using assms(13) by (auto simp: GossipProtocol_HandleGossipMessage_def s g1 assms(6) state_update_def)
  have "GossipProtocol_GetState key gp' = Some (GObj obj)"
    using acc assms(4) by (simp add: GossipProtocol_GetState_def h(2) merge_entry_lookup)
  then have ex: "fmlookup (GossipServiceAdapter_GetExposedServices recode gp') key = Some e"
    using assms(5,10-12) by (simp add: exposed_lookup toServiceEntry_def)
  show ?thesis using h(1) ex daemon_refresh_takes_entry [OF _ _ ex] by blast
qed

subsection \<open>Expired names stop resolving\<close>

lemma update_existing:
  assumes "fmlookup (gp_state gp) key \<noteq> None"
  shows "gp_state (snd (GossipProtocol_UpdateState env now eks pks sks key v gp)) =
    fmupd key \<lparr>st_Value = v, st_LastUpdated = now\<rparr> (gp_state gp)"
  using assms by (auto simp: GossipProtocol_UpdateState_def store_local_def)

lemma clean_lookup:
  "(\<And>v. v \<in> set visits \<Longrightarrow> fmlookup (gp_state gp) (fst v) \<noteq> None) \<Longrightarrow>
   GossipProtocol_GetState k (cleanExpiredSubdomains env isExpired visits gp) =
     (if k \<in> fst ` set visits \<and> trim_prefix k ''subdomain:'' \<noteq> '''' \<and>
         isExpired (trim_prefix k ''subdomain:'') = Some True
      then Some GNil else GossipProtocol_GetState k gp)"
proof (induction visits arbitrary: gp)
  case Nil
  show ?case by (simp add: cleanExpiredSubdomains_def)
next
  case (Cons v vs)
  obtain key now eks pks sks where v: "v = (key, now, eks, pks, sks)" by (metis prod_cases5)
  define hit where "hit \<longleftrightarrow> trim_prefix key ''subdomain:'' \<noteq> '''' \<and>
    isExpired (trim_prefix key ''subdomain:'') = Some True"
  define gp1 where
    "gp1 = (if hit then snd (GossipProtocol_UpdateState env now eks pks sks key GNil gp) else gp)"
  have "fmlookup (gp_state gp) key \<noteq> None" using Cons.prems [of v] by (simp add: v)
  then have st: "gp_state gp1 = (if hit then fmupd key \<lparr>st_Value = GNil, st_LastUpdated = now\<rparr> (gp_state gp)
      else gp_state gp)"
    by (simp add: gp1_def update_existing)
  have step: "cleanExpiredSubdomains env isExpired (v # vs) gp = cleanExpiredSubdomains env isExpired vs gp1"
    by (simp add: cleanExpiredSubdomains_def v gp1_def hit_def Let_def)
  have "fmlookup (gp_state gp1) (fst u) \<noteq> None" if "u \<in> set vs" for u
    using Cons.prems [of u] that by (simp add: st)
  then have IH: "GossipProtocol_GetState k (cleanExpiredSubdomains env isExpired vs gp1) =
     (if k \<in> fst ` set vs \<and> trim_prefix k ''subdomain:'' \<noteq> [] \<and>
         isExpired (trim_prefix k ''subdomain:'') = Some True
      then Some GNil else GossipProtocol_GetState k gp1)"
    by (rule Cons.IH)
  show ?case
    unfolding step IH by (auto simp: v GossipProtocol_GetState_def st hit_def)
qed

text \<open>
  After the cleanup a name resolves through gossip exactly if it did before and the contract
  did not report it expired; a failed query leaves it alone.
\<close>

theorem expired_names_unresolvable:
  assumes "fst ` set visits = fmdom' (GossipProtocol_GetStateByPrefix ''subdomain:'' gp)" "name \<noteq> ''''"
  shows "GossipServiceAdapter_ResolveVanityName name (cleanExpiredSubdomains env isExpired visits gp) =
    (if isExpired name = Some True then None else GossipServiceAdapter_ResolveVanityName name gp)"
proof -
  have in_state: "fmlookup (gp_state gp) (fst v) \<noteq> None" if "v \<in> set visits" for v
  proof -
    have "fst v \<in> fmdom' (GossipProtocol_GetStateByPrefix ''subdomain:'' gp)"
      using that assms(1) by blast
    then show ?thesis
      by (auto simp: fmlookup_dom'_iff by_prefix_lookup GossipProtocol_GetState_def split: if_splits)
  qed
  have "(''subdomain:'' @ name) \<in> fst ` set visits \<longleftrightarrow>
      GossipProtocol_GetState (''subdomain:'' @ name) gp \<noteq> None"
    using has_prefix_append [of "''subdomain:''" name]
    by (auto simp: assms(1) fmlookup_dom'_iff by_prefix_lookup)
  then show ?thesis
    using assms(2) trim_prefix_append [of "''subdomain:''" name]
    by (auto simp: GossipServiceAdapter_ResolveVanityName_def clean_lookup [OF in_state]
        simp del: append.simps split: option.split)
qed

subsection \<open>Concrete runs\<close>

definition example_service :: ServiceEntry where
  "example_service = \<lparr>se_DeploymentID = ''d1'', se_ProviderNodeID = NodeID_String 3,
     se_ProviderAddr = ''6.6.6.6:1'', se_ContainerPort = 80, se_HostPort = 80, se_LastSeen = 5,
     se_RuntimeType = ''''\<rparr>"

definition victim_gossip :: GossipProtocol where
  "victim_gossip = store_local 4 [] ''expose:d1:80''
     (GEntry (example_service\<lparr>se_ProviderNodeID := NodeID_String 8, se_ProviderAddr := ''8.8.8.8:1''\<rparr>))
     example_gossip"

lemma victim_gossip_fields:
  "gp_stateValidator victim_gossip = Some (NewGossipStateValidator 1)"
  "\<exists>v. fmlookup (gp_state victim_gossip) ''expose:d1:80'' = Some v"
  "fst (gossip_staked 7 (n_ID example_node) victim_gossip)"
proof -
  have "gp_stakeVerifier victim_gossip = gp_stakeVerifier example_gossip"
    by (simp add: victim_gossip_def store_local_def GossipProtocol_evictOldestStateLocked_def Let_def)
  then show "fst (gossip_staked 7 (n_ID example_node) victim_gossip)"
    using example_gossip_staked [of 7]
    by (auto simp: gossip_staked_def example_node_def split: option.splits prod.splits)
qed (simp_all add: victim_gossip_def store_local_def example_gossip_fields maxStateEntries_def Let_def)

theorem expose_entry_taken_over_witness:
  "fmlookup (GossipServiceAdapter_GetExposedServices (\<lambda>_. Some example_service)
     (snd (GossipProtocol_HandleGossipMessage example_genv 7 [1] (Some example_node) victim_gossip)))
     ''expose:d1:80'' = Some example_service"
proof -
  obtain v where v: "fmlookup (gp_state victim_gossip) ''expose:d1:80'' = Some v"
    using victim_gossip_fields(2) by blast
  show ?thesis
    using expose_entry_taken_over [OF victim_gossip_fields(1) _ victim_gossip_fields(3) v,
        of example_genv "[1]" 5 "[(''provider_node_id'', GStr (NodeID_String 3))]" "[]"
          "\<lambda>_. Some example_service" example_service, OF _ _ _ _ _ _ _ _ _ surjective_pairing]
    by (simp add: example_node_def has_prefix_def example_genv_def example_entry_def example_service_def)
qed

theorem resolve_routes_named_deployment_witness:
  "\<exists>e w' r'. Resolver_Resolve (\<lambda>i m. []) 9 ''d1'' (NewGossipServiceAdapter, victim_gossip)
     (Resolver_Register 8 example_service (daemon_resolver (\<lambda>_. None))) = (Some e, w', r') \<and>
     9 - se_LastSeen e < 5 * Minute"
proof -
  let ?r = "Resolver_Register 8 example_service (daemon_resolver (\<lambda>_. None))"
  have k: "services_keyed ?r"
    by (rule Register_keyed) (simp add: services_keyed_def daemon_resolver_def NewResolver_def)
  have res: "Resolver_Resolve (\<lambda>i m. []) 9 ''d1'' (NewGossipServiceAdapter, victim_gossip) ?r =
    (Some (example_service\<lparr>se_LastSeen := 8\<rparr>), (NewGossipServiceAdapter, victim_gossip), ?r)"
    by (simp add: Resolver_Resolve_def Resolver_resolveOnce_def fresh_at_def fresh_def
        Resolver_Register_def example_service_def daemon_resolver_def NewResolver_def)
  from resolve_routes_named_deployment [OF k res] res show ?thesis by blast
qed

theorem expired_names_unresolvable_witness:
  "GossipServiceAdapter_ResolveVanityName ''shop''
     (cleanExpiredSubdomains example_genv (\<lambda>n. Some True) [(''subdomain:shop'', 6, [], [], [])]
       (store_local 4 [] ''subdomain:shop'' (GStr ''d1'') NewGossipProtocol)) = None"
proof -
  have "fst ` set [(''subdomain:shop'', 6 :: int, [] :: string list, [] :: node_id list, [] :: string list)] =
    fmdom' (GossipProtocol_GetStateByPrefix ''subdomain:''
      (store_local 4 [] ''subdomain:shop'' (GStr ''d1'') NewGossipProtocol))"
    by (auto simp: fmlookup_dom'_iff by_prefix_lookup GossipProtocol_GetState_def store_local_def
        NewGossipProtocol_def maxStateEntries_def has_prefix_def split: if_splits)
  from expired_names_unresolvable [OF this, of "''shop''" example_genv "\<lambda>n. Some True"] show ?thesis
    by simp
qed

end
