(* ===== verification/Crawl.thy ===== *)
theory Crawl
  imports Gossip Billing Go_Text
begin

text \<open>
  The crawl service: job scheduler, domain rate limiter and URL deduplication
  (\<^verbatim>\<open>src/internal/crawl/scheduler.go\<close>, \<^verbatim>\<open>rate_limiter.go\<close>, \<^verbatim>\<open>types.go\<close>).  The URL parser of
  \<^verbatim>\<open>net/url\<close> is a parameter that gives scheme and host name; the bytes read from
  \<^verbatim>\<open>crypto/rand\<close> are an argument of job creation.  \<^verbatim>\<open>CreateJob\<close> takes the scheduler's lock
  twice, once to count the owner's jobs and once to insert the new one: the two critical
  sections are definitions of their own, so that two calls can be interleaved.  The metering
  hook acts on a state \<open>'m\<close>; the daemon's is the service meter of the billing model.
\<close>

subsection \<open>Requests per domain\<close>

record DomainRateLimiter =
  dl_domains :: "(string, time) gomap"
  dl_interval :: duration

definition NewDomainRateLimiter :: "duration \<Rightarrow> DomainRateLimiter" where
  "NewDomainRateLimiter interval = \<lparr>dl_domains = fmempty, dl_interval = interval\<rparr>"

definition DomainRateLimiter_Allow :: "time \<Rightarrow> string \<Rightarrow> DomainRateLimiter \<Rightarrow> bool \<times> DomainRateLimiter" where
  "DomainRateLimiter_Allow now domain rl =
     (if (case fmlookup (dl_domains rl) domain of
            None \<Rightarrow> False | Some last_req \<Rightarrow> t_sub now last_req < dl_interval rl)
      then (False, rl)
      else (True, rl\<lparr>dl_domains := fmupd domain now (dl_domains rl)\<rparr>))"

definition DomainRateLimiter_SetDelay :: "string \<Rightarrow> duration \<Rightarrow> DomainRateLimiter \<Rightarrow> DomainRateLimiter" where
  "DomainRateLimiter_SetDelay domain delay rl = rl"

subsection \<open>URLs seen per job\<close>

type_synonym URLDedup = "(string, (string, bool) gomap) gomap"

definition URLDedup_Seen :: "string \<Rightarrow> string \<Rightarrow> URLDedup \<Rightarrow> bool" where
  "URLDedup_Seen jobID url d =
     (case fmlookup d jobID of
        None \<Rightarrow> False
      | Some urls \<Rightarrow> (case fmlookup urls url of None \<Rightarrow> False | Some b \<Rightarrow> b))"

definition URLDedup_Mark :: "string \<Rightarrow> string \<Rightarrow> URLDedup \<Rightarrow> URLDedup" where
  "URLDedup_Mark jobID url d =
     fmupd jobID (fmupd url True (case fmlookup d jobID of None \<Rightarrow> fmempty | Some urls \<Rightarrow> urls)) d"

definition URLDedup_Clear :: "string \<Rightarrow> URLDedup \<Rightarrow> URLDedup" where
  "URLDedup_Clear jobID d = fmdrop jobID d"

definition URLDedup_Count :: "string \<Rightarrow> URLDedup \<Rightarrow> nat" where
  "URLDedup_Count jobID d = (case fmlookup d jobID of None \<Rightarrow> 0 | Some urls \<Rightarrow> mlen urls)"

subsection \<open>Jobs\<close>

datatype JobStatus =
  JobStatusPending | JobStatusRunning | JobStatusCompleted | JobStatusFailed | JobStatusCancelled

record CrawlConfig =
  cc_URLs :: "string list"
  cc_MaxDepth :: int
  cc_MaxPages :: int
  cc_AllowedDomains :: "string list"
  cc_Selectors :: "string list"
  cc_Screenshot :: bool
  cc_JavaScript :: bool
  cc_UserAgent :: string
  cc_Headers :: "(string, string) gomap"
  cc_TimeoutSec :: int
  cc_RespectRobots :: bool
  cc_UseTor :: bool
  cc_StorageBucket :: string

definition DefaultCrawlConfig :: CrawlConfig where
  "DefaultCrawlConfig =
     \<lparr>cc_URLs = [], cc_MaxDepth = 0, cc_MaxPages = 100, cc_AllowedDomains = [], cc_Selectors = [],
      cc_Screenshot = False, cc_JavaScript = False, cc_UserAgent = ''MoltbunkerCrawler/1.0'',
      cc_Headers = fmempty, cc_TimeoutSec = 30, cc_RespectRobots = True, cc_UseTor = False,
      cc_StorageBucket = ''''\<rparr>"

record CrawlResult =
  cr_URL :: string
  cr_StatusCode :: int
  cr_ContentType :: string
  cr_Title :: string
  cr_HTML :: string
  cr_Text :: string
  cr_Links :: "string list"
  cr_Selectors :: "(string, string) gomap"
  cr_ScreenshotCID :: string
  cr_CrawledAt :: time
  cr_DurationMs :: int
  cr_Error :: string
  cr_ByteSize :: int

record CrawlJob =
  cj_ID :: string
  cj_Owner :: string
  cj_Status :: JobStatus
  cj_Config :: CrawlConfig
  cj_CreatedAt :: time
  cj_StartedAt :: time
  cj_CompletedAt :: time
  cj_Error :: string
  cj_PagesCrawled :: int
  cj_TotalBytes :: int
  cj_Results :: "CrawlResult list"

record SchedulerConfig =
  sg_MaxConcurrentJobs :: int
  sg_MaxJobsPerWallet :: int
  sg_DefaultPageTimeout :: duration
  sg_MaxPagesPerJob :: int

definition DefaultSchedulerConfig :: SchedulerConfig where
  "DefaultSchedulerConfig =
     \<lparr>sg_MaxConcurrentJobs = 10, sg_MaxJobsPerWallet = 5, sg_DefaultPageTimeout = 30 * Second,
      sg_MaxPagesPerJob = 1000\<rparr>"

record 'm Scheduler =
  sc_jobs :: "(string, CrawlJob) gomap"
  sc_config :: SchedulerConfig
  sc_rateLimit :: DomainRateLimiter
  sc_dedup :: URLDedup
  sc_meter :: "(string \<Rightarrow> int \<Rightarrow> int \<Rightarrow> 'm \<Rightarrow> 'm) option"

datatype crawl_error =
    OwnerRequired | URLRequired | InvalidURL string | BadScheme string | JobLimitExceeded
  | JobIDFailed | JobNotFound | CannotStart JobStatus | AlreadyFinished

definition NewScheduler :: "SchedulerConfig \<Rightarrow> 'm Scheduler" where
  "NewScheduler cfg =
     \<lparr>sc_jobs = fmempty, sc_config = cfg, sc_rateLimit = NewDomainRateLimiter Second,
      sc_dedup = fmempty, sc_meter = None\<rparr>"

definition Scheduler_SetMeteringHook ::
  "(string \<Rightarrow> int \<Rightarrow> int \<Rightarrow> 'm \<Rightarrow> 'm) option \<Rightarrow> 'm Scheduler \<Rightarrow> 'm Scheduler" where
  "Scheduler_SetMeteringHook h s = s\<lparr>sc_meter := h\<rparr>"

subsection \<open>Creating a job\<close>

text \<open>The jobs of an owner that count against the owner's limit.\<close>

definition is_active :: "string \<Rightarrow> CrawlJob \<Rightarrow> bool" where
  "is_active owner j \<longleftrightarrow>
     cj_Owner j = owner \<and> (cj_Status j = JobStatusPending \<or> cj_Status j = JobStatusRunning)"

definition active_jobs :: "string \<Rightarrow> (string, CrawlJob) gomap \<Rightarrow> (string, CrawlJob) gomap" where
  "active_jobs owner jobs =
     fmfilter (\<lambda>k. case fmlookup jobs k of None \<Rightarrow> False | Some j \<Rightarrow> is_active owner j) jobs"

fun validate_urls :: "(string \<Rightarrow> (string \<times> string) option) \<Rightarrow> string list \<Rightarrow> crawl_error option" where
  "validate_urls parse [] = None"
| "validate_urls parse (u # us) =
     (case parse u of
        None \<Rightarrow> Some (InvalidURL u)
      | Some (scheme, host) \<Rightarrow>
          if scheme \<noteq> ''http'' \<and> scheme \<noteq> ''https'' then Some (BadScheme u)
          else validate_urls parse us)"

definition create_check ::
  "(string \<Rightarrow> (string \<times> string) option) \<Rightarrow> string \<Rightarrow> CrawlConfig \<Rightarrow> 'm Scheduler \<Rightarrow> crawl_error option" where
  "create_check parse owner cfg s =
     (if owner = '''' then Some OwnerRequired
      else if cc_URLs cfg = [] then Some URLRequired
      else case validate_urls parse (cc_URLs cfg) of
             Some err \<Rightarrow> Some err
           | None \<Rightarrow>
               if sg_MaxJobsPerWallet (sc_config s) \<le> int (mlen (active_jobs owner (sc_jobs s)))
               then Some JobLimitExceeded else None)"

definition with_defaults :: "SchedulerConfig \<Rightarrow> CrawlConfig \<Rightarrow> CrawlConfig" where
  "with_defaults sg cfg =
     (let cfg = (if cc_MaxPages cfg \<le> 0 then cfg\<lparr>cc_MaxPages := 100\<rparr> else cfg);
          cfg = (if sg_MaxPagesPerJob sg < cc_MaxPages cfg
                 then cfg\<lparr>cc_MaxPages := sg_MaxPagesPerJob sg\<rparr> else cfg);
          cfg = (if cc_TimeoutSec cfg \<le> 0
                 then cfg\<lparr>cc_TimeoutSec := float_trunc (duration_Seconds (sg_DefaultPageTimeout sg))\<rparr> else cfg)
      in if cc_UserAgent cfg = '''' then cfg\<lparr>cc_UserAgent := ''MoltbunkerCrawler/1.0''\<rparr> else cfg)"

definition generateJobID :: "byte list option \<Rightarrow> string option" where
  "generateJobID rnd = map_option (\<lambda>b. ''crawl-'' @ take 12 (hex_encode b)) rnd"

definition create_insert ::
  "time \<Rightarrow> byte list option \<Rightarrow> string \<Rightarrow> CrawlConfig \<Rightarrow> 'm Scheduler \<Rightarrow> (crawl_error + CrawlJob) \<times> 'm Scheduler" where
  "create_insert now rnd owner cfg s =
     (case generateJobID rnd of
        None \<Rightarrow> (Inl JobIDFailed, s)
      | Some i \<Rightarrow>
          let job = \<lparr>cj_ID = i, cj_Owner = owner, cj_Status = JobStatusPending,
                     cj_Config = with_defaults (sc_config s) cfg, cj_CreatedAt = now, cj_StartedAt = 0,
                     cj_CompletedAt = 0, cj_Error = '''', cj_PagesCrawled = 0, cj_TotalBytes = 0,
                     cj_Results = []\<rparr>
          in (Inr job, s\<lparr>sc_jobs := fmupd i job (sc_jobs s)\<rparr>))"

definition Scheduler_CreateJob ::
  "(string \<Rightarrow> (string \<times> string) option) \<Rightarrow> time \<Rightarrow> byte list option \<Rightarrow> string \<Rightarrow> CrawlConfig
   \<Rightarrow> 'm Scheduler \<Rightarrow> (crawl_error + CrawlJob) \<times> 'm Scheduler" where
  "Scheduler_CreateJob parse now rnd owner cfg s =
     (case create_check parse owner cfg s of
        Some err \<Rightarrow> (Inl err, s)
      | None \<Rightarrow> create_insert now rnd owner cfg s)"

subsection \<open>The life of a job\<close>

definition put_job :: "string \<Rightarrow> CrawlJob \<Rightarrow> 'm Scheduler \<Rightarrow> 'm Scheduler" where
  "put_job jobID job s = s\<lparr>sc_jobs := fmupd jobID job (sc_jobs s)\<rparr>"

definition Scheduler_StartJob :: "time \<Rightarrow> string \<Rightarrow> 'm Scheduler \<Rightarrow> crawl_error option \<times> 'm Scheduler" where
  "Scheduler_StartJob now jobID s =
     (case fmlookup (sc_jobs s) jobID of
        None \<Rightarrow> (Some JobNotFound, s)
      | Some job \<Rightarrow>
          if cj_Status job \<noteq> JobStatusPending then (Some (CannotStart (cj_Status job)), s)
          else (None, put_job jobID (job\<lparr>cj_Status := JobStatusRunning, cj_StartedAt := now\<rparr>) s))"

definition Scheduler_AddResult :: "string \<Rightarrow> CrawlResult \<Rightarrow> 'm Scheduler \<Rightarrow> crawl_error option \<times> 'm Scheduler" where
  "Scheduler_AddResult jobID result s =
     (case fmlookup (sc_jobs s) jobID of
        None \<Rightarrow> (Some JobNotFound, s)
      | Some job \<Rightarrow>
          (None, put_job jobID
             (job\<lparr>cj_Results := cj_Results job @ [result],
                 cj_PagesCrawled := wrap64 (cj_PagesCrawled job + 1),
                 cj_TotalBytes := wrap64 (cj_TotalBytes job + cr_ByteSize result)\<rparr>) s))"

definition Scheduler_CompleteJob ::
  "time \<Rightarrow> string \<Rightarrow> 'm \<Rightarrow> 'm Scheduler \<Rightarrow> crawl_error option \<times> 'm \<times> 'm Scheduler" where
  "Scheduler_CompleteJob now jobID m s =
     (case fmlookup (sc_jobs s) jobID of
        None \<Rightarrow> (Some JobNotFound, m, s)
      | Some job \<Rightarrow>
          (None,
           (case sc_meter s of
              None \<Rightarrow> m
            | Some RecordCrawlJob \<Rightarrow> RecordCrawlJob (cj_Owner job) (cj_PagesCrawled job) (cj_TotalBytes job) m),
           put_job jobID (job\<lparr>cj_Status := JobStatusCompleted, cj_CompletedAt := now\<rparr>) s))"

definition Scheduler_FailJob :: "time \<Rightarrow> string \<Rightarrow> string \<Rightarrow> 'm Scheduler \<Rightarrow> crawl_error option \<times> 'm Scheduler" where
  "Scheduler_FailJob now jobID errMsg s =
     (case fmlookup (sc_jobs s) jobID of
        None \<Rightarrow> (Some JobNotFound, s)
      | Some job \<Rightarrow>
          (None, put_job jobID
             (job\<lparr>cj_Status := JobStatusFailed, cj_Error := errMsg, cj_CompletedAt := now\<rparr>) s))"

definition Scheduler_CancelJob :: "time \<Rightarrow> string \<Rightarrow> 'm Scheduler \<Rightarrow> crawl_error option \<times> 'm Scheduler" where
  "Scheduler_CancelJob now jobID s =
     (case fmlookup (sc_jobs s) jobID of
        None \<Rightarrow> (Some JobNotFound, s)
      | Some job \<Rightarrow>
          if cj_Status job = JobStatusCompleted \<or> cj_Status job = JobStatusFailed
          then (Some AlreadyFinished, s)
          else (None, put_job jobID
                 (job\<lparr>cj_Status := JobStatusCancelled, cj_CompletedAt := now\<rparr>) s))"

subsection \<open>Queries\<close>

definition Scheduler_GetJob :: "string \<Rightarrow> 'm Scheduler \<Rightarrow> CrawlJob option" where
  "Scheduler_GetJob jobID s = fmlookup (sc_jobs s) jobID"

definition Scheduler_ListJobs :: "string list \<Rightarrow> string \<Rightarrow> 'm Scheduler \<Rightarrow> CrawlJob list" where
  "Scheduler_ListJobs ks wallet s =
     List.map_filter
       (\<lambda>k. case fmlookup (sc_jobs s) k of
              None \<Rightarrow> None
            | Some j \<Rightarrow> if wallet = '''' \<or> cj_Owner j = wallet then Some (j\<lparr>cj_Results := []\<rparr>) else None) ks"

definition Scheduler_GetResults :: "string \<Rightarrow> 'm Scheduler \<Rightarrow> crawl_error + CrawlResult list" where
  "Scheduler_GetResults jobID s =
     (case fmlookup (sc_jobs s) jobID of
        None \<Rightarrow> Inl JobNotFound | Some job \<Rightarrow> Inr (cj_Results job))"

definition domain_allowed :: "string list \<Rightarrow> string \<Rightarrow> bool" where
  "domain_allowed ds hostname =
     (let host = trim_prefix hostname ''www.''
      in list_ex (\<lambda>d. host = d \<or> host = ''www.'' @ d) ds)"

definition Scheduler_ShouldCrawl ::
  "(string \<Rightarrow> (string \<times> string) option) \<Rightarrow> string \<Rightarrow> string \<Rightarrow> int \<Rightarrow> CrawlConfig
   \<Rightarrow> 'm Scheduler \<Rightarrow> bool \<times> 'm Scheduler" where
  "Scheduler_ShouldCrawl parse jobID targetURL depth cfg s =
     (if cc_MaxDepth cfg < depth then (False, s)
      else if URLDedup_Seen jobID targetURL (sc_dedup s) then (False, s)
      else if cc_AllowedDomains cfg \<noteq> [] \<and>
              (case parse targetURL of
                 None \<Rightarrow> True
               | Some (scheme, host) \<Rightarrow> \<not> domain_allowed (cc_AllowedDomains cfg) host)
      then (False, s)
      else (True, s\<lparr>sc_dedup := URLDedup_Mark jobID targetURL (sc_dedup s)\<rparr>))"

definition Scheduler_CheckRateLimit :: "time \<Rightarrow> string \<Rightarrow> 'm Scheduler \<Rightarrow> bool \<times> 'm Scheduler" where
  "Scheduler_CheckRateLimit now domain s =
     (let (ok, rl) = DomainRateLimiter_Allow now domain (sc_rateLimit s)
      in (ok, s\<lparr>sc_rateLimit := rl\<rparr>))"

record SchedulerStats =
  ss_TotalJobs :: int
  ss_RunningJobs :: int
  ss_CompletedJobs :: int
  ss_FailedJobs :: int
  ss_TotalPagesCrawled :: int
  ss_TotalBytes :: int

definition add_stats :: "CrawlJob \<Rightarrow> SchedulerStats \<Rightarrow> SchedulerStats" where
  "add_stats j st =
     \<lparr>ss_TotalJobs = ss_TotalJobs st + 1,
      ss_RunningJobs = ss_RunningJobs st + (if cj_Status j = JobStatusRunning then 1 else 0),
      ss_CompletedJobs = ss_CompletedJobs st + (if cj_Status j = JobStatusCompleted then 1 else 0),
      ss_FailedJobs = ss_FailedJobs st + (if cj_Status j = JobStatusFailed then 1 else 0),
      ss_TotalPagesCrawled = wrap64 (ss_TotalPagesCrawled st + cj_PagesCrawled j),
      ss_TotalBytes = wrap64 (ss_TotalBytes st + cj_TotalBytes j)\<rparr>"

definition Scheduler_Stats :: "string list \<Rightarrow> 'm Scheduler \<Rightarrow> SchedulerStats" where
  "Scheduler_Stats ks s =
     fold (\<lambda>k st. case fmlookup (sc_jobs s) k of None \<Rightarrow> st | Some j \<Rightarrow> add_stats j st) ks
       \<lparr>ss_TotalJobs = 0, ss_RunningJobs = 0, ss_CompletedJobs = 0, ss_FailedJobs = 0,
        ss_TotalPagesCrawled = 0, ss_TotalBytes = 0\<rparr>"

subsection \<open>The scheduler as a machine\<close>

datatype crawl_op =
    COCreate time "byte list option" string CrawlConfig
  | COStart time string
  | COResult string CrawlResult
  | COComplete time string
  | COFail time string string
  | COCancel time string
  | COVisit string string int CrawlConfig
  | CORate time string

definition crawl_step ::
  "(string \<Rightarrow> (string \<times> string) option) \<Rightarrow> crawl_op \<Rightarrow> 'm \<times> 'm Scheduler \<Rightarrow> 'm \<times> 'm Scheduler" where
  "crawl_step parse op ms =
     (let (m, s) = ms
      in case op of
           COCreate now rnd owner cfg \<Rightarrow> (m, snd (Scheduler_CreateJob parse now rnd owner cfg s))
         | COStart now i \<Rightarrow> (m, snd (Scheduler_StartJob now i s))
         | COResult i res \<Rightarrow> (m, snd (Scheduler_AddResult i res s))
         | COComplete now i \<Rightarrow> snd (Scheduler_CompleteJob now i m s)
         | COFail now i msg \<Rightarrow> (m, snd (Scheduler_FailJob now i msg s))
         | COCancel now i \<Rightarrow> (m, snd (Scheduler_CancelJob now i s))
         | COVisit i url depth cfg \<Rightarrow> (m, snd (Scheduler_ShouldCrawl parse i url depth cfg s))
         | CORate now domain \<Rightarrow> (m, snd (Scheduler_CheckRateLimit now domain s)))"

subsection \<open>Requests to one domain are spaced\<close>

text \<open>The times of the requests to a domain that a sequence of calls lets through.\<close>

fun allowed_times :: "(time \<times> string) list \<Rightarrow> string \<Rightarrow> DomainRateLimiter \<Rightarrow> time list" where
  "allowed_times [] d rl = []"
| "allowed_times ((now, domain) # calls) d rl =
     (let (ok, rl') = DomainRateLimiter_Allow now domain rl
      in if ok \<and> domain = d then now # allowed_times calls d rl' else allowed_times calls d rl')"

lemma Allow_interval [simp]: "dl_interval (snd (DomainRateLimiter_Allow now domain rl)) = dl_interval rl"
  by (simp add: DomainRateLimiter_Allow_def)

lemma allowed_times_after:
  assumes "fmlookup (dl_domains rl) d = Some t" "x \<in> set (allowed_times calls d rl)"
    and "0 \<le> dl_interval rl" "dl_interval rl \<le> int64_max"
  shows "t + dl_interval rl \<le> x"
  using assms
proof (induction calls arbitrary: rl t)
  case (Cons c calls)
  obtain now domain where c: "c = (now, domain)" by fastforce
  obtain ok rl' where a: "DomainRateLimiter_Allow now domain rl = (ok, rl')" by fastforce
  have unf: "allowed_times (c # calls) d rl =
      (if ok \<and> domain = d then now # allowed_times calls d rl' else allowed_times calls d rl')"
    by (simp add: c a)
  have i: "dl_interval rl' = dl_interval rl" using Allow_interval [of now domain rl] by (simp add: a)
  show ?case
  proof (cases "ok \<and> domain = d")
    case True
    then have t: "t + dl_interval rl \<le> now" "fmlookup (dl_domains rl') d = Some now"
      using a Cons.prems(1,3,4) by (auto simp: DomainRateLimiter_Allow_def split: if_splits)
    have "now + dl_interval rl \<le> x" if "x \<noteq> now"
      using Cons.IH [OF t(2)] Cons.prems that True unfolding unf by (simp add: i)
    then show ?thesis using t(1) Cons.prems(3) by fastforce
  next
    case False
    then have "fmlookup (dl_domains rl') d = Some t"
      using a Cons.prems(1) by (auto simp: DomainRateLimiter_Allow_def split: if_splits)
    from Cons.IH [OF this] show ?thesis using Cons.prems False unfolding unf by (simp add: i)
  qed
qed simp

text \<open>
  However many workers ask, the requests to one domain that the limiter lets through are at
  least the interval apart.
\<close>

theorem requests_spaced:
  assumes "0 \<le> dl_interval rl" "dl_interval rl \<le> int64_max"
  shows "sorted_wrt (\<lambda>a b. a + dl_interval rl \<le> b) (allowed_times calls d rl)"
  using assms
proof (induction calls arbitrary: rl)
  case (Cons c calls)
  obtain now domain where c: "c = (now, domain)" by fastforce
  obtain ok rl' where a: "DomainRateLimiter_Allow now domain rl = (ok, rl')" by fastforce
  have unf: "allowed_times (c # calls) d rl =
      (if ok \<and> domain = d then now # allowed_times calls d rl' else allowed_times calls d rl')"
    by (simp add: c a)
  have i: "dl_interval rl' = dl_interval rl" using Allow_interval [of now domain rl] by (simp add: a)
  have "fmlookup (dl_domains rl') domain = Some now" if ok
    using a that by (auto simp: DomainRateLimiter_Allow_def split: if_splits)
  then have "now + dl_interval rl \<le> x" if "ok" "domain = d" "x \<in> set (allowed_times calls d rl')" for x
    using allowed_times_after [of rl' d now x calls] that Cons.prems i by simp
  then show ?case unfolding unf using Cons.IH [of rl'] Cons.prems by (simp add: i)
qed simp

subsection \<open>Jobs per owner\<close>

lemma active_jobs_lookup:
  "fmlookup (active_jobs owner m) k =
     (case fmlookup m k of Some j \<Rightarrow> if is_active owner j then Some j else None | None \<Rightarrow> None)"
  by (simp add: active_jobs_def split: option.split)

lemma active_jobs_upd:
  "active_jobs owner (fmupd k j m) =
     (if is_active owner j then fmupd k j (active_jobs owner m) else fmdrop k (active_jobs owner m))"
  by (rule fmap_ext) (simp add: active_jobs_lookup)

lemma active_jobs_drop_le: "mlen (fmdrop k (active_jobs owner m)) \<le> mlen (active_jobs owner m)"
  by (rule mlen_drop_le)

text \<open>Replacing a job by one that is active only if the old one was adds no active job.\<close>

lemma active_jobs_replace:
  assumes "fmlookup m k = Some j" "is_active owner j' \<Longrightarrow> is_active owner j"
  shows "mlen (active_jobs owner (fmupd k j' m)) \<le> mlen (active_jobs owner m)"
proof (cases "is_active owner j'")
  case True
  then have "fmlookup (active_jobs owner m) k = Some j"
    using assms by (simp add: active_jobs_lookup)
  then have "mlen (fmupd k j' (active_jobs owner m)) = mlen (active_jobs owner m)"
    by (subst mlen_upd) simp
  then show ?thesis unfolding active_jobs_upd using True by simp
next
  case False
  then show ?thesis unfolding active_jobs_upd using mlen_drop_le by simp
qed

definition owner_limit :: "'m Scheduler \<Rightarrow> bool" where
  "owner_limit s \<longleftrightarrow>
     (\<forall>owner. int (mlen (active_jobs owner (sc_jobs s))) \<le> max 0 (sg_MaxJobsPerWallet (sc_config s)))"

lemma owner_limit_put:
  assumes "owner_limit s" "fmlookup (sc_jobs s) i = Some j" "\<And>owner. is_active owner j' \<Longrightarrow> is_active owner j"
  shows "owner_limit (put_job i j' s)"
  unfolding owner_limit_def
proof
  fix owner
  have "mlen (active_jobs owner (fmupd i j' (sc_jobs s))) \<le> mlen (active_jobs owner (sc_jobs s))"
    by (rule active_jobs_replace [OF assms(2)]) (rule assms(3))
  then show "int (mlen (active_jobs owner (sc_jobs (put_job i j' s))))
      \<le> max 0 (sg_MaxJobsPerWallet (sc_config (put_job i j' s)))"
    using assms(1) [unfolded owner_limit_def, rule_format, of owner] by (simp add: put_job_def)
qed

lemma create_insert_active:
  assumes "generateJobID rnd = Some i"
  shows "mlen (active_jobs o' (sc_jobs (snd (create_insert now rnd owner cfg s)))) =
    (if o' = owner then (if fmlookup (active_jobs owner (sc_jobs s)) i = None then 1 else 0) +
        mlen (active_jobs owner (sc_jobs s))
     else mlen (fmdrop i (active_jobs o' (sc_jobs s))))"
  using assms
  by (simp add: create_insert_def Let_def active_jobs_upd mlen_upd is_active_def del: fmdom_fmupd fmdom_drop)

lemma owner_limit_create:
  assumes "owner_limit s"
  shows "owner_limit (snd (Scheduler_CreateJob parse now rnd owner cfg s))"
proof (cases "create_check parse owner cfg s")
  case None
  then have room: "int (mlen (active_jobs owner (sc_jobs s))) < sg_MaxJobsPerWallet (sc_config s)"
    by (auto simp: create_check_def split: if_splits option.splits)
  show ?thesis
  proof (cases "generateJobID rnd")
    case None
    then show ?thesis
      using assms \<open>create_check _ _ _ _ = None\<close> by (simp add: Scheduler_CreateJob_def create_insert_def)
  next
    case (Some i)
    have cfg: "sc_config (snd (create_insert now rnd owner cfg s)) = sc_config s"
      by (simp add: create_insert_def Let_def split: option.split)
    have "int (mlen (active_jobs o' (sc_jobs (snd (create_insert now rnd owner cfg s)))))
        \<le> max 0 (sg_MaxJobsPerWallet (sc_config s))" for o'
      using room assms [unfolded owner_limit_def, rule_format, of o']
        mlen_drop_le [of i "active_jobs o' (sc_jobs s)"]
      unfolding create_insert_active [OF Some] by (auto simp del: fmdom_drop)
    then show ?thesis
      using \<open>create_check _ _ _ _ = None\<close> by (simp add: Scheduler_CreateJob_def owner_limit_def cfg)
  qed
qed (use assms in \<open>simp add: Scheduler_CreateJob_def\<close>)

lemma owner_limit_ops:
  assumes "owner_limit s"
  shows "owner_limit (snd (Scheduler_StartJob now i s))"
    and "owner_limit (snd (Scheduler_AddResult i res s))"
    and "owner_limit (snd (snd (Scheduler_CompleteJob now i m s)))"
    and "owner_limit (snd (Scheduler_FailJob now i msg s))"
    and "owner_limit (snd (Scheduler_CancelJob now i s))"
  using assms
  by (auto simp: Scheduler_StartJob_def Scheduler_AddResult_def Scheduler_CompleteJob_def
      Scheduler_FailJob_def Scheduler_CancelJob_def is_active_def
      split: option.split intro: owner_limit_put)

subsection \<open>The books of a job\<close>

lemma wrap64_add_left: "wrap64 (wrap64 a + b) = wrap64 (a + b)"
  by (simp add: wrap64_def)

lemma wrap64_add_right: "wrap64 (a + wrap64 b) = wrap64 (a + b)"
  by (simp add: wrap64_def)

definition job_books :: "SchedulerConfig \<Rightarrow> CrawlJob \<Rightarrow> bool" where
  "job_books sg j \<longleftrightarrow>
     cj_PagesCrawled j = wrap64 (int (length (cj_Results j))) \<and>
     cj_TotalBytes j = wrap64 (sum_list (map cr_ByteSize (cj_Results j))) \<and>
     cc_MaxPages (cj_Config j) \<le> sg_MaxPagesPerJob sg"

definition jobs_ok :: "'m Scheduler \<Rightarrow> bool" where
  "jobs_ok s \<longleftrightarrow> (\<forall>i j. fmlookup (sc_jobs s) i = Some j \<longrightarrow> job_books (sc_config s) j)"

lemma jobs_ok_put:
  "jobs_ok s \<Longrightarrow> job_books (sc_config s) j \<Longrightarrow> jobs_ok (put_job i j s)"
  by (simp add: jobs_ok_def put_job_def)

lemma with_defaults_pages: "cc_MaxPages (with_defaults sg cfg) \<le> sg_MaxPagesPerJob sg"
  by (simp add: with_defaults_def Let_def)

lemma jobs_ok_create: "jobs_ok s \<Longrightarrow> jobs_ok (snd (Scheduler_CreateJob parse now rnd owner cfg s))"
  by (auto simp: Scheduler_CreateJob_def create_insert_def jobs_ok_def Let_def job_books_def
      with_defaults_pages split: option.split)

lemma jobs_ok_ops:
  assumes "jobs_ok s"
  shows "jobs_ok (snd (Scheduler_StartJob now i s))"
    and "jobs_ok (snd (Scheduler_AddResult i res s))"
    and "jobs_ok (snd (snd (Scheduler_CompleteJob now i m s)))"
    and "jobs_ok (snd (Scheduler_FailJob now i msg s))"
    and "jobs_ok (snd (Scheduler_CancelJob now i s))"
proof -
  have b: "job_books (sc_config s) j" if "fmlookup (sc_jobs s) i = Some j" for j
    using assms that by (simp add: jobs_ok_def)
  show "jobs_ok (snd (Scheduler_AddResult i res s))"
    using assms b by (auto simp: Scheduler_AddResult_def job_books_def wrap64_add_right add.commute
        split: option.split intro!: jobs_ok_put)
  show "jobs_ok (snd (Scheduler_StartJob now i s))"
    "jobs_ok (snd (snd (Scheduler_CompleteJob now i m s)))"
    "jobs_ok (snd (Scheduler_FailJob now i msg s))" "jobs_ok (snd (Scheduler_CancelJob now i s))"
    using assms b by (auto simp: Scheduler_StartJob_def Scheduler_CompleteJob_def
        Scheduler_FailJob_def Scheduler_CancelJob_def job_books_def split: option.split intro!: jobs_ok_put)
qed

definition crawl_inv :: "'m \<times> 'm Scheduler \<Rightarrow> bool" where
  "crawl_inv ms \<longleftrightarrow> owner_limit (snd ms) \<and> jobs_ok (snd ms)"

lemma crawl_step_inv: "crawl_inv ms \<Longrightarrow> crawl_inv (crawl_step parse op ms)"
proof -
  assume inv: "crawl_inv ms"
  obtain m s where ms: "ms = (m, s)" by fastforce
  have o: "owner_limit s" "jobs_ok s" using inv by (simp_all add: crawl_inv_def ms)
  have "sc_jobs (snd (Scheduler_ShouldCrawl parse i u d c s)) = sc_jobs s"
    "sc_config (snd (Scheduler_ShouldCrawl parse i u d c s)) = sc_config s"
    "sc_jobs (snd (Scheduler_CheckRateLimit t u s)) = sc_jobs s"
    "sc_config (snd (Scheduler_CheckRateLimit t u s)) = sc_config s" for i u d c t
    by (simp_all add: Scheduler_ShouldCrawl_def Scheduler_CheckRateLimit_def split: prod.split)
  then show ?thesis
    using o owner_limit_ops [OF o(1)] jobs_ok_ops [OF o(2)]
    by (cases op) (simp_all add: crawl_step_def crawl_inv_def ms owner_limit_create jobs_ok_create,
        simp_all add: owner_limit_def jobs_ok_def)
qed

interpretation crawl: guarded_machine "crawl_step parse" "\<lambda>_ _. True" crawl_inv for parse
  by unfold_locales (rule crawl_step_inv)

lemma crawl_inv_New: "crawl_inv (m, NewScheduler cfg)"
  by (simp add: crawl_inv_def owner_limit_def jobs_ok_def NewScheduler_def active_jobs_def)

lemma job_books_run:
  assumes "fmlookup (sc_jobs (snd (fold (crawl_step parse) ops (m, NewScheduler cfg)))) i = Some j"
  shows "job_books (sc_config (snd (fold (crawl_step parse) ops (m, NewScheduler cfg)))) j"
  using crawl.run_inv [OF crawl_inv_New, of parse ops m cfg] assms
  by (simp add: crawl_inv_def jobs_ok_def)

lemma crawl_step_config [simp]: "sc_config (snd (crawl_step parse op ms)) = sc_config (snd ms)"
  by (cases op; cases ms)
     (auto simp: crawl_step_def Scheduler_CreateJob_def create_insert_def Scheduler_StartJob_def
       Scheduler_AddResult_def Scheduler_CompleteJob_def Scheduler_FailJob_def Scheduler_CancelJob_def
       Scheduler_ShouldCrawl_def Scheduler_CheckRateLimit_def put_job_def Let_def
       split: option.split prod.split)

lemma crawl_run_config: "sc_config (snd (fold (crawl_step parse) ops ms)) = sc_config (snd ms)"
  by (induction ops arbitrary: ms) simp_all

text \<open>
  C25. When the calls of the scheduler run one after the other, no owner ever has more active jobs
  than the limit.
\<close>

theorem owner_jobs_bounded:
  "int (mlen (active_jobs owner (sc_jobs (snd (fold (crawl_step parse) ops (m, NewScheduler cfg))))))
     \<le> max 0 (sg_MaxJobsPerWallet cfg)"
  using crawl.run_inv [OF crawl_inv_New, of parse ops m cfg] crawl_run_config [of parse ops "(m, NewScheduler cfg)"]
  by (simp add: crawl_inv_def owner_limit_def NewScheduler_def)

text \<open>
  C34. The check and the insertion are separate critical sections.  Two calls of an owner one job
  below the limit that both check before either inserts leave the owner one job above it.
\<close>

theorem concurrent_creates_exceed_limit:
  assumes "create_check parse owner cfg1 s = None" "create_check parse owner cfg2 s = None"
    and "int (mlen (active_jobs owner (sc_jobs s))) = sg_MaxJobsPerWallet (sc_config s) - 1"
    and "generateJobID rnd1 = Some i1" "generateJobID rnd2 = Some i2" "i1 \<noteq> i2"
    and "fmlookup (sc_jobs s) i1 = None" "fmlookup (sc_jobs s) i2 = None"
  shows "int (mlen (active_jobs owner (sc_jobs
      (snd (create_insert t2 rnd2 owner cfg2 (snd (create_insert t1 rnd1 owner cfg1 s))))))) =
    sg_MaxJobsPerWallet (sc_config s) + 1"
proof -
  have jobs: "fmlookup (sc_jobs (snd (create_insert t1 rnd1 owner cfg1 s))) i2 = None"
    using assms(4,6,8) by (simp add: create_insert_def Let_def)
  then have "fmlookup (active_jobs owner (sc_jobs (snd (create_insert t1 rnd1 owner cfg1 s)))) i2 = None"
    "fmlookup (active_jobs owner (sc_jobs s)) i1 = None"
    using assms(7) by (simp_all add: active_jobs_lookup)
  then show ?thesis
    using assms(3) create_insert_active [OF assms(5), of owner t2 owner cfg2 "snd (create_insert t1 rnd1 owner cfg1 s)"]
      create_insert_active [OF assms(4), of owner t1 owner cfg1 s]
    by simp
qed

subsection \<open>Billing of completed jobs\<close>

lemma RecordCrawlJob_pages:
  "wu_CrawlPages (ServiceMeter_getOrCreate w (ServiceMeter_RecordCrawlJob t w p b m)) =
     wrap64 (wu_CrawlPages (ServiceMeter_getOrCreate w m) + p)"
  by (simp add: ServiceMeter_RecordCrawlJob_def ServiceMeter_getOrCreate_def meter_put_def Let_def)

text \<open>
  C35. Completion does not look at the status of the job, so a job that was completed, failed or
  cancelled is completed, and its pages are billed, once more with every call.
\<close>

theorem completed_job_billed_again:
  assumes "fmlookup (sc_jobs s) i = Some job" "sc_meter s = Some (ServiceMeter_RecordCrawlJob t)"
    and "Scheduler_CompleteJob t1 i m s = (err1, m1, s1)" "Scheduler_CompleteJob t2 i m1 s1 = (err2, m2, s2)"
  shows "err1 = None \<and> err2 = None \<and>
    wu_CrawlPages (ServiceMeter_getOrCreate (cj_Owner job) m2) =
      wrap64 (wu_CrawlPages (ServiceMeter_getOrCreate (cj_Owner job) m) + 2 * cj_PagesCrawled job)"
proof -
  have 1: "err1 = None" "m1 = ServiceMeter_RecordCrawlJob t (cj_Owner job) (cj_PagesCrawled job) (cj_TotalBytes job) m"
    "s1 = put_job i (job\<lparr>cj_Status := JobStatusCompleted, cj_CompletedAt := t1\<rparr>) s"
    using assms(1-3) by (simp_all add: Scheduler_CompleteJob_def)
  have 2: "err2 = None" "m2 = ServiceMeter_RecordCrawlJob t (cj_Owner job) (cj_PagesCrawled job) (cj_TotalBytes job) m1"
    using assms(2,4) by (simp_all add: Scheduler_CompleteJob_def 1(3) put_job_def)
  show ?thesis
    using 1(1) 2(1) by (simp add: 2(2) 1(2) RecordCrawlJob_pages wrap64_add_left wrap64_add_right algebra_simps)
qed

subsection \<open>URLs are accepted once per job\<close>

text \<open>The URLs that a sequence of calls accepts, with their jobs.\<close>

fun accepted_urls ::
  "(string \<Rightarrow> (string \<times> string) option) \<Rightarrow> (string \<times> string \<times> int \<times> CrawlConfig) list
   \<Rightarrow> 'm Scheduler \<Rightarrow> (string \<times> string) list" where
  "accepted_urls parse [] s = []"
| "accepted_urls parse ((i, url, depth, cfg) # calls) s =
     (let (ok, s') = Scheduler_ShouldCrawl parse i url depth cfg s
      in if ok then (i, url) # accepted_urls parse calls s' else accepted_urls parse calls s')"

lemma Mark_Seen: "URLDedup_Seen j u (URLDedup_Mark i url d) \<longleftrightarrow> (j = i \<and> u = url) \<or> URLDedup_Seen j u d"
  by (auto simp: URLDedup_Seen_def URLDedup_Mark_def split: option.split)

lemma ShouldCrawl_cases:
  assumes "Scheduler_ShouldCrawl parse i url depth cfg s = (ok, s')"
  shows "(ok \<and> \<not> URLDedup_Seen i url (sc_dedup s) \<and> sc_dedup s' = URLDedup_Mark i url (sc_dedup s)) \<or>
    (\<not> ok \<and> s' = s)"
  using assms by (auto simp: Scheduler_ShouldCrawl_def split: if_splits)

theorem url_accepted_once:
  "distinct (accepted_urls parse calls s) \<and>
   list_all (\<lambda>(i, u). \<not> URLDedup_Seen i u (sc_dedup s)) (accepted_urls parse calls s)"
proof (induction calls arbitrary: s)
  case (Cons c calls)
  obtain i url depth cfg where c: "c = (i, url, depth, cfg)" by (metis prod_cases4)
  obtain ok s' where r: "Scheduler_ShouldCrawl parse i url depth cfg s = (ok, s')" by fastforce
  from ShouldCrawl_cases [OF r] Cons.IH [of s'] show ?case
    by (auto simp: c r Mark_Seen list_all_iff)
qed simp

subsection \<open>Concrete runs\<close>

definition example_parse :: "string \<Rightarrow> (string \<times> string) option" where
  "example_parse u = Some (''https'', ''example.com'')"

definition example_crawl :: CrawlConfig where
  "example_crawl = DefaultCrawlConfig\<lparr>cc_URLs := [''https://example.com/'']\<rparr>"

theorem requests_spaced_witness:
  "allowed_times [(0, ''a''), (1, ''a''), (1, ''b''), (Second, ''a'')] ''a'' (NewDomainRateLimiter Second) = [0, Second] \<and>
   sorted_wrt (\<lambda>a b. a + Second \<le> b)
     (allowed_times [(0, ''a''), (1, ''a''), (1, ''b''), (Second, ''a'')] ''a'' (NewDomainRateLimiter Second))"
proof
  show "allowed_times [(0, ''a''), (1, ''a''), (1, ''b''), (Second, ''a'')] ''a'' (NewDomainRateLimiter Second) = [0, Second]"
    by (simp add: NewDomainRateLimiter_def DomainRateLimiter_Allow_def)
  show "sorted_wrt (\<lambda>a b. a + Second \<le> b)
     (allowed_times [(0, ''a''), (1, ''a''), (1, ''b''), (Second, ''a'')] ''a'' (NewDomainRateLimiter Second))"
    using requests_spaced [of "NewDomainRateLimiter Second"
        "[(0, ''a''), (1, ''a''), (1, ''b''), (Second, ''a'')]" "''a''"]
    by (simp add: NewDomainRateLimiter_def)
qed

theorem concurrent_creates_exceed_limit_witness:
  "int (mlen (active_jobs ''w'' (sc_jobs
     (snd (create_insert 2 (Some [2]) ''w'' example_crawl
       (snd (create_insert 1 (Some [1]) ''w'' example_crawl
         (NewScheduler (DefaultSchedulerConfig\<lparr>sg_MaxJobsPerWallet := 1\<rparr>) :: unit Scheduler)))))))) = 2"
  using concurrent_creates_exceed_limit [of example_parse "''w''" example_crawl
      "NewScheduler (DefaultSchedulerConfig\<lparr>sg_MaxJobsPerWallet := 1\<rparr>) :: unit Scheduler" example_crawl
      "Some [1]" "''crawl-01''" "Some [2]" "''crawl-02''" 2 1]
  by (simp add: create_check_def example_crawl_def DefaultCrawlConfig_def example_parse_def
      NewScheduler_def DefaultSchedulerConfig_def active_jobs_def generateJobID_def hex_encode_def
      hex_digit_def)

definition example_scheduler :: "ServiceMeter Scheduler" where
  "example_scheduler = snd (Scheduler_AddResult ''crawl-01''
      \<lparr>cr_URL = '''', cr_StatusCode = 200, cr_ContentType = '''', cr_Title = '''', cr_HTML = '''',
       cr_Text = '''', cr_Links = [], cr_Selectors = fmempty, cr_ScreenshotCID = '''', cr_CrawledAt = 5,
       cr_DurationMs = 1, cr_Error = '''', cr_ByteSize = 10\<rparr>
      (snd (create_insert 1 (Some [1]) ''w'' example_crawl
        (Scheduler_SetMeteringHook (Some (ServiceMeter_RecordCrawlJob 7)) (NewScheduler DefaultSchedulerConfig)))))"

theorem completed_job_billed_again_witness:
  "case Scheduler_CompleteJob 8 ''crawl-01'' (NewServiceMeter DefaultServicePricing) example_scheduler of
     (_, m1, s1) \<Rightarrow>
       (case Scheduler_CompleteJob 9 ''crawl-01'' m1 s1 of
          (_, m2, s2) \<Rightarrow> wu_CrawlPages (ServiceMeter_getOrCreate ''w'' m2) = 2)"
proof -
  have i: "generateJobID (Some [1]) = Some ''crawl-01''"
    by (simp add: generateJobID_def hex_encode_def hex_digit_def)
  have "\<exists>job. fmlookup (sc_jobs example_scheduler) ''crawl-01'' = Some job \<and>
      cj_Owner job = ''w'' \<and> cj_PagesCrawled job = 1"
    by (simp add: example_scheduler_def Scheduler_AddResult_def create_insert_def i Let_def put_job_def)
  then obtain job where job: "fmlookup (sc_jobs example_scheduler) ''crawl-01'' = Some job"
    "cj_Owner job = ''w''" "cj_PagesCrawled job = 1" by blast
  have meter: "sc_meter example_scheduler = Some (ServiceMeter_RecordCrawlJob 7)"
    by (simp add: example_scheduler_def Scheduler_AddResult_def create_insert_def i Let_def
        put_job_def Scheduler_SetMeteringHook_def)
  obtain e1 m1 s1 where 1: "Scheduler_CompleteJob 8 ''crawl-01'' (NewServiceMeter DefaultServicePricing)
      example_scheduler = (e1, m1, s1)" by (metis prod_cases3)
  obtain e2 m2 s2 where 2: "Scheduler_CompleteJob 9 ''crawl-01'' m1 s1 = (e2, m2, s2)"
    by (metis prod_cases3)
  have "wu_CrawlPages (ServiceMeter_getOrCreate ''w'' (NewServiceMeter DefaultServicePricing)) = 0"
    by (simp add: ServiceMeter_getOrCreate_def NewServiceMeter_def)
  then show ?thesis
    using completed_job_billed_again [OF job(1) meter 1 2] job(2,3) by (simp add: 1 2)
qed

end
