(* ===== verification/Robots.thy ===== *)
theory Robots
  imports Go_Net Go_Text
begin

text \<open>
  The \<^verbatim>\<open>robots.txt\<close> parser and its evaluation (\<^verbatim>\<open>src/internal/crawl/robots.go\<close>), with the line
  scanner of \<^verbatim>\<open>bufio\<close> it uses, on ASCII text.  The scanner stops at a line of 65536
  characters or more, and the rest of the file is dropped.
\<close>

subsection \<open>Lines\<close>

fun split_lines :: "string \<Rightarrow> string \<Rightarrow> string list" where
  "split_lines cur [] = (if cur = [] then [] else [rev cur])"
| "split_lines cur (c # cs) =
     (if c = CHR 0x0A then rev cur # split_lines [] cs else split_lines (c # cur) cs)"

definition drop_cr :: "string \<Rightarrow> string" where
  "drop_cr l = (if l \<noteq> [] \<and> last l = CHR 0x0D then butlast l else l)"

definition scan_lines :: "string \<Rightarrow> string list" where
  "scan_lines body = map drop_cr (takeWhile (\<lambda>l. length l < 65536) (split_lines [] body))"

subsection \<open>Rules\<close>

record RobotsRule =
  rr_UserAgent :: string
  rr_Disallow :: "string list"
  rr_Allow :: "string list"
  rr_CrawlDelay :: int

type_synonym RobotsChecker = "(string, RobotsRule) gomap"

fun parse_digits :: "int \<Rightarrow> string \<Rightarrow> int option" where
  "parse_digits n [] = Some n"
| "parse_digits n (c # cs) =
     (let d = of_char c :: nat
      in if d < 48 \<or> 57 < d then None
         else parse_digits (wrap64 (n * 10 + int (d - 48))) cs)"

definition parseIntSafe :: "string \<Rightarrow> int option" where
  "parseIntSafe s = parse_digits 0 s"

definition mustParseInt :: "string \<Rightarrow> int" where
  "mustParseInt s = (case parseIntSafe s of None \<Rightarrow> 0 | Some n \<Rightarrow> n)"

text \<open>The key and value of a line, if the line has them.\<close>

definition directive :: "string \<Rightarrow> (string \<times> string) option" where
  "directive text =
     (let line = trim_space text
      in if line = '''' \<or> has_prefix line ''#'' then None
         else case dropWhile (\<lambda>c. c \<noteq> CHR '':'') line of
                [] \<Rightarrow> None
              | _ # v \<Rightarrow> Some (trim_space (to_lower (takeWhile (\<lambda>c. c \<noteq> CHR '':'') line)), trim_space v))"

definition addresses_us :: "string \<Rightarrow> bool" where
  "addresses_us agent \<longleftrightarrow> agent = ''*'' \<or> contains (to_lower agent) ''moltbunker''"

definition apply_directive :: "string \<times> string \<Rightarrow> string \<times> RobotsRule \<Rightarrow> string \<times> RobotsRule" where
  "apply_directive kv ar =
     (let (key, value) = kv; (currentAgent, rule) = ar
      in if key = ''user-agent'' then (value, rule)
         else if key = ''disallow'' then
           (currentAgent,
            if addresses_us currentAgent \<and> value \<noteq> '''' then rule\<lparr>rr_Disallow := rr_Disallow rule @ [value]\<rparr>
            else rule)
         else if key = ''allow'' then
           (currentAgent,
            if addresses_us currentAgent \<and> value \<noteq> '''' then rule\<lparr>rr_Allow := rr_Allow rule @ [value]\<rparr>
            else rule)
         else if key = ''crawl-delay'' then
           (currentAgent,
            if parseIntSafe value \<noteq> None then rule\<lparr>rr_CrawlDelay := mustParseInt value\<rparr> else rule)
         else (currentAgent, rule))"

definition directives :: "string \<Rightarrow> (string \<times> string) list" where
  "directives body = List.map_filter directive (scan_lines body)"

definition robots_rule :: "string \<Rightarrow> RobotsRule" where
  "robots_rule body =
     snd (fold apply_directive (directives body)
       ('''', \<lparr>rr_UserAgent = ''*'', rr_Disallow = [], rr_Allow = [], rr_CrawlDelay = 0\<rparr>))"

definition RobotsChecker_Parse :: "string \<Rightarrow> string \<Rightarrow> RobotsChecker \<Rightarrow> RobotsChecker" where
  "RobotsChecker_Parse domain body rc = fmupd domain (robots_rule body) rc"

definition RobotsChecker_IsAllowed :: "string \<Rightarrow> string \<Rightarrow> RobotsChecker \<Rightarrow> bool" where
  "RobotsChecker_IsAllowed domain path rc =
     (case fmlookup rc domain of
        None \<Rightarrow> True
      | Some rule \<Rightarrow>
          if list_ex (has_prefix path) (rr_Allow rule) then True
          else if list_ex (\<lambda>d. d = ''/'' \<or> has_prefix path d) (rr_Disallow rule) then False
          else True)"

definition RobotsChecker_GetCrawlDelay :: "string \<Rightarrow> RobotsChecker \<Rightarrow> int" where
  "RobotsChecker_GetCrawlDelay domain rc =
     (case fmlookup rc domain of None \<Rightarrow> 0 | Some rule \<Rightarrow> rr_CrawlDelay rule)"

subsection \<open>What the file says\<close>

text \<open>The agent a position of the list of directives belongs to, and the values of a key for us.\<close>

definition agent_at :: "(string \<times> string) list \<Rightarrow> nat \<Rightarrow> string" where
  "agent_at ds i =
     (case filter (\<lambda>(k, v). k = ''user-agent'') (rev (take i ds)) of
        [] \<Rightarrow> '''' | (k, v) # _ \<Rightarrow> v)"

definition our_values :: "string \<Rightarrow> (string \<times> string) list \<Rightarrow> string set" where
  "our_values key ds =
     {v. v \<noteq> '''' \<and> (\<exists>i < length ds. ds ! i = (key, v) \<and> addresses_us (agent_at ds i))}"

lemma agent_at_snoc: "i \<le> length ds \<Longrightarrow> agent_at (ds @ [d]) i = agent_at ds i"
  by (simp add: agent_at_def)

lemma our_values_snoc:
  "our_values key (ds @ [(k, v)]) = our_values key ds \<union>
     (if k = key \<and> v \<noteq> '''' \<and> addresses_us (agent_at ds (length ds)) then {v} else {})"
proof -
  have "(\<exists>i < length (ds @ [(k, v)]). (ds @ [(k, v)]) ! i = (key, w) \<and> addresses_us (agent_at (ds @ [(k, v)]) i))
    \<longleftrightarrow> (\<exists>i < length ds. ds ! i = (key, w) \<and> addresses_us (agent_at ds i)) \<or>
        (k = key \<and> v = w \<and> addresses_us (agent_at ds (length ds)))" for w
    by (simp add: Ex_less_Suc2 less_Suc_eq ex_disj_distrib conj_disj_distribR agent_at_snoc nth_append
        disj_commute cong: conj_cong)
  then show ?thesis unfolding our_values_def by auto
qed

lemma agent_at_end_snoc:
  "agent_at (ds @ [(k, v)]) (Suc (length ds)) =
     (if k = ''user-agent'' then v else agent_at ds (length ds))"
  by (simp add: agent_at_def)

lemma fold_directives:
  defines "start \<equiv> ('''', \<lparr>rr_UserAgent = ''*'', rr_Disallow = [], rr_Allow = [], rr_CrawlDelay = 0\<rparr>)"
  shows "fst (fold apply_directive ds start) = agent_at ds (length ds) \<and>
    set (rr_Disallow (snd (fold apply_directive ds start))) = our_values ''disallow'' ds \<and>
    set (rr_Allow (snd (fold apply_directive ds start))) = our_values ''allow'' ds"
proof (induction ds rule: rev_induct)
  case Nil
  show ?case by (simp add: start_def agent_at_def our_values_def)
next
  case (snoc d ds)
  obtain k v where d: "d = (k, v)" by fastforce
  obtain ag rule where r: "fold apply_directive ds start = (ag, rule)" by fastforce
  have IH: "ag = agent_at ds (length ds)" "set (rr_Disallow rule) = our_values ''disallow'' ds"
    "set (rr_Allow rule) = our_values ''allow'' ds"
    using snoc.IH by (simp_all add: r)
  have step: "fold apply_directive (ds @ [(k, v)]) start = apply_directive (k, v) (ag, rule)"
    by (simp add: r)
  show ?case
    unfolding d step our_values_snoc length_append_singleton agent_at_end_snoc IH(1) [symmetric]
    by (simp add: apply_directive_def IH(2,3))
qed

text \<open>
  A path is allowed exactly if an allow rule addressed to us is a prefix of it, or no disallow
  rule addressed to us is: an allow rule wins however short it is.
\<close>

theorem robots_verdict:
  "RobotsChecker_IsAllowed domain path (RobotsChecker_Parse domain body rc) \<longleftrightarrow>
    (\<exists>a \<in> our_values ''allow'' (directives body). has_prefix path a) \<or>
    \<not> (\<exists>d \<in> our_values ''disallow'' (directives body). d = ''/'' \<or> has_prefix path d)"
  using fold_directives [of "directives body"]
  by (auto simp: RobotsChecker_IsAllowed_def RobotsChecker_Parse_def robots_rule_def list_ex_iff)

definition example_robots :: string where
  "example_robots = ''user-agent: *'' @ [CHR 0x0A] @ ''disallow: /private'' @ [CHR 0x0A] @ ''allow: /''"

theorem robots_verdict_witness:
  "RobotsChecker_IsAllowed ''d'' ''/private/x'' (RobotsChecker_Parse ''d'' example_robots fmempty)"
proof -
  have ds: "directives example_robots =
      [(''user-agent'', ''*''), (''disallow'', ''/private''), (''allow'', ''/'')]"
    by (simp add: directives_def scan_lines_def example_robots_def directive_def drop_cr_def
        trim_space_def is_space_def lower_char_def has_prefix_def map_filter_simps Let_def)
  have "''/'' \<in> our_values ''allow'' (directives example_robots)"
    unfolding our_values_def ds
    by (auto intro!: exI [of _ 2] simp: agent_at_def addresses_us_def)
  then show ?thesis
    unfolding robots_verdict [of "''d''" "''/private/x''" example_robots fmempty]
    by (intro disjI1 bexI [of _ "''/''"]) (simp_all add: has_prefix_def)
qed

subsection \<open>Crawl delays\<close>

lemma parse_digits_append:
  "parse_digits n (xs @ ys) = (case parse_digits n xs of None \<Rightarrow> None | Some m \<Rightarrow> parse_digits m ys)"
  by (induction n xs rule: parse_digits.induct) (auto simp: Let_def)

text \<open>A printed number is read modulo the width of the machine: huge delays are read as negative.\<close>

lemma parseIntSafe_print: "parseIntSafe (print_dec n) = Some (wrap64 (int n))"
proof (induction n rule: less_induct)
  case (less n)
  have digit: "parse_digits m [digit_char d] = Some (wrap64 (m * 10 + int d))" if "d < 10" for m d
    using that by (simp add: digit_char_def)
  show ?case
  proof (cases "n < 10")
    case True
    then show ?thesis using digit [of n 0] by (simp add: parseIntSafe_def print_base.simps)
  next
    case False
    have "wrap64 (wrap64 (int (n div 10)) * 10 + int (n mod 10)) = wrap64 (int n)"
    proof -
      have "wrap64 (wrap64 a * 10 + b) = wrap64 (a * 10 + b)" for a b by (simp add: wrap64_def)
      moreover have "int (n div 10) * 10 + int (n mod 10) = int n"
        by (metis div_mult_mod_eq of_nat_add of_nat_mult of_nat_numeral)
      ultimately show ?thesis by metis
    qed
    then show ?thesis
      using less.IH [of "n div 10"] False digit [of "n mod 10"]
      by (simp add: parseIntSafe_def print_base.simps [of 10 n] parse_digits_append)
  qed
qed

lemma any_agents_delay_counts:
  "rr_CrawlDelay (snd (apply_directive (''crawl-delay'', print_dec n) (agent, rule))) = wrap64 (int n)"
  by (simp add: apply_directive_def parseIntSafe_print mustParseInt_def)

end
