(* ===== verification/Tunnel_Registry.thy ===== *)
theory Tunnel_Registry
  imports Gossip Go_Text
begin

text \<open>
  The parts a reverse-tunnel server is built from: the registry of subdomains
  (\<^verbatim>\<open>src/internal/tunnel/registry.go\<close>), the limits per tier (\<^verbatim>\<open>reverse_types.go\<close>), the operator's
  blocklist (\<^verbatim>\<open>blocklist.go\<close>) and the bandwidth limiter (\<^verbatim>\<open>bandwidth.go\<close>).  A multiplexed session
  of the \<^verbatim>\<open>yamux\<close> package is known by a number.  The request limiter of
  \<^verbatim>\<open>golang.org/x/time/rate\<close> is a value of type \<open>'lim\<close> with its constructor and its test as
  parameters.
\<close>

subsection \<open>Limits per tier\<close>

record TunnelLimits =
  tl_MaxRPS :: int
  tl_MaxBandwidth :: int
  tl_MaxStreams :: int

definition MaxSubdomainsForTier :: "string \<Rightarrow> nat" where
  "MaxSubdomainsForTier tier =
     (if tier = ''starter'' then 10
      else if tier = ''bronze'' then 25
      else if tier = ''silver'' \<or> tier = ''gold'' \<or> tier = ''platinum'' then 100
      else 3)"

definition LimitsForTier :: "string \<Rightarrow> TunnelLimits" where
  "LimitsForTier tier =
     (if tier = ''starter''
      then \<lparr>tl_MaxRPS = 50, tl_MaxBandwidth = 5 * 1024 * 1024, tl_MaxStreams = 500\<rparr>
      else if tier = ''bronze''
      then \<lparr>tl_MaxRPS = 200, tl_MaxBandwidth = 10 * 1024 * 1024, tl_MaxStreams = 1000\<rparr>
      else if tier = ''silver'' \<or> tier = ''gold'' \<or> tier = ''platinum''
      then \<lparr>tl_MaxRPS = 2000, tl_MaxBandwidth = 50 * 1024 * 1024, tl_MaxStreams = 10000\<rparr>
      else \<lparr>tl_MaxRPS = 10, tl_MaxBandwidth = 1 * 1024 * 1024, tl_MaxStreams = 100\<rparr>)"

definition ReconnGraceForTier :: "string \<Rightarrow> int" where
  "ReconnGraceForTier tier =
     (if tier = ''starter'' then 120
      else if tier = ''bronze'' then 300
      else if tier = ''silver'' \<or> tier = ''gold'' \<or> tier = ''platinum'' then 1800
      else 60)"

subsection \<open>The registry\<close>

record TunnelSession =
  ts_NodeID :: node_id
  ts_Subdomain :: string
  ts_DeploymentID :: string
  ts_YamuxSess :: "nat option"
  ts_RegisteredAt :: time
  ts_Tier :: string
  ts_Limits :: TunnelLimits
  ts_ReconnToken :: string

record TunnelRegistry =
  tr_sessions :: "(string, TunnelSession) gomap"
  tr_byNodeID :: "(node_id, string list) gomap"

definition NewTunnelRegistry :: TunnelRegistry where
  "NewTunnelRegistry = \<lparr>tr_sessions = fmempty, tr_byNodeID = fmempty\<rparr>"

text \<open>Reading a missing key of a Go map gives the empty slice.\<close>

definition TunnelRegistry_SubdomainsForNodeID :: "node_id \<Rightarrow> TunnelRegistry \<Rightarrow> string list" where
  "TunnelRegistry_SubdomainsForNodeID n r =
     (case fmlookup (tr_byNodeID r) n of None \<Rightarrow> [] | Some subs \<Rightarrow> subs)"

definition TunnelRegistry_CountForNodeID :: "node_id \<Rightarrow> TunnelRegistry \<Rightarrow> nat" where
  "TunnelRegistry_CountForNodeID n r = length (TunnelRegistry_SubdomainsForNodeID n r)"

definition TunnelRegistry_Register :: "string \<Rightarrow> TunnelSession \<Rightarrow> TunnelRegistry \<Rightarrow> TunnelRegistry option" where
  "TunnelRegistry_Register subdomain session r =
     (if fmlookup (tr_sessions r) subdomain \<noteq> None then None
      else Some (r\<lparr>tr_sessions := fmupd subdomain session (tr_sessions r),
                   tr_byNodeID := fmupd (ts_NodeID session)
                     (TunnelRegistry_SubdomainsForNodeID (ts_NodeID session) r @ [subdomain]) (tr_byNodeID r)\<rparr>))"

definition TunnelRegistry_Unregister :: "string \<Rightarrow> TunnelRegistry \<Rightarrow> TunnelRegistry" where
  "TunnelRegistry_Unregister subdomain r =
     (case fmlookup (tr_sessions r) subdomain of
        None \<Rightarrow> r
      | Some sess \<Rightarrow>
          let n = ts_NodeID sess;
              subs = TunnelRegistry_SubdomainsForNodeID n r;
              index = (if subdomain \<in> set subs then fmupd n (remove1 subdomain subs) (tr_byNodeID r)
                       else tr_byNodeID r);
              index = (if (case fmlookup index n of None \<Rightarrow> True | Some l \<Rightarrow> l = [])
                       then fmdrop n index else index)
          in r\<lparr>tr_sessions := fmdrop subdomain (tr_sessions r), tr_byNodeID := index\<rparr>)"

definition TunnelRegistry_Lookup :: "string \<Rightarrow> TunnelRegistry \<Rightarrow> TunnelSession option" where
  "TunnelRegistry_Lookup subdomain r = fmlookup (tr_sessions r) subdomain"

definition TunnelRegistry_UnregisterAll :: "node_id \<Rightarrow> TunnelRegistry \<Rightarrow> string list \<times> TunnelRegistry" where
  "TunnelRegistry_UnregisterAll n r =
     (let subs = TunnelRegistry_SubdomainsForNodeID n r
      in (subs, r\<lparr>tr_sessions := fold fmdrop subs (tr_sessions r),
                  tr_byNodeID := fmdrop n (tr_byNodeID r)\<rparr>))"

definition TunnelRegistry_ActiveCount :: "TunnelRegistry \<Rightarrow> nat" where
  "TunnelRegistry_ActiveCount r = mlen (tr_sessions r)"

text \<open>The loop of ten attempts; \<open>rnd i\<close> are the four bytes read in attempt \<open>i\<close>.\<close>

fun assign_from :: "nat \<Rightarrow> nat \<Rightarrow> (nat \<Rightarrow> byte list option) \<Rightarrow> TunnelRegistry \<Rightarrow> string option" where
  "assign_from 0 i rnd r = None"
| "assign_from (Suc n) i rnd r =
     (case rnd i of
        None \<Rightarrow> None
      | Some buf \<Rightarrow>
          if fmlookup (tr_sessions r) (hex_encode buf) = None then Some (hex_encode buf)
          else assign_from n (Suc i) rnd r)"

definition TunnelRegistry_AssignRandomSubdomain :: "(nat \<Rightarrow> byte list option) \<Rightarrow> TunnelRegistry \<Rightarrow> string option" where
  "TunnelRegistry_AssignRandomSubdomain rnd r = assign_from 10 0 rnd r"

subsection \<open>The operator's blocklist\<close>

record BlockEntry =
  be_Subdomain :: string
  be_Reason :: string
  be_BlockedAt :: time

type_synonym Blocklist = "(string, BlockEntry) gomap"

definition normalizeSub :: "string \<Rightarrow> string" where
  "normalizeSub s =
     (let t = to_lower (trim_space s)
      in if t \<noteq> [] \<and> last t = CHR ''.'' then butlast t else t)"

definition Blocklist_Block :: "time \<Rightarrow> string \<Rightarrow> string \<Rightarrow> Blocklist \<Rightarrow> Blocklist" where
  "Blocklist_Block now subdomain reason b =
     (let sub = normalizeSub subdomain
      in if sub = '''' then b
         else fmupd sub \<lparr>be_Subdomain = sub, be_Reason = reason, be_BlockedAt = now\<rparr> b)"

definition Blocklist_Unblock :: "string \<Rightarrow> Blocklist \<Rightarrow> bool \<times> Blocklist" where
  "Blocklist_Unblock subdomain b =
     (let sub = normalizeSub subdomain in (fmlookup b sub \<noteq> None, fmdrop sub b))"

definition Blocklist_IsBlocked :: "string \<Rightarrow> Blocklist \<Rightarrow> bool \<times> string" where
  "Blocklist_IsBlocked subdomain b =
     (case fmlookup b (normalizeSub subdomain) of
        None \<Rightarrow> (False, '''') | Some e \<Rightarrow> (True, be_Reason e))"

subsection \<open>Bandwidth\<close>

record 'lim BandwidthLimiter =
  bl_bwLimit :: int
  bl_rps :: 'lim

definition NewBandwidthLimiter :: "(int \<Rightarrow> int \<Rightarrow> 'lim) \<Rightarrow> TunnelLimits \<Rightarrow> 'lim BandwidthLimiter" where
  "NewBandwidthLimiter newLimiter limits =
     \<lparr>bl_bwLimit = tl_MaxBandwidth limits, bl_rps = newLimiter (tl_MaxRPS limits) (tl_MaxRPS limits)\<rparr>"

record rateLimitedConn =
  rl_bytesPerSec :: int
  rl_bucket :: int
  rl_lastFill :: time

definition BandwidthLimiter_WrapConn :: "time \<Rightarrow> 'lim BandwidthLimiter \<Rightarrow> rateLimitedConn" where
  "BandwidthLimiter_WrapConn now b =
     \<lparr>rl_bytesPerSec = bl_bwLimit b, rl_bucket = bl_bwLimit b, rl_lastFill = now\<rparr>"

definition fill_amount :: "time \<Rightarrow> rateLimitedConn \<Rightarrow> int" where
  "fill_amount now c =
     float_trunc (round64 (duration_Seconds (t_sub now (rl_lastFill c)) * round64 (of_int (rl_bytesPerSec c))))"

definition rateLimitedConn_refill :: "time \<Rightarrow> rateLimitedConn \<Rightarrow> rateLimitedConn" where
  "rateLimitedConn_refill now c =
     (let bucket = wrap64 (rl_bucket c + fill_amount now c)
      in c\<lparr>rl_lastFill := now,
           rl_bucket := (if rl_bytesPerSec c < bucket then rl_bytesPerSec c else bucket)\<rparr>)"

definition spend :: "int \<Rightarrow> rateLimitedConn \<Rightarrow> rateLimitedConn" where
  "spend n c = (if 0 < n then c\<lparr>rl_bucket := wrap64 (rl_bucket c - n)\<rparr> else c)"

definition rateLimitedConn_Read :: "time \<Rightarrow> int \<Rightarrow> rateLimitedConn \<Rightarrow> rateLimitedConn" where
  "rateLimitedConn_Read now n c = spend n (rateLimitedConn_refill now c)"

definition sleep_for :: "rateLimitedConn \<Rightarrow> duration" where
  "sleep_for c =
     (let deficit = wrap64 (- rl_bucket c);
          sleepDur = float_trunc (round64 (round64 (round64 (of_int deficit) /
                       round64 (of_int (rl_bytesPerSec c))) * 1000000000))
      in if 0 < deficit \<and> 0 < sleepDur \<and> sleepDur < 5 * Second then sleepDur else 0)"

text \<open>A write of \<open>n\<close> bytes that starts at \<open>now\<close>; \<open>woken\<close> is the clock after its sleep.\<close>

definition rateLimitedConn_Write :: "time \<Rightarrow> time \<Rightarrow> int \<Rightarrow> rateLimitedConn \<Rightarrow> duration \<times> rateLimitedConn" where
  "rateLimitedConn_Write now woken n c =
     (let c = rateLimitedConn_refill now c
      in if sleep_for c = 0 then (0, spend n c)
         else (sleep_for c, spend n (rateLimitedConn_refill woken c)))"

subsection \<open>The index of the registry is exact\<close>

definition sessions_of :: "node_id \<Rightarrow> TunnelRegistry \<Rightarrow> string set" where
  "sessions_of n r = {s. \<exists>sess. fmlookup (tr_sessions r) s = Some sess \<and> ts_NodeID sess = n}"

definition registry_inv :: "TunnelRegistry \<Rightarrow> bool" where
  "registry_inv r \<longleftrightarrow>
     (\<forall>n. distinct (TunnelRegistry_SubdomainsForNodeID n r) \<and>
          set (TunnelRegistry_SubdomainsForNodeID n r) = sessions_of n r)"

lemma subs_upd [simp]:
  "TunnelRegistry_SubdomainsForNodeID n (r\<lparr>tr_sessions := x, tr_byNodeID := fmupd m l b\<rparr>) =
     (if n = m then l else TunnelRegistry_SubdomainsForNodeID n (r\<lparr>tr_byNodeID := b\<rparr>))"
  by (simp add: TunnelRegistry_SubdomainsForNodeID_def)

lemma subs_same [simp]:
  "TunnelRegistry_SubdomainsForNodeID n (r\<lparr>tr_byNodeID := tr_byNodeID r\<rparr>) =
     TunnelRegistry_SubdomainsForNodeID n r"
  by (simp add: TunnelRegistry_SubdomainsForNodeID_def)

lemma Register_inv:
  assumes "registry_inv r" "TunnelRegistry_Register s sess r = Some r'"
  shows "registry_inv r'"
    and "TunnelRegistry_SubdomainsForNodeID n r' =
      TunnelRegistry_SubdomainsForNodeID n r @ (if n = ts_NodeID sess then [s] else [])"
    and "TunnelRegistry_Lookup s r' = Some sess"
proof -
  have new: "fmlookup (tr_sessions r) s = None"
    and r': "r' = r\<lparr>tr_sessions := fmupd s sess (tr_sessions r), tr_byNodeID := fmupd (ts_NodeID sess)
       (TunnelRegistry_SubdomainsForNodeID (ts_NodeID sess) r @ [s]) (tr_byNodeID r)\<rparr>"
    using assms(2) by (auto simp: TunnelRegistry_Register_def split: if_splits)
  show subs: "TunnelRegistry_SubdomainsForNodeID n r' =
      TunnelRegistry_SubdomainsForNodeID n r @ (if n = ts_NodeID sess then [s] else [])" for n
    by (simp add: r')
  have "sessions_of n r' = sessions_of n r \<union> (if n = ts_NodeID sess then {s} else {})" for n
    using new by (auto simp: sessions_of_def r')
  moreover have "s \<notin> sessions_of n r" for n using new by (simp add: sessions_of_def)
  ultimately show "registry_inv r'" using assms(1) by (simp add: registry_inv_def subs)
  show "TunnelRegistry_Lookup s r' = Some sess" by (simp add: r' TunnelRegistry_Lookup_def)
qed

lemma Unregister_subs:
  assumes "fmlookup (tr_sessions r) s = Some sess"
  shows "TunnelRegistry_SubdomainsForNodeID n (TunnelRegistry_Unregister s r) =
    (if n = ts_NodeID sess then remove1 s (TunnelRegistry_SubdomainsForNodeID n r)
     else TunnelRegistry_SubdomainsForNodeID n r)"
  using assms
  by (auto simp: TunnelRegistry_Unregister_def TunnelRegistry_SubdomainsForNodeID_def Let_def
      remove1_idem split: option.split)

lemma Unregister_sessions [simp]:
  "tr_sessions (TunnelRegistry_Unregister s r) = fmdrop s (tr_sessions r)"
proof (cases "fmlookup (tr_sessions r) s")
  case None
  then show ?thesis by (auto simp: TunnelRegistry_Unregister_def intro!: fmap_ext)
next
  case (Some sess)
  then show ?thesis by (simp add: TunnelRegistry_Unregister_def Let_def)
qed

lemma Unregister_inv:
  assumes "registry_inv r"
  shows "registry_inv (TunnelRegistry_Unregister s r)"
proof (cases "fmlookup (tr_sessions r) s")
  case None
  then show ?thesis using assms by (simp add: TunnelRegistry_Unregister_def)
next
  case (Some sess)
  have "sessions_of n (TunnelRegistry_Unregister s r) = sessions_of n r - {s}" for n
    by (auto simp: sessions_of_def)
  moreover have "s \<notin> sessions_of n r" if "n \<noteq> ts_NodeID sess" for n
    using that Some by (auto simp: sessions_of_def)
  ultimately show ?thesis
    using assms by (auto simp: registry_inv_def Unregister_subs [OF Some])
qed

lemma fold_fmdrop: "fmlookup (fold fmdrop ks m) k = (if k \<in> set ks then None else fmlookup m k)"
  by (induction ks arbitrary: m) auto

lemma UnregisterAll_inv:
  assumes "registry_inv r"
  shows "registry_inv (snd (TunnelRegistry_UnregisterAll n r))"
    and "TunnelRegistry_CountForNodeID n (snd (TunnelRegistry_UnregisterAll n r)) = 0"
proof -
  let ?r = "snd (TunnelRegistry_UnregisterAll n r)"
  have subs: "TunnelRegistry_SubdomainsForNodeID m ?r =
      (if m = n then [] else TunnelRegistry_SubdomainsForNodeID m r)" for m
    by (simp add: TunnelRegistry_UnregisterAll_def TunnelRegistry_SubdomainsForNodeID_def Let_def)
  have own: "set (TunnelRegistry_SubdomainsForNodeID n r) = sessions_of n r"
    using assms by (simp add: registry_inv_def)
  have "fmlookup (tr_sessions ?r) s = (if s \<in> sessions_of n r then None else fmlookup (tr_sessions r) s)" for s
    by (simp add: TunnelRegistry_UnregisterAll_def Let_def fold_fmdrop own)
  then have "sessions_of m ?r = (if m = n then {} else sessions_of m r)" for m
    by (auto simp: sessions_of_def split: if_splits)
  then show "registry_inv ?r" using assms by (simp add: registry_inv_def subs)
  show "TunnelRegistry_CountForNodeID n ?r = 0" by (simp add: TunnelRegistry_CountForNodeID_def subs)
qed

datatype registry_op = TRegister string TunnelSession | TUnregister string | TUnregisterAll node_id

definition registry_step :: "registry_op \<Rightarrow> TunnelRegistry \<Rightarrow> TunnelRegistry" where
  "registry_step op r =
     (case op of
        TRegister s sess \<Rightarrow> (case TunnelRegistry_Register s sess r of None \<Rightarrow> r | Some r' \<Rightarrow> r')
      | TUnregister s \<Rightarrow> TunnelRegistry_Unregister s r
      | TUnregisterAll n \<Rightarrow> snd (TunnelRegistry_UnregisterAll n r))"

interpretation tunnel_registry: guarded_machine registry_step "\<lambda>_ _. True" registry_inv
proof
  fix r op
  assume "registry_inv r"
  then show "registry_inv (registry_step op r)"
    by (cases op) (auto simp: registry_step_def Unregister_inv UnregisterAll_inv(1)
        dest: Register_inv(1) split: option.split)
qed

lemma registry_inv_New: "registry_inv NewTunnelRegistry"
  by (simp add: registry_inv_def sessions_of_def NewTunnelRegistry_def TunnelRegistry_SubdomainsForNodeID_def)

lemma registry_inv_count: "registry_inv r \<Longrightarrow> TunnelRegistry_CountForNodeID n r = card (sessions_of n r)"
  by (metis TunnelRegistry_CountForNodeID_def distinct_card registry_inv_def)

text \<open>
  After any sequence of registrations and removals the count the subdomain cap is checked
  against is the number of sessions the node has in the registry.
\<close>

theorem registry_index_exact:
  "TunnelRegistry_CountForNodeID n (fold registry_step ops NewTunnelRegistry) =
     card (sessions_of n (fold registry_step ops NewTunnelRegistry))"
  by (rule registry_inv_count [OF tunnel_registry.run_inv [OF registry_inv_New]]) simp

lemma assign_from_free: "assign_from k i rnd r = Some s \<Longrightarrow> fmlookup (tr_sessions r) s = None"
  by (induction k i rnd r rule: assign_from.induct) (auto split: option.splits if_splits)

subsection \<open>Blocking and unblocking a name\<close>

lemma blocked_after_Block:
  "normalizeSub s = normalizeSub t \<Longrightarrow> normalizeSub t \<noteq> '''' \<Longrightarrow>
   Blocklist_IsBlocked s (Blocklist_Block now t reason b) = (True, reason)"
  by (simp add: Blocklist_IsBlocked_def Blocklist_Block_def Let_def)

lemma unblocked_after_Unblock: "\<not> fst (Blocklist_IsBlocked s (snd (Blocklist_Unblock s b)))"
  by (simp add: Blocklist_IsBlocked_def Blocklist_Unblock_def Let_def)

subsection \<open>A large deficit is not throttled\<close>

lemma refill_capped: "rl_bucket (rateLimitedConn_refill now c) \<le> rl_bytesPerSec c"
  by (simp add: rateLimitedConn_refill_def Let_def)

lemma round64_mono: "x \<le> y \<Longrightarrow> round64 x \<le> round64 y"
  unfolding round64_def by (rule f64.rnd_mono)

lemma round64_ge_int:
  assumes "0 \<le> n" "n < 2 ^ 53" "of_int n \<le> x"
  shows "of_int n \<le> round64 x"
  using round64_mono [OF assms(3)] round64_of_int [OF assms(1,2)] by simp

lemma deficit_not_slept:
  assumes "0 < rl_bytesPerSec c" "rl_bytesPerSec c \<le> 2 ^ 50" "int64_min < rl_bucket c"
    and "rl_bucket c \<le> - 6 * rl_bytesPerSec c"
  shows "sleep_for c = 0"
proof -
  let ?b = "rl_bytesPerSec c"
  have d: "wrap64 (- rl_bucket c) = - rl_bucket c" using assms by (intro wrap64_id) auto
  have b: "round64 (of_int ?b) = of_int ?b" using assms(1,2) by (intro round64_of_int) auto
  have "of_int (6 * ?b) \<le> round64 (of_int (- rl_bucket c))"
    using assms by (intro round64_ge_int) auto
  then have "of_int 6 \<le> round64 (of_int (- rl_bucket c)) / of_int ?b"
    using assms(1) by (simp add: le_divide_eq mult.commute)
  then have "of_int 6 \<le> round64 (round64 (of_int (- rl_bucket c)) / of_int ?b)"
    by (intro round64_ge_int) auto
  then have "of_int 6000000000 \<le> round64 (round64 (of_int (- rl_bucket c)) / of_int ?b) * 1000000000"
    by simp
  then have s: "of_int 6000000000 \<le>
      round64 (round64 (round64 (of_int (- rl_bucket c)) / of_int ?b) * 1000000000)"
    by (intro round64_ge_int) auto
  then have "6000000000 \<le> float_trunc
      (round64 (round64 (round64 (of_int (- rl_bucket c)) / of_int ?b) * 1000000000))"
    by (simp add: float_trunc_def le_floor_iff)
  then show ?thesis unfolding sleep_for_def Let_def d b by simp
qed

text \<open>The total time a sequence of writes \<open>(now, woken, bytes)\<close> sleeps, and the connection after it.\<close>

fun writes :: "(time \<times> time \<times> int) list \<Rightarrow> rateLimitedConn \<Rightarrow> duration \<times> rateLimitedConn" where
  "writes [] c = (0, c)"
| "writes ((now, woken, n) # ws) c =
     (let (d, c1) = rateLimitedConn_Write now woken n c; (d', c2) = writes ws c1 in (d + d', c2))"

text \<open>
  The writes come at most a second apart, each is at least what the elapsed time refills, and
  the counter stays in the range of its type.
\<close>

fun above_limit :: "(time \<times> time \<times> int) list \<Rightarrow> rateLimitedConn \<Rightarrow> bool" where
  "above_limit [] c \<longleftrightarrow> True"
| "above_limit ((now, woken, n) # ws) c \<longleftrightarrow>
     rl_lastFill c \<le> now \<and> now \<le> rl_lastFill c + Second \<and>
     0 < n \<and> fill_amount now c \<le> n \<and> int64_min < rl_bucket c - n \<and>
     above_limit ws (snd (rateLimitedConn_Write now woken n c))"

lemma duration_Seconds_unit:
  assumes "0 \<le> d" "d \<le> Second"
  shows "0 \<le> duration_Seconds d" "duration_Seconds d \<le> 1"
proof -
  have z: "round64 0 = 0" and o: "round64 1 = 1"
    using round64_of_int [of 0] round64_of_int [of 1] by simp_all
  have "0 \<le> duration_Seconds d \<and> duration_Seconds d \<le> 1"
  proof (cases "d = Second")
    case True
    then show ?thesis by (simp add: duration_Seconds_def z o)
  next
    case False
    with assms have sec: "tdiv d Second = 0" by simp
    have r: "0 \<le> round64 (of_int d / 1000000000)" "round64 (of_int d / 1000000000) \<le> 1"
      using assms round64_mono [of 0 "of_int d / 1000000000"] round64_mono [of "of_int d / 1000000000" 1] z o
      by simp_all
    then show ?thesis
      using round64_mono [OF r(1)] round64_mono [OF r(2)] z o by (simp add: duration_Seconds_def sec)
  qed
  then show "0 \<le> duration_Seconds d" "duration_Seconds d \<le> 1" by auto
qed

lemma fill_amount_second:
  assumes "0 < rl_bytesPerSec c" "rl_bytesPerSec c \<le> 2 ^ 50"
    and "rl_lastFill c \<le> now" "now \<le> rl_lastFill c + Second"
  shows "0 \<le> fill_amount now c" "fill_amount now c \<le> rl_bytesPerSec c"
proof -
  let ?b = "rl_bytesPerSec c" and ?s = "duration_Seconds (t_sub now (rl_lastFill c))"
  have e: "t_sub now (rl_lastFill c) = now - rl_lastFill c" using assms(3,4) by (simp add: t_sub_def)
  have s: "0 \<le> ?s" "?s \<le> 1" unfolding e using assms(3,4) by (auto intro: duration_Seconds_unit)
  have b: "round64 (of_int ?b) = of_int ?b" using assms(1,2) by (intro round64_of_int) auto
  have "0 \<le> ?s * of_int ?b" "?s * of_int ?b \<le> of_int ?b"
    using s assms(1) mult_right_mono [OF s(2), of "of_int ?b"] by auto
  then have "0 \<le> round64 (?s * of_int ?b)" "round64 (?s * of_int ?b) \<le> of_int ?b"
    using round64_mono [of 0 "?s * of_int ?b"] round64_mono [of "?s * of_int ?b" "of_int ?b"] b
      round64_of_int [of 0] by simp_all
  then show "0 \<le> fill_amount now c" "fill_amount now c \<le> ?b"
    unfolding fill_amount_def b by (simp_all add: float_trunc_def floor_le_iff)
qed

lemma overload_step:
  assumes "0 < rl_bytesPerSec c" "rl_bytesPerSec c \<le> 2 ^ 50" "rl_bucket c \<le> - 7 * rl_bytesPerSec c"
    and "above_limit ((now, woken, n) # ws) c"
  obtains c' where "rateLimitedConn_Write now woken n c = (0, c')" "rl_bytesPerSec c' = rl_bytesPerSec c"
    "rl_bucket c' \<le> rl_bucket c"
proof -
  let ?f = "fill_amount now c" and ?c1 = "rateLimitedConn_refill now c"
  have f: "0 \<le> ?f" "?f \<le> rl_bytesPerSec c" "?f \<le> n" "0 < n" "int64_min < rl_bucket c - n"
    using assms fill_amount_second [of c now] by simp_all
  have w: "wrap64 (rl_bucket c + ?f) = rl_bucket c + ?f" using assms(1,3) f by (intro wrap64_id) auto
  have c1: "rl_bucket ?c1 = rl_bucket c + ?f" "rl_bytesPerSec ?c1 = rl_bytesPerSec c"
    using assms(1,3) f by (simp_all add: rateLimitedConn_refill_def Let_def w)
  have "sleep_for ?c1 = 0"
    using assms(1-3) f by (intro deficit_not_slept) (auto simp: c1)
  then have "rateLimitedConn_Write now woken n c = (0, spend n ?c1)"
    by (simp add: rateLimitedConn_Write_def Let_def)
  moreover have "rl_bucket (spend n ?c1) = rl_bucket c + ?f - n"
    using f assms(1,3) by (simp add: spend_def c1)
  moreover have "rl_bytesPerSec (spend n ?c1) = rl_bytesPerSec c" by (simp add: spend_def c1)
  ultimately show ?thesis using f by (intro that [of "spend n ?c1"]) auto
qed

text \<open>
  A sleep of five seconds or more is skipped.  So a sender that once got seven seconds' worth
  of bytes ahead and goes on sending at the limit or faster is never slowed down again.
\<close>

theorem overload_never_throttled:
  assumes "0 < rl_bytesPerSec c" "rl_bytesPerSec c \<le> 2 ^ 50" "rl_bucket c \<le> - 7 * rl_bytesPerSec c"
    and "above_limit ws c"
  shows "fst (writes ws c) = 0"
  using assms
proof (induction ws arbitrary: c)
  case (Cons w ws)
  obtain now woken n where w: "w = (now, woken, n)" by (metis prod_cases3)
  from Cons.prems obtain c' where c': "rateLimitedConn_Write now woken n c = (0, c')"
    "rl_bytesPerSec c' = rl_bytesPerSec c" "rl_bucket c' \<le> rl_bucket c"
    unfolding w by (rule overload_step)
  have "fst (writes ws c') = 0"
    using Cons.prems c' by (intro Cons.IH) (auto simp: w)
  then show ?case by (simp add: w c'(1) split: prod.split)
qed simp

text \<open>A connection at one megabyte per second that is eight megabytes ahead.\<close>

definition example_conn :: rateLimitedConn where
  "example_conn = \<lparr>rl_bytesPerSec = 1000000, rl_bucket = - 8000000, rl_lastFill = 0\<rparr>"

theorem overload_never_throttled_witness:
  "fst (writes [(500000000, 500000000, 2000000)] example_conn) = 0"
proof -
  have "fill_amount 500000000 example_conn \<le> 1000000"
    using fill_amount_second(2) [of example_conn 500000000] by (simp add: example_conn_def)
  then show ?thesis
    using overload_never_throttled [of example_conn "[(500000000, 500000000, 2000000)]"]
    by (simp add: example_conn_def del: writes.simps)
qed

end
