(* ===== verification/Tunnel_Server.thy ===== *)
theory Tunnel_Server
  imports Tunnel_Registry "HOL-Library.Sublist"
begin

text \<open>
  The reverse-tunnel server: authentication of registrations and reconnections
  (\<^verbatim>\<open>src/internal/tunnel/auth.go\<close>) and admission, streams, heartbeats and connection limits
  (\<^verbatim>\<open>reverse_server.go\<close>).  HMAC-SHA256, the two \<^verbatim>\<open>fmt.Sscanf\<close> patterns of the token and the request
  limiter are fields of a \<open>tunnel_env\<close>.  The model of \<^verbatim>\<open>handleProviderConn\<close> starts with the node
  id of the peer certificate and the decoded request, and ends with the registered session;
  its deferred calls are \<open>release_session\<close>.
\<close>

subsection \<open>Requests\<close>

record WalletProof =
  wp_Address :: string
  wp_Signature :: string
  wp_Message :: string

record EdgeCapabilities =
  ec_IngressAddr :: string
  ec_TunnelPort :: int
  ec_MaxStreams :: int

record TunnelRegisterRequest =
  rq_NodeID :: string
  rq_Subdomain :: string
  rq_DeploymentID :: string
  rq_ContainerPort :: int
  rq_Nonce :: string
  rq_Timestamp :: int
  rq_TLSBinding :: string
  rq_WalletProof :: "WalletProof option"
  rq_ReconnToken :: string
  rq_EdgeCapabilities :: "EdgeCapabilities option"

record 'lim tunnel_env =
  te_hmac :: "byte list \<Rightarrow> byte list \<Rightarrow> byte list"
  te_scanToken :: "string \<Rightarrow> (string \<times> int) option"
  te_scanInt :: "string \<Rightarrow> int option"
  te_newLimiter :: "int \<Rightarrow> int \<Rightarrow> 'lim"
  te_allow :: "time \<Rightarrow> 'lim \<Rightarrow> bool \<times> 'lim"

subsection \<open>Authentication\<close>

definition maxRegistrationAge :: duration where "maxRegistrationAge = 60 * Second"

text \<open>Seconds since 1970 as a time, and back.\<close>

definition time_Unix :: "int \<Rightarrow> time" where
  "time_Unix sec = wrap64 (sec + 62135596800) * Second"

definition unix_secs :: "time \<Rightarrow> int" where
  "unix_secs t = t div Second - 62135596800"

fun hex_decode :: "string \<Rightarrow> byte list option" where
  "hex_decode [] = Some []"
| "hex_decode [c] = None"
| "hex_decode (a # b # cs) =
     (case (hex_val a, hex_val b, hex_decode cs) of
        (Some x, Some y, Some bs) \<Rightarrow> Some (of_nat (16 * x + y) # bs)
      | _ \<Rightarrow> None)"

definition nonce_of_bytes :: "byte list \<Rightarrow> nonce24" where
  "nonce_of_bytes bs = word_of_int (foldl (\<lambda>a b. a * 256 + uint b) 0 bs)"

datatype auth_error =
  BadNonceLength | BadNonceHex | NonceRejected nonce_error | TooOld | InFuture | BindingMismatch

definition ValidateRegistration ::
  "time \<Rightarrow> byte list \<Rightarrow> TunnelRegisterRequest \<Rightarrow> NonceTracker \<Rightarrow> auth_error option \<times> NonceTracker" where
  "ValidateRegistration now tlsUnique req nt =
     (if length (rq_Nonce req) \<noteq> 64 then (Some BadNonceLength, nt)
      else case hex_decode (rq_Nonce req) of
             None \<Rightarrow> (Some BadNonceHex, nt)
           | Some nonceBytes \<Rightarrow>
               let ts = time_Unix (rq_Timestamp req);
                   (err, nt') = NonceTracker_Check now (nonce_of_bytes (take 24 nonceBytes)) ts nt;
                   age = t_sub now ts
               in case err of
                    Some e \<Rightarrow> (Some (NonceRejected e), nt')
                  | None \<Rightarrow>
                      if maxRegistrationAge < age then (Some TooOld, nt')
                      else if age < - maxRegistrationAge then (Some InFuture, nt')
                      else if rq_TLSBinding req \<noteq> '''' \<and> tlsUnique \<noteq> [] \<and>
                              rq_TLSBinding req \<noteq> hex_encode tlsUnique
                      then (Some BindingMismatch, nt')
                      else (None, nt'))"

definition be64 :: "int \<Rightarrow> byte list" where
  "be64 n = map (\<lambda>i. ucast (drop_bit (8 * (7 - i)) (word_of_int n :: 64 word))) [0..<8]"

definition token_mac :: "'lim tunnel_env \<Rightarrow> byte list \<Rightarrow> node_id \<Rightarrow> string \<Rightarrow> int \<Rightarrow> string" where
  "token_mac env secret nodeID subdomain issuedAt =
     hex_encode (te_hmac env secret
       (node_bytes nodeID @ map (\<lambda>c. of_nat (of_char c)) subdomain @ be64 issuedAt))"

definition IssueReconnToken :: "'lim tunnel_env \<Rightarrow> byte list \<Rightarrow> time \<Rightarrow> node_id \<Rightarrow> string \<Rightarrow> string" where
  "IssueReconnToken env secret now nodeID subdomain =
     (let t = unix_secs now
      in token_mac env secret nodeID subdomain t @ '':'' @
         (if t < 0 then ''-'' else '''') @ print_dec (nat \<bar>t\<bar>))"

definition parse_token :: "'lim tunnel_env \<Rightarrow> string \<Rightarrow> (string \<times> int) option" where
  "parse_token env token =
     (case te_scanToken env token of
        Some ht \<Rightarrow> Some ht
      | None \<Rightarrow>
          (case dropWhile (\<lambda>c. c \<noteq> CHR '':'') (rev token) of
             [] \<Rightarrow> None
           | _ # h \<Rightarrow>
               (case te_scanInt env (rev (takeWhile (\<lambda>c. c \<noteq> CHR '':'') (rev token))) of
                  None \<Rightarrow> None
                | Some t \<Rightarrow> if h = [] \<or> t = 0 then None else Some (rev h, t))))"

definition ValidateReconnToken ::
  "'lim tunnel_env \<Rightarrow> byte list \<Rightarrow> time \<Rightarrow> string \<Rightarrow> node_id \<Rightarrow> string \<Rightarrow> duration \<Rightarrow> bool" where
  "ValidateReconnToken env secret now token nodeID subdomain maxAge =
     (case parse_token env token of
        None \<Rightarrow> False
      | Some (hmacHex, issuedAt) \<Rightarrow>
          let age = t_sub now (time_Unix issuedAt)
          in if maxAge < age \<or> age < - maxRegistrationAge then False
             else hmacHex = token_mac env secret nodeID subdomain issuedAt)"

subsection \<open>The server\<close>

record 'lim ReverseServer =
  rv_registry :: TunnelRegistry
  rv_nonceTracker :: NonceTracker
  rv_hmacSecret :: "byte list"
  rv_domain :: string
  rv_maxConns :: nat
  rv_maxPerIP :: int
  rv_verifyWallet :: "(WalletProof \<Rightarrow> string \<Rightarrow> string option) option"
  rv_edgeAuthorize :: "(string \<Rightarrow> string \<Rightarrow> bool option) option"
  rv_edgeRegistry :: "(node_id \<times> string \<times> string \<times> int \<times> int) list option"
  rv_blocklist :: "Blocklist option"
  rv_conns :: nat
  rv_ipTracker :: "(string, int) gomap"
  rv_limiters :: "(string, 'lim BandwidthLimiter) gomap"

definition NewReverseServer :: "byte list \<Rightarrow> 'lim ReverseServer" where
  "NewReverseServer secret =
     \<lparr>rv_registry = NewTunnelRegistry,
      rv_nonceTracker = NewNonceTrackerWithConfig maxRegistrationAge (30 * Second) (10 * Minute),
      rv_hmacSecret = secret, rv_domain = ''moltbunker.dev'', rv_maxConns = 10000, rv_maxPerIP = 5,
      rv_verifyWallet = None, rv_edgeAuthorize = None, rv_edgeRegistry = None, rv_blocklist = None,
      rv_conns = 0, rv_ipTracker = fmempty, rv_limiters = fmempty\<rparr>"

datatype reject_reason =
    EdgeNotAuthorized | ReconnNeedsSubdomain | BadReconnToken | RegistrationRejected auth_error
  | SubdomainLimit | AssignFailed | NoVanityForFree | BlockedByOperator | SubdomainTaken

text \<open>The tier and the wallet address, which is empty unless the proof verified.\<close>

definition tier_and_wallet :: "node_id \<Rightarrow> TunnelRegisterRequest \<Rightarrow> 'lim ReverseServer \<Rightarrow> string \<times> string" where
  "tier_and_wallet nodeID req s =
     (case (rq_WalletProof req, rv_verifyWallet s) of
        (Some proof, Some verify) \<Rightarrow>
          (case verify proof (NodeID_String nodeID) of
             None \<Rightarrow> (''free'', '''')
           | Some tier \<Rightarrow> (tier, wp_Address proof))
      | _ \<Rightarrow> (''free'', ''''))"

definition edge_allowed :: "node_id \<Rightarrow> TunnelRegisterRequest \<Rightarrow> string \<Rightarrow> 'lim ReverseServer \<Rightarrow> bool" where
  "edge_allowed nodeID req wallet s \<longleftrightarrow>
     (case (rq_EdgeCapabilities req, rv_edgeAuthorize s) of
        (Some _, Some authorize) \<Rightarrow> authorize (NodeID_String nodeID) wallet = Some True
      | _ \<Rightarrow> True)"

definition authenticate ::
  "'lim tunnel_env \<Rightarrow> time \<Rightarrow> node_id \<Rightarrow> byte list \<Rightarrow> string \<Rightarrow> TunnelRegisterRequest \<Rightarrow> 'lim ReverseServer
   \<Rightarrow> reject_reason option \<times> 'lim ReverseServer" where
  "authenticate env now nodeID tlsUnique tier req s =
     (if rq_ReconnToken req \<noteq> '''' then
        (if rq_Subdomain req = '''' then Some ReconnNeedsSubdomain
         else if \<not> ValidateReconnToken env (rv_hmacSecret s) now (rq_ReconnToken req) nodeID
                    (rq_Subdomain req) (ReconnGraceForTier tier * Second)
         then Some BadReconnToken else None, s)
      else
        let (err, nt) = ValidateRegistration now tlsUnique req (rv_nonceTracker s)
        in (map_option RegistrationRejected err, s\<lparr>rv_nonceTracker := nt\<rparr>))"

definition choose_subdomain ::
  "(nat \<Rightarrow> byte list option) \<Rightarrow> string \<Rightarrow> TunnelRegisterRequest \<Rightarrow> 'lim ReverseServer \<Rightarrow> reject_reason + string" where
  "choose_subdomain rnd tier req s =
     (if rq_Subdomain req = '''' then
        (case TunnelRegistry_AssignRandomSubdomain rnd (rv_registry s) of
           None \<Rightarrow> Inl AssignFailed | Some sub \<Rightarrow> Inr sub)
      else if tier = ''free'' then Inl NoVanityForFree
      else Inr (rq_Subdomain req))"

definition announce_edge ::
  "node_id \<Rightarrow> string \<Rightarrow> TunnelRegisterRequest \<Rightarrow> 'lim ReverseServer \<Rightarrow> 'lim ReverseServer" where
  "announce_edge nodeID wallet req s =
     (case (rq_EdgeCapabilities req, rv_edgeRegistry s) of
        (Some ec, Some edges) \<Rightarrow>
          s\<lparr>rv_edgeRegistry :=
              Some (edges @ [(nodeID, wallet, ec_IngressAddr ec, ec_TunnelPort ec, ec_MaxStreams ec)])\<rparr>
      | _ \<Rightarrow> s)"

definition register_session ::
  "'lim tunnel_env \<Rightarrow> time \<Rightarrow> node_id \<Rightarrow> nat \<Rightarrow> string \<Rightarrow> string \<Rightarrow> TunnelRegisterRequest \<Rightarrow> 'lim ReverseServer
   \<Rightarrow> (reject_reason + TunnelSession) \<times> 'lim ReverseServer" where
  "register_session env now nodeID yamux tier subdomain req s =
     (let limits = LimitsForTier tier;
          sess = \<lparr>ts_NodeID = nodeID, ts_Subdomain = subdomain, ts_DeploymentID = rq_DeploymentID req,
                  ts_YamuxSess = Some yamux, ts_RegisteredAt = now, ts_Tier = tier, ts_Limits = limits,
                  ts_ReconnToken = IssueReconnToken env (rv_hmacSecret s) now nodeID subdomain\<rparr>
      in case TunnelRegistry_Register subdomain sess (rv_registry s) of
           None \<Rightarrow> (Inl SubdomainTaken, s)
         | Some reg \<Rightarrow>
             (Inr sess,
              s\<lparr>rv_registry := reg,
                rv_limiters := fmupd subdomain (NewBandwidthLimiter (te_newLimiter env) limits) (rv_limiters s)\<rparr>))"

definition ReverseServer_handleProviderConn ::
  "'lim tunnel_env \<Rightarrow> time \<Rightarrow> node_id \<Rightarrow> byte list \<Rightarrow> nat \<Rightarrow> (nat \<Rightarrow> byte list option) \<Rightarrow> TunnelRegisterRequest
   \<Rightarrow> 'lim ReverseServer \<Rightarrow> (reject_reason + TunnelSession) \<times> 'lim ReverseServer" where
  "ReverseServer_handleProviderConn env now nodeID tlsUnique yamux rnd req s =
     (let (tier, wallet) = tier_and_wallet nodeID req s
      in if \<not> edge_allowed nodeID req wallet s then (Inl EdgeNotAuthorized, s)
         else case authenticate env now nodeID tlsUnique tier req s of
                (Some err, s) \<Rightarrow> (Inl err, s)
              | (None, s) \<Rightarrow>
                  if MaxSubdomainsForTier tier \<le> TunnelRegistry_CountForNodeID nodeID (rv_registry s)
                  then (Inl SubdomainLimit, s)
                  else case choose_subdomain rnd tier req s of
                         Inl err \<Rightarrow> (Inl err, s)
                       | Inr subdomain \<Rightarrow>
                           if (case rv_blocklist s of
                                 None \<Rightarrow> False | Some b \<Rightarrow> fst (Blocklist_IsBlocked subdomain b))
                           then (Inl BlockedByOperator, s)
                           else register_session env now nodeID yamux tier subdomain req
                                  (announce_edge nodeID wallet req s))"

text \<open>The deferred calls of the handler, when the connection ends.\<close>

definition release_session :: "string \<Rightarrow> 'lim ReverseServer \<Rightarrow> 'lim ReverseServer" where
  "release_session subdomain s =
     s\<lparr>rv_limiters := fmdrop subdomain (rv_limiters s),
       rv_registry := TunnelRegistry_Unregister subdomain (rv_registry s)\<rparr>"

datatype stream_error = StreamBlocked | NoTunnel | SessionClosed | RateExceeded | OpenFailed

text \<open>\<open>isClosed\<close> and \<open>canOpen\<close> say what the multiplexer answers for a session.\<close>

definition ReverseServer_OpenStream ::
  "'lim tunnel_env \<Rightarrow> time \<Rightarrow> (nat \<Rightarrow> bool) \<Rightarrow> (nat \<Rightarrow> bool) \<Rightarrow> string \<Rightarrow> 'lim ReverseServer
   \<Rightarrow> (stream_error + rateLimitedConn option) \<times> 'lim ReverseServer" where
  "ReverseServer_OpenStream env now isClosed canOpen subdomain s =
     (if (case rv_blocklist s of None \<Rightarrow> False | Some b \<Rightarrow> fst (Blocklist_IsBlocked subdomain b))
      then (Inl StreamBlocked, s)
      else case TunnelRegistry_Lookup subdomain (rv_registry s) of
             None \<Rightarrow> (Inl NoTunnel, s)
           | Some sess \<Rightarrow>
               (case ts_YamuxSess sess of
                  None \<Rightarrow>
                    (Inl SessionClosed, s\<lparr>rv_registry := TunnelRegistry_Unregister subdomain (rv_registry s)\<rparr>)
                | Some y \<Rightarrow>
                    if isClosed y
                    then (Inl SessionClosed, s\<lparr>rv_registry := TunnelRegistry_Unregister subdomain (rv_registry s)\<rparr>)
                    else (case fmlookup (rv_limiters s) subdomain of
                            None \<Rightarrow> (if canOpen y then Inr None else Inl OpenFailed, s)
                          | Some limiter \<Rightarrow>
                              let (ok, lim) = te_allow env now (bl_rps limiter);
                                  s' = s\<lparr>rv_limiters := fmupd subdomain (limiter\<lparr>bl_rps := lim\<rparr>) (rv_limiters s)\<rparr>
                              in (if \<not> ok then Inl RateExceeded
                                  else if canOpen y then Inr (Some (BandwidthLimiter_WrapConn now limiter))
                                  else Inl OpenFailed, s'))))"

subsection \<open>Heartbeats\<close>

text \<open>What one tick of the heartbeat loop meets; \<open>None\<close> when the loop has returned.\<close>

datatype beat = CtxDone | BeatClosed | NoChallenge | DeadlineFailed | Missed | Pong

definition maxMissedHeartbeats :: nat where "maxMissedHeartbeats = 3"

fun heartbeatLoop :: "nat \<Rightarrow> beat list \<Rightarrow> nat option" where
  "heartbeatLoop missed [] = Some missed"
| "heartbeatLoop missed (b # bs) =
     (case b of
        CtxDone \<Rightarrow> None
      | BeatClosed \<Rightarrow> None
      | NoChallenge \<Rightarrow> heartbeatLoop missed bs
      | DeadlineFailed \<Rightarrow> None
      | Missed \<Rightarrow> if maxMissedHeartbeats \<le> Suc missed then None else heartbeatLoop (Suc missed) bs
      | Pong \<Rightarrow> heartbeatLoop 0 bs)"

subsection \<open>Connections per address\<close>

definition ReverseServer_checkIPLimit :: "string \<Rightarrow> 'lim ReverseServer \<Rightarrow> bool \<times> 'lim ReverseServer" where
  "ReverseServer_checkIPLimit ip s =
     (let old = (case fmlookup (rv_ipTracker s) ip of None \<Rightarrow> 0 | Some n \<Rightarrow> n)
      in if rv_maxPerIP s \<le> old then (False, s\<lparr>rv_ipTracker := fmupd ip old (rv_ipTracker s)\<rparr>)
         else (True, s\<lparr>rv_ipTracker := fmupd ip (old + 1) (rv_ipTracker s)\<rparr>))"

definition ReverseServer_releaseIPSlot :: "string \<Rightarrow> 'lim ReverseServer \<Rightarrow> 'lim ReverseServer" where
  "ReverseServer_releaseIPSlot ip s =
     (case fmlookup (rv_ipTracker s) ip of
        None \<Rightarrow> s
      | Some n \<Rightarrow> s\<lparr>rv_ipTracker := (if n - 1 \<le> 0 then fmdrop ip (rv_ipTracker s)
                                    else fmupd ip (n - 1) (rv_ipTracker s))\<rparr>)"

definition accept_conn :: "string \<Rightarrow> 'lim ReverseServer \<Rightarrow> bool \<times> 'lim ReverseServer" where
  "accept_conn ip s =
     (case ReverseServer_checkIPLimit ip s of
        (False, s) \<Rightarrow> (False, s)
      | (True, s) \<Rightarrow>
          if rv_conns s < rv_maxConns s then (True, s\<lparr>rv_conns := Suc (rv_conns s)\<rparr>)
          else (False, ReverseServer_releaseIPSlot ip s))"

definition finish_conn :: "string \<Rightarrow> 'lim ReverseServer \<Rightarrow> 'lim ReverseServer" where
  "finish_conn ip s = (ReverseServer_releaseIPSlot ip s)\<lparr>rv_conns := rv_conns s - 1\<rparr>"

subsection \<open>Tokens\<close>

text \<open>An accepted token carries the code of the server's key for this node, name and time.\<close>

lemma ValidateReconnToken_iff:
  "ValidateReconnToken env secret now token nodeID sub maxAge \<longleftrightarrow>
     (\<exists>t. parse_token env token = Some (token_mac env secret nodeID sub t, t) \<and>
        t_sub now (time_Unix t) \<le> maxAge \<and> - maxRegistrationAge \<le> t_sub now (time_Unix t))"
  by (auto simp: ValidateReconnToken_def Let_def split: option.split)

lemma time_Unix_unix_secs:
  assumes "0 \<le> t" "t div Second \<le> int64_max"
  shows "time_Unix (unix_secs t) = t div Second * Second"
  using assms by (simp add: time_Unix_def unix_secs_def pos_imp_zdiv_nonneg_iff)

text \<open>
  A token is accepted from the node it was issued to, for the same name, until the grace
  period is over.  The hypothesis on the scanner is that it splits a token into its two parts.
\<close>

theorem reconnect_token_round_trip:
  assumes "te_scanToken env (token_mac env secret nodeID sub (unix_secs t\<^sub>1) @ '':'' @ print_dec (nat (unix_secs t\<^sub>1))) =
      Some (token_mac env secret nodeID sub (unix_secs t\<^sub>1), unix_secs t\<^sub>1)"
    and "0 \<le> unix_secs t\<^sub>1" "t\<^sub>1 div Second \<le> int64_max"
    and "t\<^sub>1 \<le> t\<^sub>2" "t\<^sub>2 + Second \<le> t\<^sub>1 + maxAge" "0 \<le> maxAge" "maxAge < int64_max"
  shows "ValidateReconnToken env secret t\<^sub>2 (IssueReconnToken env secret t\<^sub>1 nodeID sub) nodeID sub maxAge"
proof -
  have t: "0 \<le> t\<^sub>1" using assms(2) by (simp add: unix_secs_def)
  have i: "IssueReconnToken env secret t\<^sub>1 nodeID sub =
      token_mac env secret nodeID sub (unix_secs t\<^sub>1) @ '':'' @ print_dec (nat (unix_secs t\<^sub>1))"
    using assms(2) by (simp add: IssueReconnToken_def Let_def)
  have "t\<^sub>1 - Second < t\<^sub>1 div Second * Second" "t\<^sub>1 div Second * Second \<le> t\<^sub>1"
    using pos_mod_bound [of Second t\<^sub>1] pos_mod_sign [of Second t\<^sub>1] div_mult_mod_eq [of t\<^sub>1 Second] by linarith+
  then have "t_sub t\<^sub>2 (time_Unix (unix_secs t\<^sub>1)) \<le> maxAge" "0 \<le> t_sub t\<^sub>2 (time_Unix (unix_secs t\<^sub>1))"
    using assms(4-7) by (simp_all add: time_Unix_unix_secs [OF t assms(3)])
  moreover have "parse_token env (IssueReconnToken env secret t\<^sub>1 nodeID sub) =
      Some (token_mac env secret nodeID sub (unix_secs t\<^sub>1), unix_secs t\<^sub>1)"
    unfolding i parse_token_def assms(1) by simp
  ultimately show ?thesis
    unfolding ValidateReconnToken_iff
    by (intro exI [of _ "unix_secs t\<^sub>1"]) (auto simp: maxRegistrationAge_def)
qed

subsection \<open>Admission\<close>

lemma authenticate_frame:
  "rv_registry (snd (authenticate env now n tls tier req s)) = rv_registry s"
  "rv_blocklist (snd (authenticate env now n tls tier req s)) = rv_blocklist s"
  "rv_hmacSecret (snd (authenticate env now n tls tier req s)) = rv_hmacSecret s"
  "rv_limiters (snd (authenticate env now n tls tier req s)) = rv_limiters s"
  by (simp_all add: authenticate_def split: prod.split)

lemma announce_edge_frame [simp]:
  "rv_registry (announce_edge n w req s) = rv_registry s"
  "rv_hmacSecret (announce_edge n w req s) = rv_hmacSecret s"
  "rv_limiters (announce_edge n w req s) = rv_limiters s"
  by (simp_all add: announce_edge_def split: option.split prod.split)

lemma handleProviderConn_cases:
  assumes "ReverseServer_handleProviderConn env now n tls y rnd req s = (res, s')"
    and "tier_and_wallet n req s = (tier, wallet)"
  obtains err where "res = Inl err" "rv_registry s' = rv_registry s"
  | sess reg subdomain s1 where "res = Inr sess" "edge_allowed n req wallet s"
      "authenticate env now n tls tier req s = (None, s1)"
      "TunnelRegistry_CountForNodeID n (rv_registry s) < MaxSubdomainsForTier tier"
      "choose_subdomain rnd tier req s1 = Inr subdomain"
      "\<forall>b. rv_blocklist s = Some b \<longrightarrow> \<not> fst (Blocklist_IsBlocked subdomain b)"
      "TunnelRegistry_Register subdomain sess (rv_registry s) = Some reg"
      "ts_NodeID sess = n" "ts_Tier sess = tier" "ts_Subdomain sess = subdomain"
      "ts_YamuxSess sess = Some y" "rv_registry s' = reg"
proof (cases "edge_allowed n req wallet s")
  case False
  with assms show ?thesis by (intro that(1)) (auto simp: ReverseServer_handleProviderConn_def)
next
  case edge: True
  obtain err s1 where a: "authenticate env now n tls tier req s = (err, s1)" by fastforce
  have f: "rv_registry s1 = rv_registry s" "rv_blocklist s1 = rv_blocklist s"
    using authenticate_frame [where env = env and now = now and n = n and tls = tls and tier = tier
        and req = req and s = s] by (simp_all add: a)
  let ?blocked = "\<lambda>sub. case rv_blocklist s1 of None \<Rightarrow> False | Some b \<Rightarrow> fst (Blocklist_IsBlocked sub b)"
  show ?thesis
  proof (cases "err = None \<and> TunnelRegistry_CountForNodeID n (rv_registry s) < MaxSubdomainsForTier tier")
    case False
    then show ?thesis
      using assms edge f that(1) [of "case err of None \<Rightarrow> SubdomainLimit | Some e \<Rightarrow> e"]
      by (cases err) (auto simp: ReverseServer_handleProviderConn_def a)
  next
    case ok: True
    have h: "(res, s') = (case choose_subdomain rnd tier req s1 of
        Inl err \<Rightarrow> (Inl err, s1)
      | Inr sub \<Rightarrow> if ?blocked sub then (Inl BlockedByOperator, s1)
                  else register_session env now n y tier sub req (announce_edge n wallet req s1))"
      using assms edge ok by (simp add: ReverseServer_handleProviderConn_def a f(1))
    show ?thesis
    proof (cases "choose_subdomain rnd tier req s1")
      case (Inl e)
      with h f show ?thesis by (intro that(1)) auto
    next
      case (Inr sub)
      show ?thesis
      proof (cases "?blocked sub")
        case True
        with h f Inr show ?thesis by (intro that(1)) auto
      next
        case False
        then have "(res, s') = register_session env now n y tier sub req (announce_edge n wallet req s1)"
          using h Inr by simp
        then show ?thesis
          using that(1) that(2) [OF _ edge, of _ s1 sub] ok False a Inr f
          by (auto simp: register_session_def Let_def split: option.splits)
      qed
    qed
  qed
qed

lemma Register_Lookup:
  "TunnelRegistry_Register sub sess r = Some r' \<Longrightarrow>
   TunnelRegistry_Lookup sub r = None \<and> TunnelRegistry_Lookup sub r' = Some sess"
  by (auto simp: TunnelRegistry_Register_def TunnelRegistry_Lookup_def split: if_splits)

lemma admitted_session_new:
  assumes "ReverseServer_handleProviderConn env now n tls y rnd req s = (Inr sess, s')"
  shows "TunnelRegistry_Lookup (ts_Subdomain sess) (rv_registry s) = None"
    and "TunnelRegistry_Lookup (ts_Subdomain sess) (rv_registry s') = Some sess"
proof -
  obtain tier wallet where t: "tier_and_wallet n req s = (tier, wallet)" by fastforce
  from assms t have "TunnelRegistry_Lookup (ts_Subdomain sess) (rv_registry s) = None \<and>
    TunnelRegistry_Lookup (ts_Subdomain sess) (rv_registry s') = Some sess"
    by (cases rule: handleProviderConn_cases) (auto dest: Register_Lookup)
  then show "TunnelRegistry_Lookup (ts_Subdomain sess) (rv_registry s) = None"
    "TunnelRegistry_Lookup (ts_Subdomain sess) (rv_registry s') = Some sess" by blast+
qed

text \<open>
  C13. A tunnel that is admitted was authenticated by a fresh nonce or by a valid token, is not
  blocked, has a name nobody holds and, if the name was asked for, a paid tier; the node had
  room under the cap of its tier, and an edge node was authorized.  The session is then
  registered for the node of the peer certificate.
\<close>

theorem tunnel_admission_sound:
  assumes "ReverseServer_handleProviderConn env now n tls y rnd req s = (Inr sess, s')"
    and "tier_and_wallet n req s = (tier, wallet)"
  shows "edge_allowed n req wallet s \<and>
    (if rq_ReconnToken req = '''' then fst (ValidateRegistration now tls req (rv_nonceTracker s)) = None
     else ValidateReconnToken env (rv_hmacSecret s) now (rq_ReconnToken req) n (rq_Subdomain req)
            (ReconnGraceForTier tier * Second)) \<and>
    TunnelRegistry_CountForNodeID n (rv_registry s) < MaxSubdomainsForTier tier \<and>
    (\<forall>b. rv_blocklist s = Some b \<longrightarrow> \<not> fst (Blocklist_IsBlocked (ts_Subdomain sess) b)) \<and>
    (rq_Subdomain req \<noteq> '''' \<longrightarrow> tier \<noteq> ''free'' \<and> ts_Subdomain sess = rq_Subdomain req) \<and>
    TunnelRegistry_Lookup (ts_Subdomain sess) (rv_registry s) = None \<and>
    TunnelRegistry_Lookup (ts_Subdomain sess) (rv_registry s') = Some sess \<and>
    ts_NodeID sess = n \<and> ts_Tier sess = tier"
  using assms
proof (cases rule: handleProviderConn_cases)
  case (2 sess' reg subdomain s1)
  have auth: "if rq_ReconnToken req = '''' then fst (ValidateRegistration now tls req (rv_nonceTracker s)) = None
     else ValidateReconnToken env (rv_hmacSecret s) now (rq_ReconnToken req) n (rq_Subdomain req)
            (ReconnGraceForTier tier * Second)"
    using 2(3) by (auto simp: authenticate_def split: if_splits prod.splits)
  have name: "rq_Subdomain req \<noteq> '''' \<longrightarrow> tier \<noteq> ''free'' \<and> subdomain = rq_Subdomain req"
    using 2(5) by (auto simp: choose_subdomain_def split: if_splits)
  show ?thesis using 2 auth name admitted_session_new [OF assms(1)] by simp
qed simp

text \<open>
  C36. Reconnecting needs the name of the tunnel, and asking for a name needs a paid tier.  So a
  node of the free tier never reconnects, whatever token it holds.
\<close>

theorem free_tier_never_reconnects:
  assumes "rq_ReconnToken req \<noteq> ''''" "fst (tier_and_wallet n req s) = ''free''"
  shows "\<exists>err. fst (ReverseServer_handleProviderConn env now n tls y rnd req s) = Inl err"
proof -
  obtain wallet where t: "tier_and_wallet n req s = (''free'', wallet)"
    using assms(2) by (metis prod.collapse)
  obtain res s' where h: "ReverseServer_handleProviderConn env now n tls y rnd req s = (res, s')"
    by fastforce
  from h t show ?thesis
  proof (cases rule: handleProviderConn_cases)
    case (2 sess' reg subdomain s1)
    have "rq_Subdomain req \<noteq> ''''" using 2(3) assms(1) by (auto simp: authenticate_def split: if_splits)
    then show ?thesis using 2(5) by (simp add: choose_subdomain_def)
  qed (simp add: h)
qed

subsection \<open>Replays\<close>

lemma ValidateRegistration_accepts:
  assumes "fst (ValidateRegistration now tls req nt) = None"
  obtains bs where "hex_decode (rq_Nonce req) = Some bs" "length (rq_Nonce req) = 64"
    "fst (NonceTracker_Check now (nonce_of_bytes (take 24 bs)) (time_Unix (rq_Timestamp req)) nt) = None"
    "snd (ValidateRegistration now tls req nt) =
       snd (NonceTracker_Check now (nonce_of_bytes (take 24 bs)) (time_Unix (rq_Timestamp req)) nt)"
  using assms
  by (auto simp: ValidateRegistration_def Let_def split: if_splits option.splits prod.splits)

text \<open>
  C23. A registration that was accepted is rejected when it is sent again, whatever other
  registrations and clean-ups the server's nonce tracker sees in between.
\<close>

theorem registration_replay_rejected:
  assumes "nt_config_ok nt" "fst (ValidateRegistration t\<^sub>1 tls req nt) = None"
    and "sorted (map nt_op_time ops @ [t\<^sub>2])"
  shows "fst (ValidateRegistration t\<^sub>2 tls' req
    (fold nt_step ops (snd (ValidateRegistration t\<^sub>1 tls req nt)))) \<noteq> None"
proof -
  from assms(2) obtain bs where bs: "hex_decode (rq_Nonce req) = Some bs" "length (rq_Nonce req) = 64"
    "fst (NonceTracker_Check t\<^sub>1 (nonce_of_bytes (take 24 bs)) (time_Unix (rq_Timestamp req)) nt) = None"
    "snd (ValidateRegistration t\<^sub>1 tls req nt) =
       snd (NonceTracker_Check t\<^sub>1 (nonce_of_bytes (take 24 bs)) (time_Unix (rq_Timestamp req)) nt)"
    by (rule ValidateRegistration_accepts)
  note nt_no_replay [OF assms(1) bs(3) assms(3)]
  then show ?thesis
    by (auto simp: ValidateRegistration_def bs Let_def split: prod.split option.split)
qed

lemma server_tracker_ok: "nt_config_ok (rv_nonceTracker (NewReverseServer secret))"
  by (simp add: NewReverseServer_def NewNonceTrackerWithConfig_def nt_config_ok_def maxRegistrationAge_def)

subsection \<open>Tunnels per node\<close>

datatype 'lim server_op =
    SvConnect time node_id "byte list" nat "nat \<Rightarrow> byte list option" TunnelRegisterRequest
  | SvRelease string
  | SvOpen time "nat \<Rightarrow> bool" "nat \<Rightarrow> bool" string
  | SvCleanNonces time
  | SvAccept string
  | SvFinish string

definition server_step :: "'lim tunnel_env \<Rightarrow> 'lim server_op \<Rightarrow> 'lim ReverseServer \<Rightarrow> 'lim ReverseServer" where
  "server_step env op s =
     (case op of
        SvConnect now n tls y rnd req \<Rightarrow> snd (ReverseServer_handleProviderConn env now n tls y rnd req s)
      | SvRelease sub \<Rightarrow> release_session sub s
      | SvOpen now isClosed canOpen sub \<Rightarrow> snd (ReverseServer_OpenStream env now isClosed canOpen sub s)
      | SvCleanNonces now \<Rightarrow> s\<lparr>rv_nonceTracker := NonceTracker_CleanExpired now (rv_nonceTracker s)\<rparr>
      | SvAccept ip \<Rightarrow> snd (accept_conn ip s)
      | SvFinish ip \<Rightarrow> finish_conn ip s)"

definition tunnels_inv :: "TunnelRegistry \<Rightarrow> bool" where
  "tunnels_inv r \<longleftrightarrow> registry_inv r \<and> (\<forall>n. TunnelRegistry_CountForNodeID n r \<le> 100)"

lemma tunnels_inv_Unregister: "tunnels_inv r \<Longrightarrow> tunnels_inv (TunnelRegistry_Unregister sub r)"
proof (cases "fmlookup (tr_sessions r) sub")
  case (Some sess)
  assume inv: "tunnels_inv r"
  have "TunnelRegistry_CountForNodeID n (TunnelRegistry_Unregister sub r) \<le> TunnelRegistry_CountForNodeID n r" for n
    by (simp add: TunnelRegistry_CountForNodeID_def Unregister_subs [OF Some] length_remove1)
  then show ?thesis using inv by (auto simp: tunnels_inv_def Unregister_inv intro: order_trans)
qed (simp add: TunnelRegistry_Unregister_def)

lemma MaxSubdomains_le: "MaxSubdomainsForTier tier \<le> 100"
  by (simp add: MaxSubdomainsForTier_def)

lemma tunnels_inv_connect:
  assumes "tunnels_inv (rv_registry s)"
  shows "tunnels_inv (rv_registry (snd (ReverseServer_handleProviderConn env now n tls y rnd req s)))"
proof -
  obtain tier wallet where t: "tier_and_wallet n req s = (tier, wallet)" by fastforce
  obtain res s' where h: "ReverseServer_handleProviderConn env now n tls y rnd req s = (res, s')"
    by fastforce
  from h t show ?thesis
  proof (cases rule: handleProviderConn_cases)
    case (1 err)
    then show ?thesis using assms by (simp add: h)
  next
    case (2 sess reg subdomain s1)
    have inv: "registry_inv (rv_registry s)" using assms by (simp add: tunnels_inv_def)
    have "TunnelRegistry_CountForNodeID m reg \<le> 100" for m
      using Register_inv(2) [OF inv 2(7), of m] 2(4,8) MaxSubdomains_le [of tier] assms
      by (auto simp: TunnelRegistry_CountForNodeID_def tunnels_inv_def)
    then show ?thesis
      using Register_inv(1) [OF inv 2(7)] by (simp add: h 2(12) tunnels_inv_def)
  qed
qed

lemma tunnels_inv_open:
  assumes "tunnels_inv (rv_registry s)"
  shows "tunnels_inv (rv_registry (snd (ReverseServer_OpenStream env now isClosed canOpen sub s)))"
  using assms tunnels_inv_Unregister [OF assms, of sub]
  by (auto simp: ReverseServer_OpenStream_def Let_def split: option.split prod.split)

lemma accept_registry [simp]:
  "rv_registry (snd (accept_conn ip s)) = rv_registry s"
  "rv_registry (finish_conn ip s) = rv_registry s"
  by (auto simp: accept_conn_def finish_conn_def ReverseServer_checkIPLimit_def
      ReverseServer_releaseIPSlot_def Let_def split: option.split)

interpretation tunnel_server: guarded_machine "server_step env" "\<lambda>_ _. True" "\<lambda>s. tunnels_inv (rv_registry s)"
  for env :: "'lim tunnel_env"
proof
  fix s :: "'lim ReverseServer" and op
  assume "tunnels_inv (rv_registry s)"
  then show "tunnels_inv (rv_registry (server_step env op s))"
    by (cases op) (simp_all add: server_step_def tunnels_inv_connect tunnels_inv_open
        release_session_def tunnels_inv_Unregister)
qed


subsection \<open>A late clean-up removes the successor\<close>


subsection \<open>Heartbeats\<close>

lemma sublist_miss_pong:
  "sublist [Missed, Missed, Missed] (replicate k Missed @ Pong # bs) \<longleftrightarrow>
     3 \<le> k \<or> sublist [Missed, Missed, Missed] bs"
proof (induction k)
  case 0
  show ?case by (simp add: sublist_Cons_right)
next
  case (Suc k)
  have "prefix [Missed, Missed, Missed] (Missed # replicate k Missed @ Pong # bs) \<longleftrightarrow> 2 \<le> k"
    by (cases k; cases "k - 1") auto
  then show ?case using Suc by (auto simp: sublist_Cons_right)
qed

lemma heartbeat_from:
  "list_all (\<lambda>b. b = Missed \<or> b = Pong) bs \<Longrightarrow> k < 3 \<Longrightarrow>
   heartbeatLoop k bs = None \<longleftrightarrow> sublist [Missed, Missed, Missed] (replicate k Missed @ bs)"
proof (induction bs arbitrary: k)
  case Nil
  have "\<not> sublist [Missed, Missed, Missed] (replicate k Missed)"
    using Nil.prems(2) by (auto dest: sublist_length_le)
  then show ?case by simp
next
  case (Cons b bs)
  have rep: "replicate k Missed @ Missed # bs = replicate (Suc k) Missed @ bs"
    by (simp add: replicate_append_same flip: append_Cons)
  consider "b = Pong" | "b = Missed" "k < 2" | "b = Missed" "k = 2" using Cons.prems by force
  then show ?case
  proof cases
    case 1
    then show ?thesis using Cons.IH [of 0] Cons.prems by (simp add: sublist_miss_pong)
  next
    case 2
    have "heartbeatLoop k (b # bs) = heartbeatLoop (Suc k) bs"
      using 2 by (simp add: maxMissedHeartbeats_def)
    then show ?thesis using Cons.IH [of "Suc k"] Cons.prems 2 unfolding 2(1) rep by simp
  next
    case 3
    have "sublist [Missed, Missed, Missed] (replicate (Suc k) Missed @ bs)"
      unfolding 3(2) by (simp add: numeral_2_eq_2 sublist_Cons_right)
    then show ?thesis unfolding 3(1) rep by (simp add: 3(2) maxMissedHeartbeats_def)
  qed
qed

text \<open>A tunnel whose peer answers or misses every ping is torn down at three misses in a row.\<close>

theorem heartbeat_teardown_iff:
  "list_all (\<lambda>b. b = Missed \<or> b = Pong) bs \<Longrightarrow>
   heartbeatLoop 0 bs = None \<longleftrightarrow> sublist [Missed, Missed, Missed] bs"
  using heartbeat_from [of bs 0] by simp

subsection \<open>Connections per address\<close>

text \<open>The server together with the addresses of its live connections.\<close>

definition conn_step :: "bool \<times> string \<Rightarrow> string list \<times> 'lim ReverseServer \<Rightarrow> string list \<times> 'lim ReverseServer" where
  "conn_step op ls =
     (let (arrives, ip) = op; (live, s) = ls
      in if arrives then (let (ok, s') = accept_conn ip s in (if ok then ip # live else live, s'))
         else (remove1 ip live, finish_conn ip s))"

definition ip_count :: "string \<Rightarrow> 'lim ReverseServer \<Rightarrow> int" where
  "ip_count ip s = (case fmlookup (rv_ipTracker s) ip of None \<Rightarrow> 0 | Some n \<Rightarrow> n)"

definition conn_inv :: "string list \<times> 'lim ReverseServer \<Rightarrow> bool" where
  "conn_inv ls \<longleftrightarrow>
     (\<forall>ip. ip_count ip (snd ls) = int (count_list (fst ls) ip) \<and>
           int (count_list (fst ls) ip) \<le> max 0 (rv_maxPerIP (snd ls))) \<and>
     rv_conns (snd ls) = length (fst ls) \<and> length (fst ls) \<le> rv_maxConns (snd ls)"

lemma count_list_remove1: "count_list (remove1 x xs) y = count_list xs y - (if x = y then 1 else 0)"
  by (induction xs) (auto simp: count_list_0_iff)

lemma checkIPLimit_eq:
  "ReverseServer_checkIPLimit ip s =
     (ip_count ip s < rv_maxPerIP s,
      s\<lparr>rv_ipTracker := fmupd ip (ip_count ip s + (if ip_count ip s < rv_maxPerIP s then 1 else 0)) (rv_ipTracker s)\<rparr>)"
  by (simp add: ReverseServer_checkIPLimit_def ip_count_def Let_def)

lemma releaseIPSlot_count:
  "0 \<le> ip_count ip s \<Longrightarrow>
   ip_count j (ReverseServer_releaseIPSlot ip s) = (if j = ip then max 0 (ip_count ip s - 1) else ip_count j s)"
  by (auto simp: ReverseServer_releaseIPSlot_def ip_count_def split: option.split)

lemma releaseIPSlot_frame [simp]:
  "rv_maxPerIP (ReverseServer_releaseIPSlot ip s) = rv_maxPerIP s"
  "rv_maxConns (ReverseServer_releaseIPSlot ip s) = rv_maxConns s"
  "rv_conns (ReverseServer_releaseIPSlot ip s) = rv_conns s"
  by (simp_all add: ReverseServer_releaseIPSlot_def split: option.split)

lemma conn_inv_accept:
  assumes "conn_inv (live, s)" "accept_conn ip s = (ok, s')"
  shows "conn_inv (if ok then ip # live else live, s')"
proof -
  define s1 where "s1 = s\<lparr>rv_ipTracker := fmupd ip (ip_count ip s + 1) (rv_ipTracker s)\<rparr>"
  have c: "ip_count j s = int (count_list live j)" "int (count_list live j) \<le> max 0 (rv_maxPerIP s)" for j
    using assms(1) by (simp_all add: conn_inv_def)
  have c1: "ip_count j s1 = ip_count j s + (if j = ip then 1 else 0)" for j
    by (simp add: s1_def ip_count_def)
  have f: "rv_maxPerIP s1 = rv_maxPerIP s" "rv_maxConns s1 = rv_maxConns s" "rv_conns s1 = rv_conns s"
    by (simp_all add: s1_def)
  show ?thesis
  proof (cases "ip_count ip s < rv_maxPerIP s")
    case False
    have "ip_count j (s\<lparr>rv_ipTracker := fmupd ip (ip_count ip s) (rv_ipTracker s)\<rparr>) = ip_count j s" for j
      by (simp add: ip_count_def)
    moreover have "\<not> ok" "s' = s\<lparr>rv_ipTracker := fmupd ip (ip_count ip s) (rv_ipTracker s)\<rparr>"
      using assms(2) False by (simp_all add: accept_conn_def checkIPLimit_eq)
    ultimately show ?thesis using assms(1) by (simp add: conn_inv_def)
  next
    case True
    have a: "accept_conn ip s = (if rv_conns s < rv_maxConns s then (True, s1\<lparr>rv_conns := Suc (rv_conns s)\<rparr>)
        else (False, ReverseServer_releaseIPSlot ip s1))"
      using True by (simp add: accept_conn_def checkIPLimit_eq s1_def)
    have u: "ip_count j (s1\<lparr>rv_conns := k\<rparr>) = ip_count j s1" for j k by (simp add: ip_count_def)
    have "ip_count j (ReverseServer_releaseIPSlot ip s1) = ip_count j s" for j
      using releaseIPSlot_count [of ip s1 j] c1 c(1) [of ip] by auto
    then show ?thesis
      using assms c True by (auto simp: a conn_inv_def u c1 f split: if_splits)
  qed
qed

lemma conn_inv_finish:
  assumes "conn_inv (live, s)" "ip \<in> set live"
  shows "conn_inv (remove1 ip live, finish_conn ip s)"
proof -
  have c: "ip_count j s = int (count_list live j)" for j using assms(1) by (simp add: conn_inv_def)
  have u: "ip_count j (t\<lparr>rv_conns := k\<rparr>) = ip_count j t" for j k and t :: "'a ReverseServer"
    by (simp add: ip_count_def)
  have pos: "0 < count_list live ip" using assms(2) by (metis count_list_0_iff gr0I)
  have "ip_count j (finish_conn ip s) = int (count_list (remove1 ip live) j)" for j
    using releaseIPSlot_count [of ip s j] c pos by (simp add: finish_conn_def u count_list_remove1 of_nat_diff)
  moreover have "int (count_list (remove1 ip live) j) \<le> max 0 (rv_maxPerIP s)" for j
  proof -
    have "int (count_list live j) \<le> max 0 (rv_maxPerIP s)" using assms(1) by (simp add: conn_inv_def)
    then show ?thesis by (simp add: count_list_remove1)
  qed
  moreover have "length (remove1 ip live) \<le> rv_maxConns s" "rv_conns s = length live"
    using assms(1) by (auto simp: conn_inv_def length_remove1 intro: diff_le_self order_trans)
  ultimately show ?thesis
    using assms(2) by (simp add: conn_inv_def finish_conn_def length_remove1)
qed

interpretation connections: guarded_machine
  "conn_step :: _ \<Rightarrow> string list \<times> 'lim ReverseServer \<Rightarrow> _"
  "\<lambda>(arrives, ip) (live, s). arrives \<or> ip \<in> set live" conn_inv
proof
  fix ls :: "string list \<times> 'lim ReverseServer" and op :: "bool \<times> string"
  assume inv: "conn_inv ls" and ok: "(\<lambda>(arrives, ip) (live, s). arrives \<or> ip \<in> set live) op ls"
  obtain arrives ip live s where eq: "op = (arrives, ip)" "ls = (live, s)" by fastforce
  show "conn_inv (conn_step op ls)"
  proof (cases arrives)
    case True
    obtain acc s' where a: "accept_conn ip s = (acc, s')" by fastforce
    from conn_inv_accept [OF inv [unfolded eq] a] show ?thesis
      using True by (simp add: conn_step_def eq a)
  next
    case False
    then show ?thesis using conn_inv_finish [of live s ip] inv ok by (simp add: conn_step_def eq)
  qed
qed

lemma conn_step_limits:
  "rv_maxPerIP (snd (conn_step op ls)) = rv_maxPerIP (snd ls) \<and>
   rv_maxConns (snd (conn_step op ls)) = rv_maxConns (snd ls)"
  by (cases op; cases ls)
     (auto simp: conn_step_def accept_conn_def checkIPLimit_eq finish_conn_def split: prod.split)

lemma conn_run_limits:
  "rv_maxPerIP (snd (fold conn_step ops ls)) = rv_maxPerIP (snd ls) \<and>
   rv_maxConns (snd (fold conn_step ops ls)) = rv_maxConns (snd ls)"
  by (induction ops arbitrary: ls) (simp_all add: conn_step_limits)

text \<open>At most 10000 connections are live at any time, and at most five of one address.\<close>

theorem connections_bounded:
  assumes "run_ok conn_step (\<lambda>(arrives, ip) (live, s). arrives \<or> ip \<in> set live) ops
      ([], NewReverseServer secret :: 'lim ReverseServer)"
  shows "length (fst (fold conn_step ops ([], NewReverseServer secret :: 'lim ReverseServer))) \<le> 10000 \<and>
    count_list (fst (fold conn_step ops ([], NewReverseServer secret :: 'lim ReverseServer))) ip \<le> 5"
proof -
  have "conn_inv ([], NewReverseServer secret :: 'lim ReverseServer)"
    by (simp add: conn_inv_def NewReverseServer_def ip_count_def)
  from connections.run_inv [OF this assms]
    conn_run_limits [of ops "([], NewReverseServer secret :: 'lim ReverseServer)"]
  show ?thesis by (auto simp: conn_inv_def NewReverseServer_def)
qed

subsection \<open>Concrete runs\<close>

definition example_tenv :: "unit tunnel_env" where
  "example_tenv =
     \<lparr>te_hmac = (\<lambda>k m. [7]), te_scanToken = (\<lambda>t. None), te_scanInt = (\<lambda>t. None),
      te_newLimiter = (\<lambda>_ _. ()), te_allow = (\<lambda>_ _. (True, ()))\<rparr>"

text \<open>A request made at Unix time zero, with a nonce of ones.\<close>

definition example_request :: TunnelRegisterRequest where
  "example_request =
     \<lparr>rq_NodeID = '''', rq_Subdomain = '''', rq_DeploymentID = ''dep-1'', rq_ContainerPort = 80,
      rq_Nonce = replicate 64 CHR ''1'', rq_Timestamp = 0, rq_TLSBinding = '''', rq_WalletProof = None,
      rq_ReconnToken = '''', rq_EdgeCapabilities = None\<rparr>"

definition example_now :: time where "example_now = 62135596800 * Second"

lemma hex_decode_ones: "hex_decode (replicate (2 * k) CHR ''1'') = Some (replicate k 17)"
  by (induction k) (simp_all add: hex_val_def)

lemma example_registration: "fst (ValidateRegistration example_now [] example_request
   (rv_nonceTracker (NewReverseServer [] :: unit ReverseServer))) = None"
proof -
  have d: "hex_decode (replicate 64 CHR ''1'') = Some (replicate 32 17)"
    using hex_decode_ones [of 32] by simp
  have n: "nonce_of_bytes (replicate 24 17) \<noteq> 0"
  proof -
    have r: "replicate 24 (17 :: byte) = replicate 23 17 @ [17]"
      by (simp add: replicate_append_same flip: replicate_Suc)
    have "\<not> 256 dvd a * 256 + (17 :: int)" for a by presburger
    moreover have "(256 :: int) dvd 2 ^ LENGTH(192)" by simp
    ultimately have "\<not> 2 ^ LENGTH(192) dvd a * 256 + (17 :: int)" for a using dvd_trans by blast
    then have "(word_of_int (a * 256 + 17) :: nonce24) \<noteq> 0" for a by (simp only: word_of_int_eq_0_iff) simp
    then show ?thesis unfolding nonce_of_bytes_def r foldl_append foldl.simps by simp
  qed
  have "time_Unix 0 = example_now" by (simp add: time_Unix_def example_now_def)
  moreover have "t_sub t t = 0" for t by (simp add: t_sub_def)
  ultimately show ?thesis
    using n by (simp add: ValidateRegistration_def example_request_def d NewReverseServer_def
        NewNonceTrackerWithConfig_def NonceTracker_Check_def maxRegistrationAge_def)
qed

lemma example_admitted:
  assumes "rv_nonceTracker s = rv_nonceTracker (NewReverseServer [] :: unit ReverseServer)"
    and "rv_verifyWallet s = None" "rv_blocklist s = None"
    and "fmlookup (tr_sessions (rv_registry s)) (hex_encode [1, 2, 3, 4]) = None"
    and "TunnelRegistry_CountForNodeID 3 (rv_registry s) = 0"
  shows "\<exists>sess s'. ReverseServer_handleProviderConn example_tenv example_now 3 [] 1 (\<lambda>i. Some [1, 2, 3, 4])
    example_request s = (Inr sess, s') \<and> ts_Subdomain sess = hex_encode [1, 2, 3, 4] \<and> ts_NodeID sess = 3"
proof -
  obtain nt where v: "ValidateRegistration example_now [] example_request (rv_nonceTracker s) = (None, nt)"
    using example_registration assms(1) by (metis prod.collapse)
  have t: "tier_and_wallet 3 example_request s = (''free'', '''')"
    by (simp add: tier_and_wallet_def example_request_def)
  have e: "edge_allowed 3 example_request w s" "announce_edge 3 w example_request s' = s'" for w s'
    by (simp_all add: edge_allowed_def announce_edge_def example_request_def)
  have a: "authenticate example_tenv example_now 3 [] ''free'' example_request s = (None, s\<lparr>rv_nonceTracker := nt\<rparr>)"
    using v by (simp add: authenticate_def) (simp add: example_request_def)
  have c: "choose_subdomain (\<lambda>i. Some [1, 2, 3, 4]) ''free'' example_request (s\<lparr>rv_nonceTracker := nt\<rparr>) =
      Inr (hex_encode [1, 2, 3, 4])"
    using assms(4) by (simp add: choose_subdomain_def example_request_def
        TunnelRegistry_AssignRandomSubdomain_def numeral_eq_Suc)
  show ?thesis
    using assms(3-5)
    by (simp add: ReverseServer_handleProviderConn_def t e a c MaxSubdomainsForTier_def
        register_session_def TunnelRegistry_Register_def Let_def)
qed

lemma example_server_admits:
  "\<exists>sess s'. ReverseServer_handleProviderConn example_tenv example_now 3 [] 1 (\<lambda>i. Some [1, 2, 3, 4])
    example_request (NewReverseServer []) = (Inr sess, s') \<and>
    ts_Subdomain sess = hex_encode [1, 2, 3, 4] \<and> ts_NodeID sess = 3"
  by (rule example_admitted)
     (simp_all add: NewReverseServer_def NewTunnelRegistry_def TunnelRegistry_CountForNodeID_def
       TunnelRegistry_SubdomainsForNodeID_def)

theorem tunnel_admission_sound_witness:
  "\<exists>sess s'. ReverseServer_handleProviderConn example_tenv example_now 3 [] 1 (\<lambda>i. Some [1, 2, 3, 4])
     example_request (NewReverseServer []) = (Inr sess, s') \<and> ts_NodeID sess = 3 \<and>
     TunnelRegistry_Lookup (ts_Subdomain sess) (rv_registry s') = Some sess"
proof -
  obtain sess s' where h: "ReverseServer_handleProviderConn example_tenv example_now 3 [] 1
      (\<lambda>i. Some [1, 2, 3, 4]) example_request (NewReverseServer []) = (Inr sess, s')"
    using example_server_admits by blast
  from tunnel_admission_sound [OF h surjective_pairing] h show ?thesis by blast
qed

theorem free_tier_never_reconnects_witness:
  "\<exists>err. fst (ReverseServer_handleProviderConn example_tenv example_now 3 [] 1 (\<lambda>i. None)
     (example_request\<lparr>rq_ReconnToken := ''token'', rq_Subdomain := ''shop''\<rparr>) (NewReverseServer [])) = Inl err"
  by (rule free_tier_never_reconnects)
     (simp_all add: tier_and_wallet_def NewReverseServer_def example_request_def)

theorem registration_replay_rejected_witness:
  "fst (ValidateRegistration (example_now + 5) [9] example_request
    (fold nt_step [NTClean (example_now + 1)] (snd (ValidateRegistration example_now [] example_request
      (rv_nonceTracker (NewReverseServer [] :: unit ReverseServer)))))) \<noteq> None"
  using registration_replay_rejected [OF server_tracker_ok example_registration,
      of "[NTClean (example_now + 1)]" "example_now + 5" "[9]"]
  by simp

definition stale_session :: TunnelSession where
  "stale_session =
     \<lparr>ts_NodeID = 8, ts_Subdomain = hex_encode [1, 2, 3, 4], ts_DeploymentID = '''', ts_YamuxSess = Some 0,
      ts_RegisteredAt = 0, ts_Tier = ''free'', ts_Limits = LimitsForTier ''free'', ts_ReconnToken = ''''\<rparr>"

definition stale_server :: "unit ReverseServer" where
  "stale_server = (NewReverseServer [])\<lparr>rv_registry :=
     the (TunnelRegistry_Register (hex_encode [1, 2, 3, 4]) stale_session NewTunnelRegistry)\<rparr>"


end
