(* ===== verification/Spec2Isabelle.thy ===== *)
theory Spec2Isabelle
  imports Nonce_Tracker Ban_List Subnet_Limiter Stake_Verifier Peer_Scorer Diversity Router
    Peer_Table Circuit_Breaker Wire_Framing Retry Consensus_Manager Replication Escrow_Accounts Billing
    Bunker_Escrow Bunker_Staking_Properties Bunker_Delegation Bunker_Reputation Bunker_Verification
    Bunker_Pricing Bunker_Registry_Names Service_Resolver Crawl Robots Tunnel_Server
begin

text \<open>
  \<^bold>\<open>Moltbunker: a verification library.\<close>

  Moltbunker is a peer-to-peer container hosting network.  A daemon (\<^verbatim>\<open>src/internal/daemon\<close>)
  joins peers over libp2p, validates the messages they send, spreads what services they offer by
  gossip, replicates containers over three regions with health checks and failover, routes
  requests to providers, some of them through reverse tunnels, and settles payments in BUNKER
  tokens through contracts on a chain (\<^verbatim>\<open>src/contracts/src\<close>).  This library models the parts
  with state and decisions of their own and proves what makes them correct.

  \<^bold>\<open>Theories and the code they model.\<close>

  \<^item> \<open>Prelude\<close>: machine types, time with saturating subtraction, Go maps as finite maps, and
    the locale \<open>guarded_machine\<close> that lifts one-step invariants to runs.  The components with
    state interpret it on their step functions.
  \<^item> \<open>Go_Float\<close>, \<open>Go_Net\<close>, \<open>Go_Text\<close>: what the code uses of Go's library.  Rounding of
    \<^verbatim>\<open>float64\<close> and \<^verbatim>\<open>big.Float\<close> as functions on rationals (locale \<open>rounding_grid\<close>), parsing and
    printing of addresses, operations on ASCII text.
  \<^item> \<open>Nonce_Tracker\<close>, \<open>Ban_List\<close>, \<open>Subnet_Limiter\<close>, \<open>Stake_Verifier\<close>, \<open>Peer_Scorer\<close>,
    \<open>Diversity\<close>, \<open>Circuit_Breaker\<close>: the defences of the message layer (\<^verbatim>\<open>src/internal/p2p\<close>:
    \<^verbatim>\<open>nonce_tracker.go\<close>, \<^verbatim>\<open>banlist.go\<close>, \<^verbatim>\<open>subnet_limiter.go\<close>, \<^verbatim>\<open>stake_verifier.go\<close> with
    \<^verbatim>\<open>message_gate.go\<close> and \<^verbatim>\<open>rate_limits.go\<close>, \<^verbatim>\<open>peer_scorer.go\<close>, \<^verbatim>\<open>diversity.go\<close>,
    \<^verbatim>\<open>circuit_breaker.go\<close>).
  \<^item> \<open>Router\<close>, \<open>Peer_Table\<close>: \<^verbatim>\<open>HandleMessage\<close> of \<^verbatim>\<open>routing.go\<close> stage by stage over these
    defences, violations and automatic bans, sending, and the peer table of
    \<^verbatim>\<open>peer_management.go\<close> and \<^verbatim>\<open>connection_pool.go\<close>.
  \<^item> \<open>Wire_Framing\<close>, \<open>Retry\<close>: length-prefixed and typed frames, and the retry loops with back-off
    of \<^verbatim>\<open>src/internal/util/retry.go\<close>.
  \<^item> \<open>Gossip\<close>, \<open>Service_Resolver\<close>: \<^verbatim>\<open>gossip.go\<close> with the validator the daemon installs, and what
    rests on it: the adapter of the daemon (\<^verbatim>\<open>gossip_adapter.go\<close>), the resolver of the ingress
    (\<^verbatim>\<open>resolver.go\<close>), deployment ids as the registry contract stores them, and the clean-up of
    expired names.  The resolver uses its source of names through the locale
    \<open>subdomain_source\<close>, which the adapter interprets.
  \<^item> \<open>Tunnel_Registry\<close>, \<open>Tunnel_Server\<close>: \<^verbatim>\<open>src/internal/tunnel\<close>: the registry of sessions, block
    list, bandwidth limits and counters, and the server: authentication, reconnection tokens,
    admission of a provider, opening of streams, heartbeats, connection limits.
  \<^item> \<open>Crawl\<close>, \<open>Robots\<close>: \<^verbatim>\<open>src/internal/crawl\<close>: jobs and their limits, deduplication and pacing of
    requests, and the rules of \<^verbatim>\<open>robots.txt\<close>.
  \<^item> \<open>Consensus_Manager\<close>, \<open>Replication\<close>: \<^verbatim>\<open>src/internal/redundancy\<close>: container states merged by
    version, majority status, replica sets, health monitor and failover.
  \<^item> \<open>Staking\<close>, \<open>Escrow_Accounts\<close>, \<open>Billing\<close>: \<^verbatim>\<open>src/internal/payment\<close>: \<^verbatim>\<open>staking.go\<close>,
    \<^verbatim>\<open>escrow.go\<close>, \<^verbatim>\<open>pricing.go\<close> and \<^verbatim>\<open>service_metering.go\<close>.
  \<^item> \<open>Evm_Base\<close> and the contracts on it, with checked arithmetic at the declared widths and
    reverts as values: \<open>Bunker_Escrow\<close>; \<open>Bunker_Staking\<close> with its invariant in
    \<open>Bunker_Staking_Safety\<close> and its theorems in \<open>Bunker_Staking_Properties\<close>;
    \<open>Bunker_Delegation\<close>; \<open>Bunker_Reputation\<close>; \<open>Bunker_Verification\<close>; \<open>Bunker_Pricing\<close>;
    \<open>Bunker_Registry\<close> with its theorems in \<open>Bunker_Registry_Names\<close>.

  \<^bold>\<open>How state and operations correspond.\<close>  A Go struct is a record whose fields carry a short
  prefix, a method \<^verbatim>\<open>(t *T) M\<close> is the definition \<open>T_M\<close> with the receiver as last argument and
  as part of the result when it is changed, a Solidity function keeps its name, with the
  contract's name first where two contracts share it.  An operation that holds its lock
  throughout is one atomic step, and one that releases it in between is given in parts, so that
  other steps can come between them; reading the clock is an argument \<open>now\<close>.
  A loop over a Go map whose outcome could depend on the order takes the order as an argument,
  and the properties hold for every order.  Code outside the repository is an argument: the
  token bucket limiters, signatures, hashes, random numbers and JSON encoding, the chain's
  answers in the stake verifier, container creation in failover, the OpenZeppelin token and
  base contracts.  What the proofs use of it is a named hypothesis of the property, and the
  witnesses instantiate it by concrete functions.

  \<^bold>\<open>What is shown.\<close>

  \<^item> Contracts: the escrow, staking and delegation contracts are solvent through every sequence of
    calls, escrow payments are exact to the wei, refunds and due unstakings cannot be blocked;
    a slash takes exactly its amount, once, after its appeal window; the registry's lists of
    names match its records, which only their owner changes; prices never undercharge.
  \<^item> Messages: only validated messages reach a handler, no message is handled twice, bans last
    exactly as long as they should, repeated violations ban, stake answers are fresh, frames
    arrive as they were sent, retries return.
  \<^item> Peers: the table is bounded, its diversity counters are exact, admission keeps regional and
    network shares below their limits under \<^verbatim>\<open>float64\<close> rounding, eviction takes the oldest idle
    peer, scores stay between 0 and 1, an open circuit blocks.
  \<^item> Discovery and tunnels: gossip memory is bounded and changed by staked peers under the
    validator only; a request is routed only to a fresh provider of a deployment the name
    stands for; tunnels are admitted only when authenticated, free and within the cap of the
    tier, registrations are not replayed, heartbeats end a session exactly after three misses.
  \<^item> Crawling: jobs of an owner are bounded, a URL is accepted once per job, requests to a domain
    are spaced, the verdict of \<^verbatim>\<open>robots.txt\<close> rules is characterised.
  \<^item> Redundancy: merging converges to the newest state in every order, the consensus status is a
    majority, failover replaces exactly the unhealthy replicas, the health monitor is sound.
  \<^item> Accounts: stakes and credits stay non-negative, escrows never pay more than their amount,
    bills are the exact price rounded up.
  \<^item> Deviations: the last properties of the list exhibit behaviour the code does not intend
    (signatures checked against the node's own key, service entries that another peer can take
    over, limits that concurrent calls pass, clean-ups that remove a successor, and others).

  \<^bold>\<open>Bounds.\<close>  Loops are folds or structural recursions.  The loop that reads frames until the
  input ends, \<open>read_loop\<close>, takes fuel, and one more than the length of the input is enough,
  since every frame consumes its prefix.  The retry loops are partial functions whose value \<open>None\<close> means that they
  do not return, and that they return is proved.  The ten attempts at a random tunnel name are
  those of the code.  Sums and products are computed at their machine width where the code does
  so (64-bit wrap-around in Go, reverting arithmetic at the declared width in Solidity) and as
  unbounded integers where it uses \<^verbatim>\<open>big.Int\<close>.

  \<^bold>\<open>What is not modelled.\<close>  Sockets, files, processes, TLS, cryptography, containerd, Tor and HTTP
  (\<^verbatim>\<open>src/internal/runtime\<close>, \<^verbatim>\<open>identity\<close>, \<^verbatim>\<open>security\<close>, \<^verbatim>\<open>networking\<close>, \<^verbatim>\<open>tor\<close>, \<^verbatim>\<open>proxy\<close>, \<^verbatim>\<open>api\<close>,
  \<^verbatim>\<open>client\<close>, \<^verbatim>\<open>doctor\<close>, \<^verbatim>\<open>src/cmd\<close>) are input and output, and so are the DHT and transport of
  the peer-to-peer layer, the clients of the contracts and the copying of tunnel streams; the
  contract bindings are generated; the token, timelock and proxy contracts only configure bases
  that are not in the repository.  The object store, the state store, the runtimes of functions and
  agents, edge probing, threat detection and the daemon itself mix small decisions with such
  calls and are left out.  Text is ASCII: Go's Unicode case mapping and spaces are not given.
  Concurrency inside an operation that holds its lock, and the memory model of Go, are outside
  the library.
\<close>

subsection \<open>Replay protection across the life of a node\<close>

text \<open>A nonce that the tracker accepted once is rejected whenever it arrives again with the
  same timestamp, whatever was checked before and whatever checks and clean-ups happen in
  between, as long as the clock does not run backwards.\<close>

theorem replay_rejected:
  assumes "sorted (map nt_op_time ops @ [t\<^sub>2])"
    and "fst (NonceTracker_Check t\<^sub>1 n ts (fold nt_step pre NewNonceTracker)) = None"
  shows "fst (NonceTracker_Check t\<^sub>2 n ts
           (fold nt_step ops (snd (NonceTracker_Check t\<^sub>1 n ts (fold nt_step pre NewNonceTracker))))) \<noteq> None"
  using assms by (intro nt_no_replay) simp_all

theorem replay_rejected_witness:
  "fst (NonceTracker_Check 700000000000 7 1000
     (fold nt_step [NTClean 650000000000]
       (snd (NonceTracker_Check 1000 7 1000 (fold nt_step [] NewNonceTracker))))) \<noteq> None"
  by (rule replay_rejected) (simp_all add: NonceTracker_Check_def NewNonceTracker_def nt_const_defs t_sub_def)

subsection \<open>The registry on the staking contract\<close>

text \<open>The registry reads the tier of a user from the staking contract, as the number of the enumeration value.\<close>

definition tier_code :: "Tier \<Rightarrow> nat" where
  "tier_code t = (case t of TierNone \<Rightarrow> 0 | Starter \<Rightarrow> 1 | Bronze \<Rightarrow> 2 | Silver \<Rightarrow> 3 | Gold \<Rightarrow> 4 | Platinum \<Rightarrow> 5)"

definition registry_on_staking :: "(string \<Rightarrow> hash) \<Rightarrow> ('b, 't) BunkerStaking \<Rightarrow> registry_env" where
  "registry_on_staking keccak stk =
     \<lparr> e_keccak = keccak, e_getTier = (\<lambda>_ user. TierIs (tier_code (BunkerStaking_getTier user stk))) \<rparr>"

lemma getTier_mono: "a \<le> b \<Longrightarrow> tier_code (getTier a s) \<le> tier_code (getTier b s)"
  by (auto simp: getTier_def tier_code_def)

lemma tierDiscount_mono: "i \<le> j \<Longrightarrow> j \<le> 5 \<Longrightarrow> tierDiscountBps ! i \<le> tierDiscountBps ! j"
  by (intro sorted_nth_mono) (simp_all add: tierDiscountBps_def)

lemma tier_code_le: "tier_code t \<le> 5"
  by (simp add: tier_code_def split: Tier.split)

lemma discounted_price:
  assumes "applyStakingDiscount (registry_on_staking keccak stk) price user r = Inr q" "rg_stakingContract r \<noteq> 0"
  shows "q = price - price * (tierDiscountBps ! tier_code (BunkerStaking_getTier user stk)) div 10000"
  using assms tier_code_le [of "BunkerStaking_getTier user stk"]
  by (auto simp: applyStakingDiscount_def registry_on_staking_def Let_def call_simps split: if_splits)

text \<open>C21. Across the two contracts: who has staked at least as much pays at most as much for the same name, whatever
  tiers the owner of the staking contract has configured.\<close>

theorem more_stake_never_costs_more:
  assumes "pi_stakedAmount (get_info u stk) \<le> pi_stakedAmount (get_info v stk)" "rg_stakingContract r \<noteq> 0"
    and "BunkerRegistry_calculatePrice (registry_on_staking keccak stk) name u r = Inr priceU"
    and "BunkerRegistry_calculatePrice (registry_on_staking keccak stk) name v r = Inr priceV"
  shows "priceV \<le> priceU"
proof -
  let ?d = "\<lambda>user. tierDiscountBps ! tier_code (BunkerStaking_getTier user stk)"
  obtain price where "priceU = price - price * ?d u div 10000" "priceV = price - price * ?d v div 10000"
    using assms(2-4) by (auto simp: BunkerRegistry_calculatePrice_def call_simps dest!: discounted_price)
  moreover have "?d u \<le> ?d v"
    using getTier_mono [OF assms(1)] tier_code_le by (intro tierDiscount_mono) (auto simp: BunkerStaking_getTier_def)
  ultimately show ?thesis by (simp add: diff_le_mono2 div_le_mono)
qed

definition rich_staking :: "(unit, address \<Rightarrow> nat) BunkerStaking" where
  "rich_staking = example_staked\<lparr>bs_providers :=
     fmupd 7 \<lparr> pi_stakedAmount = 10 ^ 26, pi_totalUnbonding = 0, pi_beneficiary = 7, pi_registeredAt = 0, pi_active = True,
               pi_nodeId = 0, pi_region = 0, pi_capabilities = 0, pi_frozen = False \<rparr> fmempty\<rparr>"

definition priced_registry :: "(unit, address \<Rightarrow> nat) BunkerRegistry" where
  "priced_registry = example_registry\<lparr>rg_stakingContract := 10, rg_registrationFee := 10 ^ 21\<rparr>"

theorem more_stake_never_costs_more_witness:
  "\<exists>p q. BunkerRegistry_calculatePrice (registry_on_staking (\<lambda>_. 0) rich_staking) ''atlas'' 6 priced_registry = Inr p \<and>
         BunkerRegistry_calculatePrice (registry_on_staking (\<lambda>_. 0) rich_staking) ''atlas'' 7 priced_registry = Inr q \<and>
         q \<noteq> p \<and> q \<le> p"
proof -
  note eval = BunkerRegistry_calculatePrice_def reg_calculatePrice_def applyStakingDiscount_def registry_on_staking_def
    BunkerStaking_getTier_def getTier_def get_info_def zero_info_def minStake_def rich_staking_def example_staked_def default_tiers_def
    tier_code_def tierDiscountBps_def priced_registry_def example_registry_def Let_def u_mul_def u_sub_def
  obtain p where p: "BunkerRegistry_calculatePrice (registry_on_staking (\<lambda>_. 0) rich_staking) ''atlas'' 6 priced_registry = Inr p"
      "p = 10 ^ 21"
    by (simp add: eval)
  obtain q where q: "BunkerRegistry_calculatePrice (registry_on_staking (\<lambda>_. 0) rich_staking) ''atlas'' 7 priced_registry = Inr q"
      "q \<noteq> 10 ^ 21"
    by (simp add: eval)
  have "q \<le> p"
    by (rule more_stake_never_costs_more [OF _ _ p(1) q(1)])
       (simp_all add: rich_staking_def priced_registry_def get_info_def zero_info_def)
  with p q show ?thesis by blast
qed

end
